(* ===== verification/AnyNote_Prelude.thy ===== *)
theory AnyNote_Prelude
  imports Main "HOL-Library.AList"
begin

text \<open>
  Shared vocabulary of the development: the names of the model's basic types, the theorem
  collections the component theories extend, and the generic lemmas on lists, keyed tables and
  association lists that the component proofs rest on.

  Conventions. A Go \<open>time.Time\<close> is an \<open>int\<close> of nanoseconds, a \<open>time.Duration\<close> likewise.
  A \<open>uuid.UUID\<close> is only ever compared for equality, so it is a \<open>nat\<close>; \<open>uuid.Nil\<close> is 0.
  A PostgreSQL table is the list of its rows (the heap). A database round trip may fail for
  reasons outside the program (a lost connection, a timeout): every operation that makes round
  trips takes a fault oracle, whose value at \<open>i\<close> says whether the \<open>i\<close>-th round trip of that
  call fails. The theorems quantify over the oracle.
\<close>

type_synonym time = int
type_synonym duration = int
type_synonym uuid = nat
type_synonym faults = "nat \<Rightarrow> bool"
type_synonym bytes = "nat list"

abbreviation second :: duration where
  "second \<equiv> 1000000000"

abbreviation minute :: duration where
  "minute \<equiv> 60 * second"

abbreviation hour :: duration where
  "hour \<equiv> 3600 * second"

abbreviation day :: duration where
  "day \<equiv> 24 * hour"

abbreviation no_faults :: faults where
  "no_faults \<equiv> (\<lambda>_. False)"

text \<open>
  \<open>find_row P t\<close> is a query that reads one row; \<open>update_rows P f t\<close> is
  \<^verbatim>\<open>UPDATE ... SET f WHERE P\<close>; \<open>delete_rows P t\<close> is \<^verbatim>\<open>DELETE ... WHERE P\<close>;
  \<open>count_rows P t\<close> is \<^verbatim>\<open>COUNT(*) ... WHERE P\<close>, and also the number of rows an update or a
  delete affects. \<open>order_by f\<close> and \<open>order_by_desc f\<close> are \<^verbatim>\<open>ORDER BY f ASC\<close> and \<^verbatim>\<open>DESC\<close>: rows
  with equal keys come in heap order, which the database is free to choose.
\<close>

definition find_row :: "('r \<Rightarrow> bool) \<Rightarrow> 'r list \<Rightarrow> 'r option" where
  "find_row P t = List.find P t"

definition update_rows :: "('r \<Rightarrow> bool) \<Rightarrow> ('r \<Rightarrow> 'r) \<Rightarrow> 'r list \<Rightarrow> 'r list" where
  "update_rows P f t = map (\<lambda>r. if P r then f r else r) t"

definition delete_rows :: "('r \<Rightarrow> bool) \<Rightarrow> 'r list \<Rightarrow> 'r list" where
  "delete_rows P t = filter (\<lambda>r. \<not> P r) t"

definition count_rows :: "('r \<Rightarrow> bool) \<Rightarrow> 'r list \<Rightarrow> nat" where
  "count_rows P t = length (filter P t)"

definition order_by :: "('r \<Rightarrow> int) \<Rightarrow> 'r list \<Rightarrow> 'r list" where
  "order_by f t = sort_key f t"

definition order_by_desc :: "('r \<Rightarrow> int) \<Rightarrow> 'r list \<Rightarrow> 'r list" where
  "order_by_desc f t = sort_key (\<lambda>r. - f r) t"

text \<open>The column type INTEGER of PostgreSQL holds a signed 32-bit value.\<close>

definition int4_ok :: "int \<Rightarrow> bool" where
  "int4_ok v \<longleftrightarrow> - 2147483648 \<le> v \<and> v \<le> 2147483647"

text \<open>Arithmetic of Go's signed 64-bit integers, \<open>time.Duration\<close> included, wraps.\<close>

definition wrap64 :: "int \<Rightarrow> int" where
  "wrap64 z = (z + 2 ^ 63) mod 2 ^ 64 - 2 ^ 63"

lemma wrap64_id: "- (2 ^ 63) \<le> z \<Longrightarrow> z < 2 ^ 63 \<Longrightarrow> wrap64 z = z"
  by (simp add: wrap64_def)

lemma wrap64_range: "- (2 ^ 63) \<le> wrap64 z \<and> wrap64 z < 2 ^ 63"
  using pos_mod_bound [of "2 ^ 64" "z + 2 ^ 63"] pos_mod_sign [of "2 ^ 64" "z + 2 ^ 63"]
  by (simp add: wrap64_def)

named_theorems table_simps

lemma find_row_Nil [simp, table_simps]: "find_row P [] = None"
  by (simp add: find_row_def)

lemma find_row_Cons [simp, table_simps]:
  "find_row P (r # t) = (if P r then Some r else find_row P t)"
  by (simp add: find_row_def)

lemma find_row_append [table_simps]:
  "find_row P (t @ u) = (case find_row P t of Some r \<Rightarrow> Some r | None \<Rightarrow> find_row P u)"
  by (induction t) auto

lemma find_row_SomeD: "find_row P t = Some r \<Longrightarrow> r \<in> set t \<and> P r"
  by (auto simp: find_row_def find_Some_iff set_conv_nth)

lemma find_row_None_iff: "find_row P t = None \<longleftrightarrow> (\<forall>r \<in> set t. \<not> P r)"
  by (auto simp: find_row_def find_None_iff)

lemma find_row_cong: "(\<And>r. r \<in> set t \<Longrightarrow> P r = Q r) \<Longrightarrow> find_row P t = find_row Q t"
  by (induction t) auto

lemma update_rows_Nil [simp, table_simps]: "update_rows P f [] = []"
  by (simp add: update_rows_def)

lemma update_rows_Cons [simp, table_simps]:
  "update_rows P f (r # t) = (if P r then f r else r) # update_rows P f t"
  by (simp add: update_rows_def)

lemma set_update_rows: "set (update_rows P f t) = (\<lambda>r. if P r then f r else r) ` set t"
  by (simp add: update_rows_def)

lemma update_rows_member: "r \<in> set t \<Longrightarrow> P r \<Longrightarrow> f r \<in> set (update_rows P f t)"
  by (force simp: set_update_rows)

lemma length_update_rows [simp]: "length (update_rows P f t) = length t"
  by (simp add: update_rows_def)

lemma map_update_rows:
  "(\<And>r. r \<in> set t \<Longrightarrow> P r \<Longrightarrow> g (f r) = g r) \<Longrightarrow> map g (update_rows P f t) = map g t"
  by (induction t) auto

lemma update_rows_none: "(\<And>r. r \<in> set t \<Longrightarrow> \<not> P r) \<Longrightarrow> update_rows P f t = t"
  by (induction t) auto

lemma filter_update_rows_other:
  assumes "\<And>r. P r \<Longrightarrow> \<not> Q r \<and> \<not> Q (f r)"
  shows "filter Q (update_rows P f t) = filter Q t"
  using assms by (induction t) auto

lemma find_row_update_other:
  assumes "\<And>r. P r \<Longrightarrow> \<not> Q r \<and> \<not> Q (f r)"
  shows "find_row Q (update_rows P f t) = find_row Q t"
  using assms by (induction t) auto

lemma find_row_update:
  assumes "\<And>r. P r \<Longrightarrow> Q (f r) = Q r"
  shows "find_row Q (update_rows P f t) =
    map_option (\<lambda>r. if P r then f r else r) (find_row Q t)"
  using assms by (induction t) auto

lemma delete_rows_Nil [simp, table_simps]: "delete_rows P [] = []"
  by (simp add: delete_rows_def)

lemma delete_rows_Cons [simp, table_simps]:
  "delete_rows P (r # t) = (if P r then delete_rows P t else r # delete_rows P t)"
  by (simp add: delete_rows_def)

lemma set_delete_rows [simp]: "set (delete_rows P t) = {r \<in> set t. \<not> P r}"
  by (auto simp: delete_rows_def)

lemma length_delete_rows: "length (delete_rows P t) + count_rows P t = length t"
  by (simp add: delete_rows_def count_rows_def sum_length_filter_compl add.commute)

lemma length_filter_partition: "length (filter P xs) + length (filter (Not \<circ> P) xs) = length xs"
  using sum_length_filter_compl [of P xs] by (simp add: comp_def)

lemma filter_zip_map: "filter snd (zip xs (map P xs)) = map (\<lambda>x. (x, P x)) (filter P xs)"
  by (induction xs) auto

lemma filter_delete_rows_other:
  assumes "\<And>r. P r \<Longrightarrow> \<not> Q r"
  shows "filter Q (delete_rows P t) = filter Q t"
  using assms by (induction t) auto

lemma distinct_map_delete_rows: "distinct (map k t) \<Longrightarrow> distinct (map k (delete_rows P t))"
  by (simp add: delete_rows_def distinct_map_filter)

lemma count_rows_Nil [simp, table_simps]: "count_rows P [] = 0"
  by (simp add: count_rows_def)

lemma count_rows_Cons [simp, table_simps]:
  "count_rows P (r # t) = (if P r then Suc (count_rows P t) else count_rows P t)"
  by (simp add: count_rows_def)

lemma count_rows_append [simp, table_simps]:
  "count_rows P (t @ u) = count_rows P t + count_rows P u"
  by (simp add: count_rows_def)

lemma count_rows_zero_iff: "count_rows P t = 0 \<longleftrightarrow> (\<forall>r \<in> set t. \<not> P r)"
  by (simp add: count_rows_def filter_empty_conv)

lemma count_rows_le: "count_rows P t \<le> length t"
  by (simp add: count_rows_def)

lemma count_rows_mono: "(\<And>r. r \<in> set t \<Longrightarrow> P r \<Longrightarrow> Q r) \<Longrightarrow> count_rows P t \<le> count_rows Q t"
  by (induction t) auto

lemma set_order_by [simp]: "set (order_by f t) = set t"
  by (simp add: order_by_def)

lemma sorted_order_by [simp]: "sorted (map f (order_by f t))"
  by (simp add: order_by_def)

lemma length_order_by [simp]: "length (order_by f t) = length t"
  by (simp add: order_by_def)

lemma set_order_by_desc [simp]: "set (order_by_desc f t) = set t"
  by (simp add: order_by_desc_def)

lemma length_order_by_desc [simp]: "length (order_by_desc f t) = length t"
  by (simp add: order_by_desc_def)

text \<open>Rows with a unique key: at most one row carries a given key.\<close>

lemma unique_row:
  assumes "distinct (map k t)" and "r \<in> set t" and "s \<in> set t" and "k r = k s"
  shows "r = s"
  using assms by (auto simp: distinct_map inj_on_def)

lemma find_row_unique:
  assumes "distinct (map k t)" and "r \<in> set t" and "\<And>s. P s \<longleftrightarrow> k s = k r"
  shows "find_row P t = Some r"
  using assms
proof (induction t)
  case (Cons a t)
  then show ?case by (cases "a = r") (auto simp: image_iff)
qed simp

lemma find_row_delete_unique:
  assumes "distinct (map k t)"
  shows "find_row (\<lambda>r. k r = c) (delete_rows P t) =
    (case find_row (\<lambda>r. k r = c) t of None \<Rightarrow> None | Some r \<Rightarrow> if P r then None else Some r)"
  using assms
proof (induction t)
  case (Cons a t)
  have "find_row (\<lambda>r. k r = c) (delete_rows P t) = None" if "k a = c"
    using that Cons.prems by (force simp: find_row_None_iff image_iff)
  then show ?case using Cons by simp
qed simp

lemma count_rows_unique_le:
  assumes "distinct (map k t)" and "\<And>s. P s \<Longrightarrow> k s = c"
  shows "count_rows P t \<le> 1"
  using assms
proof (induction t)
  case (Cons a t)
  show ?case
  proof (cases "P a")
    case True
    with Cons.prems have "\<forall>r \<in> set t. \<not> P r" by (metis distinct.simps(2) image_eqI list.simps(9) set_map)
    then show ?thesis using True by (simp add: count_rows_zero_iff)
  next
    case False
    with Cons show ?thesis by simp
  qed
qed simp

lemma map_of_update_lookup [simp]:
  "map_of (AList.update k v al) k' = (if k' = k then Some v else map_of al k')"
  by (simp add: update_conv')

lemma map_of_delete_lookup [simp]:
  "map_of (AList.delete k al) k' = (if k' = k then None else map_of al k')"
  by (simp add: delete_conv')

lemma set_update_subset: "set (AList.update k v al) \<subseteq> insert (k, v) (set al)"
  by (induction al) auto

section \<open>Budgets\<close>

text \<open>
  Several components hand out a limited resource (AI calls, views of a shared note). \<open>grants\<close>
  counts the calls of a sequence that were granted; the locale \<open>budgeted\<close> is the contract that
  bounds it: every grant is paid from a budget that no call refills.
\<close>

fun grants :: "('c \<Rightarrow> 's \<Rightarrow> bool \<times> 's) \<Rightarrow> 'c list \<Rightarrow> 's \<Rightarrow> nat" where
  "grants stp [] s = 0"
| "grants stp (c # cs) s = (let (g, s') = stp c s in (if g then 1 else 0) + grants stp cs s')"

locale budgeted =
  fixes stp :: "'c \<Rightarrow> 's \<Rightarrow> bool \<times> 's"
    and admissible :: "'c \<Rightarrow> bool"
    and inv :: "'s \<Rightarrow> bool"
    and budget :: "'s \<Rightarrow> int"
  assumes step_inv: "admissible c \<Longrightarrow> inv s \<Longrightarrow> stp c s = (g, s') \<Longrightarrow> inv s'"
    and step_budget: "admissible c \<Longrightarrow> inv s \<Longrightarrow> stp c s = (g, s') \<Longrightarrow> budget s' + (if g then 1 else 0) \<le> budget s"
    and budget_nonneg: "inv s \<Longrightarrow> 0 \<le> budget s"
begin

lemma grants_le_budget:
  assumes "inv s" and "\<forall>c \<in> set cs. admissible c"
  shows "int (grants stp cs s) \<le> budget s"
  using assms
proof (induction cs arbitrary: s)
  case Nil
  then show ?case using budget_nonneg by simp
next
  case (Cons c cs)
  obtain g s' where c: "stp c s = (g, s')" by fastforce
  have "int (grants stp cs s') \<le> budget s'"
    using Cons.IH [of s'] Cons.prems step_inv [OF _ Cons.prems(1) c] by simp
  then show ?case using step_budget [OF _ Cons.prems(1) c] Cons.prems(2) c by auto
qed

end

section \<open>Owned state\<close>

text \<open>
  Tables of several users with operations that act on behalf of one of them: the contract that an
  operation keeps the invariant of the table and what every other user can see of it. An operation
  without owner, such as a background job, changes no view.
\<close>

locale owned_ops =
  fixes stp :: "'op \<Rightarrow> 's \<Rightarrow> 's"
    and owner :: "'op \<Rightarrow> 'u option"
    and inv :: "'s \<Rightarrow> bool"
    and view :: "'u \<Rightarrow> 's \<Rightarrow> 'v"
  assumes step_inv: "inv s \<Longrightarrow> inv (stp x s)"
    and step_view: "inv s \<Longrightarrow> owner x \<noteq> Some u \<Longrightarrow> view u (stp x s) = view u s"
begin

lemma run_inv: "inv s \<Longrightarrow> inv (fold stp xs s)"
  by (induction xs arbitrary: s) (simp_all add: step_inv)

lemma run_view: "inv s \<Longrightarrow> \<forall>x \<in> set xs. owner x \<noteq> Some u \<Longrightarrow> view u (fold stp xs s) = view u s"
  by (induction xs arbitrary: s) (simp_all add: step_inv step_view)

end

end
