(* ===== verification/Rate_Limit.thy ===== *)
theory Rate_Limit
  imports AnyNote_Prelude
begin

text \<open>
  The two sliding-window rate limiters behind the Go interface \<^verbatim>\<open>RateLimitProvider\<close>: the
  in-memory one of \<^verbatim>\<open>internal/service/rate_limiter.go\<close> and the one of
  \<^verbatim>\<open>internal/service/redis_rate_limiter.go\<close> that keeps its windows in Redis sorted sets.
  The Go map of windows is an association list; Go iterates over a map in an order chosen by the
  runtime, so an operation that ranges over it takes that order as an argument.
  The interface is the locale \<open>rate_limit_provider\<close>; both limiters interpret it.
\<close>

record RateLimiter =
  windows :: "(string \<times> time list) list"
  limit :: int
  windowDuration :: duration
  callCount :: int
  evictInterval :: int

definition newRateLimiterWithEvict :: "int \<Rightarrow> duration \<Rightarrow> int \<Rightarrow> RateLimiter" where
  "newRateLimiterWithEvict lim window interval =
     \<lparr>windows = [], limit = lim, windowDuration = window, callCount = 0,
      evictInterval = interval\<rparr>"

definition NewRateLimiter :: "int \<Rightarrow> duration \<Rightarrow> RateLimiter" where
  "NewRateLimiter lim window = newRateLimiterWithEvict lim window 100"

definition isWindowExpired :: "time list \<Rightarrow> time \<Rightarrow> bool" where
  "isWindowExpired ts windowStart = list_all (\<lambda>t. \<not> windowStart < t) ts"

definition fullScanThreshold :: nat where
  "fullScanThreshold = 500"

definition sampleSize :: nat where
  "sampleSize = 200"

fun evict_sample :: "string list \<Rightarrow> time \<Rightarrow> (string \<times> time list) list \<Rightarrow> (string \<times> time list) list" where
  "evict_sample [] windowStart ws = ws"
| "evict_sample (k # ks) windowStart ws =
     evict_sample ks windowStart
       (case map_of ws k of
          None \<Rightarrow> ws
        | Some ts \<Rightarrow> if isWindowExpired ts windowStart then AList.delete k ws else ws)"

definition evictLocked :: "string list \<Rightarrow> time \<Rightarrow> RateLimiter \<Rightarrow> RateLimiter" where
  "evictLocked order now r =
     (let windowStart = now - windowDuration r in
      if length (windows r) \<le> fullScanThreshold
      then r\<lparr>windows := filter (\<lambda>(k, ts). \<not> isWindowExpired ts windowStart) (windows r)\<rparr>
      else r\<lparr>windows := evict_sample (take sampleSize order) windowStart (windows r)\<rparr>)"

definition Allow :: "string list \<Rightarrow> time \<Rightarrow> string \<Rightarrow> RateLimiter \<Rightarrow> bool \<times> RateLimiter" where
  "Allow order now userID r0 =
     (let windowStart = now - windowDuration r0;
          r1 = r0\<lparr>callCount := callCount r0 + 1\<rparr>;
          r = (if evictInterval r1 > 0 \<and> callCount r1 mod evictInterval r1 = 0
               then evictLocked order now r1 else r1);
          timestamps = (case map_of (windows r) userID of None \<Rightarrow> [] | Some ts \<Rightarrow> ts);
          valid = filter (\<lambda>t. windowStart < t) timestamps
      in if int (length valid) \<ge> limit r
         then (False, r\<lparr>windows := AList.update userID valid (windows r)\<rparr>)
         else (True, r\<lparr>windows := AList.update userID (valid @ [now]) (windows r)\<rparr>))"

definition Count :: "time \<Rightarrow> string \<Rightarrow> RateLimiter \<Rightarrow> int" where
  "Count now userID r =
     (case map_of (windows r) userID of
        None \<Rightarrow> 0
      | Some ts \<Rightarrow> int (length (filter (\<lambda>t. now - windowDuration r < t) ts)))"

definition WindowCount :: "RateLimiter \<Rightarrow> int" where
  "WindowCount r = int (length (windows r))"

text \<open>
  A run of the limiter: the calls in the order the mutex serialises them, each with the map
  order the runtime picks, the clock reading and the key. The result lists the decisions.
\<close>

type_synonym allow_call = "string list \<times> time \<times> string"

fun run_Allow :: "RateLimiter \<Rightarrow> allow_call list \<Rightarrow> bool list \<times> RateLimiter" where
  "run_Allow r [] = ([], r)"
| "run_Allow r ((order, now, key) # cs) =
     (let (d, r') = Allow order now key r; (ds, r'') = run_Allow r' cs in (d # ds, r''))"

text \<open>
  The reference: no eviction, no pruning. The state is the history of all requests that were
  let through; a request is let through when fewer than \<open>lim\<close> earlier ones of its key are
  still inside the window.
\<close>

fun spec_allow :: "int \<Rightarrow> duration \<Rightarrow> (string \<times> time) list \<Rightarrow> allow_call list \<Rightarrow> bool list" where
  "spec_allow lim dur h [] = []"
| "spec_allow lim dur h ((order, now, key) # cs) =
     (if int (length (filter (\<lambda>(k, t). k = key \<and> now - dur < t) h)) < lim
      then True # spec_allow lim dur (h @ [(key, now)]) cs
      else False # spec_allow lim dur h cs)"

text \<open>The requests let through by a run, as key and time.\<close>

fun allowed :: "allow_call list \<Rightarrow> bool list \<Rightarrow> (string \<times> time) list" where
  "allowed ((order, now, key) # cs) (d # ds) = (if d then (key, now) # allowed cs ds else allowed cs ds)"
| "allowed _ _ = []"

definition in_window :: "duration \<Rightarrow> string \<Rightarrow> time \<Rightarrow> (string \<times> time) list \<Rightarrow> nat" where
  "in_window dur key now h = length (filter (\<lambda>(k, t). k = key \<and> now - dur < t \<and> t \<le> now) h)"

text \<open>
  The Redis limiter. A sorted set is the list of its members with their scores. A member is the
  string \<^verbatim>\<open>key:nanos\<close>, which within the set of one key stands for the nanosecond reading, so the
  reading itself is the member. A score is the reading rounded to a \<open>float64\<close>; the rounding is the
  argument \<open>f64\<close>. With each set goes the time at which \<^verbatim>\<open>EXPIRE\<close> lets Redis drop it. The reply is
  \<open>None\<close> when the pipeline succeeds, and \<open>Some s'\<close> when it fails and leaves the server in \<open>s'\<close>.
\<close>

record RedisRateLimiter =
  rlimit :: int
  rwindow :: duration

type_synonym zset = "(time \<times> int) list"
type_synonym redis_store = "(string \<times> zset \<times> time) list"

definition redis_zset :: "redis_store \<Rightarrow> time \<Rightarrow> string \<Rightarrow> zset" where
  "redis_zset s now key =
     (case map_of s key of None \<Rightarrow> [] | Some (z, expireAt) \<Rightarrow> if expireAt \<le> now then [] else z)"

definition redis_Allow ::
  "(time \<Rightarrow> int) \<Rightarrow> RedisRateLimiter \<Rightarrow> redis_store option \<Rightarrow> time \<Rightarrow> string \<Rightarrow> redis_store \<Rightarrow> bool \<times> redis_store" where
  "redis_Allow f64 r reply now key s =
     (let windowStart = now - rwindow r;
          z0 = redis_zset s now key;
          z1 = filter (\<lambda>(m, score). \<not> score \<le> f64 windowStart) z0;
          count = int (length z1);
          z2 = AList.update now (f64 now) z1;
          s' = AList.update key (z2, now + (rwindow r + second)) s
      in case reply of
           Some broken \<Rightarrow> (True, broken)
         | None \<Rightarrow> (count < rlimit r, s'))"

type_synonym redis_call = "time \<times> string"

fun run_redis :: "(time \<Rightarrow> int) \<Rightarrow> RedisRateLimiter \<Rightarrow> redis_store \<Rightarrow> redis_call list \<Rightarrow> bool list \<times> redis_store" where
  "run_redis f64 r s [] = ([], s)"
| "run_redis f64 r s ((now, key) # cs) =
     (let (d, s') = redis_Allow f64 r None now key s; (ds, s'') = run_redis f64 r s' cs in (d # ds, s''))"

section \<open>The interface\<close>

text \<open>
  What a caller of \<^verbatim>\<open>RateLimitProvider.Allow\<close> may rely on. \<open>live s k t\<close> counts the requests of key
  \<open>k\<close> that state \<open>s\<close> still charges at time \<open>t\<close>; \<open>alive t u\<close> says that a request made at \<open>u\<close> is
  charged at \<open>t\<close>; \<open>enabled\<close> says when a call can be trusted to record the request.
\<close>

locale rate_limit_provider =
  fixes step :: "'c \<Rightarrow> 's \<Rightarrow> bool \<times> 's"
    and ctime :: "'c \<Rightarrow> time"
    and ckey :: "'c \<Rightarrow> string"
    and enabled :: "'c \<Rightarrow> 's \<Rightarrow> bool"
    and live :: "'s \<Rightarrow> string \<Rightarrow> time \<Rightarrow> nat"
    and alive :: "time \<Rightarrow> time \<Rightarrow> bool"
    and lim :: int
  assumes admits: "\<lbrakk>enabled c s; step c s = (True, s')\<rbrakk> \<Longrightarrow> int (live s (ckey c) (ctime c)) < lim"
    and keeps: "\<lbrakk>enabled c s; step c s = (d, s'); ctime c \<le> t\<rbrakk> \<Longrightarrow>
      live s k t + (if d \<and> k = ckey c \<and> alive t (ctime c) then 1 else 0) \<le> live s' k t"
    and alive_mono: "\<lbrakk>now \<le> t; alive t u\<rbrakk> \<Longrightarrow> alive now u"
begin

fun run :: "'s \<Rightarrow> 'c list \<Rightarrow> bool list \<times> 's" where
  "run s [] = ([], s)"
| "run s (c # cs) = (let (d, s') = step c s; (ds, s'') = run s' cs in (d # ds, s''))"

fun trusted :: "'s \<Rightarrow> 'c list \<Rightarrow> bool" where
  "trusted s [] = True"
| "trusted s (c # cs) = (enabled c s \<and> trusted (snd (step c s)) cs)"

definition charged :: "(string \<times> time) list \<Rightarrow> string \<Rightarrow> time \<Rightarrow> nat" where
  "charged h k t = length (filter (\<lambda>(k', u). k' = k \<and> alive t u \<and> u \<le> t) h)"

fun passed :: "'c list \<Rightarrow> bool list \<Rightarrow> (string \<times> time) list" where
  "passed (c # cs) (d # ds) = (if d then [(ckey c, ctime c)] else []) @ passed cs ds"
| "passed _ _ = []"

lemma charged_append:
  "charged (h @ h') k t = charged h k t + charged h' k t"
  by (simp add: charged_def)

lemma charged_single:
  "charged [(k', u)] k t = (if k' = k \<and> alive t u \<and> u \<le> t then 1 else 0)"
  by (simp add: charged_def)

lemma charged_past:
  assumes "\<forall>(k', u) \<in> set h. u \<le> now" and "now \<le> t"
  shows "charged h k t \<le> charged h k now"
  using assms alive_mono unfolding charged_def
  by (induction h) (auto intro: le_SucI)

lemma run_bound_aux:
  assumes "sorted (map ctime cs)" and "\<forall>c \<in> set cs. now \<le> ctime c"
    and "trusted s cs"
    and "\<forall>(k', u) \<in> set h. u \<le> now"
    and "\<And>k t. now \<le> t \<Longrightarrow> charged h k t \<le> live s k t"
    and "\<And>k t. charged h k t \<le> nat lim"
  shows "charged (h @ passed cs (fst (run s cs))) k t \<le> nat lim"
  using assms
proof (induction cs arbitrary: s h now)
  case Nil
  then show ?case by (simp add: charged_append)
next
  case (Cons c cs)
  obtain d s' where st: "step c s = (d, s')" by (cases "step c s")
  obtain ds s'' where r: "run s' cs = (ds, s'')" by (cases "run s' cs")
  let ?n = "ctime c" and ?new = "if d then [(ckey c, ctime c)] else []"
  have en: "enabled c s" and now: "now \<le> ?n" using Cons.prems by auto
  have past: "\<forall>(k', u) \<in> set h. u \<le> ?n" using Cons.prems(4) now by fastforce
  have live: "charged (h @ ?new) k t \<le> live s' k t" if "?n \<le> t" for k t
  proof -
    have "charged (h @ ?new) k t =
        charged h k t + (if d \<and> k = ckey c \<and> alive t (ctime c) then 1 else 0)"
      using that by (auto simp: charged_append charged_single charged_def [of "[]"])
    moreover have "charged h k t \<le> live s k t" using Cons.prems(5) now that by simp
    ultimately show ?thesis using keeps [OF en st that, of k] by linarith
  qed
  have bound: "charged (h @ ?new) k t \<le> nat lim" for k t
  proof (cases "d \<and> k = ckey c \<and> ?n \<le> t \<and> alive t ?n")
    case True
    then have "charged h k t \<le> charged h k ?n" using charged_past [OF past] by blast
    also have "\<dots> \<le> live s k ?n" using Cons.prems(5) now by blast
    finally have "charged h k t \<le> live s k ?n" .
    moreover have "int (live s k ?n) < lim" using admits [OF en] st True by auto
    ultimately have "charged h k t < nat lim" by linarith
    then show ?thesis using True by (simp add: charged_append charged_single)
  next
    case False
    then show ?thesis using Cons.prems(6) [of k t]
      by (auto simp: charged_append charged_single charged_def)
  qed
  have tr: "trusted s' cs" using Cons.prems(3) st by simp
  have "charged ((h @ ?new) @ passed cs (fst (run s' cs))) k t \<le> nat lim"
  proof (rule Cons.IH [where now = ?n])
    show "\<forall>(k', u) \<in> set (h @ ?new). u \<le> ?n" using past by auto
  qed (use Cons.prems(1) live bound tr in auto)
  then show ?case using st r by simp
qed

text \<open>No window holds more than \<open>lim\<close> admitted requests of one key.\<close>

lemma run_bound:
  assumes "sorted (map ctime cs)" and "trusted s cs"
  shows "charged (passed cs (fst (run s cs))) k t \<le> nat lim"
proof (cases cs)
  case Nil
  then show ?thesis by (simp add: charged_def)
next
  case (Cons c cs')
  have "\<forall>c' \<in> set cs. ctime c \<le> ctime c'" using assms(1) Cons by simp
  from run_bound_aux [OF assms(1) this assms(2), of "[]" k t]
  show ?thesis by (simp add: charged_def)
qed

end

section \<open>The in-memory limiter\<close>

definition stamps :: "RateLimiter \<Rightarrow> string \<Rightarrow> time list" where
  "stamps r k = (case map_of (windows r) k of None \<Rightarrow> [] | Some ts \<Rightarrow> ts)"

definition live_stamps :: "RateLimiter \<Rightarrow> string \<Rightarrow> time \<Rightarrow> time list" where
  "live_stamps r k t = filter (\<lambda>u. t - windowDuration r < u) (stamps r k)"

text \<open>The type invariant: every key has one window, and the configuration is fixed.\<close>

definition limiter_ok :: "int \<Rightarrow> duration \<Rightarrow> RateLimiter \<Rightarrow> bool" where
  "limiter_ok lim dur r \<longleftrightarrow>
     distinct (map fst (windows r)) \<and> limit r = lim \<and> windowDuration r = dur"

lemma limiter_ok_new: "limiter_ok lim dur (newRateLimiterWithEvict lim dur n)"
  by (simp add: limiter_ok_def newRateLimiterWithEvict_def)

lemma expired_dead:
  "isWindowExpired ts ws \<Longrightarrow> ws \<le> t \<Longrightarrow> filter (\<lambda>u. t < u) ts = []"
  by (auto simp: isWindowExpired_def list_all_iff filter_empty_conv)

lemma map_of_filter_distinct:
  "distinct (map fst al) \<Longrightarrow> map_of (filter (\<lambda>(k, v). P v) al) k =
    (case map_of al k of None \<Rightarrow> None | Some v \<Rightarrow> if P v then Some v else None)"
proof (induction al)
  case (Cons a al)
  then show ?case by (cases a) (auto split: option.splits simp: image_iff dest: map_of_SomeD)
qed simp

lemma distinct_evict_sample:
  "distinct (map fst ws) \<Longrightarrow> distinct (map fst (evict_sample ks st ws))"
  by (induction ks st ws rule: evict_sample.induct) (auto split: option.splits simp: distinct_delete)

lemma map_of_evict_sample:
  "map_of (evict_sample ks st ws) k = map_of ws k \<or>
   (map_of (evict_sample ks st ws) k = None \<and>
    (\<exists>ts. map_of ws k = Some ts \<and> isWindowExpired ts st))"
proof (induction ks st ws rule: evict_sample.induct)
  case (2 ka ks st ws)
  show ?case
  proof (cases "\<exists>ts. map_of ws ka = Some ts \<and> isWindowExpired ts st")
    case True
    with 2 show ?thesis by (cases "k = ka") auto
  next
    case False
    with 2 show ?thesis by (cases "map_of ws ka") auto
  qed
qed simp

lemma evictLocked_config [simp]:
  "limit (evictLocked order now r) = limit r"
  "windowDuration (evictLocked order now r) = windowDuration r"
  "callCount (evictLocked order now r) = callCount r"
  "evictInterval (evictLocked order now r) = evictInterval r"
  by (simp_all add: evictLocked_def Let_def)

lemma evictLocked_ok: "limiter_ok lim dur r \<Longrightarrow> limiter_ok lim dur (evictLocked order now r)"
  by (auto simp: limiter_ok_def evictLocked_def Let_def distinct_map_filter distinct_evict_sample)

lemma evictLocked_live:
  assumes "limiter_ok lim dur r" and "now \<le> t"
  shows "live_stamps (evictLocked order now r) k t = live_stamps r k t"
proof -
  let ?ws = "now - windowDuration r"
  have *: "?ws \<le> t - windowDuration r" using assms(2) by simp
  show ?thesis
  proof (cases "length (windows r) \<le> fullScanThreshold")
    case True
    then show ?thesis using assms(1) expired_dead [OF _ *]
      by (auto simp: live_stamps_def stamps_def evictLocked_def Let_def limiter_ok_def
          map_of_filter_distinct split: option.splits)
  next
    case False
    then show ?thesis
      using map_of_evict_sample [of "take sampleSize order" ?ws "windows r" k] expired_dead [OF _ *]
      by (auto simp: live_stamps_def stamps_def evictLocked_def Let_def)
  qed
qed

text \<open>The limiter after the call counter and the optional sweep of one \<^verbatim>\<open>Allow\<close>.\<close>

definition swept :: "string list \<Rightarrow> time \<Rightarrow> RateLimiter \<Rightarrow> RateLimiter" where
  "swept order now r =
     (let r1 = r\<lparr>callCount := callCount r + 1\<rparr> in
      if evictInterval r1 > 0 \<and> callCount r1 mod evictInterval r1 = 0
      then evictLocked order now r1 else r1)"

lemma swept_config [simp]:
  "limit (swept order now r) = limit r" "windowDuration (swept order now r) = windowDuration r"
  by (simp_all add: swept_def Let_def)

lemma swept_ok: "limiter_ok lim dur r \<Longrightarrow> limiter_ok lim dur (swept order now r)"
  by (auto simp: swept_def Let_def intro!: evictLocked_ok) (simp_all add: limiter_ok_def)

lemma swept_live:
  assumes "limiter_ok lim dur r" and "now \<le> t"
  shows "live_stamps (swept order now r) k t = live_stamps r k t"
proof -
  let ?r1 = "r\<lparr>callCount := callCount r + 1\<rparr>"
  have "limiter_ok lim dur ?r1" using assms(1) by (simp add: limiter_ok_def)
  from evictLocked_live [OF this assms(2), of order k]
  show ?thesis by (simp add: swept_def Let_def live_stamps_def stamps_def)
qed

lemma Allow_eq:
  "Allow order now key r =
    (let w = live_stamps (swept order now r) key now in
     if int (length w) \<ge> limit r
     then (False, (swept order now r)\<lparr>windows := AList.update key w (windows (swept order now r))\<rparr>)
     else (True, (swept order now r)\<lparr>windows := AList.update key (w @ [now]) (windows (swept order now r))\<rparr>))"
  unfolding Allow_def Let_def live_stamps_def stamps_def swept_def
  by (auto split: option.splits)

lemma Allow_ok: "limiter_ok lim dur r \<Longrightarrow> limiter_ok lim dur (snd (Allow order now key r))"
  using swept_ok [of lim dur r order now]
  by (auto simp: Allow_eq Let_def limiter_ok_def distinct_update)

lemma Allow_decision:
  "limiter_ok lim dur r \<Longrightarrow>
    fst (Allow order now key r) \<longleftrightarrow> int (length (live_stamps r key now)) < lim"
  using swept_live [of lim dur r now now order key]
  by (auto simp: Allow_eq Let_def limiter_ok_def)

lemma Allow_live:
  assumes "limiter_ok lim dur r" and "now \<le> t" and "Allow order now key r = (d, r')"
  shows "live_stamps r' k t =
    live_stamps r k t @ (if d \<and> k = key \<and> t - dur < now then [now] else [])"
proof -
  have dur: "windowDuration r = dur" using assms(1) by (simp add: limiter_ok_def)
  have sub: "filter (\<lambda>u. t - dur < u) (live_stamps r key now) = live_stamps r key t"
    using assms(2) dur by (auto simp: live_stamps_def intro!: filter_cong)
  have now: "live_stamps (swept order now r) key now = live_stamps r key now"
    by (rule swept_live [OF assms(1)]) simp
  have stamps': "stamps r' k = (if k = key then live_stamps r key now @ (if d then [now] else [])
      else stamps (swept order now r) k)"
    and dur': "windowDuration r' = dur"
    using assms(3) dur by (auto simp: Allow_eq Let_def stamps_def now split: if_splits)
  show ?thesis
  proof (cases "k = key")
    case True
    then show ?thesis using stamps' sub by (simp add: live_stamps_def [of r'] dur')
  next
    case False
    then have "live_stamps r' k t = live_stamps (swept order now r) k t"
      using stamps' dur' dur by (simp add: live_stamps_def)
    then show ?thesis using swept_live [OF assms(1,2)] False by simp
  qed
qed

interpretation mem: rate_limit_provider
  "\<lambda>(order, now, key). Allow order now key" "\<lambda>(order, now, key). now" "\<lambda>(order, now, key). key"
  "\<lambda>c. limiter_ok lim dur" "\<lambda>r k t. length (live_stamps r k t)" "\<lambda>t u. t - dur < u" lim
proof (unfold_locales, goal_cases)
  case (1 c s s')
  then show ?case
    using Allow_decision [of lim dur s "fst c" "fst (snd c)" "snd (snd c)"]
    by (auto simp: split_beta)
next
  case (2 c s d s' t k)
  then show ?case
    using Allow_live [of lim dur s "fst (snd c)" t "fst c" "snd (snd c)" d s' k]
    by (auto simp: split_beta)
qed auto

lemma run_Allow_eq_run: "run_Allow r cs = mem.run r cs"
  by (induction r cs rule: run_Allow.induct) (auto simp: Let_def split: prod.splits)

lemma allowed_eq_passed: "allowed cs ds = mem.passed cs ds"
  by (induction cs ds rule: allowed.induct) auto

lemma in_window_eq_charged: "in_window dur key t h = mem.charged dur h key t"
  by (simp add: in_window_def mem.charged_def)

lemma trusted_limiter: "limiter_ok lim dur r \<Longrightarrow> mem.trusted lim dur r cs"
proof (induction cs arbitrary: r)
  case (Cons c cs)
  then show ?case using Allow_ok by (cases c) auto
qed simp

lemma run_Allow_spec_aux:
  assumes "sorted (map (\<lambda>(order, t, k). t) cs)" and "\<forall>(order, t, k) \<in> set cs. now \<le> t"
    and "limiter_ok lim dur r"
    and "\<And>k t. now \<le> t \<Longrightarrow>
      live_stamps r k t = map snd (filter (\<lambda>(k', u). k' = k \<and> t - dur < u) h)"
  shows "fst (run_Allow r cs) = spec_allow lim dur h cs"
  using assms
proof (induction cs arbitrary: r h now)
  case (Cons c cs)
  obtain order n key where c: "c = (order, n, key)" by (cases c)
  obtain d r' where al: "Allow order n key r = (d, r')" by (cases "Allow order n key r")
  obtain ds r'' where rn: "run_Allow r' cs = (ds, r'')" by (cases "run_Allow r' cs")
  have now: "now \<le> n" using Cons.prems(2) c by auto
  have dec: "d \<longleftrightarrow> int (length (filter (\<lambda>(k', u). k' = key \<and> n - dur < u) h)) < lim"
    using Allow_decision [OF Cons.prems(3), of order n key] al Cons.prems(4) [OF now, of key] by simp
  let ?h = "if d then h @ [(key, n)] else h"
  have "fst (run_Allow r' cs) = spec_allow lim dur ?h cs"
  proof (rule Cons.IH [where now = n])
    show "limiter_ok lim dur r'" using Allow_ok [OF Cons.prems(3), of order n key] al by simp
    show "live_stamps r' k t = map snd (filter (\<lambda>(k', u). k' = k \<and> t - dur < u) ?h)"
      if "n \<le> t" for k t
      using Allow_live [OF Cons.prems(3) that al, of k] Cons.prems(4) [of t k] now that by auto
  qed (use Cons.prems(1) c in auto)
  then show ?case using c al rn dec by auto
qed simp

section \<open>The Redis limiter\<close>

definition redis_live :: "(time \<Rightarrow> int) \<Rightarrow> duration \<Rightarrow> redis_store \<Rightarrow> string \<Rightarrow> time \<Rightarrow> nat" where
  "redis_live f64 dur s k t =
     length (filter (\<lambda>(m, score). f64 (t - dur) < score) (redis_zset s t k))"

text \<open>
  Every member of a set is scored by its own rounding and was recorded no later than one window
  and one second before the set may be dropped; and the members of a set are distinct.
\<close>

definition redis_ok :: "(time \<Rightarrow> int) \<Rightarrow> duration \<Rightarrow> redis_store \<Rightarrow> bool" where
  "redis_ok f64 dur s \<longleftrightarrow>
     (\<forall>k z e. map_of s k = Some (z, e) \<longrightarrow>
        distinct (map fst z) \<and> (\<forall>(m, score) \<in> set z. score = f64 m \<and> m + dur + second \<le> e))"

definition redis_enabled ::
  "(time \<Rightarrow> int) \<Rightarrow> duration \<Rightarrow> redis_call \<Rightarrow> redis_store \<Rightarrow> bool" where
  "redis_enabled f64 dur c s \<longleftrightarrow> redis_ok f64 dur s \<and>
     (\<forall>k z e. map_of s k = Some (z, e) \<longrightarrow> (\<forall>(m, score) \<in> set z. m < fst c))"

lemma redis_Allow_count:
  "fst (redis_Allow f64 r None now key s) \<longleftrightarrow>
     int (redis_live f64 (rwindow r) s key now) < rlimit r"
  by (simp add: redis_Allow_def redis_live_def Let_def not_le)

lemma map_of_redis_Allow:
  "map_of (snd (redis_Allow f64 r None now key s)) k =
    (if k = key
     then Some (AList.update now (f64 now) (filter (\<lambda>(m, score). f64 (now - rwindow r) < score)
        (redis_zset s now key)), now + (rwindow r + second))
     else map_of s k)"
  by (simp add: redis_Allow_def Let_def not_le)

lemma redis_zset_members:
  "(m, score) \<in> set (redis_zset s now key) \<Longrightarrow> \<exists>z e. map_of s key = Some (z, e) \<and> (m, score) \<in> set z"
  by (cases "map_of s key") (auto simp: redis_zset_def split: if_splits)

lemma redis_zset_distinct: "redis_ok f64 dur s \<Longrightarrow> distinct (map fst (redis_zset s now key))"
  by (auto simp: redis_zset_def redis_ok_def split: option.splits)

lemma update_fresh: "m \<notin> fst ` set z \<Longrightarrow> AList.update m v z = z @ [(m, v)]"
  by (induction z) auto

lemma redis_dead_at_expiry:
  assumes "mono f64" and "redis_ok f64 dur s" and "map_of s k = Some (z, e)" and "e \<le> t"
  shows "filter (\<lambda>(m, score). f64 (t - dur) < score) z = []"
proof -
  have "f64 m \<le> f64 (t - dur)" if "(m, score) \<in> set z" for m score
    using assms that by (intro monoD [OF assms(1)]) (fastforce simp: redis_ok_def)
  then show ?thesis using assms(2,3) by (fastforce simp: redis_ok_def filter_empty_conv)
qed

lemma redis_Allow_ok:
  assumes "redis_enabled f64 (rwindow r) (now, key) s"
  shows "redis_ok f64 (rwindow r) (snd (redis_Allow f64 r None now key s))"
proof -
  have ok: "redis_ok f64 (rwindow r) s"
    and old: "\<And>k z e m score. map_of s k = Some (z, e) \<Longrightarrow> (m, score) \<in> set z \<Longrightarrow> m < now"
    using assms by (fastforce simp: redis_enabled_def)+
  let ?z = "filter (\<lambda>(m, score). f64 (now - rwindow r) < score) (redis_zset s now key)"
  have mem: "m < now \<and> score = f64 m" if "(m, score) \<in> set ?z" for m score
    using that redis_zset_members [of m score s now key] old ok by (fastforce simp: redis_ok_def)
  have eq: "AList.update now (f64 now) ?z = ?z @ [(now, f64 now)]"
    using mem by (intro update_fresh) force
  have "distinct (map fst ?z)"
    using redis_zset_distinct [OF ok] by (simp add: distinct_map_filter)
  then have new: "distinct (map fst (AList.update now (f64 now) ?z))"
    by (rule distinct_update)
  have scores: "score = f64 m \<and> m + rwindow r + second \<le> now + (rwindow r + second)"
    if "(m, score) \<in> set (AList.update now (f64 now) ?z)" for m score
    using that mem [of m score] unfolding eq set_append by (elim UnE) auto
  show ?thesis unfolding redis_ok_def
  proof (intro allI impI)
    fix k z e
    assume "map_of (snd (redis_Allow f64 r None now key s)) k = Some (z, e)"
    then consider (new) "z = AList.update now (f64 now) ?z" "e = now + (rwindow r + second)"
      | (old) "map_of s k = Some (z, e)"
      by (cases "k = key") (simp_all add: map_of_redis_Allow)
    then show "distinct (map fst z) \<and> (\<forall>(m, score) \<in> set z. score = f64 m \<and> m + rwindow r + second \<le> e)"
    proof cases
      case new
      then show ?thesis using \<open>distinct (map fst (AList.update now (f64 now) ?z))\<close> scores by blast
    next
      case old
      then show ?thesis using ok unfolding redis_ok_def by blast
    qed
  qed
qed

lemma redis_Allow_live:
  assumes "mono f64" and "redis_enabled f64 (rwindow r) (now, key) s" and "now \<le> t"
    and "redis_Allow f64 r None now key s = (d, s')"
  shows "redis_live f64 (rwindow r) s k t
      + (if k = key \<and> f64 (t - rwindow r) < f64 now then 1 else 0)
    \<le> redis_live f64 (rwindow r) s' k t"
proof -
  let ?d = "rwindow r"
  have ok: "redis_ok f64 ?d s"
    and old: "\<And>k z e m score. map_of s k = Some (z, e) \<Longrightarrow> (m, score) \<in> set z \<Longrightarrow> m < now"
    using assms(2) by (fastforce simp: redis_enabled_def)+
  have s': "s' = snd (redis_Allow f64 r None now key s)" using assms(4) by simp
  show ?thesis
  proof (cases "k = key")
    case False
    then show ?thesis by (simp add: redis_live_def redis_zset_def s' map_of_redis_Allow)
  next
    case True
    let ?P = "\<lambda>u (m::time, score). f64 (u - ?d) < score"
    let ?z = "filter (?P now) (redis_zset s now key)"
    have fresh: "AList.update now (f64 now) ?z = ?z @ [(now, f64 now)]"
      using redis_zset_members old by (intro update_fresh) force
    have shrink: "filter (?P t) ?z = filter (?P t) (redis_zset s now key)"
      using monoD [OF assms(1), of "now - ?d" "t - ?d"] assms(3) by (auto intro!: filter_cong)
    have le: "length (filter (?P t) (redis_zset s t key)) \<le> length (filter (?P t) ?z)"
      unfolding shrink using assms(3) by (auto simp: redis_zset_def split: option.splits)
    show ?thesis
    proof (cases "now + (?d + second) \<le> t")
      case dead: True
      have "filter (?P t) (redis_zset s t key) = []"
      proof (cases "map_of s key")
        case None
        then show ?thesis by (simp add: redis_zset_def)
      next
        case (Some ze)
        obtain z e where ze: "map_of s key = Some (z, e)" using Some by (cases ze) auto
        have "f64 m \<le> f64 (t - ?d)" if "(m, score) \<in> set z" for m score
          using old [OF ze that] dead by (intro monoD [OF assms(1)]) simp
        then have "filter (?P t) z = []"
          using ok ze by (fastforce simp: redis_ok_def filter_empty_conv)
        then show ?thesis by (simp add: redis_zset_def ze)
      qed
      moreover have "\<not> f64 (t - ?d) < f64 now"
        using monoD [OF assms(1), of now "t - ?d"] dead by simp
      ultimately show ?thesis using True by (simp add: redis_live_def)
    next
      case False
      then have "redis_zset s' t key = ?z @ [(now, f64 now)]"
        using fresh unfolding redis_zset_def [of s' t] by (simp add: s' map_of_redis_Allow)
      then show ?thesis using True le by (simp add: redis_live_def)
    qed
  qed
qed

definition redis_trusted ::
  "(time \<Rightarrow> int) \<Rightarrow> duration \<Rightarrow> redis_call \<Rightarrow> redis_store \<Rightarrow> bool" where
  "redis_trusted f64 dur c s \<longleftrightarrow> mono f64 \<and> redis_enabled f64 dur c s"

definition redis_alive :: "(time \<Rightarrow> int) \<Rightarrow> duration \<Rightarrow> time \<Rightarrow> time \<Rightarrow> bool" where
  "redis_alive f64 dur t u \<longleftrightarrow> mono f64 \<and> f64 (t - dur) < f64 u"

interpretation red: rate_limit_provider
  "\<lambda>(now, key). redis_Allow f64 r None now key" fst snd
  "redis_trusted f64 (rwindow r)" "redis_live f64 (rwindow r)"
  "redis_alive f64 (rwindow r)" "rlimit r"
proof (unfold_locales, unfold redis_trusted_def redis_alive_def, goal_cases)
  case (1 c s s')
  then show ?case
    using redis_Allow_count [of f64 r "fst c" "snd c" s] by (cases c) auto
next
  case (2 c s d s' t k)
  then have "redis_live f64 (rwindow r) s k t
      + (if k = snd c \<and> f64 (t - rwindow r) < f64 (fst c) then 1 else 0)
    \<le> redis_live f64 (rwindow r) s' k t"
    by (intro redis_Allow_live [where d = d and now = "fst c"]) (simp_all add: split_beta)
  then show ?case by (auto split: if_splits)
next
  case (3 now t u)
  then have "f64 (now - rwindow r) \<le> f64 (t - rwindow r)"
    using monoD [of f64 "now - rwindow r" "t - rwindow r"] by simp
  with 3 show ?case by linarith
qed

lemma run_redis_eq_run: "run_redis f64 r s cs = red.run f64 r s cs"
  by (induction f64 r s cs rule: run_redis.induct) (auto simp: Let_def split: prod.splits)

lemma trusted_redis:
  assumes "mono f64" and "sorted_wrt (<) (map fst cs)" and "redis_ok f64 (rwindow r) s"
    and "\<forall>c \<in> set cs. redis_enabled f64 (rwindow r) c s"
  shows "red.trusted f64 r s cs"
  using assms(2-4)
proof (induction cs arbitrary: s)
  case (Cons c cs)
  obtain now key where c: "c = (now, key)" by (cases c)
  let ?s = "snd (redis_Allow f64 r None now key s)"
  have en: "redis_enabled f64 (rwindow r) (now, key) s" using Cons.prems(3) c by simp
  then have ok: "redis_ok f64 (rwindow r) ?s" by (rule redis_Allow_ok)
  have "redis_enabled f64 (rwindow r) c' ?s" if c': "c' \<in> set cs" for c'
    unfolding redis_enabled_def
  proof (intro conjI ok allI impI)
    fix k z e
    assume z: "map_of ?s k = Some (z, e)"
    have lt: "now < fst c'" using Cons.prems(1) c c' by auto
    have "m < fst c'" if m: "(m, score) \<in> set z" for m score
    proof (cases "k = key")
      case True
      then have "(m, score) \<in> insert (now, f64 now) (set (redis_zset s now key))"
        using z m set_update_subset [of now "f64 now"] by (fastforce simp: map_of_redis_Allow)
      then show ?thesis
        using redis_zset_members [of m score s now key] en lt by (fastforce simp: redis_enabled_def)
    next
      case False
      then show ?thesis using z m en lt by (fastforce simp: map_of_redis_Allow redis_enabled_def)
    qed
    then show "\<forall>(m, score) \<in> set z. m < fst c'" by blast
  qed
  then have "red.trusted f64 r ?s cs" using Cons.IH [OF _ ok] Cons.prems(1) by simp
  moreover have "redis_trusted f64 (rwindow r) c s" using c en assms(1) by (simp add: redis_trusted_def)
  ultimately show ?case using c by simp
qed simp

section \<open>Properties\<close>

text \<open>
  C1: the in-memory limiter, with its lazy sweep of expired windows in whatever order the runtime
  ranges over the map, takes exactly the decisions of the reference limiter that never forgets a
  request, for every sequence of calls with non-decreasing clock readings.
\<close>

theorem rate_limiter_matches_spec:
  assumes "sorted (map (\<lambda>(order, t, k). t) cs)"
  shows "fst (run_Allow (newRateLimiterWithEvict lim dur n) cs) = spec_allow lim dur [] cs"
proof (cases cs)
  case (Cons c cs')
  obtain order t0 k where c: "c = (order, t0, k)" by (cases c)
  have "\<forall>(order, t, k) \<in> set cs. t0 \<le> t" using assms Cons c by fastforce
  then show ?thesis
    by (rule run_Allow_spec_aux [OF assms _ limiter_ok_new])
      (simp add: live_stamps_def stamps_def newRateLimiterWithEvict_def)
qed simp

theorem rate_limiter_matches_spec_witness:
  "fst (run_Allow (newRateLimiterWithEvict 1 10 2)
     [([], 1, ''u''), ([''u''], 5, ''u''), ([], 12, ''u'')]) =
   spec_allow 1 10 [] [([], 1, ''u''), ([''u''], 5, ''u''), ([], 12, ''u'')]
   \<and> spec_allow 1 10 [] [([], 1, ''u''), ([''u''], 5, ''u''), ([], 12, ''u'')] = [True, False, True]"
  using rate_limiter_matches_spec [of "[([], 1, ''u''), ([''u''], 5, ''u''), ([], 12, ''u'')]" 1 10 2]
  by simp

text \<open>
  C2: whatever the traffic, no window of length \<open>dur\<close> holds more than \<open>lim\<close> requests of one key
  that the in-memory limiter let through.
\<close>

theorem rate_limiter_window_bound:
  assumes "sorted (map (\<lambda>(order, t, k). t) cs)"
  shows "in_window dur key t (allowed cs (fst (run_Allow (newRateLimiterWithEvict lim dur n) cs)))
    \<le> nat lim"
  using mem.run_bound [OF assms trusted_limiter [OF limiter_ok_new]]
  unfolding run_Allow_eq_run allowed_eq_passed in_window_eq_charged .

theorem rate_limiter_window_bound_witness:
  "in_window 10 ''u'' 12 (allowed [([], 5, ''u''), ([], 6, ''u''), ([], 12, ''u'')]
     (fst (run_Allow (newRateLimiterWithEvict 2 10 100)
       [([], 5, ''u''), ([], 6, ''u''), ([], 12, ''u'')]))) \<le> 2"
  using rate_limiter_window_bound [of "[([], 5, ''u''), ([], 6, ''u''), ([], 12, ''u'')]" 10 "''u''" 12 2 100]
  by simp

text \<open>
  The Redis limiter keeps the same bound while Redis answers and no two calls read the same
  nanosecond: at any time, at most \<open>rlimit\<close> of the requests it let through for a key are still in
  the window, the window being measured on \<open>float64\<close> scores whose rounding is monotone.
\<close>

theorem redis_limiter_window_bound:
  assumes "mono f64" and "sorted_wrt (<) (map fst cs)"
  shows "length (filter (\<lambda>(k, u). k = key \<and> f64 (t - rwindow r) < f64 u \<and> u \<le> t)
      (map (\<lambda>((u, k), d). (k, u)) (filter snd (zip cs (fst (run_redis f64 r [] cs))))))
    \<le> nat (rlimit r)"
proof -
  have passed: "red.passed cs ds = map (\<lambda>((u, k), d). (k, u)) (filter snd (zip cs ds))"
    for cs :: "redis_call list" and ds
    by (induction cs ds rule: red.passed.induct) auto
  have "sorted (map fst cs)" using assms(2) by (simp add: strict_sorted_imp_sorted)
  moreover have "red.trusted f64 r [] cs"
    by (rule trusted_redis [OF assms]) (auto simp: redis_ok_def redis_enabled_def)
  ultimately have "red.charged f64 r (red.passed cs (fst (red.run f64 r [] cs))) key t \<le> nat (rlimit r)"
    by (rule red.run_bound)
  then show ?thesis
    using assms(1) unfolding red.charged_def run_redis_eq_run passed redis_alive_def by simp
qed

theorem redis_limiter_window_bound_witness:
  "length (filter (\<lambda>(k, u). k = ''u'' \<and> 7 - 10 < u \<and> u \<le> (7::time))
     (map (\<lambda>((u, k), d). (k, u)) (filter snd (zip [(5, ''u''), (6, ''u'')]
       (fst (run_redis (\<lambda>x. x) \<lparr>rlimit = 1, rwindow = 10\<rparr> [] [(5, ''u''), (6, ''u'')]))))))
   \<le> 1"
  using redis_limiter_window_bound [of "\<lambda>x. x" "[(5, ''u''), (6, ''u'')]" "''u''" 7
      "\<lparr>rlimit = 1, rwindow = 10\<rparr>"]
  by (simp add: mono_def)

end
