(* ===== verification/LWW_Spec.thy ===== *)
theory LWW_Spec
  imports Main
begin

text \<open>
  The abstract contract of a versioned store: a map from keys to versioned values in which a write
  takes effect only if its version is newer than the stored one. The locale \<open>lww_store\<close> states
  this of a concrete store through its lookup function; versions that only grow and the
  convergence of replicas that receive the same writes in different orders follow once for all
  of its interpretations.
\<close>

definition lww_put :: "'k \<Rightarrow> int \<Rightarrow> 'v \<Rightarrow> ('k \<Rightarrow> (int \<times> 'v) option) \<Rightarrow> ('k \<Rightarrow> (int \<times> 'v) option)" where
  "lww_put k v d m =
     (case m k of
        None \<Rightarrow> m(k \<mapsto> (v, d))
      | Some (v0, _) \<Rightarrow> if v0 < v then m(k \<mapsto> (v, d)) else m)"

definition version_le :: "(int \<times> 'v) option \<Rightarrow> (int \<times> 'v) option \<Rightarrow> bool" where
  "version_le x y = (case (x, y) of (None, _) \<Rightarrow> True | (Some _, None) \<Rightarrow> False | (Some (v, _), Some (w, _)) \<Rightarrow> v \<le> w)"

lemma version_le_refl [simp]: "version_le x x"
  by (auto simp: version_le_def split: option.splits)

lemma version_le_None [simp]: "version_le None x"
  by (simp add: version_le_def)

lemma version_le_Some_Some [simp]: "version_le (Some (v, d)) (Some (w, e)) \<longleftrightarrow> v \<le> w"
  by (simp add: version_le_def)

lemma version_le_Some_None [simp]: "\<not> version_le (Some p) None"
  by (cases p) (simp add: version_le_def)

lemma version_le_trans: "version_le x y \<Longrightarrow> version_le y z \<Longrightarrow> version_le x z"
  by (auto simp: version_le_def split: option.splits)

lemma lww_put_mono: "version_le (m k') (lww_put k v d m k')"
  by (auto simp: lww_put_def split: option.splits)

lemma lww_put_at_least: "version_le (Some (v, d)) (lww_put k v d m k)"
  by (auto simp: lww_put_def split: option.splits)

lemma lww_put_cases: "lww_put k v d m k' = m k' \<or> k' = k \<and> lww_put k v d m k' = Some (v, d) \<and> \<not> version_le (Some (v, d)) (m k)"
  by (auto simp: lww_put_def split: option.splits)

text \<open>The reference behaviour of a sequence of writes: which ones take effect, and the final map.\<close>

definition lww_accepts :: "'k \<Rightarrow> int \<Rightarrow> ('k \<Rightarrow> (int \<times> 'v) option) \<Rightarrow> bool" where
  "lww_accepts k v m = (case m k of None \<Rightarrow> True | Some (v0, _) \<Rightarrow> v0 < v)"

fun lww_run :: "('k \<times> int \<times> 'v) list \<Rightarrow> ('k \<Rightarrow> (int \<times> 'v) option) \<Rightarrow> bool list \<times> ('k \<Rightarrow> (int \<times> 'v) option)" where
  "lww_run [] m = ([], m)"
| "lww_run ((k, v, d) # ws) m =
     (let (accs, m') = lww_run ws (lww_put k v d m) in (lww_accepts k v m # accs, m'))"

lemma lww_run_map: "snd (lww_run ws m) = fold (\<lambda>(k, v, d). lww_put k v d) ws m"
  by (induction ws m rule: lww_run.induct) (auto split: prod.splits)

lemma lww_run_distinct:
  assumes "distinct (map fst ws)"
  shows "fst (lww_run ws m) = map (\<lambda>(k, v, d). lww_accepts k v m) ws"
  using assms
proof (induction ws m rule: lww_run.induct)
  case (2 k v d ws m)
  have "\<forall>w \<in> set ws. fst w \<noteq> k" using 2(2) by auto
  moreover have "lww_accepts k' v' (lww_put k v d m) = lww_accepts k' v' m" if "k' \<noteq> k" for k' v'
    using that by (auto simp: lww_accepts_def lww_put_def split: option.splits)
  ultimately show ?case using 2 by (auto simp: case_prod_unfold)
qed simp

lemma lww_accepts_iff: "lww_accepts k v m \<longleftrightarrow> \<not> version_le (Some (v, d)) (m k)"
  by (auto simp: lww_accepts_def split: option.splits)

lemma length_lww_run [simp]: "length (fst (lww_run ws m)) = length ws"
  by (induction ws m rule: lww_run.induct) (auto split: prod.splits)

text \<open>A write is a key, a version and a value; the writes of a set are consistent when one key
  and version always carry the same value.\<close>

definition consistent_writes :: "('o \<Rightarrow> 'k) \<Rightarrow> ('o \<Rightarrow> int) \<Rightarrow> ('o \<Rightarrow> 'v) \<Rightarrow> 'o set \<Rightarrow> bool" where
  "consistent_writes key ver val W \<longleftrightarrow>
     (\<forall>a \<in> W. \<forall>b \<in> W. key a = key b \<longrightarrow> ver a = ver b \<longrightarrow> val a = val b)"

locale lww_store =
  fixes put :: "'o \<Rightarrow> 's \<Rightarrow> 's"
    and key :: "'o \<Rightarrow> 'k"
    and ver :: "'o \<Rightarrow> int"
    and val :: "'o \<Rightarrow> 'v"
    and look :: "'s \<Rightarrow> 'k \<Rightarrow> (int \<times> 'v) option"
    and wf :: "'s \<Rightarrow> bool"
  assumes put_wf: "wf s \<Longrightarrow> wf (put w s)"
    and look_put: "wf s \<Longrightarrow> look (put w s) = lww_put (key w) (ver w) (val w) (look s)"
begin

lemma fold_wf: "wf s \<Longrightarrow> wf (fold put ws s)"
  by (induction ws arbitrary: s) (auto simp: put_wf)

lemma look_fold:
  "wf s \<Longrightarrow> look (fold put ws s) = fold (\<lambda>w. lww_put (key w) (ver w) (val w)) ws (look s)"
  by (induction ws arbitrary: s) (auto simp: put_wf look_put)

lemma look_mono: "wf s \<Longrightarrow> version_le (look s k) (look (fold put ws s) k)"
proof (induction ws arbitrary: s)
  case (Cons w ws)
  have "version_le (look s k) (look (put w s) k)"
    using Cons.prems by (simp add: look_put lww_put_mono)
  then show ?case using Cons.IH [OF put_wf [OF Cons.prems]] by (auto intro: version_le_trans)
qed simp

lemma look_written:
  assumes "wf s" and "w \<in> set ws"
  shows "version_le (Some (ver w, val w)) (look (fold put ws s) (key w))"
  using assms
proof (induction ws arbitrary: s)
  case (Cons a ws)
  show ?case
  proof (cases "w = a")
    case True
    have "version_le (Some (ver w, val w)) (look (put a s) (key w))"
      using Cons.prems(1) by (simp add: look_put True lww_put_at_least)
    then show ?thesis using look_mono [where s = "put a s" and k = "key w" and ws = ws] put_wf [OF Cons.prems(1)]
      by (auto intro: version_le_trans)
  next
    case False
    then show ?thesis using Cons.IH [OF put_wf [OF Cons.prems(1)], of a] Cons.prems(2) by simp
  qed
qed simp

text \<open>Where the stored value comes from: it was there before, or one of the writes brought it and
  is newer than what was there.\<close>

lemma look_source:
  assumes "wf s"
  shows "look (fold put ws s) k = look s k
    \<or> (\<exists>w \<in> set ws. key w = k \<and> look (fold put ws s) k = Some (ver w, val w)
        \<and> \<not> version_le (Some (ver w, val w)) (look s k))"
  using assms
proof (induction ws arbitrary: s)
  case (Cons a ws)
  let ?s = "put a s" and ?r = "look (fold put (a # ws) s) k"
  have le: "version_le (look s k) (look ?s k)" using Cons.prems by (simp add: look_put lww_put_mono)
  have a: "look ?s k = look s k \<or> key a = k \<and> look ?s k = Some (ver a, val a)
      \<and> \<not> version_le (Some (ver a, val a)) (look s k)"
    using lww_put_cases [of "key a" "ver a" "val a" "look s" k] Cons.prems by (auto simp: look_put)
  consider "?r = look ?s k" | w where "w \<in> set ws" "key w = k" "?r = Some (ver w, val w)"
      "\<not> version_le (Some (ver w, val w)) (look ?s k)"
    using Cons.IH [OF put_wf [OF Cons.prems], of a] by auto
  then show ?case
  proof cases
    case 1
    then show ?thesis using a by auto
  next
    case 2
    then have "\<not> version_le (Some (ver w, val w)) (look s k)"
      using le version_le_trans by blast
    then show ?thesis using 2 by auto
  qed
qed simp

text \<open>Two stores that start alike and receive the same writes, in whatever order and however
  often, hold the same values; only the visible part of a write counts.\<close>

lemma converge:
  assumes "wf s" and "(\<lambda>w. (key w, ver w, val w)) ` set ws = (\<lambda>w. (key w, ver w, val w)) ` set ws'"
    and "consistent_writes key ver val (set ws)"
  shows "look (fold put ws s) k = look (fold put ws' s) k"
proof -
  let ?x = "look (fold put ws s) k" and ?y = "look (fold put ws' s) k" and ?i = "look s k"
  have same: "\<exists>w' \<in> set ws'. key w' = key w \<and> ver w' = ver w \<and> val w' = val w" if "w \<in> set ws" for w
  proof -
    have "(key w, ver w, val w) \<in> (\<lambda>w. (key w, ver w, val w)) ` set ws'"
      using that assms(2) by blast
    then show ?thesis by auto
  qed
  have same': "\<exists>w \<in> set ws. key w = key w' \<and> ver w = ver w' \<and> val w = val w'" if "w' \<in> set ws'" for w'
  proof -
    have "(key w', ver w', val w') \<in> (\<lambda>w. (key w, ver w, val w)) ` set ws"
      using that assms(2) by blast
    then show ?thesis by auto
  qed
  have upx: "\<And>w. w \<in> set ws \<Longrightarrow> key w = k \<Longrightarrow> version_le (Some (ver w, val w)) ?x"
    using look_written [OF assms(1)] by blast
  have upy: "\<And>w. w \<in> set ws \<Longrightarrow> key w = k \<Longrightarrow> version_le (Some (ver w, val w)) ?y"
    using look_written [OF assms(1)] same by metis
  consider (keep) "?x = ?i" | (new) w where "w \<in> set ws" "key w = k" "?x = Some (ver w, val w)"
      "\<not> version_le (Some (ver w, val w)) ?i"
    using look_source [OF assms(1), of ws k] by auto
  note X = this
  consider (keep) "?y = ?i" | (new) w where "w \<in> set ws" "key w = k" "?y = Some (ver w, val w)"
      "\<not> version_le (Some (ver w, val w)) ?i"
    using look_source [OF assms(1), of ws' k] same' by metis
  note Y = this
  show ?thesis
  proof (cases rule: X)
    case keep
    show ?thesis
    proof (cases rule: Y)
      case keep
      then show ?thesis using \<open>?x = ?i\<close> by simp
    next
      case (new w)
      then show ?thesis using upx [of w] \<open>?x = ?i\<close> by simp
    qed
  next
    case (new w)
    show ?thesis
    proof (cases rule: Y)
      case keep
      then show ?thesis using upy [OF new(1,2)] new(4) by simp
    next
      case (new w')
      have "ver w = ver w'"
        using upx [OF new(1,2)] upy [OF \<open>w \<in> set ws\<close> \<open>key w = k\<close>] new(3) \<open>?x = Some (ver w, val w)\<close> by simp
      moreover have "val w = val w'"
        using calculation new(1,2) \<open>w \<in> set ws\<close> \<open>key w = k\<close> assms(3)
        unfolding consistent_writes_def by blast
      ultimately show ?thesis using new(3) \<open>?x = Some (ver w, val w)\<close> by simp
    qed
  qed
qed

end

end
