(* ===== verification/Sync_Store.thy ===== *)
theory Sync_Store
  imports AnyNote_Prelude LWW_Spec
begin

text \<open>
  The blob store behind synchronisation, \<^verbatim>\<open>internal/repository/sync_blob_repository.go\<close>: the tables
  \<^verbatim>\<open>sync_blobs\<close> (unique per user, item type and item id) and \<^verbatim>\<open>sync_operation_logs\<close>. A statement is
  atomic; a transaction works on a copy of the table that replaces it at a successful commit.
  The identifiers the database generates for new rows are arguments. Versions and sizes are Go
  \<open>int\<close>s bound to INTEGER parameters: a value outside 32 bits fails to encode.
\<close>

record SyncBlob =
  b_ID :: uuid
  b_UserID :: uuid
  b_ItemType :: string
  b_ItemID :: uuid
  b_Version :: int
  b_EncryptedData :: bytes
  b_BlobSize :: int
  b_DeviceID :: string
  b_CreatedAt :: time
  b_UpdatedAt :: time

record SyncOperationLog =
  l_ID :: uuid
  l_UserID :: uuid
  l_OperationType :: string
  l_ItemType :: string
  l_ItemID :: uuid
  l_Version :: int
  l_CreatedAt :: time

datatype BatchError = BeginError | BatchItemError uuid | CommitError

record BatchUpsertResult =
  r_ItemID :: uuid
  r_ItemType :: string
  r_ClientVersion :: int
  r_Accepted :: bool
  r_ServerVersion :: int
  r_Error :: "BatchError option"

record SyncStatusSummary =
  ss_LatestVersion :: int
  ss_TotalItems :: nat
  ss_LastUpdated :: time

record TagListItem =
  tag_ItemID :: uuid
  tag_Version :: int
  tag_BlobSize :: int
  tag_UpdatedAt :: time

type_synonym blob_key = "uuid \<times> string \<times> uuid"

definition blob_key :: "SyncBlob \<Rightarrow> blob_key" where
  "blob_key b = (b_UserID b, b_ItemType b, b_ItemID b)"

definition blob_encodable :: "SyncBlob \<Rightarrow> bool" where
  "blob_encodable b \<longleftrightarrow> int4_ok (b_Version b) \<and> int4_ok (b_BlobSize b)"

section \<open>Queries\<close>

text \<open>\<open>None\<close> is an error; the first argument says whether the round trip fails.\<close>

definition PullSince :: "bool \<Rightarrow> uuid \<Rightarrow> int \<Rightarrow> SyncBlob list \<Rightarrow> SyncBlob list option" where
  "PullSince fault userID sinceVersion t =
     (if fault \<or> \<not> int4_ok sinceVersion then None
      else Some (order_by b_Version (filter (\<lambda>b. b_UserID b = userID \<and> b_Version b > sinceVersion) t)))"

definition PullSincePaginated :: "bool \<Rightarrow> uuid \<Rightarrow> int \<Rightarrow> int \<Rightarrow> SyncBlob list \<Rightarrow> SyncBlob list option" where
  "PullSincePaginated fault userID sinceVersion limit t =
     (if fault \<or> \<not> int4_ok sinceVersion \<or> limit < 0 then None
      else Some (take (nat limit)
             (order_by b_Version (filter (\<lambda>b. b_UserID b = userID \<and> b_Version b > sinceVersion) t))))"

definition HasMoreSince :: "bool \<Rightarrow> uuid \<Rightarrow> int \<Rightarrow> SyncBlob list \<Rightarrow> bool option" where
  "HasMoreSince fault userID sinceVersion t =
     (if fault \<or> \<not> int4_ok sinceVersion then None
      else Some (list_ex (\<lambda>b. b_UserID b = userID \<and> b_Version b > sinceVersion) t))"

definition max_or :: "int \<Rightarrow> int list \<Rightarrow> int" where
  "max_or z xs = (case xs of [] \<Rightarrow> z | x # ys \<Rightarrow> fold max ys x)"

definition GetLatestVersion :: "bool \<Rightarrow> uuid \<Rightarrow> SyncBlob list \<Rightarrow> int option" where
  "GetLatestVersion fault userID t =
     (if fault then None else Some (max_or 0 (map b_Version (filter (\<lambda>b. b_UserID b = userID) t))))"

definition CountItems :: "bool \<Rightarrow> uuid \<Rightarrow> SyncBlob list \<Rightarrow> nat option" where
  "CountItems fault userID t = (if fault then None else Some (count_rows (\<lambda>b. b_UserID b = userID) t))"

text \<open>The zero time of an empty store is an argument-free constant of the model, 0.\<close>

definition GetLastUpdated :: "bool \<Rightarrow> uuid \<Rightarrow> SyncBlob list \<Rightarrow> time option" where
  "GetLastUpdated fault userID t =
     (if fault then None else Some (max_or 0 (map b_UpdatedAt (filter (\<lambda>b. b_UserID b = userID) t))))"

definition GetStatusSummary :: "bool \<Rightarrow> uuid \<Rightarrow> SyncBlob list \<Rightarrow> SyncStatusSummary option" where
  "GetStatusSummary fault userID t =
     (if fault then None
      else let mine = filter (\<lambda>b. b_UserID b = userID) t in
           Some \<lparr>ss_LatestVersion = max_or 0 (map b_Version mine), ss_TotalItems = length mine,
                 ss_LastUpdated = max_or 0 (map b_UpdatedAt mine)\<rparr>)"

text \<open>\<^verbatim>\<open>GROUP BY item_type\<close>: one entry per type that occurs, with its number of rows.\<close>

definition GetItemsByType :: "bool \<Rightarrow> uuid \<Rightarrow> SyncBlob list \<Rightarrow> (string \<times> nat) list option" where
  "GetItemsByType fault userID t =
     (if fault then None
      else let mine = filter (\<lambda>b. b_UserID b = userID) t in
           Some (map (\<lambda>ty. (ty, count_rows (\<lambda>b. b_ItemType b = ty) mine)) (remdups (map b_ItemType mine))))"

definition GetConflictCount :: "bool \<Rightarrow> uuid \<Rightarrow> SyncOperationLog list \<Rightarrow> nat option" where
  "GetConflictCount fault userID logs =
     (if fault then None
      else Some (count_rows (\<lambda>l. l_UserID l = userID \<and> l_OperationType l = ''push'' \<and> l_Version l = 0) logs))"

definition ListTagsByType :: "bool \<Rightarrow> uuid \<Rightarrow> string \<Rightarrow> SyncBlob list \<Rightarrow> TagListItem list option" where
  "ListTagsByType fault userID itemType t =
     (if fault then None
      else Some (map (\<lambda>b. \<lparr>tag_ItemID = b_ItemID b, tag_Version = b_Version b, tag_BlobSize = b_BlobSize b,
                          tag_UpdatedAt = b_UpdatedAt b\<rparr>)
             (order_by_desc b_UpdatedAt (filter (\<lambda>b. b_UserID b = userID \<and> b_ItemType b = itemType) t))))"

definition GetOperationCounts :: "bool \<Rightarrow> time \<Rightarrow> uuid \<Rightarrow> SyncOperationLog list \<Rightarrow> (nat \<times> nat) option" where
  "GetOperationCounts fault now userID logs =
     (if fault then None
      else let recent = filter (\<lambda>l. l_UserID l = userID \<and> l_CreatedAt l > now - 24 * hour) logs in
           Some (count_rows (\<lambda>l. l_OperationType l = ''push'' \<and> l_Version l > 0) recent,
                 count_rows (\<lambda>l. l_OperationType l = ''pull'') recent))"

definition ListOperationLogs :: "bool \<Rightarrow> uuid \<Rightarrow> int \<Rightarrow> SyncOperationLog list \<Rightarrow> SyncOperationLog list option" where
  "ListOperationLogs fault userID limit0 logs =
     (let limit1 = (if limit0 < 1 then 50 else limit0);
          limit = (if limit1 > 500 then 500 else limit1)
      in if fault then None
         else Some (take (nat limit) (order_by_desc l_CreatedAt (filter (\<lambda>l. l_UserID l = userID) logs))))"

section \<open>Updates\<close>

text \<open>The statement both upserts share: insert, or on a conflict update if the stored version is
  older. \<open>True\<close> means a row was affected. Of the columns that can refuse a value the INTEGER ones are checked by
  the callers below; the lengths of \<^verbatim>\<open>item_type\<close> and \<^verbatim>\<open>device_id\<close> are not, such a failure is one of the
  faults.\<close>

definition upsert_blob :: "time \<Rightarrow> uuid \<Rightarrow> SyncBlob \<Rightarrow> SyncBlob list \<Rightarrow> bool \<times> SyncBlob list" where
  "upsert_blob now newID blob t =
     (case find_row (\<lambda>r. blob_key r = blob_key blob) t of
        None \<Rightarrow> (True, t @ [blob\<lparr>b_ID := newID, b_CreatedAt := now, b_UpdatedAt := now\<rparr>])
      | Some old \<Rightarrow>
          if b_Version old < b_Version blob
          then (True, update_rows (\<lambda>r. blob_key r = blob_key blob)
                  (\<lambda>r. r\<lparr>b_Version := b_Version blob, b_EncryptedData := b_EncryptedData blob,
                        b_BlobSize := b_BlobSize blob, b_DeviceID := b_DeviceID blob, b_UpdatedAt := now\<rparr>) t)
          else (False, t))"

text \<open>The single upsert returns the acceptance, or an error (\<open>None\<close>), and the caller's blob,
  whose version it overwrites with the stored one on a conflict.\<close>

definition Upsert :: "faults \<Rightarrow> time \<Rightarrow> uuid \<Rightarrow> SyncBlob \<Rightarrow> SyncBlob list
    \<Rightarrow> (bool option \<times> SyncBlob) \<times> SyncBlob list" where
  "Upsert f now newID blob t =
     (if f 0 \<or> \<not> blob_encodable blob then ((None, blob), t)
      else let (affected, t1) = upsert_blob now newID blob t in
           if \<not> affected
           then case (if f 1 then None else find_row (\<lambda>r. blob_key r = blob_key blob) t1) of
                  Some row \<Rightarrow> ((Some False, blob\<lparr>b_Version := b_Version row\<rparr>), t1)
                | None \<Rightarrow> ((Some False, blob), t1)
           else ((Some True, blob), t1))"

text \<open>What can fail in a batch upsert: beginning the transaction, the statement of a row, reading
  the server version of the \<open>j\<close>-th conflict, and the commit.\<close>

record BatchFaults =
  bf_begin :: bool
  bf_row :: "nat \<Rightarrow> bool"
  bf_version :: "nat \<Rightarrow> bool"
  bf_commit :: bool

abbreviation no_batch_faults :: BatchFaults where
  "no_batch_faults \<equiv> \<lparr>bf_begin = False, bf_row = (\<lambda>_. False), bf_version = (\<lambda>_. False), bf_commit = False\<rparr>"

text \<open>Phase 1: the statements of the batch in order. A failed statement aborts the transaction,
  and with it every later statement of the batch. A tag is \<open>None\<close> for an error, else whether
  rows were affected; the flag says whether the transaction is aborted.\<close>

fun batch_phase1 :: "(nat \<Rightarrow> bool) \<Rightarrow> time \<Rightarrow> (nat \<Rightarrow> uuid) \<Rightarrow> nat \<Rightarrow> SyncBlob list \<Rightarrow> SyncBlob list
    \<Rightarrow> bool option list \<times> SyncBlob list \<times> bool" where
  "batch_phase1 rowf now newID i [] t = ([], t, False)"
| "batch_phase1 rowf now newID i (blob # blobs) t =
     (if rowf i then (None # map (\<lambda>_. None) blobs, t, True)
      else let (affected, t1) = upsert_blob now (newID i) blob t;
               (tags, t2, ab) = batch_phase1 rowf now newID (Suc i) blobs t1
           in (Some affected # tags, t2, ab))"

text \<open>Phase 2: the results, in order, with the server version of each conflict as the
  transaction sees it. \<open>j\<close> counts the conflicts; a failed read aborts the transaction as well.\<close>

fun batch_phase2 :: "(nat \<Rightarrow> bool) \<Rightarrow> nat \<Rightarrow> (SyncBlob \<times> bool option) list \<Rightarrow> SyncBlob list \<Rightarrow> bool
    \<Rightarrow> BatchUpsertResult list \<times> bool" where
  "batch_phase2 verf j [] t ab = ([], ab)"
| "batch_phase2 verf j ((blob, tag) # rest) t ab =
     (let base = \<lparr>r_ItemID = b_ItemID blob, r_ItemType = b_ItemType blob, r_ClientVersion = b_Version blob,
                  r_Accepted = False, r_ServerVersion = 0, r_Error = None\<rparr>
      in case tag of
           None \<Rightarrow> (let (rs, ab') = batch_phase2 verf j rest t ab
                    in (base\<lparr>r_Error := Some (BatchItemError (b_ItemID blob))\<rparr> # rs, ab'))
         | Some True \<Rightarrow> (let (rs, ab') = batch_phase2 verf j rest t ab in (base\<lparr>r_Accepted := True\<rparr> # rs, ab'))
         | Some False \<Rightarrow>
             (let fails = (ab \<or> verf j);
                  sv = (case (if fails then None else find_row (\<lambda>r. blob_key r = blob_key blob) t) of
                          None \<Rightarrow> b_Version blob | Some row \<Rightarrow> b_Version row);
                  (rs, ab') = batch_phase2 verf (Suc j) rest t fails
              in (base\<lparr>r_ServerVersion := sv\<rparr> # rs, ab')))"

definition BatchUpsert :: "BatchFaults \<Rightarrow> time \<Rightarrow> (nat \<Rightarrow> uuid) \<Rightarrow> SyncBlob list \<Rightarrow> SyncBlob list
    \<Rightarrow> BatchUpsertResult list \<times> SyncBlob list" where
  "BatchUpsert f now newID blobs t =
     (if blobs = [] then ([], t)
      else if bf_begin f
      then (map (\<lambda>b. \<lparr>r_ItemID = b_ItemID b, r_ItemType = b_ItemType b, r_ClientVersion = b_Version b,
                     r_Accepted = False, r_ServerVersion = 0, r_Error = Some BeginError\<rparr>) blobs, t)
      else let (tags, t1, ab1) =
                 (if list_all blob_encodable blobs then batch_phase1 (bf_row f) now newID 0 blobs t
                  else (map (\<lambda>_. None) blobs, t, False));
               (rs, ab2) = batch_phase2 (bf_version f) 0 (zip blobs tags) t1 ab1
           in if ab2 \<or> bf_commit f then (map (\<lambda>r. r\<lparr>r_Error := Some CommitError\<rparr>) rs, t)
              else (rs, t1))"

definition InsertOperationLog :: "bool \<Rightarrow> SyncOperationLog \<Rightarrow> SyncOperationLog list \<Rightarrow> bool \<times> SyncOperationLog list" where
  "InsertOperationLog fault log logs =
     (if fault \<or> \<not> int4_ok (l_Version log) then (False, logs) else (True, logs @ [log]))"

text \<open>The batch of inserts runs in one implicit transaction: all of them or none.\<close>

definition BatchInsertOperationLogs :: "bool \<Rightarrow> SyncOperationLog list \<Rightarrow> SyncOperationLog list
    \<Rightarrow> bool \<times> SyncOperationLog list" where
  "BatchInsertOperationLogs fault new logs =
     (if new = [] then (True, logs)
      else if fault \<or> \<not> list_all (\<lambda>l. int4_ok (l_Version l)) new then (False, logs)
      else (True, logs @ new))"

fun batch_deletes :: "(nat \<Rightarrow> bool) \<Rightarrow> nat \<Rightarrow> uuid \<Rightarrow> uuid list \<Rightarrow> SyncBlob list \<Rightarrow> nat option \<times> SyncBlob list" where
  "batch_deletes f i userID [] t = (Some 0, t)"
| "batch_deletes f i userID (item # items) t =
     (if f i then (None, t)
      else let P = (\<lambda>b. b_UserID b = userID \<and> b_ItemID b = item) in
           case batch_deletes f (Suc i) userID items (delete_rows P t) of
             (None, t') \<Rightarrow> (None, t')
           | (Some n, t') \<Rightarrow> (Some (count_rows P t + n), t'))"

text \<open>Round trip 0 begins the transaction, 1 commits it, the others are the statements.\<close>

definition repo_BatchDelete :: "faults \<Rightarrow> uuid \<Rightarrow> uuid list \<Rightarrow> SyncBlob list \<Rightarrow> nat option \<times> SyncBlob list" where
  "repo_BatchDelete f userID itemIDs t =
     (if itemIDs = [] then (Some 0, t)
      else if f 0 then (None, t)
      else case batch_deletes f 2 userID itemIDs t of
             (None, _) \<Rightarrow> (None, t)
           | (Some deleted, t') \<Rightarrow> if f 1 then (None, t) else (Some deleted, t'))"

definition CleanOldOperationLogs :: "bool \<Rightarrow> time \<Rightarrow> int \<Rightarrow> SyncOperationLog list \<Rightarrow> nat option \<times> SyncOperationLog list" where
  "CleanOldOperationLogs fault now retentionDays logs =
     (if fault then (None, logs)
      else let P = (\<lambda>l. l_CreatedAt l < now - retentionDays * day)
           in (Some (count_rows P logs), delete_rows P logs))"

section \<open>The store as a last-writer-wins map\<close>

type_synonym payload = "bytes \<times> int \<times> string"

definition blob_payload :: "SyncBlob \<Rightarrow> payload" where
  "blob_payload b = (b_EncryptedData b, b_BlobSize b, b_DeviceID b)"

definition blob_content :: "SyncBlob list \<Rightarrow> blob_key \<Rightarrow> (int \<times> payload) option" where
  "blob_content t k = map_option (\<lambda>b. (b_Version b, blob_payload b)) (find_row (\<lambda>r. blob_key r = k) t)"

definition blob_table_ok :: "SyncBlob list \<Rightarrow> bool" where
  "blob_table_ok t \<longleftrightarrow> distinct (map blob_key t)"

text \<open>A write: when, under which generated row id, and what.\<close>

type_synonym blob_write = "time \<times> uuid \<times> SyncBlob"

definition apply_write :: "blob_write \<Rightarrow> SyncBlob list \<Rightarrow> SyncBlob list" where
  "apply_write w t = snd (upsert_blob (fst w) (fst (snd w)) (snd (snd w)) t)"

definition write_key :: "blob_write \<Rightarrow> blob_key" where
  "write_key w = blob_key (snd (snd w))"

definition write_version :: "blob_write \<Rightarrow> int" where
  "write_version w = b_Version (snd (snd w))"

definition write_payload :: "blob_write \<Rightarrow> payload" where
  "write_payload w = blob_payload (snd (snd w))"

definition batch_writes :: "time \<Rightarrow> (nat \<Rightarrow> uuid) \<Rightarrow> SyncBlob list \<Rightarrow> blob_write list" where
  "batch_writes now newID blobs = map (\<lambda>(i, b). (now, newID i, b)) (enumerate 0 blobs)"

definition blob_spec_write :: "SyncBlob \<Rightarrow> blob_key \<times> int \<times> payload" where
  "blob_spec_write b = (blob_key b, b_Version b, blob_payload b)"

lemma upsert_blob_key:
  "blob_key (r\<lparr>b_Version := v, b_EncryptedData := d, b_BlobSize := s, b_DeviceID := e, b_UpdatedAt := u\<rparr>) = blob_key r"
  "blob_key (r\<lparr>b_ID := i, b_CreatedAt := c, b_UpdatedAt := u\<rparr>) = blob_key r"
  by (simp_all add: blob_key_def)

lemma upsert_blob_accepts:
  "fst (upsert_blob now i b t) = lww_accepts (blob_key b) (b_Version b) (blob_content t)"
  by (auto simp: upsert_blob_def lww_accepts_def blob_content_def split: option.splits)

lemma upsert_blob_content:
  "blob_content (snd (upsert_blob now i b t)) = lww_put (blob_key b) (b_Version b) (blob_payload b) (blob_content t)"
proof
  fix k
  show "blob_content (snd (upsert_blob now i b t)) k
      = lww_put (blob_key b) (b_Version b) (blob_payload b) (blob_content t) k"
  proof (cases "find_row (\<lambda>r. blob_key r = blob_key b) t")
    case None
    then show ?thesis
      by (auto simp: upsert_blob_def lww_put_def blob_content_def find_row_append upsert_blob_key
          blob_payload_def split: option.splits)
  next
    case (Some old)
    then have "blob_key old = blob_key b" by (auto dest: find_row_SomeD)
    then show ?thesis
      using Some by (auto simp: upsert_blob_def lww_put_def blob_content_def find_row_update upsert_blob_key
          blob_payload_def option.map_comp comp_def dest: find_row_SomeD intro!: option.map_cong)
  qed
qed

lemma upsert_blob_ok: "blob_table_ok t \<Longrightarrow> blob_table_ok (snd (upsert_blob now i b t))"
  by (auto simp: blob_table_ok_def upsert_blob_def map_update_rows upsert_blob_key find_row_None_iff
      split: option.splits)

interpretation blobs: lww_store apply_write write_key write_version write_payload blob_content blob_table_ok
  by unfold_locales
    (simp_all add: apply_write_def write_key_def write_version_def write_payload_def
      upsert_blob_content upsert_blob_ok)

section \<open>The batch upsert\<close>

lemma batch_phase1_ok:
  assumes "batch_phase1 rowf now newID i blobs t = (tags, t', ab)" and "\<not> ab"
  shows "t' = fold apply_write (map (\<lambda>(j, b). (now, newID j, b)) (enumerate i blobs)) t
    \<and> tags = map Some (fst (lww_run (map blob_spec_write blobs) (blob_content t)))"
  using assms
proof (induction blobs arbitrary: i t tags t' ab)
  case (Cons b blobs)
  obtain acc t1 where u: "upsert_blob now (newID i) b t = (acc, t1)" by fastforce
  obtain tags' t2 ab' where r: "batch_phase1 rowf now newID (Suc i) blobs t1 = (tags', t2, ab')"
    by (metis prod_cases3)
  have "t1 = apply_write (now, newID i, b) t" using u by (simp add: apply_write_def)
  moreover have "acc = lww_accepts (blob_key b) (b_Version b) (blob_content t)"
    and "blob_content t1 = lww_put (blob_key b) (b_Version b) (blob_payload b) (blob_content t)"
    using upsert_blob_accepts [of now "newID i" b t] upsert_blob_content [of now "newID i" b t] u by simp_all
  ultimately show ?case
    using Cons.prems u r Cons.IH [OF r]
    by (auto simp: blob_spec_write_def split: if_splits prod.splits)
qed auto

lemma length_batch_phase1: "length (fst (batch_phase1 rowf now newID i blobs t)) = length blobs"
  by (induction blobs arbitrary: i t) (auto split: prod.splits, metis fst_conv)

text \<open>The result of an item once the transaction is committed with the table \<open>t\<close>.\<close>

definition committed_result :: "SyncBlob list \<Rightarrow> SyncBlob \<times> bool \<Rightarrow> BatchUpsertResult" where
  "committed_result t p = (case p of (b, acc) \<Rightarrow>
     \<lparr>r_ItemID = b_ItemID b, r_ItemType = b_ItemType b, r_ClientVersion = b_Version b, r_Accepted = acc,
      r_ServerVersion = (if acc then 0 else case blob_content t (blob_key b) of None \<Rightarrow> b_Version b | Some (v, _) \<Rightarrow> v),
      r_Error = None\<rparr>)"

lemma batch_phase2_aborted: "batch_phase2 verf j ps t ab = (rs, ab') \<Longrightarrow> ab \<Longrightarrow> ab'"
proof (induction ps arbitrary: j ab rs ab')
  case (Cons p ps)
  obtain b tag where p: "p = (b, tag)" by fastforce
  show ?case
    using Cons.prems Cons.IH by (cases tag) (auto simp: p Let_def split: prod.splits bool.splits)
qed simp

lemma batch_phase2_ok:
  assumes "batch_phase2 verf j (zip blobs (map Some accs)) t ab = (rs, ab')" and "\<not> ab'"
    and "length accs = length blobs"
  shows "rs = map (committed_result t) (zip blobs accs)"
  using assms
proof (induction blobs arbitrary: j accs ab rs ab')
  case (Cons b blobs)
  then obtain a as where accs: "accs = a # as" "length as = length blobs" by (cases accs) auto
  show ?case
  proof (cases a)
    case True
    then show ?thesis
      using Cons.prems(1,2) Cons.IH [OF _ _ accs(2)] by (auto simp: accs committed_result_def split: prod.splits)
  next
    case False
    obtain rs' ab'' where r: "batch_phase2 verf (Suc j) (zip blobs (map Some as)) t (ab \<or> verf j) = (rs', ab'')"
      by fastforce
    then have "\<not> ab''" using Cons.prems(1,2) False by (auto simp: accs Let_def split: prod.splits)
    then have "\<not> (ab \<or> verf j)" using batch_phase2_aborted [OF r] by blast
    then show ?thesis
      using Cons.prems(1,2) r Cons.IH [OF r \<open>\<not> ab''\<close> accs(2)] False
      by (auto simp: accs committed_result_def blob_content_def Let_def split: prod.splits option.splits)
  qed
qed simp

lemma batch_phase2_errors:
  "batch_phase2 verf j (zip blobs (map (\<lambda>_. None) blobs)) t ab = (rs, ab') \<Longrightarrow>
     ab' = ab \<and> list_all (\<lambda>r. r_Error r \<noteq> None) rs"
  by (induction blobs arbitrary: j rs ab') (auto simp: Let_def split: prod.splits)

text \<open>A batch upsert is atomic: every item fails and nothing is stored, or none fails and the
  store is the outcome of the writes one after the other.\<close>

lemma BatchUpsert_atomic:
  assumes "BatchUpsert f now newID blobs t = (rs, t')"
  shows "(t' = t \<and> list_all (\<lambda>r. r_Error r \<noteq> None) rs)
    \<or> (t' = fold apply_write (batch_writes now newID blobs) t
        \<and> rs = map (committed_result t') (zip blobs (fst (lww_run (map blob_spec_write blobs) (blob_content t)))))"
proof (cases "blobs = [] \<or> bf_begin f")
  case True
  then show ?thesis using assms by (auto simp: BatchUpsert_def batch_writes_def list_all_iff split: if_splits)
next
  case False
  obtain tags t1 ab1 where p1: "(if list_all blob_encodable blobs then batch_phase1 (bf_row f) now newID 0 blobs t
      else (map (\<lambda>_. None) blobs, t, False)) = (tags, t1, ab1)"
    by (metis prod_cases3)
  obtain rs2 ab2 where p2: "batch_phase2 (bf_version f) 0 (zip blobs tags) t1 ab1 = (rs2, ab2)" by fastforce
  have out: "(rs, t') = (if ab2 \<or> bf_commit f then (map (\<lambda>r. r\<lparr>r_Error := Some CommitError\<rparr>) rs2, t) else (rs2, t1))"
    using assms False p1 p2 by (auto simp: BatchUpsert_def)
  show ?thesis
  proof (cases "ab2 \<or> bf_commit f")
    case True
    then show ?thesis using out by (auto simp: list_all_iff)
  next
    case ok: False
    then have ab1: "\<not> ab1" using batch_phase2_aborted [OF p2] by blast
    show ?thesis
    proof (cases "list_all blob_encodable blobs")
      case True
      then have "batch_phase1 (bf_row f) now newID 0 blobs t = (tags, t1, ab1)" using p1 by simp
      from batch_phase1_ok [OF this ab1] have t1: "t1 = fold apply_write (batch_writes now newID blobs) t"
        and tags: "tags = map Some (fst (lww_run (map blob_spec_write blobs) (blob_content t)))"
        by (auto simp: batch_writes_def)
      have "rs2 = map (committed_result t1) (zip blobs (fst (lww_run (map blob_spec_write blobs) (blob_content t))))"
        using batch_phase2_ok [OF p2 [unfolded tags]] ok by simp
      then show ?thesis using out ok t1 by auto
    next
      case enc: False
      then have "tags = map (\<lambda>_. None) blobs" "t1 = t" using p1 by auto
      then have "list_all (\<lambda>r. r_Error r \<noteq> None) rs2" using batch_phase2_errors p2 by blast
      then show ?thesis using out ok \<open>t1 = t\<close> by auto
    qed
  qed
qed

text \<open>Without failures, and with values that fit their columns, it is the second case.\<close>

lemma BatchUpsert_no_faults:
  assumes "list_all blob_encodable blobs"
  shows "BatchUpsert no_batch_faults now newID blobs t =
    (let t' = fold apply_write (batch_writes now newID blobs) t
     in (map (committed_result t') (zip blobs (fst (lww_run (map blob_spec_write blobs) (blob_content t)))), t'))"
proof (cases "blobs = []")
  case False
  have n1: "\<not> snd (snd (batch_phase1 (\<lambda>_. False) now newID i bs t))" for i bs t
    by (induction bs arbitrary: i t) (auto split: prod.splits, metis snd_conv)
  have n2: "snd (batch_phase2 (\<lambda>_. False) j ps t False) = False" for j ps t
  proof (induction ps arbitrary: j)
    case (Cons p ps)
    obtain b tag where p: "p = (b, tag)" by fastforce
    show ?case using Cons.IH by (cases tag) (auto simp: p Let_def case_prod_unfold split: bool.splits)
  qed simp
  obtain tags t1 ab1 where p1: "batch_phase1 (\<lambda>_. False) now newID 0 blobs t = (tags, t1, ab1)"
    by (metis prod_cases3)
  have ab1: "\<not> ab1" using n1 [of 0 blobs t] p1 by simp
  obtain rs2 ab2 where p2: "batch_phase2 (\<lambda>_. False) 0 (zip blobs tags) t1 False = (rs2, ab2)" by fastforce
  have ab2: "\<not> ab2" using n2 [of 0 "zip blobs tags" t1] p2 by simp
  from batch_phase1_ok [OF p1 ab1] have tags: "tags = map Some (fst (lww_run (map blob_spec_write blobs) (blob_content t)))"
    and t1: "t1 = fold apply_write (batch_writes now newID blobs) t" by (auto simp: batch_writes_def)
  have "rs2 = map (committed_result t1) (zip blobs (fst (lww_run (map blob_spec_write blobs) (blob_content t))))"
    using batch_phase2_ok [OF p2 [unfolded tags] ab2] by simp
  then show ?thesis using False assms p1 p2 ab1 ab2 t1 by (simp add: BatchUpsert_def Let_def)
qed (simp add: BatchUpsert_def batch_writes_def)

end
