(* ===== verification/Http.thy ===== *)
theory Http
  imports Main
begin

text \<open>
  What the HTTP handlers share: the outcome of a handler (a JSON body with its status, or the
  error envelope written by \<open>writeError\<close> with its status, code and message) and \<open>strconv.Atoi\<close>, with
  which they read numeric query parameters. The identity the authentication middleware put into
  the request context is an \<open>option\<close>: \<open>None\<close> when it is missing or not a UUID. A body that
  does not decode is \<open>None\<close>. Source: \<^verbatim>\<open>internal/handler/response_helpers.go\<close>.
\<close>

datatype 'a response = JSON nat 'a | HttpError nat string string

definition digit_value :: "char \<Rightarrow> int option" where
  "digit_value c = (let n = of_char c :: nat in if 48 \<le> n \<and> n \<le> 57 then Some (int n - 48) else None)"

fun digits_value :: "int \<Rightarrow> string \<Rightarrow> int option" where
  "digits_value acc [] = Some acc"
| "digits_value acc (c # cs) = (case digit_value c of None \<Rightarrow> None | Some d \<Rightarrow> digits_value (acc * 10 + d) cs)"

text \<open>An optional sign, at least one decimal digit and nothing else, within 64 bits.\<close>

definition Atoi :: "string \<Rightarrow> int option" where
  "Atoi s =
     (let (neg, ds) = (case s of [] \<Rightarrow> (False, [])
                       | c # cs \<Rightarrow> if c = CHR ''-'' then (True, cs) else if c = CHR ''+'' then (False, cs) else (False, s))
      in if ds = [] then None
         else case digits_value 0 ds of
                None \<Rightarrow> None
              | Some n \<Rightarrow> let v = (if neg then - n else n)
                          in if - (2 ^ 63) \<le> v \<and> v < 2 ^ 63 then Some v else None)"

text \<open>A query parameter: its default unless it is present and a number.\<close>

definition query_int :: "int \<Rightarrow> string \<Rightarrow> int" where
  "query_int dflt s = (if s = '''' then dflt else case Atoi s of None \<Rightarrow> dflt | Some v \<Rightarrow> v)"

text \<open>Numeric query parameters: the default unless the text is a number in range.\<close>

definition query_at_least :: "int \<Rightarrow> int \<Rightarrow> string \<Rightarrow> int" where
  "query_at_least low dflt v = (if v = '''' then dflt else case Atoi v of None \<Rightarrow> dflt | Some n \<Rightarrow> if n \<ge> low then n else dflt)"

text \<open>
  The sentinel errors of the service layer, any other error with its text, and the status, code
  and message with which \<open>writeErrorFromSentinel\<close> answers each of them. The code's
  \<open>ErrQuotaExceeded\<close> is \<open>ErrAIQuotaExceeded\<close> here.
\<close>

datatype service_error = ErrEmailExists | ErrUsernameExists | ErrInvalidCredentials | ErrUserNotFound
  | ErrAIQuotaExceeded | ErrShareNotFound | ErrShareExpired | ErrShareMaxViews | ErrCommentNotFound
  | ErrNotCommentAuthor | ErrNotOwner | ErrInvalidReaction | ErrInvalidTokenType | ErrTokenRevoked
  | ErrPlanLimitExceeded | ErrInvalidPlan | ErrPaymentNotFound | ErrInvalidStripeSig
  | ErrPaymentAlreadyDone | ErrInvalidPaymentPlan | ErrNotificationNotFound | OtherError string

fun writeErrorFromSentinel :: "service_error \<Rightarrow> 'a response option" where
  "writeErrorFromSentinel ErrEmailExists = Some (HttpError 409 ''email_exists'' ''Email already registered'')"
| "writeErrorFromSentinel ErrUsernameExists = Some (HttpError 409 ''username_exists'' ''Username already taken'')"
| "writeErrorFromSentinel ErrInvalidCredentials = Some (HttpError 401 ''invalid_credentials'' ''Invalid email or password'')"
| "writeErrorFromSentinel ErrUserNotFound = Some (HttpError 404 ''not_found'' ''User not found'')"
| "writeErrorFromSentinel ErrAIQuotaExceeded = Some (HttpError 429 ''quota_exceeded'' ''AI quota exceeded'')"
| "writeErrorFromSentinel ErrShareNotFound = Some (HttpError 404 ''not_found'' ''Shared note not found'')"
| "writeErrorFromSentinel ErrShareExpired = Some (HttpError 410 ''expired'' ''Shared note has expired'')"
| "writeErrorFromSentinel ErrShareMaxViews = Some (HttpError 410 ''max_views'' ''Shared note has reached maximum views'')"
| "writeErrorFromSentinel ErrCommentNotFound = Some (HttpError 404 ''not_found'' ''Comment not found'')"
| "writeErrorFromSentinel ErrNotCommentAuthor = Some (HttpError 403 ''forbidden'' ''Only the comment author can delete it'')"
| "writeErrorFromSentinel ErrNotOwner = Some (HttpError 403 ''forbidden'' ''You do not own this resource'')"
| "writeErrorFromSentinel ErrInvalidReaction = Some (HttpError 400 ''invalid_reaction''
     (''reaction_type must be 'heart' or 'bookmark'' @ [CHR 0x27]))"
| "writeErrorFromSentinel ErrInvalidTokenType = Some (HttpError 401 ''invalid_token'' ''Invalid token type'')"
| "writeErrorFromSentinel ErrTokenRevoked = Some (HttpError 401 ''token_revoked'' ''Refresh token has been revoked'')"
| "writeErrorFromSentinel ErrPlanLimitExceeded = Some (HttpError 403 ''plan_limit_exceeded'' ''Plan limit exceeded'')"
| "writeErrorFromSentinel ErrInvalidPlan = Some (HttpError 400 ''invalid_plan'' ''Invalid plan'')"
| "writeErrorFromSentinel ErrPaymentNotFound = Some (HttpError 404 ''not_found'' ''Payment not found'')"
| "writeErrorFromSentinel ErrInvalidStripeSig = Some (HttpError 400 ''invalid_signature'' ''Invalid webhook signature'')"
| "writeErrorFromSentinel ErrPaymentAlreadyDone = Some (HttpError 200 ''already_processed'' ''Payment already processed'')"
| "writeErrorFromSentinel ErrInvalidPaymentPlan = Some (HttpError 400 ''invalid_plan'' ''Invalid payment plan'')"
| "writeErrorFromSentinel ErrNotificationNotFound = Some (HttpError 404 ''not_found'' ''Notification not found'')"
| "writeErrorFromSentinel (OtherError e) = None"

text \<open>The handlers' idiom: the sentinel's answer, or 500 with a message of the handler's own.\<close>

definition sentinel_or_500 :: "string \<Rightarrow> string \<Rightarrow> service_error \<Rightarrow> 'a response" where
  "sentinel_or_500 code msg e = (case writeErrorFromSentinel e of Some r \<Rightarrow> r | None \<Rightarrow> HttpError 500 code msg)"

lemma sentinel_or_500_not_JSON [simp]: "sentinel_or_500 code msg e \<noteq> JSON n b"
  by (cases e) (simp_all add: sentinel_or_500_def)

lemma digits_value_nonneg: "0 \<le> acc \<Longrightarrow> digits_value acc s = Some n \<Longrightarrow> 0 \<le> n"
  by (induction acc s rule: digits_value.induct)
    (auto simp: digit_value_def Let_def split: option.splits if_splits)

lemma Atoi_bounds: "Atoi s = Some v \<Longrightarrow> - (2 ^ 63) \<le> v \<and> v < 2 ^ 63"
  by (auto simp: Atoi_def Let_def split: prod.splits option.splits if_splits)

end
