(* ===== verification/Sync.thy ===== *)
theory Sync
  imports Sync_Store Http
begin

text \<open>
  Synchronisation: the service \<^verbatim>\<open>internal/service/sync_service.go\<close> and the handlers of
  \<^verbatim>\<open>internal/handler/sync_handler.go\<close> over the store of \<open>Sync_Store\<close>. The state adds to the two tables
  the conflict notifications handed to the optional push service, as pairs of user and number of
  conflicts. Identifiers drawn with \<open>uuid.New\<close> are arguments.
\<close>

record SyncState =
  sync_blobs :: "SyncBlob list"
  sync_operation_logs :: "SyncOperationLog list"
  conflict_pushes :: "(uuid \<times> nat) list"

record SyncPushItem =
  it_ItemID :: uuid
  it_ItemType :: string
  it_Version :: int
  it_EncryptedData :: bytes
  it_BlobSize :: int
  it_DeviceID :: string

record SyncConflict =
  c_ItemID :: uuid
  c_ItemType :: string
  c_ServerVersion :: int
  c_ClientVersion :: int

record SyncPushResponse =
  p_Accepted :: "uuid list"
  p_Conflicts :: "SyncConflict list"

record SyncPullResponse =
  pl_Blobs :: "SyncBlob list"
  pl_LatestVersion :: int
  pl_HasMore :: bool
  pl_NextCursor :: int

record SyncStatusResponse =
  st_LatestVersion :: int
  st_TotalItems :: nat
  st_LastSyncedAt :: time

record SyncStatsResponse =
  sts_TotalItems :: nat
  sts_ItemsByType :: "(string \<times> nat) list"
  sts_LastSyncedAt :: time
  sts_TotalConflicts :: nat

datatype HealthStatus = HealthOK | HealthWarnings | HealthErrors

record SyncProgressResponse =
  pg_TotalItems :: nat
  pg_LatestVersion :: int
  pg_LastSyncedAt :: time
  pg_PendingCount :: nat
  pg_ConflictCount :: nat
  pg_HealthStatus :: HealthStatus
  pg_PushCount24h :: nat
  pg_PullCount24h :: nat

section \<open>Service\<close>

text \<open>Round trips of a pull: 0 the page, 1 the latest version, 2 the look-ahead.\<close>

definition sync_Pull :: "faults \<Rightarrow> uuid \<Rightarrow> int \<Rightarrow> int \<Rightarrow> int \<Rightarrow> SyncState \<Rightarrow> SyncPullResponse option" where
  "sync_Pull f userID sinceVersion limit cursor s =
     (let effectiveSince = (if cursor > 0 then cursor else sinceVersion) in
      case PullSincePaginated (f 0) userID effectiveSince limit (sync_blobs s) of
        None \<Rightarrow> None
      | Some blobs \<Rightarrow>
          (let latestVersion = (case GetLatestVersion (f 1) userID (sync_blobs s) of None \<Rightarrow> 0 | Some v \<Rightarrow> v);
               nextCursor = (if blobs \<noteq> [] then b_Version (last blobs) else 0);
               hasMore = (if blobs \<noteq> []
                          then case HasMoreSince (f 2) userID nextCursor (sync_blobs s) of None \<Rightarrow> False | Some m \<Rightarrow> m
                          else False)
           in Some \<lparr>pl_Blobs = blobs, pl_LatestVersion = latestVersion, pl_HasMore = hasMore,
                    pl_NextCursor = nextCursor\<rparr>))"

definition push_blob :: "time \<Rightarrow> uuid \<Rightarrow> SyncPushItem \<Rightarrow> SyncBlob" where
  "push_blob now userID item =
     \<lparr>b_ID = 0, b_UserID = userID, b_ItemType = it_ItemType item, b_ItemID = it_ItemID item,
      b_Version = it_Version item, b_EncryptedData = it_EncryptedData item, b_BlobSize = it_BlobSize item,
      b_DeviceID = it_DeviceID item, b_CreatedAt = 0, b_UpdatedAt = now\<rparr>"

definition push_log :: "uuid \<Rightarrow> uuid \<Rightarrow> time \<Rightarrow> BatchUpsertResult \<Rightarrow> int \<Rightarrow> SyncOperationLog" where
  "push_log newID userID now res version =
     \<lparr>l_ID = newID, l_UserID = userID, l_OperationType = ''push'', l_ItemType = r_ItemType res,
      l_ItemID = r_ItemID res, l_Version = version, l_CreatedAt = now\<rparr>"

text \<open>The loop over the results; a conflict is logged with version 0.\<close>

fun push_collect :: "(nat \<Rightarrow> uuid) \<Rightarrow> uuid \<Rightarrow> time \<Rightarrow> nat \<Rightarrow> BatchUpsertResult list
    \<Rightarrow> uuid list \<times> SyncConflict list \<times> SyncOperationLog list" where
  "push_collect logID userID now i [] = ([], [], [])"
| "push_collect logID userID now i (res # rest) =
     (let (acc, conf, logs) = push_collect logID userID now (Suc i) rest in
      if r_Error res \<noteq> None then (acc, conf, logs)
      else if r_Accepted res
      then (r_ItemID res # acc, conf, push_log (logID i) userID now res (r_ClientVersion res) # logs)
      else (acc,
            \<lparr>c_ItemID = r_ItemID res, c_ItemType = r_ItemType res, c_ServerVersion = r_ServerVersion res,
             c_ClientVersion = r_ClientVersion res\<rparr> # conf,
            push_log (logID i) userID now res 0 # logs))"

text \<open>What a push needs from its environment: the faults of the batch and of the log insert, the
  clock, the generated identifiers and whether a push service is configured.\<close>

record PushEnv =
  e_batch :: BatchFaults
  e_log :: bool
  e_now :: time
  e_rowID :: "nat \<Rightarrow> uuid"
  e_logID :: "nat \<Rightarrow> uuid"
  e_pushSvc :: bool

definition sync_Push :: "PushEnv \<Rightarrow> uuid \<Rightarrow> SyncPushItem list \<Rightarrow> SyncState \<Rightarrow> SyncPushResponse \<times> SyncState" where
  "sync_Push e userID items s =
     (if items = [] then (\<lparr>p_Accepted = [], p_Conflicts = []\<rparr>, s)
      else let blobs = map (push_blob (e_now e) userID) items;
               (results, t) = BatchUpsert (e_batch e) (e_now e) (e_rowID e) blobs (sync_blobs s);
               (accepted, conflicts, opLogs) = push_collect (e_logID e) userID (e_now e) 0 results;
               logs = (if opLogs \<noteq> [] then snd (BatchInsertOperationLogs (e_log e) opLogs (sync_operation_logs s))
                       else sync_operation_logs s);
               pushes = (if conflicts \<noteq> [] \<and> e_pushSvc e then conflict_pushes s @ [(userID, length conflicts)]
                         else conflict_pushes s)
           in (\<lparr>p_Accepted = accepted, p_Conflicts = conflicts\<rparr>,
               s\<lparr>sync_blobs := t, sync_operation_logs := logs, conflict_pushes := pushes\<rparr>))"

definition sync_GetStatus :: "faults \<Rightarrow> uuid \<Rightarrow> SyncState \<Rightarrow> SyncStatusResponse option" where
  "sync_GetStatus f userID s =
     (case GetStatusSummary (f 0) userID (sync_blobs s) of
        None \<Rightarrow> None
      | Some summary \<Rightarrow> Some \<lparr>st_LatestVersion = ss_LatestVersion summary, st_TotalItems = ss_TotalItems summary,
                             st_LastSyncedAt = ss_LastUpdated summary\<rparr>)"

definition sync_GetStats :: "faults \<Rightarrow> uuid \<Rightarrow> SyncState \<Rightarrow> SyncStatsResponse option" where
  "sync_GetStats f userID s =
     (case GetStatusSummary (f 0) userID (sync_blobs s) of
        None \<Rightarrow> None
      | Some summary \<Rightarrow>
          (case GetItemsByType (f 1) userID (sync_blobs s) of
             None \<Rightarrow> None
           | Some itemsByType \<Rightarrow>
               (case GetConflictCount (f 2) userID (sync_operation_logs s) of
                  None \<Rightarrow> None
                | Some conflictCount \<Rightarrow>
                    Some \<lparr>sts_TotalItems = ss_TotalItems summary, sts_ItemsByType = itemsByType,
                          sts_LastSyncedAt = ss_LastUpdated summary, sts_TotalConflicts = conflictCount\<rparr>)))"

definition sync_ListTags :: "faults \<Rightarrow> uuid \<Rightarrow> SyncState \<Rightarrow> TagListItem list option" where
  "sync_ListTags f userID s = ListTagsByType (f 0) userID ''tag'' (sync_blobs s)"

definition sync_BatchDelete :: "faults \<Rightarrow> uuid \<Rightarrow> uuid list \<Rightarrow> SyncState \<Rightarrow> nat option \<times> SyncState" where
  "sync_BatchDelete f userID itemIDs s =
     (let (deleted, t) = repo_BatchDelete f userID itemIDs (sync_blobs s) in (deleted, s\<lparr>sync_blobs := t\<rparr>))"

text \<open>The ratios 0.1 and 0.01 are compared in \<open>float64\<close> by the code; the model compares the
  integers. For counts below \<open>10 ^ 15\<close> both agree: a quotient that differs from the rational
  threshold differs by more than the rounding error, and equality rounds to the same literal.\<close>

definition health_status :: "nat \<Rightarrow> nat \<Rightarrow> HealthStatus" where
  "health_status conflictCount totalOps =
     (if totalOps > 0
      then if 10 * conflictCount > totalOps then HealthErrors
           else if 100 * conflictCount > totalOps then HealthWarnings else HealthOK
      else HealthOK)"

definition sync_GetProgress :: "faults \<Rightarrow> time \<Rightarrow> uuid \<Rightarrow> SyncState \<Rightarrow> SyncProgressResponse option" where
  "sync_GetProgress f now userID s =
     (case GetStatusSummary (f 0) userID (sync_blobs s) of
        None \<Rightarrow> None
      | Some summary \<Rightarrow>
          (case GetConflictCount (f 1) userID (sync_operation_logs s) of
             None \<Rightarrow> None
           | Some conflictCount \<Rightarrow>
               (case GetOperationCounts (f 2) now userID (sync_operation_logs s) of
                  None \<Rightarrow> None
                | Some (pushCount, pullCount) \<Rightarrow>
                    Some \<lparr>pg_TotalItems = ss_TotalItems summary, pg_LatestVersion = ss_LatestVersion summary,
                          pg_LastSyncedAt = ss_LastUpdated summary, pg_PendingCount = 0,
                          pg_ConflictCount = conflictCount,
                          pg_HealthStatus = health_status conflictCount (pushCount + pullCount),
                          pg_PushCount24h = pushCount, pg_PullCount24h = pullCount\<rparr>)))"

section \<open>Handlers\<close>

definition handle_Pull :: "faults \<Rightarrow> uuid option \<Rightarrow> string \<Rightarrow> string \<Rightarrow> string \<Rightarrow> SyncState
    \<Rightarrow> SyncPullResponse response" where
  "handle_Pull f user sinceStr cursorStr limitStr s =
     (case user of
        None \<Rightarrow> HttpError 401 ''unauthorized'' ''''
      | Some userID \<Rightarrow>
          (let since = query_int 0 sinceStr in
           if since < 0 then HttpError 400 ''validation_error'' ''since must be non-negative''
           else let cursor = query_int 0 cursorStr in
           if cursor < 0 then HttpError 400 ''validation_error'' ''cursor must be non-negative''
           else let limit0 = query_int 100 limitStr;
                    limit = (if limit0 < 1 then 100 else if limit0 > 500 then 500 else limit0)
                in case sync_Pull f userID since limit cursor s of
                     None \<Rightarrow> HttpError 500 ''sync_error'' ''Pull failed''
                   | Some resp \<Rightarrow> JSON 200 resp))"

definition handle_Push :: "PushEnv \<Rightarrow> uuid option \<Rightarrow> SyncPushItem list option \<Rightarrow> SyncState
    \<Rightarrow> SyncPushResponse response \<times> SyncState" where
  "handle_Push e user body s =
     (case user of
        None \<Rightarrow> (HttpError 401 ''unauthorized'' '''', s)
      | Some userID \<Rightarrow>
          (case body of
             None \<Rightarrow> (HttpError 400 ''invalid_request'' ''Failed to parse request body'', s)
           | Some items \<Rightarrow>
               if items = [] then (JSON 200 \<lparr>p_Accepted = [], p_Conflicts = []\<rparr>, s)
               else if length items > 1000
               then (HttpError 400 ''batch_too_large'' ''Maximum 1000 items per push'', s)
               else let (resp, s') = sync_Push e userID items s in (JSON 200 resp, s')))"

definition handle_Status :: "faults \<Rightarrow> uuid option \<Rightarrow> SyncState \<Rightarrow> SyncStatusResponse response" where
  "handle_Status f user s =
     (case user of
        None \<Rightarrow> HttpError 401 ''unauthorized'' ''''
      | Some userID \<Rightarrow> (case sync_GetStatus f userID s of
                         None \<Rightarrow> HttpError 500 ''sync_error'' ''Failed to get status''
                       | Some resp \<Rightarrow> JSON 200 resp))"

definition handle_Stats :: "faults \<Rightarrow> uuid option \<Rightarrow> SyncState \<Rightarrow> SyncStatsResponse response" where
  "handle_Stats f user s =
     (case user of
        None \<Rightarrow> HttpError 401 ''unauthorized'' ''''
      | Some userID \<Rightarrow> (case sync_GetStats f userID s of
                         None \<Rightarrow> HttpError 500 ''sync_error'' ''Failed to get sync stats''
                       | Some resp \<Rightarrow> JSON 200 resp))"

definition handle_ListTags :: "faults \<Rightarrow> uuid option \<Rightarrow> SyncState \<Rightarrow> TagListItem list response" where
  "handle_ListTags f user s =
     (case user of
        None \<Rightarrow> HttpError 401 ''unauthorized'' ''''
      | Some userID \<Rightarrow> (case sync_ListTags f userID s of
                         None \<Rightarrow> HttpError 500 ''sync_error'' ''Failed to list tags''
                       | Some resp \<Rightarrow> JSON 200 resp))"

definition handle_BatchDelete :: "faults \<Rightarrow> uuid option \<Rightarrow> uuid list option \<Rightarrow> SyncState \<Rightarrow> nat response \<times> SyncState" where
  "handle_BatchDelete f user body s =
     (case user of
        None \<Rightarrow> (HttpError 401 ''unauthorized'' '''', s)
      | Some userID \<Rightarrow>
          (case body of
             None \<Rightarrow> (HttpError 400 ''invalid_request'' ''Failed to parse request body'', s)
           | Some ids \<Rightarrow>
               if ids = [] then (HttpError 400 ''validation_error'' ''item_ids must not be empty'', s)
               else if length ids > 1000
               then (HttpError 400 ''batch_too_large'' ''Maximum 1000 items per batch delete'', s)
               else case sync_BatchDelete f userID ids s of
                      (None, s') \<Rightarrow> (HttpError 500 ''sync_error'' ''Batch delete failed'', s')
                    | (Some n, s') \<Rightarrow> (JSON 200 n, s')))"

definition handle_Progress :: "faults \<Rightarrow> time \<Rightarrow> uuid option \<Rightarrow> SyncState \<Rightarrow> SyncProgressResponse response" where
  "handle_Progress f now user s =
     (case user of
        None \<Rightarrow> HttpError 401 ''unauthorized'' ''''
      | Some userID \<Rightarrow> (case sync_GetProgress f now userID s of
                         None \<Rightarrow> HttpError 500 ''sync_error'' ''Failed to get sync progress''
                       | Some resp \<Rightarrow> JSON 200 resp))"

section \<open>Lemmas on pushes\<close>

definition push_blobs :: "PushEnv \<Rightarrow> uuid \<Rightarrow> SyncPushItem list \<Rightarrow> SyncBlob list" where
  "push_blobs e userID items = map (push_blob (e_now e) userID) items"

definition push_writes :: "PushEnv \<Rightarrow> uuid \<Rightarrow> SyncPushItem list \<Rightarrow> blob_write list" where
  "push_writes e userID items = batch_writes (e_now e) (e_rowID e) (push_blobs e userID items)"

definition item_key :: "uuid \<Rightarrow> SyncPushItem \<Rightarrow> blob_key" where
  "item_key userID item = (userID, it_ItemType item, it_ItemID item)"

definition item_payload :: "SyncPushItem \<Rightarrow> payload" where
  "item_payload item = (it_EncryptedData item, it_BlobSize item, it_DeviceID item)"

definition item_write :: "uuid \<Rightarrow> SyncPushItem \<Rightarrow> blob_key \<times> int \<times> payload" where
  "item_write userID item = (item_key userID item, it_Version item, item_payload item)"

definition item_encodable :: "SyncPushItem \<Rightarrow> bool" where
  "item_encodable item \<longleftrightarrow> int4_ok (it_Version item) \<and> int4_ok (it_BlobSize item)"

definition item_conflict :: "uuid \<Rightarrow> SyncBlob list \<Rightarrow> SyncPushItem \<Rightarrow> SyncConflict" where
  "item_conflict userID t item =
     \<lparr>c_ItemID = it_ItemID item, c_ItemType = it_ItemType item,
      c_ServerVersion = (case blob_content t (item_key userID item) of None \<Rightarrow> it_Version item | Some (v, _) \<Rightarrow> v),
      c_ClientVersion = it_Version item\<rparr>"

lemma push_blob_simps [simp]:
  "blob_key (push_blob now u item) = item_key u item" "b_Version (push_blob now u item) = it_Version item"
  "blob_payload (push_blob now u item) = item_payload item" "b_ItemID (push_blob now u item) = it_ItemID item"
  "b_ItemType (push_blob now u item) = it_ItemType item" "b_UserID (push_blob now u item) = u"
  "blob_spec_write (push_blob now u item) = item_write u item"
  "blob_encodable (push_blob now u item) = item_encodable item"
  by (simp_all add: push_blob_def blob_key_def item_key_def blob_payload_def item_payload_def
      blob_spec_write_def item_write_def blob_encodable_def item_encodable_def)

lemma push_blobs_spec: "map blob_spec_write (push_blobs e u items) = map (item_write u) items"
  by (simp add: push_blobs_def comp_def)

lemma push_writes_spec:
  "map (\<lambda>w. (write_key w, write_version w, write_payload w)) (push_writes e u items) = map (item_write u) items"
  unfolding push_writes_def batch_writes_def push_blobs_def
  by (rule nth_equalityI) (auto simp: write_key_def write_version_def write_payload_def item_write_def nth_enumerate_eq)

lemma set_push_writes:
  "(\<lambda>w. (write_key w, write_version w, write_payload w)) ` set (push_writes e u items) = item_write u ` set items"
  using arg_cong [OF push_writes_spec [of e u items], of set] by simp

lemma push_collect_errors:
  "list_all (\<lambda>r. r_Error r \<noteq> None) rs \<Longrightarrow> push_collect logID u now i rs = ([], [], [])"
  by (induction rs arbitrary: i) auto

lemma committed_result_simps [simp]:
  "r_Error (committed_result t p) = None" "r_Accepted (committed_result t (b, a)) = a"
  "r_ItemID (committed_result t (b, a)) = b_ItemID b" "r_ItemType (committed_result t (b, a)) = b_ItemType b"
  "r_ClientVersion (committed_result t (b, a)) = b_Version b"
  by (simp_all add: committed_result_def split: prod.splits)

lemma committed_result_conflict:
  "\<lparr>c_ItemID = it_ItemID it, c_ItemType = it_ItemType it,
    c_ServerVersion = r_ServerVersion (committed_result t (push_blob now u it, False)),
    c_ClientVersion = it_Version it\<rparr> = item_conflict u t it"
  by (auto simp: committed_result_def item_conflict_def split: option.splits)

text \<open>What the loop collects from committed results.\<close>

lemma push_collect_committed:
  assumes "length accs = length items"
    and "push_collect logID u now i (map (committed_result t) (zip (map (push_blob now' u) items) accs)) = (acc, conf, logs)"
  shows "acc = map (it_ItemID \<circ> fst) (filter snd (zip items accs))
    \<and> conf = map (item_conflict u t \<circ> fst) (filter (Not \<circ> snd) (zip items accs))
    \<and> map l_Version logs = map (\<lambda>(it, a). if a then it_Version it else 0) (zip items accs)
    \<and> list_all (\<lambda>l. l_UserID l = u \<and> l_OperationType l = ''push'') logs"
  using assms
proof (induction items arbitrary: accs i acc conf logs)
  case (Cons it items)
  then obtain a as where accs: "accs = a # as" "length as = length items" by (cases accs) auto
  obtain acc' conf' logs' where r: "push_collect logID u now (Suc i)
      (map (committed_result t) (zip (map (push_blob now' u) items) as)) = (acc', conf', logs')"
    by (metis prod_cases3)
  show ?case
    using Cons.prems(2) r Cons.IH [OF accs(2) r]
    by (auto simp: accs committed_result_conflict push_log_def split: if_splits)
qed simp

text \<open>The two outcomes of a push.\<close>

lemma sync_Push_cases:
  assumes "sync_Push e u items s = (resp, s')"
  shows "(sync_blobs s' = sync_blobs s \<and> sync_operation_logs s' = sync_operation_logs s
        \<and> conflict_pushes s' = conflict_pushes s \<and> resp = \<lparr>p_Accepted = [], p_Conflicts = []\<rparr>)
    \<or> (\<exists>accs logs. accs = fst (lww_run (map (item_write u) items) (blob_content (sync_blobs s)))
        \<and> sync_blobs s' = fold apply_write (push_writes e u items) (sync_blobs s)
        \<and> p_Accepted resp = map (it_ItemID \<circ> fst) (filter snd (zip items accs))
        \<and> p_Conflicts resp = map (item_conflict u (sync_blobs s') \<circ> fst) (filter (Not \<circ> snd) (zip items accs))
        \<and> map l_Version logs = map (\<lambda>(it, a). if a then it_Version it else 0) (zip items accs)
        \<and> list_all (\<lambda>l. l_UserID l = u \<and> l_OperationType l = ''push'') logs
        \<and> sync_operation_logs s' = snd (BatchInsertOperationLogs (e_log e) logs (sync_operation_logs s))
        \<and> conflict_pushes s' = conflict_pushes s @
             (if p_Conflicts resp \<noteq> [] \<and> e_pushSvc e then [(u, length (p_Conflicts resp))] else []))"
proof (cases "items = []")
  case True
  then show ?thesis using assms by (auto simp: sync_Push_def)
next
  case False
  obtain rs t where B: "BatchUpsert (e_batch e) (e_now e) (e_rowID e) (push_blobs e u items) (sync_blobs s) = (rs, t)"
    by fastforce
  obtain acc conf logs where C: "push_collect (e_logID e) u (e_now e) 0 rs = (acc, conf, logs)"
    by (metis prod_cases3)
  have P: "resp = \<lparr>p_Accepted = acc, p_Conflicts = conf\<rparr>" "sync_blobs s' = t"
    "sync_operation_logs s' = snd (BatchInsertOperationLogs (e_log e) logs (sync_operation_logs s))"
    "conflict_pushes s' = conflict_pushes s @ (if conf \<noteq> [] \<and> e_pushSvc e then [(u, length conf)] else [])"
    using assms False B C
    by (auto simp: sync_Push_def push_blobs_def BatchInsertOperationLogs_def Let_def split: if_splits)
  from BatchUpsert_atomic [OF B] show ?thesis
  proof (elim disjE conjE)
    assume "t = sync_blobs s" and "list_all (\<lambda>r. r_Error r \<noteq> None) rs"
    then show ?thesis using P C by (auto simp: push_collect_errors BatchInsertOperationLogs_def)
  next
    let ?accs = "fst (lww_run (map (item_write u) items) (blob_content (sync_blobs s)))"
    assume t: "t = fold apply_write (batch_writes (e_now e) (e_rowID e) (push_blobs e u items)) (sync_blobs s)"
      and "rs = map (committed_result t) (zip (push_blobs e u items)
        (fst (lww_run (map blob_spec_write (push_blobs e u items)) (blob_content (sync_blobs s)))))"
    then have rs: "rs = map (committed_result t) (zip (map (push_blob (e_now e) u) items) ?accs)"
      by (simp only: push_blobs_spec) (simp add: push_blobs_def)
    have "length ?accs = length items" by simp
    from push_collect_committed [OF this C [unfolded rs]]
    show ?thesis using P t by (auto simp: push_writes_def)
  qed
qed

lemma sync_Push_no_faults:
  assumes "e_batch e = no_batch_faults" and "list_all item_encodable items"
  shows "sync_blobs (snd (sync_Push e u items s)) = fold apply_write (push_writes e u items) (sync_blobs s)"
proof (cases "items = []")
  case True
  then show ?thesis by (simp add: sync_Push_def push_writes_def push_blobs_def batch_writes_def)
next
  case False
  have "list_all blob_encodable (push_blobs e u items)"
    using assms(2) by (simp add: push_blobs_def list_all_iff)
  from BatchUpsert_no_faults [OF this] show ?thesis
    using False assms(1)
    by (simp add: sync_Push_def push_blobs_def [symmetric] push_writes_def Let_def case_prod_unfold)
qed

text \<open>Without failures the response is the one of the committed push.\<close>

lemma sync_Push_exact:
  assumes "sync_Push e u items s = (resp, s')" and "e_batch e = no_batch_faults" and "list_all item_encodable items"
  shows "let accs = fst (lww_run (map (item_write u) items) (blob_content (sync_blobs s))) in
      p_Accepted resp = map (it_ItemID \<circ> fst) (filter snd (zip items accs))
    \<and> p_Conflicts resp = map (item_conflict u (sync_blobs s') \<circ> fst) (filter (Not \<circ> snd) (zip items accs))"
proof (cases "items = []")
  case True
  then show ?thesis using assms(1) by (auto simp: sync_Push_def)
next
  case False
  let ?accs = "fst (lww_run (map (item_write u) items) (blob_content (sync_blobs s)))"
  let ?t = "fold apply_write (push_writes e u items) (sync_blobs s)"
  have enc: "list_all blob_encodable (push_blobs e u items)"
    using assms(3) by (simp add: push_blobs_def list_all_iff)
  obtain acc conf logs where C: "push_collect (e_logID e) u (e_now e) 0
      (map (committed_result ?t) (zip (map (push_blob (e_now e) u) items) ?accs)) = (acc, conf, logs)"
    by (metis prod_cases3)
  have "BatchUpsert (e_batch e) (e_now e) (e_rowID e) (push_blobs e u items) (sync_blobs s)
      = (map (committed_result ?t) (zip (map (push_blob (e_now e) u) items) ?accs), ?t)"
    using BatchUpsert_no_faults [OF enc, of "e_now e" "e_rowID e" "sync_blobs s"] assms(2)
    by (simp add: push_blobs_spec push_writes_def Let_def) (simp add: push_blobs_def)
  then have "p_Accepted resp = acc" "p_Conflicts resp = conf" "sync_blobs s' = ?t"
    using assms(1) False C by (auto simp: sync_Push_def push_blobs_def Let_def)
  then show ?thesis
    using push_collect_committed [OF _ C] by (simp add: Let_def)
qed

text \<open>The requests that change the store, as the server executes them: who is authenticated, and
  a push or a delete with its environment.\<close>

datatype sync_request =
    PushRequest PushEnv "uuid option" "SyncPushItem list option"
  | DeleteRequest faults "uuid option" "uuid list option"

fun sync_exec :: "sync_request \<Rightarrow> SyncState \<Rightarrow> SyncState" where
  "sync_exec (PushRequest e user body) s = snd (handle_Push e user body s)"
| "sync_exec (DeleteRequest f user body) s = snd (handle_BatchDelete f user body s)"

fun request_user :: "sync_request \<Rightarrow> uuid option" where
  "request_user (PushRequest e user body) = user"
| "request_user (DeleteRequest f user body) = user"

fun is_push :: "sync_request \<Rightarrow> bool" where
  "is_push (PushRequest e user body) = True"
| "is_push (DeleteRequest f user body) = False"

lemma sync_exec_push_cases:
  "sync_exec (PushRequest e user body) s = s
   \<or> (\<exists>u items. user = Some u \<and> body = Some items \<and> sync_exec (PushRequest e user body) s = snd (sync_Push e u items s))"
  by (auto simp: handle_Push_def Let_def case_prod_unfold split: option.splits)

lemma sync_exec_delete_cases:
  "sync_exec (DeleteRequest f user body) s = s
   \<or> (\<exists>u ids. user = Some u \<and> sync_exec (DeleteRequest f user body) s = snd (sync_BatchDelete f u ids s))"
  by (auto simp: handle_BatchDelete_def split: option.splits prod.splits) (metis snd_conv)+

text \<open>A push leaves the table well formed and its versions only grow.\<close>

lemma sync_Push_store:
  assumes "blob_table_ok (sync_blobs s)"
  shows "blob_table_ok (sync_blobs (snd (sync_Push e u items s)))
    \<and> version_le (blob_content (sync_blobs s) k) (blob_content (sync_blobs (snd (sync_Push e u items s))) k)"
  using sync_Push_cases [OF prod.collapse [symmetric], of e u items s] assms
  by (auto simp: blobs.fold_wf blobs.look_mono)

text \<open>Writes of one user leave the rows of the others alone.\<close>

lemma apply_write_other:
  assumes "b_UserID (snd (snd w)) \<noteq> v"
  shows "filter (\<lambda>b. b_UserID b = v) (apply_write w t) = filter (\<lambda>b. b_UserID b = v) t"
  using assms
  by (auto simp: apply_write_def upsert_blob_def blob_key_def intro!: filter_update_rows_other split: option.splits)

lemma fold_write_other:
  assumes "\<forall>w \<in> set ws. b_UserID (snd (snd w)) \<noteq> v"
  shows "filter (\<lambda>b. b_UserID b = v) (fold apply_write ws t) = filter (\<lambda>b. b_UserID b = v) t"
  using assms by (induction ws arbitrary: t) (auto simp: apply_write_other)

lemma push_writes_user: "w \<in> set (push_writes e u items) \<Longrightarrow> b_UserID (snd (snd w)) = u"
  by (auto simp: push_writes_def batch_writes_def push_blobs_def in_set_enumerate_eq)

lemma batch_deletes_other:
  assumes "u \<noteq> v"
  shows "filter (\<lambda>b. b_UserID b = v) (snd (batch_deletes f i u ids t)) = filter (\<lambda>b. b_UserID b = v) t"
  using assms
proof (induction ids arbitrary: i t)
  case (Cons x ids)
  have "filter (\<lambda>b. b_UserID b = v) (delete_rows (\<lambda>b. b_UserID b = u \<and> b_ItemID b = x) t)
      = filter (\<lambda>b. b_UserID b = v) t"
    using \<open>u \<noteq> v\<close> by (intro filter_delete_rows_other) auto
  then show ?case
    using Cons.IH [of "Suc i" "delete_rows (\<lambda>b. b_UserID b = u \<and> b_ItemID b = x) t"] Cons.prems
    by (auto simp: Let_def split: prod.splits option.splits)
qed simp

lemma batch_deletes_ok: "blob_table_ok t \<Longrightarrow> blob_table_ok (snd (batch_deletes f i u ids t))"
proof (induction ids arbitrary: i t)
  case (Cons x ids)
  have "blob_table_ok (delete_rows (\<lambda>b. b_UserID b = u \<and> b_ItemID b = x) t)"
    using Cons.prems by (simp add: blob_table_ok_def distinct_map_delete_rows)
  from Cons.IH [OF this, of "Suc i"] show ?case
    using Cons.prems by (auto simp: Let_def split: prod.splits option.splits)
qed simp

lemma sync_BatchDelete_store:
  "sync_operation_logs (snd (sync_BatchDelete f u ids s)) = sync_operation_logs s"
  "conflict_pushes (snd (sync_BatchDelete f u ids s)) = conflict_pushes s"
  "sync_blobs (snd (sync_BatchDelete f u ids s)) = sync_blobs s
   \<or> sync_blobs (snd (sync_BatchDelete f u ids s)) = snd (batch_deletes f 2 u ids (sync_blobs s))"
  by (auto simp: sync_BatchDelete_def repo_BatchDelete_def split: prod.splits option.splits)

text \<open>What user \<open>v\<close> can observe: the rows, the log and the notifications that carry the id.\<close>

definition user_view :: "uuid \<Rightarrow> SyncState \<Rightarrow> SyncBlob list \<times> SyncOperationLog list \<times> (uuid \<times> nat) list" where
  "user_view v s = (filter (\<lambda>b. b_UserID b = v) (sync_blobs s),
     filter (\<lambda>l. l_UserID l = v) (sync_operation_logs s), filter (\<lambda>p. fst p = v) (conflict_pushes s))"

lemma user_view_push:
  assumes "u \<noteq> v"
  shows "user_view v (snd (sync_Push e u items s)) = user_view v s"
proof -
  have logs: "filter (\<lambda>l. l_UserID l = v) (snd (BatchInsertOperationLogs fault new old)) = filter (\<lambda>l. l_UserID l = v) old"
    if "list_all (\<lambda>l. l_UserID l = u \<and> l_OperationType l = ''push'') new" for fault new old
    using that assms by (auto simp: BatchInsertOperationLogs_def list_all_iff filter_empty_conv)
  have rows: "filter (\<lambda>b. b_UserID b = v) (fold apply_write (push_writes e u items) (sync_blobs s))
      = filter (\<lambda>b. b_UserID b = v) (sync_blobs s)"
    using assms push_writes_user by (intro fold_write_other) blast
  show ?thesis
    using sync_Push_cases [OF prod.collapse [symmetric], of e u items s] assms rows
    by (auto simp: user_view_def logs)
qed

lemma user_view_delete: "u \<noteq> v \<Longrightarrow> user_view v (snd (sync_BatchDelete f u ids s)) = user_view v s"
  using sync_BatchDelete_store(3) [of f u ids s]
  by (auto simp: user_view_def sync_BatchDelete_store(1,2) batch_deletes_other)

lemma user_view_exec:
  assumes "request_user r \<noteq> Some v"
  shows "user_view v (sync_exec r s) = user_view v s"
proof (cases r)
  case (PushRequest e user body)
  then show ?thesis
    using sync_exec_push_cases [of e user body s] assms by auto (metis user_view_push)
next
  case (DeleteRequest f user body)
  then show ?thesis
    using sync_exec_delete_cases [of f user body s] assms by auto (metis user_view_delete)
qed

lemma sync_exec_ok: "blob_table_ok (sync_blobs s) \<Longrightarrow> blob_table_ok (sync_blobs (sync_exec r s))"
proof (cases r)
  case (PushRequest e user body)
  then show "blob_table_ok (sync_blobs s) \<Longrightarrow> ?thesis"
    using sync_exec_push_cases [of e user body s] by (auto simp: sync_Push_store)
next
  case (DeleteRequest f user body)
  then show "blob_table_ok (sync_blobs s) \<Longrightarrow> ?thesis"
    using sync_exec_delete_cases [of f user body s] sync_BatchDelete_store(3) [of f _ _ s] batch_deletes_ok
    by metis
qed

section \<open>Properties of pushes\<close>

text \<open>A push is all or nothing. Whatever fails (the transaction, any statement, the commit,
  the log), either the store, the log and the notifications are untouched and the response
  is empty, or every item was applied in order and appears in the response exactly once: as
  accepted, or as a conflict. Without failures, and with values that fit their columns, every item
  is applied.\<close>

theorem sync_push_atomic:
  assumes "sync_Push e u items s = (resp, s')"
  shows "((s' = s \<and> resp = \<lparr>p_Accepted = [], p_Conflicts = []\<rparr>)
      \<or> (sync_blobs s' = fold apply_write (push_writes e u items) (sync_blobs s)
          \<and> length (p_Accepted resp) + length (p_Conflicts resp) = length items))
    \<and> (e_batch e = no_batch_faults \<longrightarrow> list_all item_encodable items \<longrightarrow>
         sync_blobs s' = fold apply_write (push_writes e u items) (sync_blobs s))"
  using sync_Push_cases [OF assms] sync_Push_no_faults [of e items u s] assms
  by (auto simp: length_filter_partition)

definition demo_env :: PushEnv where
  "demo_env = \<lparr>e_batch = no_batch_faults, e_log = False, e_now = 100, e_rowID = (\<lambda>i. 500 + i),
     e_logID = (\<lambda>i. 900 + i), e_pushSvc = True\<rparr>"

definition demo_item :: "uuid \<Rightarrow> int \<Rightarrow> SyncPushItem" where
  "demo_item i v = \<lparr>it_ItemID = i, it_ItemType = ''note'', it_Version = v, it_EncryptedData = [1, 2],
     it_BlobSize = 2, it_DeviceID = ''phone''\<rparr>"

definition empty_sync :: SyncState where
  "empty_sync = \<lparr>sync_blobs = [], sync_operation_logs = [], conflict_pushes = []\<rparr>"

theorem sync_push_atomic_witness:
  "sync_blobs (snd (sync_Push demo_env 1 [demo_item 7 1, demo_item 7 2] empty_sync))
   = fold apply_write (push_writes demo_env 1 [demo_item 7 1, demo_item 7 2]) []"
  using sync_push_atomic [OF prod.collapse [symmetric], of demo_env 1 "[demo_item 7 1, demo_item 7 2]" empty_sync]
  by (simp add: demo_env_def demo_item_def empty_sync_def item_encodable_def int4_ok_def)

text \<open>C6: the store refines a last-writer-wins map. When a push takes effect, the versions
  and payloads the server holds are those of the reference map after the same writes; an item is
  accepted exactly when the reference accepts it (its key is new or its version is higher), and each
  conflict reports the version now stored, which is at least the client's.\<close>

theorem sync_push_refines_lww:
  assumes "sync_Push e u items s = (resp, s')" and "blob_table_ok (sync_blobs s)"
    and "e_batch e = no_batch_faults" and "list_all item_encodable items"
    and "lww_run (map (item_write u) items) (blob_content (sync_blobs s)) = (accs, m)"
  shows "blob_content (sync_blobs s') = m
    \<and> p_Accepted resp = map (it_ItemID \<circ> fst) (filter snd (zip items accs))
    \<and> p_Conflicts resp = map (item_conflict u (sync_blobs s') \<circ> fst) (filter (Not \<circ> snd) (zip items accs))
    \<and> (\<forall>it \<in> set items. \<exists>v d. m (item_key u it) = Some (v, d) \<and> it_Version it \<le> v)"
proof -
  have t: "sync_blobs s' = fold apply_write (push_writes e u items) (sync_blobs s)"
    using sync_Push_no_faults [OF assms(3,4), of u s] assms(1) by simp
  have ws: "map (\<lambda>w. (write_key w, write_version w, write_payload w)) (push_writes e u items) = map (item_write u) items"
    by (rule push_writes_spec)
  have "blob_content (sync_blobs s') = fold (\<lambda>(k, v, d). lww_put k v d) (map (item_write u) items) (blob_content (sync_blobs s))"
    unfolding t blobs.look_fold [OF assms(2)] ws [symmetric] fold_map by (simp add: comp_def)
  then have m: "blob_content (sync_blobs s') = m"
    using lww_run_map [of "map (item_write u) items" "blob_content (sync_blobs s)"] assms(5) by simp
  have "\<exists>v d. m (item_key u it) = Some (v, d) \<and> it_Version it \<le> v" if it: "it \<in> set items" for it
  proof -
    have "item_write u it \<in> (\<lambda>w. (write_key w, write_version w, write_payload w)) ` set (push_writes e u items)"
      using it by (simp add: set_push_writes)
    then obtain w where "w \<in> set (push_writes e u items)" "write_key w = item_key u it" "write_version w = it_Version it"
      by (auto simp: item_write_def)
    from blobs.look_written [OF assms(2) this(1)] this(2,3)
    have "version_le (Some (it_Version it, write_payload w)) (m (item_key u it))" by (simp add: t [symmetric] m)
    then show ?thesis by (cases "m (item_key u it)") auto
  qed
  moreover have "items = [] \<or> p_Accepted resp = map (it_ItemID \<circ> fst) (filter snd (zip items accs))
    \<and> p_Conflicts resp = map (item_conflict u (sync_blobs s') \<circ> fst) (filter (Not \<circ> snd) (zip items accs))"
    using sync_Push_exact [OF assms(1,3,4)] assms(5) by simp
  ultimately show ?thesis using m assms(1) by (auto simp: sync_Push_def)
qed

theorem sync_push_refines_lww_witness:
  "p_Accepted (fst (sync_Push demo_env 1 [demo_item 7 1, demo_item 7 1] empty_sync)) = [7]"
proof -
  obtain accs m where r: "lww_run (map (item_write 1) [demo_item 7 1, demo_item 7 1]) (blob_content (sync_blobs empty_sync)) = (accs, m)"
    by fastforce
  then have "accs = [True, False]"
    by (auto simp: item_write_def item_key_def demo_item_def blob_content_def empty_sync_def lww_accepts_def
        lww_put_def item_payload_def)
  then show ?thesis
    using sync_push_refines_lww [OF prod.collapse [symmetric] _ _ _ r, of demo_env]
    by (simp add: demo_env_def empty_sync_def blob_table_ok_def item_encodable_def int4_ok_def demo_item_def)
qed

text \<open>The store stays well formed and versions never go back. After any sequence of push and
  delete requests, by any users and under any failures, there is one row per user, type and item;
  and if the sequence has no delete request, the version stored under every key only grows and
  no key disappears.\<close>

theorem sync_versions_monotone:
  assumes "blob_table_ok (sync_blobs s)"
  shows "blob_table_ok (sync_blobs (fold sync_exec reqs s))
    \<and> (list_all is_push reqs \<longrightarrow>
         version_le (blob_content (sync_blobs s) k) (blob_content (sync_blobs (fold sync_exec reqs s)) k))"
  using assms
proof (induction reqs arbitrary: s)
  case (Cons r reqs)
  have "version_le (blob_content (sync_blobs s) k) (blob_content (sync_blobs (sync_exec r s)) k)" if push: "is_push r"
  proof -
    obtain e user body where r: "r = PushRequest e user body" using push by (cases r) auto
    show ?thesis
      using sync_exec_push_cases [of e user body s] sync_Push_store [OF Cons.prems] r
      by (metis version_le_refl)
  qed
  then show ?case
    using Cons.IH [OF sync_exec_ok [OF Cons.prems, of r]] by (auto intro: version_le_trans)
qed simp

theorem sync_versions_monotone_witness:
  "blob_table_ok (sync_blobs (fold sync_exec
     [PushRequest demo_env (Some 1) (Some [demo_item 7 1]), DeleteRequest no_faults (Some 1) (Some [7])] empty_sync))"
proof -
  have "blob_table_ok (sync_blobs empty_sync)" by (simp add: empty_sync_def blob_table_ok_def)
  from sync_versions_monotone [OF this] show ?thesis by blast
qed

text \<open>C7: users are isolated. No sequence of push and delete requests authenticated as other
  users, or not authenticated, changes any row, any log entry or any conflict notification of a user.\<close>

theorem sync_user_isolation:
  assumes "\<forall>r \<in> set reqs. request_user r \<noteq> Some v"
  shows "user_view v (fold sync_exec reqs s) = user_view v s"
  using assms by (induction reqs arbitrary: s) (auto simp: user_view_exec)

theorem sync_user_isolation_witness:
  "user_view 2 (fold sync_exec [PushRequest demo_env (Some 1) (Some [demo_item 7 1]),
      DeleteRequest no_faults None (Some [7])] empty_sync) = user_view 2 empty_sync"
  by (rule sync_user_isolation) simp

text \<open>The pushes of a history, each with its user, performed in order.\<close>

definition push_all :: "(PushEnv \<times> uuid \<times> SyncPushItem list) list \<Rightarrow> SyncState \<Rightarrow> SyncState" where
  "push_all ps s = fold (\<lambda>(e, u, items) s. snd (sync_Push e u items s)) ps s"

definition pushed_writes :: "(PushEnv \<times> uuid \<times> SyncPushItem list) list \<Rightarrow> (blob_key \<times> int \<times> payload) set" where
  "pushed_writes ps = (\<Union>(e, u, items) \<in> set ps. item_write u ` set items)"

definition push_fine :: "PushEnv \<times> uuid \<times> SyncPushItem list \<Rightarrow> bool" where
  "push_fine p = (case p of (e, u, items) \<Rightarrow> e_batch e = no_batch_faults \<and> list_all item_encodable items)"

lemma push_all_writes:
  assumes "list_all push_fine ps"
  shows "sync_blobs (push_all ps s) = fold apply_write (concat (map (\<lambda>(e, u, items). push_writes e u items) ps)) (sync_blobs s)"
  using assms
  by (induction ps arbitrary: s) (auto simp: push_all_def push_fine_def sync_Push_no_faults)

lemma set_pushed_writes:
  "(\<lambda>w. (write_key w, write_version w, write_payload w)) ` set (concat (map (\<lambda>(e, u, items). push_writes e u items) ps))
   = pushed_writes ps"
  unfolding pushed_writes_def
proof (induction ps)
  case (Cons p ps)
  obtain e u items where p: "p = (e, u, items)" by (cases p)
  show ?case using Cons.IH by (simp only: p list.map concat.simps set_append image_Un prod.case
        set_push_writes list.set UN_insert)
qed simp

text \<open>C8: replicas converge. Two servers that start with the same store and receive the same
  writes, batched, ordered and repeated in different ways, without database failures and with items whose columns
  accept them, end with the same versions and payloads under every key, provided that no two writes of one
  item carry the same version with different payloads. In that case, which is the conflict the
  server resolves by order of arrival, they can differ: see \<open>sync_equal_versions_diverge\<close>.\<close>

theorem sync_replicas_converge:
  assumes "blob_table_ok (sync_blobs s)" and "list_all push_fine ps" and "list_all push_fine ps'"
    and "pushed_writes ps = pushed_writes ps'"
    and "\<forall>(k, v, d) \<in> pushed_writes ps. \<forall>(k', v', d') \<in> pushed_writes ps. k = k' \<longrightarrow> v = v' \<longrightarrow> d = d'"
  shows "blob_content (sync_blobs (push_all ps s)) k = blob_content (sync_blobs (push_all ps' s)) k"
proof -
  let ?W = "concat (map (\<lambda>(e, u, items). push_writes e u items) ps)"
  let ?W' = "concat (map (\<lambda>(e, u, items). push_writes e u items) ps')"
  have mem: "(write_key w, write_version w, write_payload w) \<in> pushed_writes ps" if "w \<in> set ?W" for w
    using that set_pushed_writes [of ps] by blast
  have "consistent_writes write_key write_version write_payload (set ?W)"
    unfolding consistent_writes_def
  proof (intro ballI impI)
    fix a b assume "a \<in> set ?W" "b \<in> set ?W" "write_key a = write_key b" "write_version a = write_version b"
    with bspec [OF assms(5) mem, of a] mem [of b] show "write_payload a = write_payload b" by fastforce
  qed
  then show ?thesis
    unfolding push_all_writes [OF assms(2)] push_all_writes [OF assms(3)]
    using assms(1,4) by (intro blobs.converge) (simp_all only: set_pushed_writes)
qed

lemma sync_equal_versions_diverge:
  "blob_content (sync_blobs (push_all [(demo_env, 1, [demo_item 7 1]), (demo_env, 1, [(demo_item 7 1)\<lparr>it_EncryptedData := [9]\<rparr>])] empty_sync))
      (1, ''note'', 7)
   \<noteq> blob_content (sync_blobs (push_all [(demo_env, 1, [(demo_item 7 1)\<lparr>it_EncryptedData := [9]\<rparr>]), (demo_env, 1, [demo_item 7 1])] empty_sync))
      (1, ''note'', 7)"
  by code_simp

theorem sync_replicas_converge_witness:
  "blob_content (sync_blobs (push_all [(demo_env, 1, [demo_item 7 1, demo_item 7 2])] empty_sync)) (1, ''note'', 7)
   = blob_content (sync_blobs (push_all [(demo_env, 1, [demo_item 7 2]), (demo_env, 1, [demo_item 7 1])] empty_sync))
       (1, ''note'', 7)"
proof (rule sync_replicas_converge)
  show "blob_table_ok (sync_blobs empty_sync)" by (simp add: empty_sync_def blob_table_ok_def)
qed (auto simp: push_fine_def demo_env_def item_encodable_def int4_ok_def demo_item_def pushed_writes_def
    item_write_def item_payload_def)

text \<open>What a push accepts is stored. When no two items of a push address the same key, every
  item is accepted exactly when the stored version was absent or lower, and afterwards an accepted
  item is stored under its key with exactly the pushed version and payload; the keys of
  rejected items and all other keys keep what they had.\<close>

theorem sync_push_durable:
  assumes "sync_Push e u items s = (resp, s')" and "blob_table_ok (sync_blobs s)"
    and "e_batch e = no_batch_faults" and "list_all item_encodable items"
    and "distinct (map (item_key u) items)" and "it \<in> set items" and "k \<notin> set (map (item_key u) items)"
  shows "blob_content (sync_blobs s') (item_key u it) =
      (if lww_accepts (item_key u it) (it_Version it) (blob_content (sync_blobs s))
       then Some (it_Version it, item_payload it) else blob_content (sync_blobs s) (item_key u it))
    \<and> blob_content (sync_blobs s') k = blob_content (sync_blobs s) k
    \<and> p_Accepted resp = map it_ItemID
        (filter (\<lambda>it. lww_accepts (item_key u it) (it_Version it) (blob_content (sync_blobs s))) items)"
proof -
  let ?m = "blob_content (sync_blobs s)" and ?acc = "\<lambda>it. lww_accepts (item_key u it) (it_Version it) (blob_content (sync_blobs s))"
  have t: "sync_blobs s' = fold apply_write (push_writes e u items) (sync_blobs s)"
    using sync_Push_no_faults [OF assms(3,4), of u s] assms(1) by simp
  have from_item: "\<exists>x \<in> set items. write_key w = item_key u x \<and> write_version w = it_Version x \<and> write_payload w = item_payload x"
    if "w \<in> set (push_writes e u items)" for w
    using that set_push_writes [of e u items] by (force simp: item_write_def)
  have "item_write u it \<in> (\<lambda>w. (write_key w, write_version w, write_payload w)) ` set (push_writes e u items)"
    using assms(6) by (simp add: set_push_writes)
  then obtain w where w: "w \<in> set (push_writes e u items)" "write_key w = item_key u it"
      "write_version w = it_Version it" "write_payload w = item_payload it"
    by (auto simp: item_write_def)
  have only: "x = it" if "x \<in> set items" "item_key u x = item_key u it" for x
    using assms(5,6) that by (auto simp: distinct_map inj_on_def)
  have src: "blob_content (sync_blobs s') (item_key u it) = ?m (item_key u it)
      \<or> blob_content (sync_blobs s') (item_key u it) = Some (it_Version it, item_payload it) \<and> ?acc it"
    using blobs.look_source [OF assms(2), of "push_writes e u items" "item_key u it"] from_item only
    unfolding t [symmetric] by (metis lww_accepts_iff)
  have up: "version_le (Some (it_Version it, item_payload it)) (blob_content (sync_blobs s') (item_key u it))"
    using blobs.look_written [OF assms(2) w(1)] w by (simp add: t)
  have "blob_content (sync_blobs s') (item_key u it) =
      (if ?acc it then Some (it_Version it, item_payload it) else ?m (item_key u it))"
    using src up lww_accepts_iff [of "item_key u it" "it_Version it" ?m "item_payload it"] by auto
  moreover have "blob_content (sync_blobs s') k = ?m k"
    using blobs.look_source [OF assms(2), of "push_writes e u items" k] from_item assms(7) unfolding t by force
  moreover have "fst (lww_run (map (item_write u) items) ?m) = map ?acc items"
    using assms(5) by (subst lww_run_distinct) (simp_all add: item_write_def comp_def)
  then have "p_Accepted resp = map it_ItemID (filter ?acc items)"
    using sync_Push_exact [OF assms(1,3,4)] by (simp add: filter_zip_map comp_def)
  ultimately show ?thesis by simp
qed

theorem sync_push_durable_witness:
  "p_Accepted (fst (sync_Push demo_env 1 [demo_item 7 1, demo_item 8 1] empty_sync)) = [7, 8]"
  using sync_push_durable [OF prod.collapse [symmetric], where e = demo_env and u = 1 and s = empty_sync
      and items = "[demo_item 7 1, demo_item 8 1]" and it = "demo_item 7 1" and k = "(2, '''', 0)"]
  by (simp add: demo_env_def empty_sync_def blob_table_ok_def item_encodable_def int4_ok_def demo_item_def
      item_key_def lww_accepts_def blob_content_def)

section \<open>Pulling in pages\<close>

text \<open>A client that pulls everything newer than \<open>since\<close>: it asks for pages, continuing from the
  cursor of the previous one, until the server says there is no more. The fuel bounds the number
  of pages; \<open>None\<close> means it ran out, or a pull failed.\<close>

fun pull_loop :: "nat \<Rightarrow> uuid \<Rightarrow> int \<Rightarrow> int \<Rightarrow> int \<Rightarrow> SyncState \<Rightarrow> SyncBlob list option" where
  "pull_loop 0 u since cursor limit s = None"
| "pull_loop (Suc n) u since cursor limit s =
     (case sync_Pull no_faults u since limit cursor s of
        None \<Rightarrow> None
      | Some resp \<Rightarrow>
          if pl_HasMore resp
          then map_option (\<lambda>rest. pl_Blobs resp @ rest) (pull_loop n u since (pl_NextCursor resp) limit s)
          else Some (pl_Blobs resp))"

text \<open>The rows of a user beyond a version, in version order.\<close>

definition rows_after :: "uuid \<Rightarrow> int \<Rightarrow> SyncState \<Rightarrow> SyncBlob list" where
  "rows_after u c s = order_by b_Version (filter (\<lambda>b. b_UserID b = u \<and> b_Version b > c) (sync_blobs s))"

definition versions_fit :: "uuid \<Rightarrow> SyncState \<Rightarrow> bool" where
  "versions_fit u s \<longleftrightarrow> list_all (\<lambda>b. b_UserID b = u \<longrightarrow> int4_ok (b_Version b)) (sync_blobs s)"

lemma rows_after_later: "c \<le> d \<Longrightarrow> rows_after u d s = filter (\<lambda>b. b_Version b > d) (rows_after u c s)"
  unfolding rows_after_def order_by_def filter_sort filter_filter
  by (rule arg_cong [where f = "sort_key b_Version"]) (auto intro: filter_cong)

lemma set_rows_after: "set (rows_after u c s) = {b \<in> set (sync_blobs s). b_UserID b = u \<and> b_Version b > c}"
  by (auto simp: rows_after_def)

lemma sorted_rows_after: "sorted (map b_Version (rows_after u c s))"
  by (simp add: rows_after_def)

text \<open>In a strictly increasing list, what lies beyond the last element of a prefix is the rest.\<close>

lemma filter_beyond_take:
  fixes f :: "'a \<Rightarrow> int"
  assumes "sorted (map f xs)" and "distinct (map f xs)" and "0 < n" and "n \<le> length xs"
  shows "filter (\<lambda>x. f x > f (xs ! (n - 1))) xs = drop n xs"
proof -
  have "sorted_wrt (<) (map f xs)" using assms(1,2) by (simp add: strict_sorted_iff)
  then have lt: "f (xs ! i) < f (xs ! j)" if "i < j" "j < length xs" for i j
    using that sorted_wrt_nth_less [of "(<)" "map f xs" i j] by simp
  have "\<not> f x > f (xs ! (n - 1))" if x: "x \<in> set (take n xs)" for x
  proof -
    obtain i where i: "i < n" "x = xs ! i" using x assms(4) by (auto simp: in_set_conv_nth)
    show ?thesis
    proof (cases "i = n - 1")
      case False
      then have "i < n - 1" using i(1) by simp
      moreover have "n - 1 < length xs" using assms(3,4) by linarith
      ultimately show ?thesis using lt [of i "n - 1"] i(2) by simp
    qed (use i in simp)
  qed
  then have "filter (\<lambda>x. f x > f (xs ! (n - 1))) (take n xs) = []" by (simp add: filter_empty_conv)
  moreover have "f x > f (xs ! (n - 1))" if x: "x \<in> set (drop n xs)" for x
  proof -
    obtain i where i: "n + i < length xs" "x = xs ! (n + i)" 
      using x by (fastforce simp: in_set_conv_nth less_diff_conv add.commute)
    then show ?thesis using lt [of "n - 1" "n + i"] assms(3) by simp
  qed
  then have "filter (\<lambda>x. f x > f (xs ! (n - 1))) (drop n xs) = drop n xs" by (simp add: filter_id_conv)
  ultimately show ?thesis by (metis append_take_drop_id filter_append append_Nil)
qed

lemma sync_Pull_page:
  assumes "int4_ok c" and "versions_fit u s" and "1 \<le> limit" and "c = (if cursor > 0 then cursor else since)"
    and "rows_after u c s \<noteq> []"
  shows "\<exists>resp. sync_Pull no_faults u since limit cursor s = Some resp
    \<and> pl_Blobs resp = take (nat limit) (rows_after u c s)
    \<and> pl_NextCursor resp = b_Version (last (take (nat limit) (rows_after u c s)))
    \<and> (pl_HasMore resp \<longleftrightarrow> rows_after u (pl_NextCursor resp) s \<noteq> [])"
proof -
  let ?page = "take (nat limit) (rows_after u c s)" and ?v = "b_Version (last (take (nat limit) (rows_after u c s)))"
  have ne: "?page \<noteq> []" using assms(3,5) by simp
  then have "last ?page \<in> set (rows_after u c s)" by (meson in_set_takeD last_in_set)
  then have "int4_ok ?v" using assms(2) by (auto simp: set_rows_after versions_fit_def list_all_iff)
  moreover have "rows_after u ?v s \<noteq> [] \<longleftrightarrow> list_ex (\<lambda>b. b_UserID b = u \<and> b_Version b > ?v) (sync_blobs s)"
    by (auto simp: set_empty [symmetric] set_rows_after list_ex_iff simp del: set_empty)
  ultimately show ?thesis
    using assms(1,3,4) ne
    by (simp add: sync_Pull_def PullSincePaginated_def HasMoreSince_def rows_after_def [symmetric] Let_def)
qed

text \<open>One round of the loop: it stops with the rest, or goes on from a later cursor with less left.\<close>

lemma pull_loop_round:
  assumes "distinct (map b_Version (rows_after u c s))" and "rows_after u c s \<noteq> []" and "1 \<le> limit"
  defines "v \<equiv> b_Version (last (take (nat limit) (rows_after u c s)))"
  shows "c < v \<and> take (nat limit) (rows_after u c s) @ rows_after u v s = rows_after u c s
    \<and> length (rows_after u v s) < length (rows_after u c s)"
proof -
  let ?R = "rows_after u c s" and ?n = "min (nat limit) (length (rows_after u c s))"
  have n: "0 < ?n" "?n \<le> length ?R" using assms(2,3) by auto
  have v: "v = b_Version (?R ! (?n - 1))"
    using assms(2,3) n by (auto simp: v_def last_conv_nth min_def)
  have "?n - 1 < length ?R" using n by linarith
  then have "?R ! (?n - 1) \<in> set ?R" by (rule nth_mem)
  then have "c < v" unfolding v by (simp add: set_rows_after)
  moreover have "rows_after u v s = drop ?n ?R"
    using rows_after_later [OF less_imp_le [OF \<open>c < v\<close>], of u s]
      filter_beyond_take [OF sorted_rows_after assms(1) n] by (simp only: v)
  ultimately show ?thesis using n by (auto simp: min_def)
qed

lemma pull_loop_complete:
  assumes "versions_fit u s" and "1 \<le> limit" and "0 \<le> since"
    and "int4_ok c" and "c = (if cursor > 0 then cursor else since)"
    and "distinct (map b_Version (rows_after u c s))" and "length (rows_after u c s) < n"
  shows "pull_loop n u since cursor limit s = Some (rows_after u c s)"
  using assms
proof (induction n arbitrary: c cursor)
  case (Suc n)
  show ?case
  proof (cases "rows_after u c s = []")
    case True
    then show ?thesis
      using Suc.prems(2,4,5)
      by (simp add: sync_Pull_def PullSincePaginated_def rows_after_def [symmetric] Let_def)
  next
    case False
    let ?v = "b_Version (last (take (nat limit) (rows_after u c s)))"
    obtain resp where R: "sync_Pull no_faults u since limit cursor s = Some resp"
      "pl_Blobs resp = take (nat limit) (rows_after u c s)" "pl_NextCursor resp = ?v"
      "pl_HasMore resp \<longleftrightarrow> rows_after u ?v s \<noteq> []"
      using sync_Pull_page [OF Suc.prems(4,1,2,5) False] by auto
    note round = pull_loop_round [OF Suc.prems(6) False Suc.prems(2)]
    have "0 < ?v" using round Suc.prems(3,5) by (auto split: if_splits)
    have "take (nat limit) (rows_after u c s) \<noteq> []" using False Suc.prems(2) by simp
    then have "last (take (nat limit) (rows_after u c s)) \<in> set (rows_after u c s)"
      by (meson in_set_takeD last_in_set)
    then have "int4_ok ?v" using Suc.prems(1) by (auto simp: set_rows_after versions_fit_def list_all_iff)
    moreover have "distinct (map b_Version (rows_after u ?v s))"
      using Suc.prems(6) round by (metis distinct_append map_append)
    ultimately have "pull_loop n u since ?v limit s = Some (rows_after u ?v s)"
      using Suc.prems round \<open>0 < ?v\<close> by (intro Suc.IH) auto
    then show ?thesis using R round by auto
  qed
qed simp

section \<open>Properties of pulls and reports\<close>

text \<open>C9: paging delivers everything, once, in order. When the versions of a user's items beyond
  \<open>since\<close> are pairwise different, a client that follows the cursors with any page size from 1 on
  gets, after at most as many pages as there are such items plus one, exactly the items newer
  than \<open>since\<close>, in version order and without repetition, and the loop ends.\<close>

theorem sync_pull_complete:
  assumes "versions_fit u s" and "1 \<le> limit" and "0 \<le> since" and "int4_ok since"
    and "distinct (map b_Version (rows_after u since s))" and "length (rows_after u since s) < n"
  shows "pull_loop n u since 0 limit s = Some (rows_after u since s)
    \<and> set (rows_after u since s) = {b \<in> set (sync_blobs s). b_UserID b = u \<and> b_Version b > since}
    \<and> sorted_wrt (<) (map b_Version (rows_after u since s))"
  using pull_loop_complete [OF assms(1-4), of 0] assms(5,6)
  by (simp add: set_rows_after sorted_rows_after strict_sorted_iff)

definition demo_blob :: "uuid \<Rightarrow> int \<Rightarrow> SyncBlob" where
  "demo_blob i v = \<lparr>b_ID = 500 + i, b_UserID = 1, b_ItemType = ''note'', b_ItemID = i, b_Version = v,
     b_EncryptedData = [1], b_BlobSize = 1, b_DeviceID = ''phone'', b_CreatedAt = 0, b_UpdatedAt = 0\<rparr>"

definition demo_sync :: "SyncBlob list \<Rightarrow> SyncState" where
  "demo_sync t = \<lparr>sync_blobs = t, sync_operation_logs = [], conflict_pushes = []\<rparr>"

theorem sync_pull_complete_witness:
  "pull_loop 5 1 0 0 2 (demo_sync [demo_blob 7 3, demo_blob 8 1, demo_blob 9 2])
   = Some [demo_blob 8 1, demo_blob 9 2, demo_blob 7 3]"
proof -
  let ?s = "demo_sync [demo_blob 7 3, demo_blob 8 1, demo_blob 9 2]"
  have R: "rows_after 1 0 ?s = [demo_blob 8 1, demo_blob 9 2, demo_blob 7 3]"
    by (simp add: rows_after_def order_by_def demo_sync_def demo_blob_def)
  then show ?thesis
    using sync_pull_complete [of 1 ?s 2 0 5]
    by (simp add: R versions_fit_def demo_sync_def demo_blob_def int4_ok_def)
qed

text \<open>Every page of a loop with page size 1 has one row, of a version beyond the previous one.\<close>

lemma pull_loop_single:
  assumes "versions_fit u s" and "0 \<le> since" and "int4_ok c" and "c = (if cursor > 0 then cursor else since)"
    and "pull_loop n u since cursor 1 s = Some bs"
  shows "sorted_wrt (<) (map b_Version bs) \<and> (\<forall>b \<in> set bs. c < b_Version b)"
  using assms(3-5)
proof (induction n arbitrary: c cursor bs)
  case (Suc n)
  show ?case
  proof (cases "rows_after u c s")
    case Nil
    then show ?thesis
      using Suc.prems
      by (auto simp: sync_Pull_def PullSincePaginated_def rows_after_def [symmetric] Let_def)
  next
    case (Cons b rest)
    then have b: "b \<in> set (sync_blobs s)" "b_UserID b = u" "c < b_Version b"
      using set_rows_after [of u c s] by auto
    have fit: "int4_ok (b_Version b)" using b assms(1) by (auto simp: versions_fit_def list_all_iff)
    obtain resp where R: "sync_Pull no_faults u since 1 cursor s = Some resp" "pl_Blobs resp = [b]"
      "pl_NextCursor resp = b_Version b"
      using sync_Pull_page [OF Suc.prems(1) assms(1) _ Suc.prems(2), of 1] Cons by auto
    have pos: "0 < b_Version b" using b(3) assms(2) Suc.prems(2) by (auto split: if_splits)
    show ?thesis
    proof (cases "pl_HasMore resp")
      case True
      then obtain rest' where "pull_loop n u since (b_Version b) 1 s = Some rest'" "bs = b # rest'"
        using Suc.prems(3) R by auto
      then show ?thesis using Suc.IH [OF fit, of "b_Version b" rest'] pos b(3) by auto
    next
      case False
      then show ?thesis using Suc.prems(3) R b(3) by auto
    qed
  qed
qed simp

text \<open>Paging can lose items. The cursor is a version, and the next page starts strictly beyond
  it: with page size 1, of two items of a user that carry the same version at most one is
  delivered, however many pages are pulled.\<close>

theorem sync_pull_loses_equal_versions:
  assumes "versions_fit u s" and "0 \<le> since" and "int4_ok since"
    and "pull_loop n u since 0 1 s = Some bs"
    and "a \<in> set (sync_blobs s)" and "b \<in> set (sync_blobs s)" and "a \<noteq> b" and "b_Version a = b_Version b"
  shows "a \<notin> set bs \<or> b \<notin> set bs"
proof -
  have "sorted_wrt (<) (map b_Version bs)"
    using pull_loop_single [OF assms(1,2,3), of 0 n bs] assms(4) by simp
  then have "distinct (map b_Version bs)" by (simp add: strict_sorted_iff)
  then show ?thesis using assms(7,8) by (auto simp: distinct_map inj_on_def)
qed

theorem sync_pull_loses_equal_versions_witness:
  "pull_loop 9 1 0 0 1 (demo_sync [demo_blob 7 1, demo_blob 8 1]) = Some [demo_blob 7 1]
   \<and> demo_blob 8 1 \<notin> set [demo_blob 7 1]"
proof -
  let ?s = "demo_sync [demo_blob 7 1, demo_blob 8 1]"
  have L: "pull_loop 9 1 0 0 1 ?s = Some [demo_blob 7 1]"
    by (simp add: numeral_eq_Suc sync_Pull_def PullSincePaginated_def HasMoreSince_def GetLatestVersion_def
        order_by_def demo_sync_def demo_blob_def int4_ok_def Let_def)
  then show ?thesis
    using sync_pull_loses_equal_versions [of 1 ?s 0 9 "[demo_blob 7 1]" "demo_blob 7 1" "demo_blob 8 1"]
    by (simp add: versions_fit_def demo_sync_def demo_blob_def int4_ok_def)
qed

lemma group_counts_sum:
  assumes "finite S" and "g ` set xs \<subseteq> S"
  shows "(\<Sum>y \<in> S. count_rows (\<lambda>x. g x = y) xs) = length xs"
  using assms(2)
proof (induction xs)
  case (Cons x xs)
  have "(\<Sum>y \<in> S. count_rows (\<lambda>x. g x = y) (x # xs)) = (\<Sum>y \<in> S. count_rows (\<lambda>x. g x = y) xs + (if y = g x then 1 else 0))"
    by (intro sum.cong) auto
  also have "\<dots> = length xs + 1"
    using Cons assms(1) by (simp add: sum.distrib sum.delta')
  finally show ?case by simp
qed simp

lemma items_by_type_sum:
  assumes "GetItemsByType False u t = Some types"
  shows "sum_list (map snd types) = count_rows (\<lambda>b. b_UserID b = u) t"
proof -
  let ?mine = "filter (\<lambda>b. b_UserID b = u) t"
  have "sum_list (map snd types) = sum_list (map (\<lambda>ty. count_rows (\<lambda>b. b_ItemType b = ty) ?mine) (remdups (map b_ItemType ?mine)))"
    using assms by (auto simp: GetItemsByType_def Let_def comp_def)
  also have "\<dots> = (\<Sum>ty \<in> b_ItemType ` set ?mine. count_rows (\<lambda>b. b_ItemType b = ty) ?mine)"
    by (subst sum_list_distinct_conv_sum_set) auto
  also have "\<dots> = length ?mine" by (intro group_counts_sum) auto
  finally show ?thesis by (simp add: count_rows_def)
qed

lemma conflict_logs_count:
  assumes "map l_Version logs = map (\<lambda>(it, a). if a then it_Version it else 0) ps"
    and "list_all (\<lambda>l. l_UserID l = u \<and> l_OperationType l = ''push'') logs"
    and "\<forall>p \<in> set ps. it_Version (fst p) \<noteq> 0"
  shows "count_rows (\<lambda>l. l_UserID l = u \<and> l_OperationType l = ''push'' \<and> l_Version l = 0) logs
    = length (filter (Not \<circ> snd) ps)"
  using assms
proof (induction ps arbitrary: logs)
  case (Cons p ps)
  then obtain l ls where "logs = l # ls" by (cases logs) auto
  then show ?case using Cons by (cases p) auto
qed simp

text \<open>The statistics are right. The per-type counts of the statistics add up to the reported
  total, which is the number of the user's items; and a push whose log entries can be written
  raises the reported number of conflicts by exactly the number of conflicts in its response,
  provided no client version is 0 (the value that marks a conflict in the log).\<close>

theorem sync_stats_correct:
  assumes "sync_Push e u items s = (resp, s')" and "\<not> e_log e" and "list_all item_encodable items"
    and "\<forall>it \<in> set items. it_Version it \<noteq> 0"
    and "sync_GetStats no_faults u s = Some before" and "sync_GetStats no_faults u s' = Some after"
  shows "sts_TotalConflicts after = sts_TotalConflicts before + length (p_Conflicts resp)
    \<and> sum_list (map snd (sts_ItemsByType after)) = sts_TotalItems after
    \<and> sts_TotalItems after = count_rows (\<lambda>b. b_UserID b = u) (sync_blobs s')"
proof -
  let ?P = "\<lambda>l. l_UserID l = u \<and> l_OperationType l = ''push'' \<and> l_Version l = 0"
  have st: "sts_TotalConflicts x = count_rows ?P (sync_operation_logs y)
      \<and> GetItemsByType False u (sync_blobs y) = Some (sts_ItemsByType x)
      \<and> sts_TotalItems x = count_rows (\<lambda>b. b_UserID b = u) (sync_blobs y)"
    if "sync_GetStats no_faults u y = Some x" for x y
    using that by (auto simp: sync_GetStats_def GetStatusSummary_def GetConflictCount_def count_rows_def
        Let_def split: option.splits)
  have "count_rows ?P (sync_operation_logs s') = count_rows ?P (sync_operation_logs s) + length (p_Conflicts resp)"
    using sync_Push_cases [OF assms(1)]
  proof (elim disjE exE conjE)
    fix accs logs
    assume v: "map l_Version logs = map (\<lambda>(it, a). if a then it_Version it else 0) (zip items accs)"
      and a: "list_all (\<lambda>l. l_UserID l = u \<and> l_OperationType l = ''push'') logs"
      and c: "p_Conflicts resp = map (item_conflict u (sync_blobs s') \<circ> fst) (filter (Not \<circ> snd) (zip items accs))"
      and l: "sync_operation_logs s' = snd (BatchInsertOperationLogs (e_log e) logs (sync_operation_logs s))"
    have "int4_ok x" if "x \<in> set (map l_Version logs)" for x
      using that assms(3) unfolding v
      by (auto simp: list_all_iff item_encodable_def int4_ok_def dest!: set_zip_leftD split: if_splits)
    then have "sync_operation_logs s' = sync_operation_logs s @ logs"
      using l assms(2) by (auto simp: BatchInsertOperationLogs_def list_all_iff)
    moreover have "\<forall>p \<in> set (zip items accs). it_Version (fst p) \<noteq> 0"
      using assms(4) by (auto dest: set_zip_leftD)
    ultimately show ?thesis using conflict_logs_count [OF v a] c by simp
  qed simp
  then show ?thesis
    using st [OF assms(5)] st [OF assms(6)] items_by_type_sum [of u "sync_blobs s'"] by simp
qed

theorem sync_stats_correct_witness:
  "\<exists>before after. sync_GetStats no_faults 1 empty_sync = Some before
    \<and> sync_GetStats no_faults 1 (snd (sync_Push demo_env 1 [demo_item 7 1, demo_item 7 1] empty_sync)) = Some after
    \<and> sum_list (map snd (sts_ItemsByType after)) = sts_TotalItems after"
proof -
  let ?s' = "snd (sync_Push demo_env 1 [demo_item 7 1, demo_item 7 1] empty_sync)"
  have some: "\<exists>x. sync_GetStats no_faults 1 s = Some x" for s
    by (simp add: sync_GetStats_def GetStatusSummary_def GetItemsByType_def GetConflictCount_def Let_def)
  obtain a b where ab: "sync_GetStats no_faults 1 empty_sync = Some a" "sync_GetStats no_faults 1 ?s' = Some b"
    using some by blast
  moreover have "sum_list (map snd (sts_ItemsByType b)) = sts_TotalItems b"
    using sync_stats_correct [OF prod.collapse [symmetric] _ _ _ ab]
    by (simp add: demo_env_def demo_item_def item_encodable_def int4_ok_def)
  ultimately show ?thesis by blast
qed

end
