(* ===== verification/Circuit_Breaker.thy ===== *)
theory Circuit_Breaker
  imports AnyNote_Prelude
begin

text \<open>
  The three-state circuit breaker of \<^verbatim>\<open>internal/llm/circuit_breaker.go\<close>. Every method holds the
  mutex, so a method call is one atomic step; the clock readings are arguments. The callback
  \<^verbatim>\<open>onStateChange\<close> is recorded: \<open>changes\<close> lists its invocations, newest first. The zero
  \<open>time.Time\<close> of a new breaker is the argument-free constant 0; no transition reads it before
  a failure has set it.
\<close>

datatype State = StateClosed | StateOpen | StateHalfOpen

record CircuitBreaker =
  state :: State
  failures :: int
  successes :: int
  lastFailureTime :: time
  failureThreshold :: int
  successThreshold :: int
  openTimeout :: duration
  halfOpenMaxReqs :: int
  halfOpenReqs :: int
  changes :: "(State \<times> State) list"

type_synonym CircuitBreakerOption = "CircuitBreaker \<Rightarrow> CircuitBreaker"

definition WithFailureThreshold :: "int \<Rightarrow> CircuitBreakerOption" where
  "WithFailureThreshold n cb = cb\<lparr>failureThreshold := n\<rparr>"

definition WithSuccessThreshold :: "int \<Rightarrow> CircuitBreakerOption" where
  "WithSuccessThreshold n cb = cb\<lparr>successThreshold := n\<rparr>"

definition WithOpenTimeout :: "duration \<Rightarrow> CircuitBreakerOption" where
  "WithOpenTimeout d cb = cb\<lparr>openTimeout := d\<rparr>"

definition WithHalfOpenMaxRequests :: "int \<Rightarrow> CircuitBreakerOption" where
  "WithHalfOpenMaxRequests n cb = cb\<lparr>halfOpenMaxReqs := n\<rparr>"

definition NewCircuitBreaker :: "CircuitBreakerOption list \<Rightarrow> CircuitBreaker" where
  "NewCircuitBreaker opts =
     fold (\<lambda>opt cb. opt cb) opts
       \<lparr>state = StateClosed, failures = 0, successes = 0, lastFailureTime = 0,
        failureThreshold = 5, successThreshold = 3, openTimeout = 30 * second,
        halfOpenMaxReqs = 1, halfOpenReqs = 0, changes = []\<rparr>"

definition setState :: "State \<Rightarrow> CircuitBreaker \<Rightarrow> CircuitBreaker" where
  "setState newState cb =
     (if state cb = newState then cb
      else let old = state cb;
               cb1 = cb\<lparr>state := newState\<rparr>;
               cb2 = (case newState of
                        StateClosed \<Rightarrow> cb1\<lparr>failures := 0, successes := 0, halfOpenReqs := 0\<rparr>
                      | StateOpen \<Rightarrow> cb1\<lparr>successes := 0, halfOpenReqs := 0\<rparr>
                      | StateHalfOpen \<Rightarrow> cb1\<lparr>failures := 0, successes := 0, halfOpenReqs := 0\<rparr>)
           in cb2\<lparr>changes := (old, newState) # changes cb2\<rparr>)"

text \<open>The result \<open>True\<close> is the Go \<open>nil\<close> error, \<open>False\<close> is \<^verbatim>\<open>ErrCircuitOpen\<close>.\<close>

definition cb_Allow :: "time \<Rightarrow> CircuitBreaker \<Rightarrow> bool \<times> CircuitBreaker" where
  "cb_Allow now cb =
     (case state cb of
        StateClosed \<Rightarrow> (True, cb)
      | StateOpen \<Rightarrow>
          if now - lastFailureTime cb > openTimeout cb
          then (True, (setState StateHalfOpen cb)\<lparr>halfOpenReqs := 1\<rparr>)
          else (False, cb)
      | StateHalfOpen \<Rightarrow>
          if halfOpenReqs cb \<ge> halfOpenMaxReqs cb then (False, cb)
          else (True, cb\<lparr>halfOpenReqs := halfOpenReqs cb + 1\<rparr>))"

definition RecordSuccess :: "CircuitBreaker \<Rightarrow> CircuitBreaker" where
  "RecordSuccess cb =
     (case state cb of
        StateHalfOpen \<Rightarrow>
          (let cb1 = cb\<lparr>successes := successes cb + 1\<rparr>;
               cb2 = (if halfOpenReqs cb1 > 0 then cb1\<lparr>halfOpenReqs := halfOpenReqs cb1 - 1\<rparr> else cb1)
           in if successes cb2 \<ge> successThreshold cb2 then setState StateClosed cb2 else cb2)
      | StateClosed \<Rightarrow> cb\<lparr>failures := 0\<rparr>
      | StateOpen \<Rightarrow> cb)"

definition RecordFailure :: "time \<Rightarrow> CircuitBreaker \<Rightarrow> CircuitBreaker" where
  "RecordFailure now cb0 =
     (let cb = cb0\<lparr>lastFailureTime := now\<rparr> in
      case state cb of
        StateClosed \<Rightarrow>
          (let cb1 = cb\<lparr>failures := failures cb + 1\<rparr>
           in if failures cb1 \<ge> failureThreshold cb1 then setState StateOpen cb1 else cb1)
      | StateHalfOpen \<Rightarrow>
          (let cb1 = (if halfOpenReqs cb > 0 then cb\<lparr>halfOpenReqs := halfOpenReqs cb - 1\<rparr> else cb)
           in setState StateOpen cb1)
      | StateOpen \<Rightarrow> cb)"

definition cb_State :: "CircuitBreaker \<Rightarrow> State" where
  "cb_State cb = state cb"

section \<open>The breaker as a state machine\<close>

text \<open>One step is one method call by some goroutine, at some clock reading.\<close>

datatype cb_event = EvAllow time bool | EvSuccess | EvFailure time

inductive cb_step :: "CircuitBreaker \<Rightarrow> cb_event \<Rightarrow> CircuitBreaker \<Rightarrow> bool" where
  allow: "cb_Allow now cb = (d, cb') \<Longrightarrow> cb_step cb (EvAllow now d) cb'"
| success: "cb_step cb EvSuccess (RecordSuccess cb)"
| failure: "cb_step cb (EvFailure now) (RecordFailure now cb)"

inductive cb_reachable :: "CircuitBreaker \<Rightarrow> CircuitBreaker \<Rightarrow> bool" for cb0 where
  start: "cb_reachable cb0 cb0"
| step: "cb_reachable cb0 cb \<Longrightarrow> cb_step cb e cb' \<Longrightarrow> cb_reachable cb0 cb'"

inductive_cases cb_allowE: "cb_step cb (EvAllow now d) cb'"
inductive_cases cb_failureE: "cb_step cb (EvFailure now) cb'"

text \<open>
  A breaker is well formed when its counters agree with its state: a closed circuit has seen
  fewer failures than trip it, a half-open one has recorded fewer successes than close it and
  lets through at most the configured number of probes, and a reopened one starts from zero.
\<close>

definition cb_config_ok :: "CircuitBreaker \<Rightarrow> bool" where
  "cb_config_ok cb \<longleftrightarrow> failureThreshold cb > 0 \<and> successThreshold cb > 0 \<and> halfOpenMaxReqs cb > 0"

definition cb_wf :: "CircuitBreaker \<Rightarrow> bool" where
  "cb_wf cb \<longleftrightarrow>
     (case state cb of
        StateClosed \<Rightarrow> 0 \<le> failures cb \<and> failures cb < failureThreshold cb
                     \<and> successes cb = 0 \<and> halfOpenReqs cb = 0
      | StateOpen \<Rightarrow> successes cb = 0 \<and> halfOpenReqs cb = 0
      | StateHalfOpen \<Rightarrow> failures cb = 0 \<and> 0 \<le> successes cb \<and> successes cb < successThreshold cb
                     \<and> 0 \<le> halfOpenReqs cb \<and> halfOpenReqs cb \<le> halfOpenMaxReqs cb)"

text \<open>What the metrics callback has been told: the target of its latest invocation.\<close>

definition reported_state :: "CircuitBreaker \<Rightarrow> State" where
  "reported_state cb = (case changes cb of [] \<Rightarrow> StateClosed | (_, to) # _ \<Rightarrow> to)"

text \<open>A request that succeeds, or fails, on its own: admission followed by its outcome.\<close>

fun probe_successes :: "time list \<Rightarrow> CircuitBreaker \<Rightarrow> CircuitBreaker" where
  "probe_successes [] cb = cb"
| "probe_successes (t # ts) cb =
     (let (d, cb') = cb_Allow t cb in probe_successes ts (if d then RecordSuccess cb' else cb'))"

fun record_failures :: "time list \<Rightarrow> CircuitBreaker \<Rightarrow> CircuitBreaker" where
  "record_failures [] cb = cb"
| "record_failures (t # ts) cb = record_failures ts (RecordFailure t cb)"

section \<open>Step lemmas\<close>

lemmas option_defs = WithFailureThreshold_def WithSuccessThreshold_def WithOpenTimeout_def
  WithHalfOpenMaxRequests_def

lemmas cb_defs = cb_Allow_def RecordSuccess_def RecordFailure_def setState_def Let_def

lemma setState_config [simp]:
  "failureThreshold (setState st cb) = failureThreshold cb"
  "successThreshold (setState st cb) = successThreshold cb"
  "openTimeout (setState st cb) = openTimeout cb"
  "halfOpenMaxReqs (setState st cb) = halfOpenMaxReqs cb"
  "lastFailureTime (setState st cb) = lastFailureTime cb"
  "state (setState st cb) = st"
  by (auto simp: setState_def Let_def split: State.splits)

lemma cb_step_config:
  assumes "cb_step cb e cb'"
  shows "failureThreshold cb' = failureThreshold cb" "successThreshold cb' = successThreshold cb"
    "openTimeout cb' = openTimeout cb" "halfOpenMaxReqs cb' = halfOpenMaxReqs cb"
  using assms
  by (induction rule: cb_step.induct)
    (auto simp: cb_Allow_def RecordSuccess_def RecordFailure_def Let_def split: State.splits if_splits)

lemma cb_config_ok_step: "cb_step cb e cb' \<Longrightarrow> cb_config_ok cb' = cb_config_ok cb"
  by (simp add: cb_config_ok_def cb_step_config)

lemma cb_wf_Allow: "cb_config_ok cb \<Longrightarrow> cb_wf cb \<Longrightarrow> cb_Allow now cb = (d, cb') \<Longrightarrow> cb_wf cb'"
  by (cases "state cb") (auto simp: cb_wf_def cb_config_ok_def cb_defs split: if_splits)

lemma cb_wf_RecordSuccess: "cb_config_ok cb \<Longrightarrow> cb_wf cb \<Longrightarrow> cb_wf (RecordSuccess cb)"
  by (cases "state cb") (auto simp: cb_wf_def cb_config_ok_def cb_defs)

lemma cb_wf_RecordFailure: "cb_config_ok cb \<Longrightarrow> cb_wf cb \<Longrightarrow> cb_wf (RecordFailure now cb)"
  by (cases "state cb") (auto simp: cb_wf_def cb_config_ok_def cb_defs)

lemma cb_wf_step: "cb_step cb e cb' \<Longrightarrow> cb_config_ok cb \<Longrightarrow> cb_wf cb \<Longrightarrow> cb_wf cb'"
  by (induction rule: cb_step.induct) (auto intro: cb_wf_Allow cb_wf_RecordSuccess cb_wf_RecordFailure)

lemma reported_state_step:
  "cb_step cb e cb' \<Longrightarrow> reported_state cb = state cb \<Longrightarrow> reported_state cb' = state cb'"
  by (induction rule: cb_step.induct)
    (auto simp: reported_state_def cb_defs split: State.splits if_splits list.splits)

lemma cb_reachable_wf:
  assumes "cb_reachable cb0 cb" and "cb_config_ok cb0" and "cb_wf cb0"
    and "reported_state cb0 = state cb0"
  shows "cb_config_ok cb \<and> cb_wf cb \<and> reported_state cb = state cb"
  using assms
  by (induction rule: cb_reachable.induct) (auto simp: cb_config_ok_step cb_wf_step reported_state_step)

lemma cb_reachable_config:
  assumes "cb_reachable cb0 cb"
  shows "failureThreshold cb = failureThreshold cb0 \<and> successThreshold cb = successThreshold cb0
    \<and> openTimeout cb = openTimeout cb0 \<and> halfOpenMaxReqs cb = halfOpenMaxReqs cb0"
  using assms by (induction rule: cb_reachable.induct) (auto simp: cb_step_config)

lemma NewCircuitBreaker_wf: "cb_wf (NewCircuitBreaker []) \<and> cb_config_ok (NewCircuitBreaker [])"
  by (simp add: cb_wf_def cb_config_ok_def NewCircuitBreaker_def)

lemma record_failures_open:
  "state cb = StateOpen \<Longrightarrow> state (record_failures ts cb) = StateOpen"
  by (induction ts arbitrary: cb) (auto simp: RecordFailure_def Let_def)

lemma record_failures_closed:
  assumes "state cb = StateClosed" and "failures cb < failureThreshold cb"
  shows "state (record_failures ts cb) =
    (if failures cb + int (length ts) \<ge> failureThreshold cb then StateOpen else StateClosed)"
  using assms
proof (induction ts arbitrary: cb)
  case (Cons t ts)
  show ?case
  proof (cases "failures cb + 1 \<ge> failureThreshold cb")
    case True
    then have "state (RecordFailure t cb) = StateOpen"
      using Cons.prems by (simp add: RecordFailure_def Let_def)
    then show ?thesis using True by (simp add: record_failures_open)
  next
    case False
    then show ?thesis
      using Cons.IH [of "RecordFailure t cb"] Cons.prems by (auto simp: RecordFailure_def Let_def)
  qed
qed simp

text \<open>Sequential probes in the half-open state: each one takes the slot and gives it back.\<close>

lemma probe_successes_half_open:
  assumes "state cb = StateHalfOpen" and "halfOpenReqs cb = 0" and "halfOpenMaxReqs cb > 0"
    and "0 \<le> successes cb" and "successes cb < successThreshold cb"
    and "int (length ts) = successThreshold cb - successes cb"
  shows "state (probe_successes ts cb) = StateClosed"
  using assms
proof (induction ts arbitrary: cb)
  case (Cons t ts)
  let ?cb = "cb\<lparr>successes := successes cb + 1, halfOpenReqs := 0\<rparr>"
  show ?case
  proof (cases "successes cb + 1 \<ge> successThreshold cb")
    case True
    moreover have "int (length ts) + 1 = successThreshold cb - successes cb"
      using Cons.prems(6) by simp
    ultimately have "length ts = 0" by linarith
    then have "ts = []" by simp
    then show ?thesis using True Cons.prems by (simp add: cb_defs)
  next
    case False
    then have "state (probe_successes ts ?cb) = StateClosed"
      using Cons.prems by (intro Cons.IH) auto
    moreover have "probe_successes (t # ts) cb = probe_successes ts ?cb"
      using False Cons.prems by (simp add: cb_Allow_def RecordSuccess_def Let_def)
    ultimately show ?thesis by simp
  qed
qed simp

text \<open>A half-open breaker whose probe slots are all taken rejects every request and stays as it is.\<close>

lemma half_open_full_stuck:
  assumes "state cb = StateHalfOpen" and "halfOpenReqs cb \<ge> halfOpenMaxReqs cb"
  shows "cb_Allow now cb = (False, cb)"
  using assms by (simp add: cb_Allow_def)

lemma half_open_full_stuck_step:
  assumes "state cb = StateHalfOpen" and "halfOpenReqs cb \<ge> halfOpenMaxReqs cb"
    and "cb_step cb (EvAllow now d) cb'"
  shows "\<not> d \<and> cb' = cb"
  using assms by (auto simp: half_open_full_stuck elim: cb_allowE)

section \<open>Properties\<close>

text \<open>C3: whatever sequence of method calls reaches a breaker from a freshly constructed one with
  positive thresholds, its counters agree with its state (\<open>cb_wf\<close>: a closed circuit has fewer
  failures than trip it, a half-open one admits at most \<open>halfOpenMaxReqs\<close> probes), the options
  still hold, and the state-change callback was last told exactly the current state.\<close>

theorem circuit_breaker_invariant:
  assumes "cb_reachable (NewCircuitBreaker opts) cb"
    and "cb_config_ok (NewCircuitBreaker opts)"
    and "opts = [WithFailureThreshold f, WithSuccessThreshold s, WithOpenTimeout d, WithHalfOpenMaxRequests h]"
  shows "cb_wf cb \<and> reported_state cb = cb_State cb
    \<and> failureThreshold cb = f \<and> successThreshold cb = s \<and> openTimeout cb = d \<and> halfOpenMaxReqs cb = h"
proof -
  have new: "cb_wf (NewCircuitBreaker opts)" "reported_state (NewCircuitBreaker opts) = state (NewCircuitBreaker opts)"
    and opt: "failureThreshold (NewCircuitBreaker opts) = f" "successThreshold (NewCircuitBreaker opts) = s"
      "openTimeout (NewCircuitBreaker opts) = d" "halfOpenMaxReqs (NewCircuitBreaker opts) = h"
    using assms(2,3) by (auto simp: NewCircuitBreaker_def option_defs cb_wf_def cb_config_ok_def reported_state_def)
  then show ?thesis
    using cb_reachable_wf [OF assms(1,2) new] cb_reachable_config [OF assms(1)] by (simp add: cb_State_def)
qed

theorem circuit_breaker_invariant_witness:
  "cb_wf (RecordFailure 7 (NewCircuitBreaker
     [WithFailureThreshold 1, WithSuccessThreshold 2, WithOpenTimeout 5, WithHalfOpenMaxRequests 3]))"
proof -
  let ?opts = "[WithFailureThreshold 1, WithSuccessThreshold 2, WithOpenTimeout 5, WithHalfOpenMaxRequests 3]"
  have "cb_reachable (NewCircuitBreaker ?opts) (RecordFailure 7 (NewCircuitBreaker ?opts))"
    by (rule cb_reachable.step [OF cb_reachable.start cb_step.failure])
  moreover have "cb_config_ok (NewCircuitBreaker ?opts)"
    by (simp add: cb_config_ok_def NewCircuitBreaker_def option_defs)
  ultimately show ?thesis using circuit_breaker_invariant [OF _ _ refl] by blast
qed

text \<open>A closed circuit trips exactly when the consecutive failures reach the threshold: after
  recording failures at the times \<open>ts\<close> it is open if and only if those failures together with the
  ones already counted are at least \<open>failureThreshold\<close>, and otherwise it is still closed and
  admits. One success in between clears the count.\<close>

theorem circuit_breaker_trips_at_threshold:
  assumes "cb_wf cb" and "state cb = StateClosed"
  shows "(state (record_failures ts cb) = StateOpen \<longleftrightarrow> failures cb + int (length ts) \<ge> failureThreshold cb)
    \<and> (failures cb + int (length ts) < failureThreshold cb \<longrightarrow> fst (cb_Allow now (record_failures ts cb)))
    \<and> (state (record_failures ts (RecordSuccess cb)) = StateOpen \<longleftrightarrow> int (length ts) \<ge> failureThreshold cb)"
proof -
  have f: "0 \<le> failures cb" "failures cb < failureThreshold cb" using assms by (auto simp: cb_wf_def)
  have "state (RecordSuccess cb) = StateClosed" "failures (RecordSuccess cb) = 0"
    "failureThreshold (RecordSuccess cb) = failureThreshold cb"
    using assms(2) by (auto simp: RecordSuccess_def)
  then show ?thesis
    using record_failures_closed [OF assms(2) f(2)] record_failures_closed [of "RecordSuccess cb"] f
    by (auto simp: cb_Allow_def)
qed

theorem circuit_breaker_trips_at_threshold_witness:
  "state (record_failures [1, 2, 3, 4, 5] (NewCircuitBreaker [])) = StateOpen"
  using circuit_breaker_trips_at_threshold [of "NewCircuitBreaker []" "[1, 2, 3, 4, 5]" 0]
  by (simp add: NewCircuitBreaker_def cb_wf_def)

text \<open>C4: recovery. An open circuit rejects every request until more than \<open>openTimeout\<close> has
  passed since the last recorded failure; the first request after that is admitted as a probe, and
  \<open>successThreshold\<close> sequential successful requests close the circuit with all its counters
  cleared, whatever the breaker's history. A probe that fails reopens it at once.\<close>

theorem circuit_breaker_recovers:
  assumes "cb_wf cb" and "cb_config_ok cb" and "state cb = StateOpen"
    and "t0 - lastFailureTime cb \<le> openTimeout cb" and "t - lastFailureTime cb > openTimeout cb"
    and "int (length (t # ts)) = successThreshold cb"
  shows "cb_Allow t0 cb = (False, cb)
    \<and> fst (cb_Allow t cb)
    \<and> state (probe_successes (t # ts) cb) = StateClosed
    \<and> state (RecordFailure t' (snd (cb_Allow t cb))) = StateOpen"
proof -
  let ?h = "(setState StateHalfOpen cb)\<lparr>halfOpenReqs := 0\<rparr>"
  have A: "cb_Allow t cb = (True, (setState StateHalfOpen cb)\<lparr>halfOpenReqs := 1\<rparr>)"
    using assms(3,5) by (simp add: cb_Allow_def)
  have h: "state ?h = StateHalfOpen" "halfOpenReqs ?h = 0" "halfOpenMaxReqs ?h > 0" "successes ?h = 0"
    using assms(2,3) by (auto simp: cb_config_ok_def setState_def)
  have "probe_successes (t # ts) cb = probe_successes (t # ts) ?h"
    using assms(2,3) A by (simp add: cb_defs cb_config_ok_def)
  then have "state (probe_successes (t # ts) cb) = StateClosed"
    using probe_successes_half_open [OF h(1-3), of "t # ts"] h(4) assms(2,6)
    by (simp add: cb_config_ok_def)
  then show ?thesis
    using assms(3,4) A by (simp add: cb_Allow_def RecordFailure_def Let_def)
qed

theorem circuit_breaker_recovers_witness:
  "state (probe_successes [90000000000, 90000000001, 90000000002]
     (record_failures [1, 2, 3, 4, 5] (NewCircuitBreaker []))) = StateClosed"
proof -
  let ?cb = "record_failures [1, 2, 3, 4, 5] (NewCircuitBreaker [])"
  have "cb_wf ?cb" "cb_config_ok ?cb" "state ?cb = StateOpen" "lastFailureTime ?cb = 5"
    "openTimeout ?cb = 30000000000" "successThreshold ?cb = 3"
    by (simp_all add: NewCircuitBreaker_def cb_wf_def cb_config_ok_def cb_defs)
  then show ?thesis
    using circuit_breaker_recovers [of ?cb 6 90000000000 "[90000000001, 90000000002]" 0] by simp
qed

end
