(* ===== verification/Gateway.thy ===== *)
theory Gateway
  imports Circuit_Breaker
begin

text \<open>
  The LLM gateway of \<^verbatim>\<open>internal/llm/gateway.go\<close>: a registry of providers, each with its own
  circuit breaker. A provider is code outside the gateway (an HTTP client), so it is a record of
  functions, the methods of the Go interface \<^verbatim>\<open>Provider\<close>; the two providers that \<open>NewGateway\<close>
  registers are its arguments. A call takes two clock readings, one for admission and one for the
  outcome. A \<open>float32\<close> is only passed through, so it is its bit pattern. A channel of stream
  chunks is the list of the chunks it will deliver.
\<close>

type_synonym float32 = nat

record ChatMessage =
  Role :: string
  Content :: string

record StreamChunk =
  sc_Content :: string
  sc_Done :: bool
  sc_Error :: string

record Usage =
  PromptTokens :: int
  CompletionTokens :: int
  TotalTokens :: int

record ChatResponse =
  resp_Content :: string
  resp_Model :: string
  resp_Usage :: Usage

record ChatRequest =
  Model :: string
  Messages :: "ChatMessage list"
  Temperature :: "float32 option"
  MaxTokens :: "int option"
  Stream :: bool
  Timeout :: duration
  MaxRetries :: int
  RetryBaseDelay :: duration

record GatewayConfig =
  cfg_Provider :: string
  cfg_BaseURL :: string
  cfg_APIKey :: string
  cfg_Model :: string
  cfg_MaxTokens :: int
  cfg_Temperature :: float32
  cfg_Timeout :: int
  cfg_MaxRetries :: int
  cfg_RetryBaseDelay :: duration

record Provider =
  prov_ChatStream :: "string \<Rightarrow> string \<Rightarrow> ChatRequest \<Rightarrow> string + StreamChunk list"
  prov_Chat :: "string \<Rightarrow> string \<Rightarrow> ChatRequest \<Rightarrow> string + ChatResponse"

record Gateway =
  providers :: "(string \<times> Provider) list"
  circuitBreakers :: "(string \<times> CircuitBreaker) list"

text \<open>The errors of a gateway call: the \<open>fmt.Errorf\<close> of an unknown provider, the wrapped
  \<^verbatim>\<open>ErrCircuitOpen\<close>, and whatever error the provider returned.\<close>

datatype GatewayError = UnsupportedProvider string | CircuitOpen string | ProviderError string

definition gatewayCircuitBreakerOpts :: "CircuitBreakerOption list" where
  "gatewayCircuitBreakerOpts =
     [WithFailureThreshold 5, WithSuccessThreshold 3, WithOpenTimeout (30 * second),
      WithHalfOpenMaxRequests 1]"

text \<open>The metric callback is the \<open>changes\<close> log every breaker of the model carries.\<close>

definition Register :: "string \<Rightarrow> Provider \<Rightarrow> Gateway \<Rightarrow> Gateway" where
  "Register name p g =
     g\<lparr>providers := AList.update name p (providers g),
       circuitBreakers := AList.update name (NewCircuitBreaker gatewayCircuitBreakerOpts) (circuitBreakers g)\<rparr>"

definition NewGateway :: "Provider \<Rightarrow> Provider \<Rightarrow> Gateway" where
  "NewGateway compatP anthropicP =
     (let gw = \<lparr>providers = [], circuitBreakers = []\<rparr>;
          gw1 = fold (\<lambda>name g. Register name compatP g) [''openai'', ''deepseek'', ''qwen'', ''custom''] gw
      in Register ''anthropic'' anthropicP gw1)"

definition SetCircuitBreaker :: "string \<Rightarrow> CircuitBreaker \<Rightarrow> Gateway \<Rightarrow> Gateway" where
  "SetCircuitBreaker provider cb g = g\<lparr>circuitBreakers := AList.update provider cb (circuitBreakers g)\<rparr>"

definition CircuitBreakerState :: "string \<Rightarrow> Gateway \<Rightarrow> State" where
  "CircuitBreakerState provider g =
     (case map_of (circuitBreakers g) provider of Some cb \<Rightarrow> cb_State cb | None \<Rightarrow> StateClosed)"

definition recordSuccess :: "string \<Rightarrow> Gateway \<Rightarrow> Gateway" where
  "recordSuccess provider g =
     (case map_of (circuitBreakers g) provider of
        Some cb \<Rightarrow> g\<lparr>circuitBreakers := AList.update provider (RecordSuccess cb) (circuitBreakers g)\<rparr>
      | None \<Rightarrow> g)"

definition recordFailure :: "time \<Rightarrow> string \<Rightarrow> Gateway \<Rightarrow> Gateway" where
  "recordFailure now provider g =
     (case map_of (circuitBreakers g) provider of
        Some cb \<Rightarrow> g\<lparr>circuitBreakers := AList.update provider (RecordFailure now cb) (circuitBreakers g)\<rparr>
      | None \<Rightarrow> g)"

text \<open>The breaker check that opens both calls.\<close>

definition checkBreaker :: "time \<Rightarrow> string \<Rightarrow> Gateway \<Rightarrow> bool \<times> Gateway" where
  "checkBreaker now provider g =
     (case map_of (circuitBreakers g) provider of
        Some cb \<Rightarrow> (let (ok, cb') = cb_Allow now cb
                    in (ok, g\<lparr>circuitBreakers := AList.update provider cb' (circuitBreakers g)\<rparr>))
      | None \<Rightarrow> (True, g))"

definition streamRequest :: "GatewayConfig \<Rightarrow> ChatRequest \<Rightarrow> ChatRequest" where
  "streamRequest cfg req =
     (let r1 = (if Model req = '''' then req\<lparr>Model := cfg_Model cfg\<rparr> else req);
          r2 = (if Temperature r1 = None then r1\<lparr>Temperature := Some (cfg_Temperature cfg)\<rparr> else r1);
          r3 = (if MaxTokens r2 = None then r2\<lparr>MaxTokens := Some (cfg_MaxTokens cfg)\<rparr> else r2);
          r4 = (if Timeout r3 \<le> 0 \<and> cfg_Timeout cfg > 0 then r3\<lparr>Timeout := cfg_Timeout cfg\<rparr> else r3)
      in r4\<lparr>Stream := True\<rparr>)"

definition chatRequest :: "GatewayConfig \<Rightarrow> ChatRequest \<Rightarrow> ChatRequest" where
  "chatRequest cfg req =
     (let r1 = (if Model req = '''' then req\<lparr>Model := cfg_Model cfg\<rparr> else req);
          r2 = r1\<lparr>Stream := False\<rparr>;
          r3 = (if MaxRetries r2 = 0 then r2\<lparr>MaxRetries := cfg_MaxRetries cfg\<rparr> else r2);
          r4 = (if RetryBaseDelay r3 = 0 then r3\<lparr>RetryBaseDelay := cfg_RetryBaseDelay cfg\<rparr> else r3);
          r5 = (if MaxRetries r4 = 0 then r4\<lparr>MaxRetries := 3\<rparr> else r4)
      in if RetryBaseDelay r5 = 0 then r5\<lparr>RetryBaseDelay := 1 * second\<rparr> else r5)"

definition gw_ChatStream ::
  "time \<Rightarrow> time \<Rightarrow> GatewayConfig \<Rightarrow> ChatRequest \<Rightarrow> Gateway \<Rightarrow> (GatewayError + StreamChunk list) \<times> Gateway" where
  "gw_ChatStream t1 t2 cfg req g =
     (case map_of (providers g) (cfg_Provider cfg) of
        None \<Rightarrow> (Inl (UnsupportedProvider (cfg_Provider cfg)), g)
      | Some provider \<Rightarrow>
          (let (ok, g1) = checkBreaker t1 (cfg_Provider cfg) g in
           if \<not> ok then (Inl (CircuitOpen (cfg_Provider cfg)), g1)
           else case prov_ChatStream provider (cfg_APIKey cfg) (cfg_BaseURL cfg) (streamRequest cfg req) of
                  Inl err \<Rightarrow> (Inl (ProviderError err), recordFailure t2 (cfg_Provider cfg) g1)
                | Inr ch \<Rightarrow> (Inr ch, g1)))"

definition gw_Chat ::
  "time \<Rightarrow> time \<Rightarrow> GatewayConfig \<Rightarrow> ChatRequest \<Rightarrow> Gateway \<Rightarrow> (GatewayError + ChatResponse) \<times> Gateway" where
  "gw_Chat t1 t2 cfg req g =
     (case map_of (providers g) (cfg_Provider cfg) of
        None \<Rightarrow> (Inl (UnsupportedProvider (cfg_Provider cfg)), g)
      | Some provider \<Rightarrow>
          (let (ok, g1) = checkBreaker t1 (cfg_Provider cfg) g in
           if \<not> ok then (Inl (CircuitOpen (cfg_Provider cfg)), g1)
           else case prov_Chat provider (cfg_APIKey cfg) (cfg_BaseURL cfg) (chatRequest cfg req) of
                  Inl err \<Rightarrow> (Inl (ProviderError err), recordFailure t2 (cfg_Provider cfg) g1)
                | Inr resp \<Rightarrow> (Inr resp, recordSuccess (cfg_Provider cfg) g1)))"

section \<open>Sequences of calls\<close>

text \<open>A call is a chat or a stream request, with its two clock readings; \<open>gw_run\<close> performs calls
  one after the other and collects, per call, the provider asked for and the error, if any.\<close>

datatype gw_call =
    CallChat time time GatewayConfig ChatRequest
  | CallStream time time GatewayConfig ChatRequest

fun call_provider :: "gw_call \<Rightarrow> string" where
  "call_provider (CallChat t1 t2 cfg req) = cfg_Provider cfg"
| "call_provider (CallStream t1 t2 cfg req) = cfg_Provider cfg"

definition error_of :: "'e + 'a \<Rightarrow> 'e option" where
  "error_of r = (case r of Inl e \<Rightarrow> Some e | Inr _ \<Rightarrow> None)"

lemma error_of_simps [simp]: "error_of (Inl e) = Some e" "error_of (Inr x) = None"
  by (simp_all add: error_of_def)

fun gw_call_step :: "gw_call \<Rightarrow> Gateway \<Rightarrow> GatewayError option \<times> Gateway" where
  "gw_call_step (CallChat t1 t2 cfg req) g = (let (r, g') = gw_Chat t1 t2 cfg req g in (error_of r, g'))"
| "gw_call_step (CallStream t1 t2 cfg req) g = (let (r, g') = gw_ChatStream t1 t2 cfg req g in (error_of r, g'))"

fun gw_run :: "gw_call list \<Rightarrow> Gateway \<Rightarrow> (string \<times> GatewayError option) list \<times> Gateway" where
  "gw_run [] g = ([], g)"
| "gw_run (c # cs) g =
     (let (e, g1) = gw_call_step c g; (es, g2) = gw_run cs g1
      in ((call_provider c, e) # es, g2))"

section \<open>Lemmas\<close>

lemma breaker_record [simp]:
  "providers (recordSuccess p g) = providers g" "providers (recordFailure t p g) = providers g"
  "map_of (circuitBreakers (recordSuccess p g)) q =
     (if q = p then map_option RecordSuccess (map_of (circuitBreakers g) q) else map_of (circuitBreakers g) q)"
  "map_of (circuitBreakers (recordFailure t p g)) q =
     (if q = p then map_option (RecordFailure t) (map_of (circuitBreakers g) q) else map_of (circuitBreakers g) q)"
  by (auto simp: recordSuccess_def recordFailure_def split: option.splits)

lemma checkBreaker_lookup:
  assumes "checkBreaker t p g = (ok, g1)"
  shows "providers g1 = providers g"
    and "map_of (circuitBreakers g1) q =
      (if q = p then map_option (snd \<circ> cb_Allow t) (map_of (circuitBreakers g) q) else map_of (circuitBreakers g) q)"
    and "ok = (case map_of (circuitBreakers g) p of None \<Rightarrow> True | Some cb \<Rightarrow> fst (cb_Allow t cb))"
  using assms by (auto simp: checkBreaker_def split: option.splits prod.splits)

text \<open>Facts about one call that hold for both kinds.\<close>

lemma gw_call_step_providers: "gw_call_step c g = (e, g') \<Longrightarrow> providers g' = providers g"
  by (cases c) (auto simp: gw_Chat_def gw_ChatStream_def checkBreaker_lookup
      split: option.splits prod.splits sum.splits if_splits)

lemma gw_call_step_other:
  assumes "gw_call_step c g = (e, g')" and "q \<noteq> call_provider c"
  shows "map_of (circuitBreakers g') q = map_of (circuitBreakers g) q"
  using assms by (cases c) (auto simp: gw_Chat_def gw_ChatStream_def checkBreaker_lookup
      split: option.splits prod.splits sum.splits if_splits)

lemma gw_call_step_rejected:
  assumes "map_of (providers g) (call_provider c) = Some p"
    and "map_of (circuitBreakers g) (call_provider c) = Some cb"
    and "call_provider c = q"
    and "\<And>t. cb_Allow t cb = (False, cb)"
  shows "fst (gw_call_step c g) = Some (CircuitOpen q)
    \<and> map_of (circuitBreakers (snd (gw_call_step c g))) q = Some cb"
  using assms by (cases c) (auto simp: gw_Chat_def gw_ChatStream_def checkBreaker_def)

lemma gw_run_stuck:
  assumes "map_of (providers g) q = Some p" and "map_of (circuitBreakers g) q = Some cb"
    and "\<And>t. cb_Allow t cb = (False, cb)"
    and "gw_run cs g = (res, g')"
  shows "map_of (circuitBreakers g') q = Some cb
    \<and> (\<forall>e. (q, e) \<in> set res \<longrightarrow> e = Some (CircuitOpen q))"
  using assms(1,2,4)
proof (induction cs arbitrary: g res g')
  case (Cons c cs)
  obtain e g1 where c: "gw_call_step c g = (e, g1)" by fastforce
  obtain es g2 where r: "gw_run cs g1 = (es, g2)" by fastforce
  have g1: "map_of (circuitBreakers g1) q = Some cb \<and> (call_provider c = q \<longrightarrow> e = Some (CircuitOpen q))"
  proof (cases "call_provider c = q")
    case True
    then show ?thesis using gw_call_step_rejected [of g c p cb q] Cons.prems(1,2) assms(3) c by simp
  next
    case False
    then show ?thesis using gw_call_step_other [OF c, of q] Cons.prems(2) by simp
  qed
  have "map_of (providers g1) q = Some p" using gw_call_step_providers [OF c] Cons.prems(1) by simp
  from Cons.IH [OF this conjunct1 [OF g1] r] show ?case
    using g1 Cons.prems(3) c r by auto
qed simp

text \<open>Two gateways look the same to the calls of provider \<open>q\<close> when they agree on its entries.\<close>

definition agree_on :: "string \<Rightarrow> Gateway \<Rightarrow> Gateway \<Rightarrow> bool" where
  "agree_on q g h \<longleftrightarrow> map_of (providers g) q = map_of (providers h) q
     \<and> map_of (circuitBreakers g) q = map_of (circuitBreakers h) q"

lemma agree_on_step:
  assumes "agree_on q g h" and "call_provider c = q"
  shows "fst (gw_call_step c g) = fst (gw_call_step c h)
    \<and> agree_on q (snd (gw_call_step c g)) (snd (gw_call_step c h))"
  using assms
  by (cases c) (auto simp: agree_on_def gw_Chat_def gw_ChatStream_def checkBreaker_def
      split: option.splits prod.splits sum.splits)

lemma agree_on_other:
  assumes "agree_on q g h" and "call_provider c \<noteq> q"
  shows "agree_on q (snd (gw_call_step c g)) h"
proof -
  obtain e g1 where c: "gw_call_step c g = (e, g1)" by fastforce
  show ?thesis
    using assms gw_call_step_providers [OF c] gw_call_step_other [OF c, of q] c
    by (auto simp: agree_on_def)
qed

lemma gw_run_agree:
  assumes "agree_on q g h"
  shows "filter (\<lambda>r. fst r = q) (fst (gw_run cs g)) = fst (gw_run (filter (\<lambda>c. call_provider c = q) cs) h)
    \<and> agree_on q (snd (gw_run cs g)) (snd (gw_run (filter (\<lambda>c. call_provider c = q) cs) h))"
  using assms
proof (induction cs arbitrary: g h)
  case (Cons c cs)
  show ?case
  proof (cases "call_provider c = q")
    case True
    then show ?thesis
      using agree_on_step [OF Cons.prems True] Cons.IH [OF conjunct2 [OF agree_on_step [OF Cons.prems True]]]
      by (simp add: Let_def case_prod_unfold)
  next
    case False
    then show ?thesis
      using Cons.IH [OF agree_on_other [OF Cons.prems False]]
      by (simp add: Let_def case_prod_unfold)
  qed
qed simp

section \<open>Properties\<close>

text \<open>Providers are isolated from each other. In any sequence of chat and stream calls, the
  outcomes of the calls to provider \<open>q\<close> and the final state of its breaker are the ones the calls
  to \<open>q\<close> alone would have given: no failure of another provider is ever charged to \<open>q\<close>.\<close>

theorem gateway_provider_isolation:
  "filter (\<lambda>r. fst r = q) (fst (gw_run cs g)) = fst (gw_run (filter (\<lambda>c. call_provider c = q) cs) g)
   \<and> CircuitBreakerState q (snd (gw_run cs g))
      = CircuitBreakerState q (snd (gw_run (filter (\<lambda>c. call_provider c = q) cs) g))"
  using gw_run_agree [of q g g cs] by (simp add: agree_on_def CircuitBreakerState_def)

text \<open>An open circuit fails fast. While the breaker of a registered provider is open and its
  timeout has not passed, a chat and a stream call both return the circuit-open error without
  asking the provider (the outcome is the same for every implementation of it), and change no
  breaker. A call for an unregistered name is refused and changes nothing at all.\<close>

theorem gateway_fails_fast:
  assumes "map_of (providers g) (cfg_Provider cfg) = Some p"
    and "map_of (circuitBreakers g) (cfg_Provider cfg) = Some cb"
    and "cb_State cb = StateOpen" and "t1 - lastFailureTime cb \<le> openTimeout cb"
    and "map_of (providers h) (cfg_Provider cfg') = None"
  shows "let g' = g\<lparr>providers := AList.update (cfg_Provider cfg) p' (providers g)\<rparr> in
      fst (gw_Chat t1 t2 cfg req g') = Inl (CircuitOpen (cfg_Provider cfg))
    \<and> fst (gw_ChatStream t1 t2 cfg req g') = Inl (CircuitOpen (cfg_Provider cfg))
    \<and> CircuitBreakerState q (snd (gw_Chat t1 t2 cfg req g')) = CircuitBreakerState q g
    \<and> CircuitBreakerState q (snd (gw_ChatStream t1 t2 cfg req g')) = CircuitBreakerState q g
    \<and> gw_Chat t1 t2 cfg' req h = (Inl (UnsupportedProvider (cfg_Provider cfg')), h)
    \<and> gw_ChatStream t1 t2 cfg' req h = (Inl (UnsupportedProvider (cfg_Provider cfg')), h)"
  using assms
  by (simp add: gw_Chat_def gw_ChatStream_def checkBreaker_def cb_Allow_def cb_State_def
      CircuitBreakerState_def)

definition demo_provider :: Provider where
  "demo_provider = \<lparr>prov_ChatStream = (\<lambda>_ _ _. Inr []),
     prov_Chat = (\<lambda>_ _ _. Inr \<lparr>resp_Content = ''hi'', resp_Model = ''m'',
        resp_Usage = \<lparr>PromptTokens = 1, CompletionTokens = 1, TotalTokens = 2\<rparr>\<rparr>)\<rparr>"

definition demo_cfg :: "string \<Rightarrow> GatewayConfig" where
  "demo_cfg p = \<lparr>cfg_Provider = p, cfg_BaseURL = ''u'', cfg_APIKey = ''k'', cfg_Model = ''m'',
     cfg_MaxTokens = 100, cfg_Temperature = 0, cfg_Timeout = 0, cfg_MaxRetries = 0, cfg_RetryBaseDelay = 0\<rparr>"

definition demo_request :: ChatRequest where
  "demo_request = \<lparr>Model = '''', Messages = [], Temperature = None, MaxTokens = None, Stream = False,
     Timeout = 0, MaxRetries = 0, RetryBaseDelay = 0\<rparr>"

definition open_gateway :: Gateway where
  "open_gateway = SetCircuitBreaker ''qwen'' (record_failures [1, 2, 3, 4, 5] (NewCircuitBreaker []))
     (NewGateway demo_provider demo_provider)"

lemma open_gateway_lookup:
  "map_of (providers open_gateway) ''qwen'' = Some demo_provider"
  "map_of (circuitBreakers open_gateway) ''qwen'' = Some (record_failures [1, 2, 3, 4, 5] (NewCircuitBreaker []))"
  by (simp_all add: open_gateway_def NewGateway_def Register_def SetCircuitBreaker_def)

lemma open_breaker_state:
  "state (record_failures [1, 2, 3, 4, 5] (NewCircuitBreaker [])) = StateOpen"
  "lastFailureTime (record_failures [1, 2, 3, 4, 5] (NewCircuitBreaker [])) = 5"
  "openTimeout (record_failures [1, 2, 3, 4, 5] (NewCircuitBreaker [])) = 30 * second"
  "halfOpenMaxReqs (record_failures [1, 2, 3, 4, 5] (NewCircuitBreaker [])) = 1"
  by (simp_all add: NewCircuitBreaker_def cb_defs)

theorem gateway_fails_fast_witness:
  "fst (gw_Chat 6 7 (demo_cfg ''qwen'') demo_request
      (open_gateway\<lparr>providers := AList.update ''qwen'' demo_provider (providers open_gateway)\<rparr>))
   = Inl (CircuitOpen ''qwen'')"
proof -
  have "map_of (providers (NewGateway demo_provider demo_provider)) (cfg_Provider (demo_cfg ''nope'')) = None"
    by (simp add: demo_cfg_def NewGateway_def Register_def)
  then show ?thesis
    using gateway_fails_fast [of open_gateway "demo_cfg ''qwen''" demo_provider
        "record_failures [1, 2, 3, 4, 5] (NewCircuitBreaker [])" 6 "NewGateway demo_provider demo_provider"
        "demo_cfg ''nope''" demo_provider 7 demo_request "''qwen''"]
    by (simp del: record_failures.simps add: open_gateway_lookup open_breaker_state cb_State_def
        demo_cfg_def Let_def)
qed

text \<open>A probe taken by a stream is never given back. When the breaker of a provider is open,
  its timeout has passed and it admits one probe at a time (the gateway's default), a stream call
  whose connection succeeds leaves the breaker half open with its only slot taken, because the
  gateway records no outcome for a stream that was opened. From then on, whatever calls follow at
  whatever times, every call to this provider is rejected and its breaker never changes again.\<close>

theorem gateway_stream_probe_leak:
  assumes "map_of (providers g) q = Some p" and "map_of (circuitBreakers g) q = Some cb"
    and "cb_State cb = StateOpen" and "t1 - lastFailureTime cb > openTimeout cb" and "halfOpenMaxReqs cb = 1"
    and "cfg_Provider cfg = q"
    and "prov_ChatStream p (cfg_APIKey cfg) (cfg_BaseURL cfg) (streamRequest cfg req) = Inr ch"
    and "gw_ChatStream t1 t2 cfg req g = (r, g1)" and "gw_run cs g1 = (res, g2)"
  shows "r = Inr ch \<and> (\<forall>e. (q, e) \<in> set res \<longrightarrow> e = Some (CircuitOpen q))
    \<and> CircuitBreakerState q g2 = StateHalfOpen"
proof -
  let ?cb = "(setState StateHalfOpen cb)\<lparr>halfOpenReqs := 1\<rparr>"
  have "cb_Allow t1 cb = (True, ?cb)" using assms(3,4) by (simp add: cb_Allow_def cb_State_def)
  then have g1: "r = Inr ch" "map_of (providers g1) q = Some p" "map_of (circuitBreakers g1) q = Some ?cb"
    using assms(1,2,6,7,8) by (auto simp: gw_ChatStream_def checkBreaker_def)
  have "\<And>t. cb_Allow t ?cb = (False, ?cb)" using assms(5) by (intro half_open_full_stuck) auto
  from gw_run_stuck [OF g1(2,3) this assms(9)] g1(1) show ?thesis
    by (simp add: CircuitBreakerState_def cb_State_def)
qed

theorem gateway_stream_probe_leak_witness:
  "\<exists>r g1 res g2. gw_ChatStream 90000000000 90000000001 (demo_cfg ''qwen'') demo_request open_gateway = (r, g1)
    \<and> gw_run [CallChat 99000000000000 99000000000001 (demo_cfg ''qwen'') demo_request] g1 = (res, g2)
    \<and> CircuitBreakerState ''qwen'' g2 = StateHalfOpen"
proof -
  obtain r g1 where a: "gw_ChatStream 90000000000 90000000001 (demo_cfg ''qwen'') demo_request open_gateway = (r, g1)"
    by fastforce
  obtain res g2 where b: "gw_run [CallChat 99000000000000 99000000000001 (demo_cfg ''qwen'') demo_request] g1 = (res, g2)"
    by fastforce
  have "CircuitBreakerState ''qwen'' g2 = StateHalfOpen"
    using gateway_stream_probe_leak [OF open_gateway_lookup _ _ _ _ _ a b, of "[]"]
    by (simp del: record_failures.simps add: open_breaker_state cb_State_def demo_cfg_def demo_provider_def)
  then show ?thesis using a b by blast
qed

end
