(* ===== verification/Go_Strings.thy ===== *)
theory Go_Strings
  imports Main "HOL-Library.Sublist"
begin

text \<open>
  The functions of Go's package \<^verbatim>\<open>strings\<close> that the program uses. A Go string is a sequence of
  bytes, an Isabelle \<open>char\<close> is a byte.
\<close>

definition string_bytes :: "string \<Rightarrow> nat list" where
  "string_bytes s = map of_char s"

definition bytes_string :: "nat list \<Rightarrow> string" where
  "bytes_string bs = map char_of bs"

lemma bytes_string_inverse [simp]: "bytes_string (string_bytes s) = s"
  by (simp add: bytes_string_def string_bytes_def comp_def)

lemma string_bytes_lt: "\<forall>b \<in> set (string_bytes s). b < 256"
  by (auto simp: string_bytes_def)

definition has_prefix :: "string \<Rightarrow> string \<Rightarrow> bool" where
  "has_prefix s p = (take (length p) s = p)"

definition has_suffix :: "string \<Rightarrow> string \<Rightarrow> bool" where
  "has_suffix s p = has_prefix (rev s) (rev p)"

definition TrimPrefix :: "string \<Rightarrow> string \<Rightarrow> string" where
  "TrimPrefix s p = (if has_prefix s p then drop (length p) s else s)"

definition TrimSuffix :: "string \<Rightarrow> string \<Rightarrow> string" where
  "TrimSuffix s p = (if has_suffix s p then take (length s - length p) s else s)"

text \<open>The position of the first occurrence of a substring, \<open>None\<close> for Go's -1.\<close>

fun str_Index :: "string \<Rightarrow> string \<Rightarrow> nat option" where
  "str_Index s sub = (if has_prefix s sub then Some 0
     else case s of [] \<Rightarrow> None | c # cs \<Rightarrow> map_option Suc (str_Index cs sub))"

declare str_Index.simps [simp del, code del]

fun str_IndexAny :: "string \<Rightarrow> char set \<Rightarrow> nat option" where
  "str_IndexAny [] cs = None"
| "str_IndexAny (c # s) cs = (if c \<in> cs then Some 0 else map_option Suc (str_IndexAny s cs))"

definition str_LastIndexChar :: "string \<Rightarrow> char \<Rightarrow> nat option" where
  "str_LastIndexChar s c = map_option (\<lambda>i. length s - 1 - i) (str_IndexAny (rev s) {c})"

text \<open>\<open>strings.ReplaceAll\<close> for a pattern of one byte.\<close>

definition replace_char :: "char \<Rightarrow> string \<Rightarrow> string \<Rightarrow> string" where
  "replace_char c new s = concat (map (\<lambda>x. if x = c then new else [x]) s)"

text \<open>\<open>strings.Contains\<close>, and \<open>hex.EncodeToString\<close> on bytes.\<close>

definition str_Contains :: "string \<Rightarrow> string \<Rightarrow> bool" where
  "str_Contains s sub \<longleftrightarrow> str_Index s sub \<noteq> None"

definition hex_digit :: "nat \<Rightarrow> char" where
  "hex_digit n = char_of (if n < 10 then 48 + n else 87 + n)"

definition hex_encode :: "nat list \<Rightarrow> string" where
  "hex_encode bs = concat (map (\<lambda>b. [hex_digit (b div 16), hex_digit (b mod 16)]) bs)"

definition hex_value :: "char \<Rightarrow> nat option" where
  "hex_value c =
     (let n = of_char c :: nat in
      if 48 \<le> n \<and> n \<le> 57 then Some (n - 48)
      else if 97 \<le> n \<and> n \<le> 102 then Some (n - 87)
      else if 65 \<le> n \<and> n \<le> 70 then Some (n - 55)
      else None)"

text \<open>\<open>hex.DecodeString\<close>, \<open>None\<close> for an odd length or a character that is not a hexadecimal digit.\<close>

fun hex_decode :: "string \<Rightarrow> nat list option" where
  "hex_decode [] = Some []"
| "hex_decode [a] = None"
| "hex_decode (a # b # s) =
     (case (hex_value a, hex_value b) of
        (Some x, Some y) \<Rightarrow> map_option (\<lambda>bs. (x * 16 + y) # bs) (hex_decode s)
      | _ \<Rightarrow> None)"

lemma hex_value_digit: "n < 16 \<Longrightarrow> hex_value (hex_digit n) = Some n"
  by (cases "n < 10") (auto simp: hex_value_def hex_digit_def Let_def)

lemma hex_value_lt: "hex_value c = Some v \<Longrightarrow> v < 16"
  by (auto simp: hex_value_def Let_def split: if_split_asm)

lemma hex_round_trip: "\<forall>b \<in> set bs. b < 256 \<Longrightarrow> hex_decode (hex_encode bs) = Some bs"
proof (induction bs)
  case (Cons b bs)
  have "b div 16 < 16" "b mod 16 < 16" using Cons.prems by auto
  then show ?case using Cons by (simp add: hex_encode_def hex_value_digit)
qed (simp add: hex_encode_def)

lemma hex_decode_bytes: "hex_decode s = Some bs \<Longrightarrow> (\<forall>b \<in> set bs. b < 256) \<and> length s = 2 * length bs"
proof (induction s arbitrary: bs rule: hex_decode.induct)
  case (3 a b s)
  then obtain x y cs where e: "hex_value a = Some x" "hex_value b = Some y" "hex_decode s = Some cs" "bs = (x * 16 + y) # cs"
    by (auto split: option.split_asm)
  have "x * 16 + y < 256" using hex_value_lt [OF e(1)] hex_value_lt [OF e(2)] by simp
  then show ?case using "3.IH" [OF refl e(1) e(2) e(3)] e(4) by simp
qed auto

lemma length_hex_encode [simp]: "length (hex_encode bs) = 2 * length bs"
  by (induction bs) (simp_all add: hex_encode_def)

lemma str_Index_Nil: "str_Index [] sub = (if sub = [] then Some 0 else None)"
  by (simp add: str_Index.simps has_prefix_def)

lemma str_Index_Cons:
  "str_Index (c # s) sub = (if has_prefix (c # s) sub then Some 0 else map_option Suc (str_Index s sub))"
  by (simp add: str_Index.simps)

lemmas str_Index_code [code] = str_Index_Nil str_Index_Cons

lemma str_Index_SomeD: "str_Index s sub = Some i \<Longrightarrow> take (length sub) (drop i s) = sub \<and> i \<le> length s"
proof (induction s arbitrary: i)
  case Nil
  then show ?case by (auto simp: str_Index_Nil split: if_splits)
next
  case (Cons c s)
  then show ?case by (auto simp: str_Index_Cons has_prefix_def split: if_splits)
qed

lemma str_IndexAny_take: "str_IndexAny s cs = Some i \<Longrightarrow> set (take i s) \<inter> cs = {} \<and> i < length s"
  by (induction s arbitrary: i) (auto split: if_splits)

lemma str_IndexAny_None: "str_IndexAny s cs = None \<longleftrightarrow> set s \<inter> cs = {}"
  by (induction s) auto

lemma set_replace_char: "set (replace_char c new s) \<subseteq> (set s - {c}) \<union> set new"
  by (auto simp: replace_char_def split: if_splits)

lemma replace_char_id: "c \<notin> set s \<Longrightarrow> replace_char c new s = s"
  by (induction s) (auto simp: replace_char_def)

text \<open>\<open>strings.Split\<close> with a separator of one byte.\<close>

fun split_char :: "char \<Rightarrow> string \<Rightarrow> string list" where
  "split_char c [] = [[]]"
| "split_char c (x # s) = (if x = c then [] # split_char c s
     else case split_char c s of [] \<Rightarrow> [[x]] | w # ws \<Rightarrow> (x # w) # ws)"

text \<open>\<open>strings.TrimSpace\<close>: the UTF-8 encodings of the code points that \<open>unicode.IsSpace\<close> accepts.\<close>

definition space_encodings :: "string list" where
  "space_encodings =
     map (\<lambda>n. [char_of n]) [9, 10, 11, 12, 13, 32 :: nat]
     @ map (map char_of) ([[194, 133], [194, 160], [225, 154, 128]]
        @ map (\<lambda>i. [226, 128, i]) [128, 129, 130, 131, 132, 133, 134, 135, 136, 137, 138, 168, 169, 175 :: nat]
        @ [[226, 129, 159], [227, 128, 128]])"

fun trim_left :: "nat \<Rightarrow> string list \<Rightarrow> string \<Rightarrow> string" where
  "trim_left 0 ws s = s"
| "trim_left (Suc n) ws s = (case find (\<lambda>w. has_prefix s w) ws of None \<Rightarrow> s | Some w \<Rightarrow> trim_left n ws (drop (length w) s))"

definition TrimSpace :: "string \<Rightarrow> string" where
  "TrimSpace s =
     (let l = trim_left (length s) space_encodings s
      in rev (trim_left (length l) (map rev space_encodings) (rev l)))"

text \<open>The fuel is enough: what is left does not start with a space.\<close>

lemma trim_left_done:
  "length s \<le> n \<Longrightarrow> \<forall>w \<in> set ws. w \<noteq> [] \<Longrightarrow> find (\<lambda>w. has_prefix (trim_left n ws s) w) ws = None"
proof (induction n arbitrary: s)
  case 0
  then show ?case by (auto simp: find_None_iff has_prefix_def)
next
  case (Suc n)
  show ?case
  proof (cases "find (\<lambda>w. has_prefix s w) ws")
    case (Some w)
    then have "w \<in> set ws" by (auto simp: find_Some_iff)
    then have "0 < length w" using Suc.prems(2) by simp
    then have "length (drop (length w) s) \<le> n" using Suc.prems(1) unfolding length_drop by linarith
    then show ?thesis using Suc.IH [of "drop (length w) s"] Suc.prems(2) Some by simp
  qed simp
qed

text \<open>A string of printable ASCII characters has nothing to trim.\<close>

definition printable :: "char \<Rightarrow> bool" where
  "printable c \<longleftrightarrow> 33 \<le> (of_char c :: nat) \<and> (of_char c :: nat) \<le> 126"

lemma space_encodings_unprintable: "list_all (\<lambda>w. w \<noteq> [] \<and> \<not> printable (hd w) \<and> \<not> printable (last w)) space_encodings"
  by code_simp

lemma trim_left_printable:
  assumes "\<forall>w \<in> set ws. w \<noteq> [] \<and> \<not> printable (hd w)" and "\<forall>c \<in> set s. printable c"
  shows "trim_left n ws s = s"
proof -
  have "\<not> has_prefix s w" if "w \<in> set ws" for w
    using assms that by (cases w; cases s) (auto simp: has_prefix_def)
  then have "find (\<lambda>w. has_prefix s w) ws = None" by (auto simp: find_None_iff)
  then show ?thesis by (cases n) simp_all
qed

lemma TrimSpace_printable: "\<forall>c \<in> set s. printable c \<Longrightarrow> TrimSpace s = s"
  using space_encodings_unprintable
  by (simp add: TrimSpace_def trim_left_printable list_all_iff hd_rev Let_def)

lemma split_char_append: "c \<notin> set a \<Longrightarrow> split_char c (a @ c # b) = a # split_char c b"
  by (induction a) auto

lemma split_char_none: "c \<notin> set a \<Longrightarrow> split_char c a = [a]"
  by (induction a) auto

lemma TrimSpace_blank: "TrimSpace (CHR '' '' # s) = TrimSpace s"
proof -
  have "space_encodings = [[CHR 0x09], [CHR 0x0A], [CHR 0x0B], [CHR 0x0C], [CHR 0x0D], '' ''] @ drop 6 space_encodings"
    by code_simp
  then obtain ws where e: "space_encodings = [[CHR 0x09], [CHR 0x0A], [CHR 0x0B], [CHR 0x0C], [CHR 0x0D], '' ''] @ ws" by blast
  have "find (\<lambda>w. has_prefix (CHR '' '' # s) w) space_encodings = Some '' ''"
    unfolding e by (simp add: has_prefix_def)
  then show ?thesis by (simp add: TrimSpace_def)
qed

text \<open>\<open>strings.TrimRight\<close> for a cutset of one byte.\<close>

definition trim_right_char :: "char \<Rightarrow> string \<Rightarrow> string" where
  "trim_right_char c s = rev (dropWhile (\<lambda>x. x = c) (rev s))"

end
