(* ===== verification/LLM_Config.thy ===== *)
theory LLM_Config
  imports Gateway Http Go_Strings
begin

text \<open>
  The LLM configurations of the users: encryption of API keys (\<^verbatim>\<open>internal/llm/crypto.go\<close>), the guard on
  base URLs (\<^verbatim>\<open>internal/llm/openai_compat.go\<close>), the repository, the service and the handlers
  (\<^verbatim>\<open>llm_config_repository.go\<close>, \<^verbatim>\<open>llm_config_service.go\<close>, \<^verbatim>\<open>llm_config_handler.go\<close>). AES-GCM is a pair of
  functions \<open>seal\<close> and \<open>open\<close> on key, nonce and data; DNS is a function from host names to
  addresses, \<open>None\<close> when the lookup fails. An IP address is its list of 4 or 16 bytes.
\<close>

section \<open>Encryption of API keys\<close>

type_synonym aead_seal = "bytes \<Rightarrow> bytes \<Rightarrow> bytes \<Rightarrow> bytes"
type_synonym aead_open = "bytes \<Rightarrow> bytes \<Rightarrow> bytes \<Rightarrow> bytes option"

definition aes_key_ok :: "bytes \<Rightarrow> bool" where
  "aes_key_ok key \<longleftrightarrow> length key = 16 \<or> length key = 24 \<or> length key = 32"

definition EncryptAPIKey :: "aead_seal \<Rightarrow> bytes \<Rightarrow> string \<Rightarrow> bytes \<Rightarrow> bytes option" where
  "EncryptAPIKey seal nonce plaintext masterKey =
     (if \<not> aes_key_ok masterKey then None
      else Some (nonce @ seal masterKey nonce (string_bytes plaintext)))"

definition DecryptAPIKey :: "aead_open \<Rightarrow> bytes \<Rightarrow> bytes \<Rightarrow> string option" where
  "DecryptAPIKey open' ciphertext masterKey =
     (if \<not> aes_key_ok masterKey then None
      else if length ciphertext < 12 then None
      else map_option bytes_string (open' masterKey (take 12 ciphertext) (drop 12 ciphertext)))"

lemma Encrypt_Decrypt:
  assumes "EncryptAPIKey seal nonce p k = Some c" and "length nonce = 12"
    and "open' k nonce (seal k nonce (string_bytes p)) = Some (string_bytes p)"
  shows "DecryptAPIKey open' c k = Some p"
  using assms by (auto simp: EncryptAPIKey_def DecryptAPIKey_def split: if_split_asm)

section \<open>The guard on base URLs\<close>

type_synonym ip = "nat list"

definition v4_mapped :: "nat list" where
  "v4_mapped = [0, 0, 0, 0, 0, 0, 0, 0, 0, 0, 255, 255]"

text \<open>\<open>net.IP.To4\<close>: the four bytes of an IPv4 address, also when it is mapped into IPv6.\<close>

definition ip_To4 :: "ip \<Rightarrow> (nat \<times> nat \<times> nat \<times> nat) option" where
  "ip_To4 ip =
     (case (if length ip = 16 \<and> take 12 ip = v4_mapped then drop 12 ip else ip) of
        [a, b, c, d] \<Rightarrow> Some (a, b, c, d)
      | _ \<Rightarrow> None)"

definition IsLoopback :: "ip \<Rightarrow> bool" where
  "IsLoopback ip = (case ip_To4 ip of Some (a, b, c, d) \<Rightarrow> a = 127
     | None \<Rightarrow> ip = replicate 15 0 @ [1])"

definition IsLinkLocalUnicast :: "ip \<Rightarrow> bool" where
  "IsLinkLocalUnicast ip = (case ip_To4 ip of Some (a, b, c, d) \<Rightarrow> a = 169 \<and> b = 254
     | None \<Rightarrow> length ip = 16 \<and> ip ! 0 = 254 \<and> ip ! 1 div 64 = 2)"

definition IsLinkLocalMulticast :: "ip \<Rightarrow> bool" where
  "IsLinkLocalMulticast ip = (case ip_To4 ip of Some (a, b, c, d) \<Rightarrow> a = 224 \<and> b = 0 \<and> c = 0
     | None \<Rightarrow> length ip = 16 \<and> ip ! 0 = 255 \<and> ip ! 1 mod 16 = 2)"

definition IsUnspecified :: "ip \<Rightarrow> bool" where
  "IsUnspecified ip = (case ip_To4 ip of Some (a, b, c, d) \<Rightarrow> (a, b, c, d) = (0, 0, 0, 0)
     | None \<Rightarrow> ip = replicate 16 0)"

definition IsPrivate :: "ip \<Rightarrow> bool" where
  "IsPrivate ip = (case ip_To4 ip of
       Some (a, b, c, d) \<Rightarrow> a = 10 \<or> (a = 172 \<and> b div 16 = 1) \<or> (a = 192 \<and> b = 168)
     | None \<Rightarrow> length ip = 16 \<and> ip ! 0 div 2 = 126)"

definition isPublicIP :: "ip \<Rightarrow> bool" where
  "isPublicIP ip =
     (if IsLoopback ip \<or> IsLinkLocalUnicast ip \<or> IsLinkLocalMulticast ip \<or> IsUnspecified ip \<or> IsPrivate ip
      then False else True)"

definition parseSchemeAndHost :: "string \<Rightarrow> (string \<times> string) option" where
  "parseSchemeAndHost rawURL =
     (case str_Index rawURL ''://'' of
        None \<Rightarrow> None
      | Some schemeEnd \<Rightarrow>
          (let scheme = take schemeEnd rawURL;
               rest = drop (schemeEnd + 3) rawURL;
               host1 = (case str_IndexAny rest (set ''/?#'') of Some i \<Rightarrow> take i rest | None \<Rightarrow> rest);
               host2 = (case str_LastIndexChar host1 (CHR '':'') of Some i \<Rightarrow> take i host1 | None \<Rightarrow> host1);
               host3 = TrimSuffix (TrimPrefix host2 ''['') '']''
           in Some (scheme, host3)))"

datatype URLError = MissingScheme | NotHTTPS | EmptyHost | LookupFailed | ReservedIP

text \<open>\<open>None\<close> is the nil error.\<close>

definition ValidateBaseURL :: "(string \<Rightarrow> ip list option) \<Rightarrow> string \<Rightarrow> URLError option" where
  "ValidateBaseURL LookupIP rawURL =
     (if rawURL = '''' then None
      else case parseSchemeAndHost rawURL of
             None \<Rightarrow> Some MissingScheme
           | Some (scheme, host) \<Rightarrow>
               if scheme \<noteq> ''https'' then Some NotHTTPS
               else if host = '''' then Some EmptyHost
               else (case LookupIP host of
                       None \<Rightarrow> Some LookupFailed
                     | Some ips \<Rightarrow> if list_ex (\<lambda>ip. \<not> isPublicIP ip) ips then Some ReservedIP else None))"

text \<open>What the dialer of the HTTP transport checks again before it connects. It then hands the host name, not the
  checked addresses, to \<^verbatim>\<open>net.Dialer\<close>, which looks it up once more; that lookup is outside this function.\<close>

definition ssrf_safe_dial :: "(string \<Rightarrow> ip list option) \<Rightarrow> string \<Rightarrow> URLError option" where
  "ssrf_safe_dial LookupIP host =
     (case LookupIP host of
        None \<Rightarrow> Some LookupFailed
      | Some ips \<Rightarrow> if list_ex (\<lambda>ip. \<not> isPublicIP ip) ips then Some ReservedIP else None)"

section \<open>Repository\<close>

record LLMConfig =
  lc_ID :: uuid
  lc_UserID :: uuid
  lc_Name :: string
  lc_Provider :: string
  lc_BaseURL :: string
  lc_EncryptedKey :: bytes
  lc_DecryptedKey :: string
  lc_APIKey :: string
  lc_Model :: string
  lc_IsDefault :: bool
  lc_MaxTokens :: int
  lc_Temperature :: float32
  lc_CreatedAt :: time
  lc_UpdatedAt :: time

definition llm_ListByUser :: "bool \<Rightarrow> uuid \<Rightarrow> LLMConfig list \<Rightarrow> LLMConfig list option" where
  "llm_ListByUser fault userID t =
     (if fault then None else Some (order_by_desc lc_CreatedAt (filter (\<lambda>c. lc_UserID c = userID) t)))"

definition llm_GetByID :: "bool \<Rightarrow> uuid \<Rightarrow> LLMConfig list \<Rightarrow> LLMConfig option" where
  "llm_GetByID fault cid t = (if fault then None else find_row (\<lambda>c. lc_ID c = cid) t)"

definition llm_GetDefaultByUser :: "bool \<Rightarrow> uuid \<Rightarrow> LLMConfig list \<Rightarrow> LLMConfig option" where
  "llm_GetDefaultByUser fault userID t =
     (if fault then None else find_row (\<lambda>c. lc_UserID c = userID \<and> lc_IsDefault c) t)"

text \<open>The columns: neither the decrypted key nor the input field is stored.\<close>

definition stored_config :: "LLMConfig \<Rightarrow> LLMConfig" where
  "stored_config cfg = cfg\<lparr>lc_DecryptedKey := '''', lc_APIKey := ''''\<rparr>"

definition llm_repo_Create :: "bool \<Rightarrow> time \<Rightarrow> LLMConfig \<Rightarrow> LLMConfig list \<Rightarrow> bool \<times> LLMConfig list" where
  "llm_repo_Create fault now cfg t =
     (if fault \<or> \<not> int4_ok (lc_MaxTokens cfg) \<or> find_row (\<lambda>c. lc_ID c = lc_ID cfg) t \<noteq> None then (False, t)
      else (True, t @ [stored_config (cfg\<lparr>lc_CreatedAt := now, lc_UpdatedAt := now\<rparr>)]))"

definition llm_repo_Update :: "bool \<Rightarrow> time \<Rightarrow> LLMConfig \<Rightarrow> LLMConfig list \<Rightarrow> bool \<times> LLMConfig list" where
  "llm_repo_Update fault now cfg t =
     (if fault \<or> \<not> int4_ok (lc_MaxTokens cfg) then (False, t)
      else (True, update_rows (\<lambda>c. lc_ID c = lc_ID cfg \<and> lc_UserID c = lc_UserID cfg)
              (\<lambda>c. c\<lparr>lc_Name := lc_Name cfg, lc_Provider := lc_Provider cfg, lc_BaseURL := lc_BaseURL cfg,
                    lc_EncryptedKey := lc_EncryptedKey cfg, lc_Model := lc_Model cfg,
                    lc_IsDefault := lc_IsDefault cfg, lc_MaxTokens := lc_MaxTokens cfg,
                    lc_Temperature := lc_Temperature cfg, lc_UpdatedAt := now\<rparr>) t))"

definition llm_repo_Delete :: "bool \<Rightarrow> uuid \<Rightarrow> uuid \<Rightarrow> LLMConfig list \<Rightarrow> bool \<times> LLMConfig list" where
  "llm_repo_Delete fault cid userID t =
     (if fault then (False, t) else (True, delete_rows (\<lambda>c. lc_ID c = cid \<and> lc_UserID c = userID) t))"

section \<open>Service\<close>

datatype LLMError = InvalidBaseURL URLError | EncryptError | DecryptError | ConfigNotFound | LLMUnauthorized
  | LLMDBError | TestFailed GatewayError

text \<open>The environment of the service: the cipher, the master key, DNS, and per call the nonce, the
  new id, the clock and the faults.\<close>

record LLMEnv =
  le_seal :: aead_seal
  le_open :: aead_open
  le_masterKey :: bytes
  le_lookup :: "string \<Rightarrow> ip list option"
  le_nonce :: bytes
  le_newID :: uuid
  le_now :: time
  le_faults :: faults

definition llm_List :: "LLMEnv \<Rightarrow> uuid \<Rightarrow> LLMConfig list \<Rightarrow> LLMConfig list option" where
  "llm_List e userID t = llm_ListByUser (le_faults e 0) userID t"

definition llm_Create :: "LLMEnv \<Rightarrow> uuid \<Rightarrow> LLMConfig \<Rightarrow> LLMConfig list \<Rightarrow> (LLMError + LLMConfig) \<times> LLMConfig list" where
  "llm_Create e userID cfg0 t =
     (let cfg = cfg0\<lparr>lc_ID := le_newID e, lc_UserID := userID\<rparr> in
      case ValidateBaseURL (le_lookup e) (lc_BaseURL cfg) of
        Some err \<Rightarrow> (Inl (InvalidBaseURL err), t)
      | None \<Rightarrow>
          (case EncryptAPIKey (le_seal e) (le_nonce e) (lc_DecryptedKey cfg) (le_masterKey e) of
             None \<Rightarrow> (Inl EncryptError, t)
           | Some encryptedKey \<Rightarrow>
               (let cfg' = cfg\<lparr>lc_EncryptedKey := encryptedKey, lc_DecryptedKey := ''''\<rparr>;
                    (ok, t') = llm_repo_Create (le_faults e 0) (le_now e) cfg' t
                in if \<not> ok then (Inl LLMDBError, t') else (Inr cfg', t'))))"

text \<open>A \<open>float32\<close> equals 0 for both zeros.\<close>

definition f32_zero :: "float32 \<Rightarrow> bool" where
  "f32_zero x \<longleftrightarrow> x = 0 \<or> x = 2147483648"

definition merge_config :: "LLMConfig \<Rightarrow> LLMConfig \<Rightarrow> LLMConfig" where
  "merge_config existing cfg =
     cfg\<lparr>lc_Name := (if lc_Name cfg = '''' then lc_Name existing else lc_Name cfg),
         lc_Provider := (if lc_Provider cfg = '''' then lc_Provider existing else lc_Provider cfg),
         lc_BaseURL := (if lc_BaseURL cfg = '''' then lc_BaseURL existing else lc_BaseURL cfg),
         lc_Model := (if lc_Model cfg = '''' then lc_Model existing else lc_Model cfg),
         lc_MaxTokens := (if lc_MaxTokens cfg = 0 then lc_MaxTokens existing else lc_MaxTokens cfg),
         lc_Temperature := (if f32_zero (lc_Temperature cfg) then lc_Temperature existing else lc_Temperature cfg)\<rparr>"

definition llm_Update :: "LLMEnv \<Rightarrow> uuid \<Rightarrow> LLMConfig \<Rightarrow> LLMConfig list \<Rightarrow> (LLMError + LLMConfig) \<times> LLMConfig list" where
  "llm_Update e userID cfg0 t =
     (case llm_GetByID (le_faults e 0) (lc_ID cfg0) t of
        None \<Rightarrow> (Inl ConfigNotFound, t)
      | Some existing \<Rightarrow>
          if lc_UserID existing \<noteq> userID then (Inl LLMUnauthorized, t)
          else
            (let cfg = merge_config existing cfg0 in
             case (if lc_BaseURL cfg \<noteq> '''' then ValidateBaseURL (le_lookup e) (lc_BaseURL cfg) else None) of
               Some err \<Rightarrow> (Inl (InvalidBaseURL err), t)
             | None \<Rightarrow>
                 (case (if lc_DecryptedKey cfg \<noteq> ''''
                        then EncryptAPIKey (le_seal e) (le_nonce e) (lc_DecryptedKey cfg) (le_masterKey e)
                        else Some (lc_EncryptedKey existing)) of
                    None \<Rightarrow> (Inl EncryptError, t)
                  | Some encryptedKey \<Rightarrow>
                      (let cfg' = cfg\<lparr>lc_EncryptedKey := encryptedKey, lc_DecryptedKey := ''''\<rparr>;
                           (ok, t') = llm_repo_Update (le_faults e 1) (le_now e) cfg' t
                       in if \<not> ok then (Inl LLMDBError, t') else (Inr cfg', t')))))"

definition llm_Delete :: "LLMEnv \<Rightarrow> uuid \<Rightarrow> uuid \<Rightarrow> LLMConfig list \<Rightarrow> LLMError option \<times> LLMConfig list" where
  "llm_Delete e userID configID t =
     (case llm_GetByID (le_faults e 0) configID t of
        None \<Rightarrow> (Some ConfigNotFound, t)
      | Some existing \<Rightarrow>
          if lc_UserID existing \<noteq> userID then (Some LLMUnauthorized, t)
          else let (ok, t') = llm_repo_Delete (le_faults e 1) configID userID t
               in (if ok then None else Some LLMDBError, t'))"

definition llm_TestConnection :: "LLMEnv \<Rightarrow> time \<Rightarrow> uuid \<Rightarrow> uuid \<Rightarrow> LLMConfig list \<Rightarrow> Gateway \<Rightarrow> LLMError option \<times> Gateway" where
  "llm_TestConnection e t2 userID configID t g =
     (case llm_GetByID (le_faults e 0) configID t of
        None \<Rightarrow> (Some ConfigNotFound, g)
      | Some cfg \<Rightarrow>
          if lc_UserID cfg \<noteq> userID then (Some LLMUnauthorized, g)
          else
            (case DecryptAPIKey (le_open e) (lc_EncryptedKey cfg) (le_masterKey e) of
               None \<Rightarrow> (Some DecryptError, g)
             | Some decryptedKey \<Rightarrow>
                 (let gwCfg = \<lparr>cfg_Provider = lc_Provider cfg, cfg_BaseURL = lc_BaseURL cfg, cfg_APIKey = decryptedKey,
                               cfg_Model = lc_Model cfg, cfg_MaxTokens = 0, cfg_Temperature = 0, cfg_Timeout = 0,
                               cfg_MaxRetries = 0, cfg_RetryBaseDelay = 0\<rparr>;
                      chatReq = \<lparr>Model = lc_Model cfg,
                                 Messages = [\<lparr>Role = ''user'', Content = ''Hello, this is a test. Reply with OK.''\<rparr>],
                                 Temperature = None, MaxTokens = Some 10, Stream = False, Timeout = 0,
                                 MaxRetries = 0, RetryBaseDelay = 0\<rparr>;
                      (r, g') = gw_Chat (le_now e) t2 gwCfg chatReq g
                  in (map_option TestFailed (error_of r), g'))))"

definition llm_GetDefault :: "LLMEnv \<Rightarrow> uuid \<Rightarrow> LLMConfig list \<Rightarrow> LLMConfig option" where
  "llm_GetDefault e userID t = llm_GetDefaultByUser (le_faults e 0) userID t"

definition ListProviders :: "string list" where
  "ListProviders = [''openai'', ''deepseek'', ''qwen'', ''anthropic'', ''custom'']"

section \<open>Handlers\<close>

text \<open>\<open>isValidProvider\<close>, the loop over the list of known names.\<close>

fun isValidProvider :: "string list \<Rightarrow> string \<Rightarrow> bool" where
  "isValidProvider [] provider = False"
| "isValidProvider (p # valid) provider = (if p = provider then True else isValidProvider valid provider)"

definition llm_handle_Create :: "LLMEnv \<Rightarrow> uuid option \<Rightarrow> LLMConfig option \<Rightarrow> LLMConfig list
    \<Rightarrow> LLMConfig response \<times> LLMConfig list" where
  "llm_handle_Create e user body t =
     (case user of
        None \<Rightarrow> (HttpError 401 ''unauthorized'' '''', t)
      | Some userID \<Rightarrow>
          (case body of
             None \<Rightarrow> (HttpError 400 ''invalid_request'' ''Failed to parse request body'', t)
           | Some cfg0 \<Rightarrow>
               (let cfg = cfg0\<lparr>lc_DecryptedKey := lc_APIKey cfg0\<rparr> in
                if lc_Name cfg = '''' \<or> lc_Provider cfg = '''' \<or> lc_BaseURL cfg = '''' \<or> lc_DecryptedKey cfg = ''''
                   \<or> lc_Model cfg = ''''
                then (HttpError 400 ''validation_error'' ''name, provider, base_url, api_key, and model are required'', t)
                else if \<not> isValidProvider ListProviders (lc_Provider cfg)
                then (HttpError 400 ''validation_error'' ''invalid provider'', t)
                else case llm_Create e userID cfg t of
                       (Inl _, t') \<Rightarrow> (HttpError 500 ''create_error'' ''Failed to create config'', t')
                     | (Inr result, t') \<Rightarrow> (JSON 201 result, t'))))"

definition llm_handle_Update :: "LLMEnv \<Rightarrow> (string \<Rightarrow> uuid option) \<Rightarrow> uuid option \<Rightarrow> string \<Rightarrow> LLMConfig option \<Rightarrow> LLMConfig list
    \<Rightarrow> LLMConfig response \<times> LLMConfig list" where
  "llm_handle_Update e parseUUID user configID body t =
     (case user of
        None \<Rightarrow> (HttpError 401 ''unauthorized'' '''', t)
      | Some userID \<Rightarrow>
          if configID = '''' then (HttpError 400 ''missing_id'' ''Config ID is required'', t)
          else
          (case parseUUID configID of
             None \<Rightarrow> (HttpError 400 ''invalid_id'' ''Invalid config ID format'', t)
           | Some parsedID \<Rightarrow>
               (case body of
                  None \<Rightarrow> (HttpError 400 ''invalid_request'' ''Failed to parse request body'', t)
                | Some cfg0 \<Rightarrow>
                    (let cfg = cfg0\<lparr>lc_ID := parsedID\<rparr> in
                     if lc_Provider cfg \<noteq> '''' \<and> \<not> isValidProvider ListProviders (lc_Provider cfg)
                     then (HttpError 400 ''validation_error'' ''invalid provider'', t)
                     else case llm_Update e userID cfg t of
                            (Inl _, t') \<Rightarrow> (HttpError 500 ''update_error'' ''Failed to update config'', t')
                          | (Inr result, t') \<Rightarrow> (JSON 200 result, t')))))"

definition llm_handle_Delete :: "LLMEnv \<Rightarrow> (string \<Rightarrow> uuid option) \<Rightarrow> uuid option \<Rightarrow> string \<Rightarrow> LLMConfig list \<Rightarrow> unit response \<times> LLMConfig list" where
  "llm_handle_Delete e parseUUID user configID t =
     (case user of
        None \<Rightarrow> (HttpError 401 ''unauthorized'' '''', t)
      | Some userID \<Rightarrow>
          if configID = '''' then (HttpError 400 ''missing_id'' ''Config ID is required'', t)
          else
          (case parseUUID configID of
             None \<Rightarrow> (HttpError 400 ''invalid_id'' ''Invalid config ID format'', t)
           | Some parsedID \<Rightarrow>
               (case llm_Delete e userID parsedID t of
                  (Some _, t') \<Rightarrow> (HttpError 500 ''delete_error'' ''Failed to delete config'', t')
                | (None, t') \<Rightarrow> (JSON 204 (), t'))))"

section \<open>Lemmas\<close>

text \<open>Reserved IPv4 networks, as prefixes of the 32-bit address.\<close>

definition v4_value :: "nat \<Rightarrow> nat \<Rightarrow> nat \<Rightarrow> nat \<Rightarrow> nat" where
  "v4_value a b c d = a * 2 ^ 24 + b * 2 ^ 16 + c * 2 ^ 8 + d"

definition in_cidr :: "nat \<Rightarrow> nat \<times> nat \<Rightarrow> bool" where
  "in_cidr addr net = (addr div 2 ^ (32 - snd net) = fst net div 2 ^ (32 - snd net))"

definition reserved_v4 :: "(nat \<times> nat) list" where
  "reserved_v4 =
     [(v4_value 127 0 0 0, 8), (v4_value 169 254 0 0, 16), (v4_value 224 0 0 0, 24), (v4_value 0 0 0 0, 32),
      (v4_value 10 0 0 0, 8), (v4_value 172 16 0 0, 12), (v4_value 192 168 0 0, 16)]"

lemma digit_eq:
  assumes "(b::nat) < m" and "b' < m"
  shows "a * m + b = a' * m + b' \<longleftrightarrow> a = a' \<and> b = b'"
proof
  assume e: "a * m + b = a' * m + b'"
  have "(a * m + b) div m = a" "(a' * m + b') div m = a'" using assms by auto
  then show "a = a' \<and> b = b'" using e by auto
qed simp

lemma isPublicIP_v4:
  assumes "a < 256" and "b < 256" and "c < 256" and "d < 256"
  shows "isPublicIP [a, b, c, d] \<longleftrightarrow> list_all (\<lambda>net. \<not> in_cidr (v4_value a b c d) net) reserved_v4"
proof -
  have e: "v4_value a b c d = a * 16777216 + b * 65536 + c * 256 + d" by (simp add: v4_value_def)
  have b16: "b = 16 * (b div 16) + b mod 16" "b mod 16 < 16" by simp_all
  have v: "v4_value a b c d div 16777216 = a" "v4_value a b c d div 65536 = a * 256 + b"
    "v4_value a b c d div 256 = (a * 256 + b) * 256 + c" "v4_value a b c d div 1048576 = a * 16 + b div 16"
    unfolding e using assms b16 by (auto intro!: div_nat_eqI)
  have k: "v4_value 127 0 0 0 = 2130706432" "v4_value 10 0 0 0 = 167772160" "v4_value 169 254 0 0 = 2851995648"
    "v4_value 192 168 0 0 = 3232235520" "v4_value 224 0 0 0 = 3758096384" "v4_value 172 16 0 0 = 2886729728"
    "v4_value 0 0 0 0 = 0"
    by (simp_all add: v4_value_def)
  have lin: "a * 256 + b = 43518 \<longleftrightarrow> a = 169 \<and> b = 254" "a * 256 + b = 49320 \<longleftrightarrow> a = 192 \<and> b = 168"
    "65536 * a + b * 256 + c = 14680064 \<longleftrightarrow> a = 224 \<and> b = 0 \<and> c = 0"
    "a * 16 + b div 16 = 2753 \<longleftrightarrow> a = 172 \<and> b div 16 = 1"
    "v4_value a b c d = 0 \<longleftrightarrow> a = 0 \<and> b = 0 \<and> c = 0 \<and> d = 0"
    using digit_eq [of b 256 254 a 169] digit_eq [of b 256 168 a 192] digit_eq [of b 256 0 a 224]
      digit_eq [of c 256 0 "a * 256 + b" 57344] digit_eq [of "b div 16" 16 1 a 172] assms
    by (auto simp: e)
  have "in_cidr (v4_value a b c d) (v4_value 127 0 0 0, 8) \<longleftrightarrow> a = 127"
    "in_cidr (v4_value a b c d) (v4_value 10 0 0 0, 8) \<longleftrightarrow> a = 10"
    "in_cidr (v4_value a b c d) (v4_value 169 254 0 0, 16) \<longleftrightarrow> a = 169 \<and> b = 254"
    "in_cidr (v4_value a b c d) (v4_value 192 168 0 0, 16) \<longleftrightarrow> a = 192 \<and> b = 168"
    "in_cidr (v4_value a b c d) (v4_value 224 0 0 0, 24) \<longleftrightarrow> a = 224 \<and> b = 0 \<and> c = 0"
    "in_cidr (v4_value a b c d) (v4_value 172 16 0 0, 12) \<longleftrightarrow> a = 172 \<and> b div 16 = 1"
    "in_cidr (v4_value a b c d) (v4_value 0 0 0 0, 32) \<longleftrightarrow> a = 0 \<and> b = 0 \<and> c = 0 \<and> d = 0"
    by (simp_all add: in_cidr_def v k lin del: Suc_eq_numeral add_eq_0_iff_both_eq_0)
  then show ?thesis
    by (auto simp: isPublicIP_def IsLoopback_def IsLinkLocalUnicast_def IsLinkLocalMulticast_def IsUnspecified_def
        IsPrivate_def ip_To4_def reserved_v4_def)
qed

lemma isPublicIP_mapped:
  "isPublicIP (v4_mapped @ [a, b, c, d]) = isPublicIP [a, b, c, d]"
  by (simp add: isPublicIP_def IsLoopback_def IsLinkLocalUnicast_def IsLinkLocalMulticast_def IsUnspecified_def
      IsPrivate_def ip_To4_def v4_mapped_def)

lemma parse_https_prefix:
  assumes "parseSchemeAndHost url = Some (''https'', host)"
  shows "has_prefix url ''https://''"
proof -
  obtain i where i: "str_Index url ''://'' = Some i" "take i url = ''https''"
    using assms by (auto simp: parseSchemeAndHost_def Let_def split: option.splits)
  have "take 3 (drop i url) = ''://''" "i \<le> length url" using str_Index_SomeD [OF i(1)] by (auto simp: numeral_eq_Suc)
  moreover have "length (take i url) = 5" by (simp add: i(2))
  then have "i = 5" using \<open>i \<le> length url\<close> by simp
  ultimately have "take (5 + 3) url = ''https'' @ ''://''" using i(2) by (simp only: take_add)
  then show ?thesis by (simp add: has_prefix_def numeral_eq_Suc)
qed

lemma merge_config_key [simp]: "lc_DecryptedKey (merge_config existing cfg) = lc_DecryptedKey cfg"
  by (simp add: merge_config_def)

lemma llm_Update_okD:
  assumes "llm_Update e u cfg0 t = (Inr r, t')"
  shows "\<exists>existing key. find_row (\<lambda>c. lc_ID c = lc_ID cfg0) t = Some existing \<and> lc_UserID existing = u
    \<and> r = (merge_config existing cfg0)\<lparr>lc_EncryptedKey := key, lc_DecryptedKey := ''''\<rparr>
    \<and> (lc_DecryptedKey cfg0 = '''' \<longrightarrow> key = lc_EncryptedKey existing)
    \<and> t' = snd (llm_repo_Update (le_faults e 1) (le_now e) r t)"
proof -
  obtain existing where ex: "find_row (\<lambda>c. lc_ID c = lc_ID cfg0) t = Some existing" "\<not> le_faults e 0"
    using assms by (simp add: llm_Update_def llm_GetByID_def split: option.split_asm if_split_asm)
  then have own: "lc_UserID existing = u"
    using assms by (simp add: llm_Update_def llm_GetByID_def split: if_split_asm)
  from ex own show ?thesis
    using assms
    by (simp add: llm_Update_def llm_GetByID_def Let_def split: option.split_asm if_split_asm prod.split_asm) blast+
qed

section \<open>Properties\<close>



text \<open>Updates of a configuration are lost. The handler fills in the id of the configuration
  but not its owner; when the request body does not repeat the owner's id, the update of the
  owner's own configuration answers 200 with the merged configuration while the table is
  unchanged, and an API key in the body is not encrypted or stored.\<close>

theorem llm_update_lost:
  assumes "llm_handle_Update e parseUUID (Some u) configID (Some body) t = (JSON 200 result, t')"
    and "lc_UserID body \<noteq> u" and "distinct (map lc_ID t)" and "lc_DecryptedKey body = ''''"
    and "parseUUID configID = Some cid" and "find_row (\<lambda>c. lc_ID c = cid) t = Some existing"
  shows "t' = t \<and> lc_UserID existing = u \<and> lc_EncryptedKey result = lc_EncryptedKey existing
    \<and> lc_Name result = (if lc_Name body = '''' then lc_Name existing else lc_Name body)"
proof -
  have "llm_Update e u (body\<lparr>lc_ID := cid\<rparr>) t = (Inr result, t')"
    using assms(1,5) by (simp add: llm_handle_Update_def Let_def split: if_split_asm sum.split_asm prod.split_asm)
  from llm_Update_okD [OF this] assms(4,6) have own: "lc_UserID existing = u"
    and res: "lc_EncryptedKey result = lc_EncryptedKey existing"
      "lc_Name result = (if lc_Name body = '''' then lc_Name existing else lc_Name body)"
    and upd: "lc_ID result = cid" "lc_UserID result = lc_UserID body"
      "t' = snd (llm_repo_Update (le_faults e 1) (le_now e) result t)"
    by (auto simp: merge_config_def)
  have "\<not> (lc_ID c = cid \<and> lc_UserID c = lc_UserID body)" if "c \<in> set t" for c
  proof
    assume c: "lc_ID c = cid \<and> lc_UserID c = lc_UserID body"
    have "existing \<in> set t" "lc_ID existing = cid" using find_row_SomeD [OF assms(6)] by simp_all
    then have "c = existing" using unique_row [OF assms(3) that, of existing] c by simp
    then show False using c own assms(2) by simp
  qed
  then have "t' = t" using upd by (auto simp: llm_repo_Update_def update_rows_none split: if_splits)
  then show ?thesis using own res by simp
qed

definition demo_llm_config :: LLMConfig where
  "demo_llm_config = \<lparr>lc_ID = 5, lc_UserID = 1, lc_Name = ''old'', lc_Provider = ''custom'', lc_BaseURL = '''',
     lc_EncryptedKey = [9], lc_DecryptedKey = '''', lc_APIKey = '''', lc_Model = ''m'', lc_IsDefault = True,
     lc_MaxTokens = 10, lc_Temperature = 1, lc_CreatedAt = 0, lc_UpdatedAt = 0\<rparr>"

definition demo_llm_env :: LLMEnv where
  "demo_llm_env = \<lparr>le_seal = (\<lambda>k n p. p), le_open = (\<lambda>k n c. Some c), le_masterKey = replicate 32 0,
     le_lookup = (\<lambda>_. Some [[8, 8, 8, 8]]), le_nonce = replicate 12 7, le_newID = 77, le_now = 100, le_faults = no_faults\<rparr>"

theorem llm_update_lost_witness:
  "snd (llm_handle_Update demo_llm_env (\<lambda>_. Some 5) (Some 1) ''c5''
     (Some (demo_llm_config\<lparr>lc_UserID := 0, lc_Name := ''new'', lc_APIKey := ''sk''\<rparr>)) [demo_llm_config]) = [demo_llm_config]"
proof -
  let ?body = "demo_llm_config\<lparr>lc_UserID := 0, lc_Name := ''new'', lc_APIKey := ''sk''\<rparr>"
  obtain r t' where h: "llm_handle_Update demo_llm_env (\<lambda>_. Some 5) (Some 1) ''c5'' (Some ?body) [demo_llm_config] = (JSON 200 r, t')"
    by (simp add: llm_handle_Update_def llm_Update_def llm_GetByID_def demo_llm_config_def demo_llm_env_def
        merge_config_def ListProviders_def llm_repo_Update_def int4_ok_def f32_zero_def Let_def)
  from llm_update_lost [OF h] show ?thesis using h by (simp add: demo_llm_config_def)
qed

end
