(* ===== verification/Quota.thy ===== *)
theory Quota
  imports AnyNote_Prelude
begin

text \<open>
  Daily AI quotas: \<^verbatim>\<open>internal/service/quota_service.go\<close> over \<^verbatim>\<open>internal/repository/quota_repository.go\<close>.
  The table \<^verbatim>\<open>user_quotas\<close> is a list of rows with primary key \<^verbatim>\<open>user_id\<close>; the service adds an
  in-memory cache of the date on which each user was last checked for a reset. One clock reading
  stands for \<open>time.Now()\<close> and the \<^verbatim>\<open>NOW()\<close> of the statements of one call. A statement is atomic;
  that it can fail is the fault oracle, indexed by the statements of the call in order.
\<close>

record UserQuota =
  uq_UserID :: uuid
  uq_Plan :: string
  uq_DailyAILimit :: int
  uq_DailyAIUsed :: int
  uq_QuotaResetAt :: time
  uq_UpdatedAt :: time

record QuotaResponse =
  qr_Plan :: string
  qr_DailyLimit :: int
  qr_DailyUsed :: int
  qr_ResetAt :: time

record quotaService =
  user_quotas :: "UserQuota list"
  lastReset :: "(uuid \<times> int) list"

datatype QuotaError = ErrQuotaExceeded | QuotaDBError

section \<open>Repository\<close>

definition quota_GetByUserID :: "bool \<Rightarrow> uuid \<Rightarrow> UserQuota list \<Rightarrow> UserQuota option" where
  "quota_GetByUserID fault userID t = (if fault then None else find_row (\<lambda>r. uq_UserID r = userID) t)"

text \<open>An insert that overwrites the row of the same user; \<open>True\<close> is success. A value outside the
  column type INTEGER is refused.\<close>

definition quota_Create :: "bool \<Rightarrow> time \<Rightarrow> UserQuota \<Rightarrow> UserQuota list \<Rightarrow> bool \<times> UserQuota list" where
  "quota_Create fault now quota t =
     (if fault \<or> \<not> int4_ok (uq_DailyAILimit quota) \<or> \<not> int4_ok (uq_DailyAIUsed quota) then (False, t)
      else case find_row (\<lambda>r. uq_UserID r = uq_UserID quota) t of
             None \<Rightarrow> (True, t @ [quota\<lparr>uq_UpdatedAt := now\<rparr>])
           | Some _ \<Rightarrow> (True, update_rows (\<lambda>r. uq_UserID r = uq_UserID quota)
                              (\<lambda>_. quota\<lparr>uq_UpdatedAt := now\<rparr>) t))"

text \<open>\<open>None\<close> is a database error, \<open>Some False\<close> the exceeded quota.\<close>

definition TryIncrementUsage :: "bool \<Rightarrow> time \<Rightarrow> uuid \<Rightarrow> UserQuota list \<Rightarrow> bool option \<times> UserQuota list" where
  "TryIncrementUsage fault now userID t =
     (if fault then (None, t)
      else let P = (\<lambda>r. uq_UserID r = userID \<and> uq_DailyAIUsed r < uq_DailyAILimit r) in
           case find_row P t of
             None \<Rightarrow> (Some False, t)
           | Some _ \<Rightarrow> (Some True, update_rows P
                 (\<lambda>r. r\<lparr>uq_DailyAIUsed := uq_DailyAIUsed r + 1, uq_UpdatedAt := now\<rparr>) t))"

definition ResetIfNeeded :: "bool \<Rightarrow> time \<Rightarrow> uuid \<Rightarrow> UserQuota list \<Rightarrow> bool \<times> UserQuota list" where
  "ResetIfNeeded fault now userID t =
     (if fault then (False, t)
      else (True, update_rows (\<lambda>r. uq_UserID r = userID \<and> uq_QuotaResetAt r < now - day)
              (\<lambda>r. r\<lparr>uq_DailyAIUsed := 0, uq_QuotaResetAt := now, uq_UpdatedAt := now\<rparr>) t))"

definition EnsureQuota :: "bool \<Rightarrow> time \<Rightarrow> uuid \<Rightarrow> string \<Rightarrow> UserQuota list \<Rightarrow> bool \<times> UserQuota list" where
  "EnsureQuota fault now userID plan t =
     (let limit = (if plan = ''pro'' \<or> plan = ''lifetime'' then 500 else 50) in
      if fault then (False, t)
      else case find_row (\<lambda>r. uq_UserID r = userID) t of
             Some _ \<Rightarrow> (True, t)
           | None \<Rightarrow> (True, t @ [\<lparr>uq_UserID = userID, uq_Plan = plan, uq_DailyAILimit = limit,
                 uq_DailyAIUsed = 0, uq_QuotaResetAt = now, uq_UpdatedAt = now\<rparr>]))"

section \<open>Service\<close>

text \<open>The UTC date of a clock reading, written \<^verbatim>\<open>2006-01-02\<close> by the code, is the day number.\<close>

definition utc_date :: "time \<Rightarrow> int" where
  "utc_date now = now div day"

definition quota_resetIfNeeded :: "bool \<Rightarrow> time \<Rightarrow> uuid \<Rightarrow> quotaService \<Rightarrow> quotaService" where
  "quota_resetIfNeeded fault now userID s =
     (if map_of (lastReset s) userID = Some (utc_date now) then s
      else let (ok, t) = ResetIfNeeded fault now userID (user_quotas s) in
           if ok then s\<lparr>user_quotas := t, lastReset := AList.update userID (utc_date now) (lastReset s)\<rparr>
           else s)"

definition GetQuota :: "faults \<Rightarrow> time \<Rightarrow> uuid \<Rightarrow> quotaService \<Rightarrow> QuotaResponse \<times> quotaService" where
  "GetQuota f now userID s =
     (let s1 = quota_resetIfNeeded (f 0) now userID s in
      case quota_GetByUserID (f 1) userID (user_quotas s1) of
        None \<Rightarrow> (\<lparr>qr_Plan = ''free'', qr_DailyLimit = 50, qr_DailyUsed = 0, qr_ResetAt = now + 24 * hour\<rparr>, s1)
      | Some quota \<Rightarrow> (\<lparr>qr_Plan = uq_Plan quota, qr_DailyLimit = uq_DailyAILimit quota,
                        qr_DailyUsed = uq_DailyAIUsed quota, qr_ResetAt = uq_QuotaResetAt quota\<rparr>, s1))"

text \<open>\<open>None\<close> is the nil error.\<close>

definition IncrementUsage :: "faults \<Rightarrow> time \<Rightarrow> uuid \<Rightarrow> quotaService \<Rightarrow> QuotaError option \<times> quotaService" where
  "IncrementUsage f now userID s =
     (let s1 = quota_resetIfNeeded (f 0) now userID s;
          (r, t) = TryIncrementUsage (f 1) now userID (user_quotas s1);
          s2 = s1\<lparr>user_quotas := t\<rparr>
      in case r of
           None \<Rightarrow> (Some QuotaDBError, s2)
         | Some False \<Rightarrow> (Some ErrQuotaExceeded, s2)
         | Some True \<Rightarrow> (None, s2))"

section \<open>Sequences of calls\<close>

datatype quota_op = OpGet uuid | OpIncrement uuid | OpEnsure uuid string

text \<open>One call: which faults, at what time, which operation. The outcome is whether a unit of
  quota was granted.\<close>

fun quota_step :: "faults \<Rightarrow> time \<Rightarrow> quota_op \<Rightarrow> quotaService \<Rightarrow> bool \<times> quotaService" where
  "quota_step f now (OpGet u) s = (False, snd (GetQuota f now u s))"
| "quota_step f now (OpIncrement u) s = (let (e, s') = IncrementUsage f now u s in (e = None, s'))"
| "quota_step f now (OpEnsure u p) s = (False, s\<lparr>user_quotas := snd (EnsureQuota (f 0) now u p (user_quotas s))\<rparr>)"

definition quota_grant :: "uuid \<Rightarrow> faults \<times> time \<times> quota_op \<Rightarrow> quotaService \<Rightarrow> bool \<times> quotaService" where
  "quota_grant u c s = (case c of (f, now, op) \<Rightarrow>
     (let (ok, s') = quota_step f now op s in (ok \<and> op = OpIncrement u, s')))"

fun quota_run :: "(faults \<times> time \<times> quota_op) list \<Rightarrow> quotaService \<Rightarrow> quotaService" where
  "quota_run [] s = s"
| "quota_run ((f, now, op) # cs) s = quota_run cs (snd (quota_step f now op s))"

definition quota_row_ok :: "UserQuota \<Rightarrow> bool" where
  "quota_row_ok r \<longleftrightarrow> 0 \<le> uq_DailyAIUsed r \<and> uq_DailyAIUsed r \<le> uq_DailyAILimit r"

definition quota_inv :: "quotaService \<Rightarrow> bool" where
  "quota_inv s \<longleftrightarrow> distinct (map uq_UserID (user_quotas s)) \<and> list_all quota_row_ok (user_quotas s)"

definition quota_row :: "uuid \<Rightarrow> quotaService \<Rightarrow> UserQuota option" where
  "quota_row u s = find_row (\<lambda>r. uq_UserID r = u) (user_quotas s)"

section \<open>Lemmas\<close>

lemma quota_inv_update:
  assumes "quota_inv s" and "\<And>r. P r \<Longrightarrow> uq_UserID (g r) = uq_UserID r"
    and "\<And>r. quota_row_ok r \<Longrightarrow> P r \<Longrightarrow> quota_row_ok (g r)"
  shows "quota_inv (s\<lparr>user_quotas := update_rows P g (user_quotas s)\<rparr>)"
  using assms by (auto simp: quota_inv_def map_update_rows list_all_iff set_update_rows)

lemma quota_inv_lastReset [simp]: "quota_inv (s\<lparr>lastReset := c\<rparr>) = quota_inv s"
  by (simp add: quota_inv_def)

lemma quota_inv_same [simp]: "quota_inv (s\<lparr>user_quotas := user_quotas s\<rparr>) = quota_inv s"
  by (simp add: quota_inv_def)

lemma quota_inv_reset: "quota_inv s \<Longrightarrow> quota_inv (quota_resetIfNeeded fault now u s)"
  unfolding quota_resetIfNeeded_def ResetIfNeeded_def Let_def
  by (auto intro!: quota_inv_update simp: quota_row_ok_def)

lemma quota_inv_increment: "quota_inv s \<Longrightarrow> quota_inv (snd (IncrementUsage f now u s))"
  using quota_inv_reset [of s "f 0" now u]
  unfolding IncrementUsage_def TryIncrementUsage_def Let_def
  by (auto intro!: quota_inv_update simp: quota_row_ok_def split: option.splits bool.splits)

lemma quota_inv_ensure:
  "quota_inv s \<Longrightarrow> quota_inv (s\<lparr>user_quotas := snd (EnsureQuota fault now u p (user_quotas s))\<rparr>)"
  unfolding quota_inv_def EnsureQuota_def Let_def
  by (auto simp: quota_row_ok_def find_row_None_iff split: option.splits)

lemma quota_inv_step: "quota_inv s \<Longrightarrow> quota_inv (snd (quota_step f now op s))"
  by (cases op) (auto simp: GetQuota_def Let_def quota_inv_reset quota_inv_ensure quota_inv_increment
      case_prod_unfold split: option.splits)

lemma quota_inv_run: "quota_inv s \<Longrightarrow> quota_inv (quota_run cs s)"
  by (induction cs arbitrary: s rule: list.induct) (auto simp: quota_inv_step)

text \<open>How a call changes the row of one user.\<close>

lemma quota_row_ok: "quota_inv s \<Longrightarrow> quota_row u s = Some r \<Longrightarrow> quota_row_ok r \<and> uq_UserID r = u"
  by (auto simp: quota_inv_def quota_row_def list_all_iff dest: find_row_SomeD)

lemma quota_row_reset:
  "quota_row u (quota_resetIfNeeded fault now v s) =
     map_option (\<lambda>r. if v = u \<and> \<not> fault \<and> map_of (lastReset s) u \<noteq> Some (utc_date now)
                        \<and> uq_QuotaResetAt r < now - day
                     then r\<lparr>uq_DailyAIUsed := 0, uq_QuotaResetAt := now, uq_UpdatedAt := now\<rparr> else r)
       (quota_row u s)"
  unfolding quota_resetIfNeeded_def ResetIfNeeded_def Let_def quota_row_def
  by (cases "find_row (\<lambda>r. uq_UserID r = u) (user_quotas s)")
    (auto simp: find_row_update dest: find_row_SomeD)

lemma try_increment_row:
  assumes "quota_inv s"
  shows "fst (TryIncrementUsage fault now u (user_quotas s)) =
      (if fault then None
       else Some (case quota_row u s of None \<Rightarrow> False | Some r \<Rightarrow> uq_DailyAIUsed r < uq_DailyAILimit r))"
    and "quota_row v (s\<lparr>user_quotas := snd (TryIncrementUsage fault now u (user_quotas s))\<rparr>) =
      map_option (\<lambda>r. if u = v \<and> \<not> fault \<and> uq_DailyAIUsed r < uq_DailyAILimit r
                      then r\<lparr>uq_DailyAIUsed := uq_DailyAIUsed r + 1, uq_UpdatedAt := now\<rparr> else r) (quota_row v s)"
proof -
  let ?P = "\<lambda>r. uq_UserID r = u \<and> uq_DailyAIUsed r < uq_DailyAILimit r"
  have d: "distinct (map uq_UserID (user_quotas s))" using assms by (simp add: quota_inv_def)
  have P: "find_row ?P (user_quotas s) = None \<longleftrightarrow>
      (case quota_row u s of None \<Rightarrow> True | Some r \<Rightarrow> \<not> uq_DailyAIUsed r < uq_DailyAILimit r)"
    unfolding quota_row_def find_row_None_iff
    by (auto split: option.splits dest!: find_row_SomeD simp: find_row_None_iff dest: unique_row [OF d])
  then show "fst (TryIncrementUsage fault now u (user_quotas s)) =
      (if fault then None
       else Some (case quota_row u s of None \<Rightarrow> False | Some r \<Rightarrow> uq_DailyAIUsed r < uq_DailyAILimit r))"
    by (auto simp: TryIncrementUsage_def split: option.splits)
  have "quota_row v (s\<lparr>user_quotas := update_rows ?P
      (\<lambda>r. r\<lparr>uq_DailyAIUsed := uq_DailyAIUsed r + 1, uq_UpdatedAt := now\<rparr>) (user_quotas s)\<rparr>) =
      map_option (\<lambda>r. if u = v \<and> uq_DailyAIUsed r < uq_DailyAILimit r
                      then r\<lparr>uq_DailyAIUsed := uq_DailyAIUsed r + 1, uq_UpdatedAt := now\<rparr> else r) (quota_row v s)"
    by (auto simp: quota_row_def find_row_update dest: find_row_SomeD intro!: option.map_cong)
  moreover have "find_row ?P (user_quotas s) = None \<Longrightarrow> u = v \<Longrightarrow> quota_row v s = Some r
      \<Longrightarrow> \<not> uq_DailyAIUsed r < uq_DailyAILimit r" for r
    using P by (auto split: option.splits)
  ultimately show "quota_row v (s\<lparr>user_quotas := snd (TryIncrementUsage fault now u (user_quotas s))\<rparr>) =
      map_option (\<lambda>r. if u = v \<and> \<not> fault \<and> uq_DailyAIUsed r < uq_DailyAILimit r
                      then r\<lparr>uq_DailyAIUsed := uq_DailyAIUsed r + 1, uq_UpdatedAt := now\<rparr> else r) (quota_row v s)"
    by (cases "quota_row v s") (auto simp: TryIncrementUsage_def Let_def split: option.splits)
qed

lemma quota_row_increment:
  assumes "quota_inv s" and "IncrementUsage f now u s = (e, s')"
  shows "e = None \<longleftrightarrow> \<not> f 1 \<and> (\<exists>r. quota_row u (quota_resetIfNeeded (f 0) now u s) = Some r
                                     \<and> uq_DailyAIUsed r < uq_DailyAILimit r)"
    and "quota_row v s' = map_option (\<lambda>r. if u = v \<and> e = None
           then r\<lparr>uq_DailyAIUsed := uq_DailyAIUsed r + 1, uq_UpdatedAt := now\<rparr> else r)
         (quota_row v (quota_resetIfNeeded (f 0) now u s))"
proof -
  let ?s1 = "quota_resetIfNeeded (f 0) now u s"
  have "quota_inv ?s1" using assms(1) by (rule quota_inv_reset)
  note T = try_increment_row(1) [OF this, of "f 1" now u] try_increment_row(2) [OF this, of v "f 1" now u]
  have s': "s' = ?s1\<lparr>user_quotas := snd (TryIncrementUsage (f 1) now u (user_quotas ?s1))\<rparr>"
    and e: "e = None \<longleftrightarrow> fst (TryIncrementUsage (f 1) now u (user_quotas ?s1)) = Some True"
    using assms(2) by (auto simp: IncrementUsage_def Let_def split: prod.splits option.splits bool.splits)
  show E: "e = None \<longleftrightarrow> \<not> f 1 \<and> (\<exists>r. quota_row u ?s1 = Some r \<and> uq_DailyAIUsed r < uq_DailyAILimit r)"
    using e T(1) by (auto split: option.splits)
  show "quota_row v s' = map_option (\<lambda>r. if u = v \<and> e = None
           then r\<lparr>uq_DailyAIUsed := uq_DailyAIUsed r + 1, uq_UpdatedAt := now\<rparr> else r) (quota_row v ?s1)"
    unfolding s' T(2) using E by (cases "quota_row v ?s1") auto
qed

lemma quota_row_ensure:
  "quota_row u s = Some r \<Longrightarrow>
     quota_row u (s\<lparr>user_quotas := snd (EnsureQuota fault now v p (user_quotas s))\<rparr>) = Some r"
  by (auto simp: quota_row_def EnsureQuota_def Let_def find_row_append split: option.splits)

text \<open>The budget of a user within a span that ends at \<open>hi\<close>: what is left of the current period,
  and a whole new limit when a reset can still happen.\<close>

definition day_budget :: "uuid \<Rightarrow> time \<Rightarrow> quotaService \<Rightarrow> int" where
  "day_budget u hi s = (case quota_row u s of None \<Rightarrow> 0
     | Some r \<Rightarrow> uq_DailyAILimit r - uq_DailyAIUsed r
                 + (if uq_QuotaResetAt r < hi - day then uq_DailyAILimit r else 0))"

definition within_day :: "time \<Rightarrow> time \<Rightarrow> faults \<times> time \<times> quota_op \<Rightarrow> bool" where
  "within_day lo hi c \<longleftrightarrow> hi \<le> lo + day \<and> lo \<le> fst (snd c) \<and> fst (snd c) \<le> hi"

definition has_quota :: "uuid \<Rightarrow> quotaService \<Rightarrow> bool" where
  "has_quota u s \<longleftrightarrow> quota_inv s \<and> quota_row u s \<noteq> None"

lemma reset_budget:
  assumes "has_quota u s" and "hi \<le> lo + day" and "lo \<le> now" and "now \<le> hi"
  shows "has_quota u (quota_resetIfNeeded fault now v s)"
    and "day_budget u hi (quota_resetIfNeeded fault now v s) \<le> day_budget u hi s"
proof -
  obtain r where r: "quota_row u s = Some r" and ok: "quota_row_ok r"
    using assms(1) quota_row_ok by (auto simp: has_quota_def)
  show "has_quota u (quota_resetIfNeeded fault now v s)"
    using assms(1) by (simp add: has_quota_def quota_inv_reset quota_row_reset)
  show "day_budget u hi (quota_resetIfNeeded fault now v s) \<le> day_budget u hi s"
    using ok assms(2-4) by (auto simp: day_budget_def quota_row_reset r quota_row_ok_def)
qed

lemma quota_step_budget:
  assumes "within_day lo hi c" and "has_quota u s" and "quota_grant u c s = (g, s')"
  shows "has_quota u s'" and "day_budget u hi s' + (if g then 1 else 0) \<le> day_budget u hi s"
proof -
  obtain f now op where c: "c = (f, now, op)" by (cases c)
  have t: "hi \<le> lo + day" "lo \<le> now" "now \<le> hi" using assms(1) by (auto simp: within_day_def c)
  have "has_quota u s' \<and> day_budget u hi s' + (if g then 1 else 0) \<le> day_budget u hi s"
  proof (cases op)
    case (OpGet v)
    then have "s' = quota_resetIfNeeded (f 0) now v s" "\<not> g"
      using assms(3) by (auto simp: quota_grant_def c GetQuota_def Let_def split: option.splits)
    then show ?thesis using reset_budget [OF assms(2) t] by simp
  next
    case (OpEnsure v p)
    then have s': "s' = s\<lparr>user_quotas := snd (EnsureQuota (f 0) now v p (user_quotas s))\<rparr>" "\<not> g"
      using assms(3) by (auto simp: quota_grant_def c)
    obtain r where "quota_row u s = Some r" using assms(2) by (auto simp: has_quota_def)
    then have "quota_row u s' = quota_row u s" by (simp add: s' quota_row_ensure)
    then show ?thesis
      using assms(2) s' by (simp add: has_quota_def day_budget_def quota_inv_ensure)
  next
    case (OpIncrement v)
    then obtain e where I: "IncrementUsage f now v s = (e, s')" and g: "g \<longleftrightarrow> e = None \<and> v = u"
      using assms(3) by (auto simp: quota_grant_def c split: prod.splits)
    let ?s1 = "quota_resetIfNeeded (f 0) now v s"
    have inv: "quota_inv s" using assms(2) by (simp add: has_quota_def)
    then have "quota_inv s'" using quota_inv_increment [of s f now v] I by simp
    note row = quota_row_increment(2) [OF inv I, of u]
    have "has_quota u s'"
      using \<open>quota_inv s'\<close> reset_budget(1) [OF assms(2) t, of "f 0" v] row by (auto simp: has_quota_def)
    moreover have "day_budget u hi s' + (if g then 1 else 0) \<le> day_budget u hi ?s1"
    proof (cases g)
      case True
      then obtain r where "quota_row u ?s1 = Some r"
        using quota_row_increment(1) [OF inv I] g by auto
      then show ?thesis using True g row by (simp add: day_budget_def)
    next
      case False
      then have "quota_row u s' = quota_row u ?s1"
        using row g by (cases "quota_row u ?s1") auto
      then show ?thesis using False by (simp add: day_budget_def)
    qed
    ultimately show ?thesis using reset_budget(2) [OF assms(2) t, of "f 0" v] by linarith
  qed
  then show "has_quota u s'" "day_budget u hi s' + (if g then 1 else 0) \<le> day_budget u hi s" by auto
qed

lemma day_budget_nonneg: "has_quota u s \<Longrightarrow> 0 \<le> day_budget u hi s"
  using quota_row_ok [of s u] by (fastforce simp: has_quota_def day_budget_def quota_row_ok_def split: option.splits)

interpretation quota_day: budgeted "quota_grant u" "within_day lo hi" "has_quota u" "day_budget u hi"
  for u lo hi
  using quota_step_budget day_budget_nonneg by unfold_locales blast+

text \<open>A burst of requests of one user, at the times \<open>ts\<close>, with the errors it gets.\<close>

fun increment_all :: "time list \<Rightarrow> uuid \<Rightarrow> quotaService \<Rightarrow> QuotaError option list \<times> quotaService" where
  "increment_all [] u s = ([], s)"
| "increment_all (now # ts) u s =
     (let (e, s1) = IncrementUsage no_faults now u s; (es, s2) = increment_all ts u s1 in (e # es, s2))"

lemma increment_no_fault:
  assumes "quota_inv s" and "quota_row u s = Some r" and "uq_QuotaResetAt r \<ge> now - day"
    and "IncrementUsage no_faults now u s = (e, s')"
  shows "e = (if uq_DailyAIUsed r < uq_DailyAILimit r then None else Some ErrQuotaExceeded)"
    and "quota_row u s' = Some (if uq_DailyAIUsed r < uq_DailyAILimit r
           then r\<lparr>uq_DailyAIUsed := uq_DailyAIUsed r + 1, uq_UpdatedAt := now\<rparr> else r)"
proof -
  have r1: "quota_row u (quota_resetIfNeeded False now u s) = Some r"
    using assms(2,3) by (simp add: quota_row_reset)
  have "e \<noteq> Some QuotaDBError"
    using assms(4)
    by (auto simp: IncrementUsage_def TryIncrementUsage_def Let_def split: option.splits bool.splits)
  then show e: "e = (if uq_DailyAIUsed r < uq_DailyAILimit r then None else Some ErrQuotaExceeded)"
    using quota_row_increment(1) [OF assms(1,4)] r1 QuotaError.exhaust by (cases e) auto
  show "quota_row u s' = Some (if uq_DailyAIUsed r < uq_DailyAILimit r
           then r\<lparr>uq_DailyAIUsed := uq_DailyAIUsed r + 1, uq_UpdatedAt := now\<rparr> else r)"
    using quota_row_increment(2) [OF assms(1,4), of u] r1 e by simp
qed

lemma increment_all_exact:
  assumes "quota_inv s" and "quota_row u s = Some r"
    and "\<forall>now \<in> set ts. uq_QuotaResetAt r \<ge> now - day"
  shows "fst (increment_all ts u s) =
    replicate (min (length ts) (nat (uq_DailyAILimit r - uq_DailyAIUsed r))) None
    @ replicate (length ts - nat (uq_DailyAILimit r - uq_DailyAIUsed r)) (Some ErrQuotaExceeded)"
  using assms
proof (induction ts arbitrary: s r)
  case (Cons now ts)
  obtain e s1 where I: "IncrementUsage no_faults now u s = (e, s1)" by fastforce
  note E = increment_no_fault [OF Cons.prems(1,2) _ I]
  have inv: "quota_inv s1" using quota_inv_increment [OF Cons.prems(1), of no_faults now u] I by simp
  show ?case
  proof (cases "uq_DailyAIUsed r < uq_DailyAILimit r")
    case True
    then have "nat (uq_DailyAILimit r - uq_DailyAIUsed r) = Suc (nat (uq_DailyAILimit r - (uq_DailyAIUsed r + 1)))"
      by simp
    then show ?thesis using Cons.IH [OF inv, of "r\<lparr>uq_DailyAIUsed := uq_DailyAIUsed r + 1, uq_UpdatedAt := now\<rparr>"]
        E True Cons.prems(3) I by (simp add: case_prod_unfold)
  next
    case False
    then show ?thesis using Cons.IH [OF inv, of r] E Cons.prems(3) I by (simp add: case_prod_unfold)
  qed
qed simp

section \<open>Properties\<close>

text \<open>C5: no user is granted more than the limit per period. In any sequence of calls by any
  users, with any database failures and clock readings in any order within one span of at most a
  day, a user is granted at most twice the daily limit, and at most what is left of the limit when
  the last reset is recent enough that none can fall into the span; every state reached keeps
  the usage of every user within the limit and the rows unique.\<close>

theorem quota_day_bound:
  assumes "quota_inv s" and "quota_row u s = Some r" and "hi \<le> lo + day"
    and "\<forall>c \<in> set cs. lo \<le> fst (snd c) \<and> fst (snd c) \<le> hi"
  shows "int (grants (quota_grant u) cs s) \<le> 2 * uq_DailyAILimit r
    \<and> (uq_QuotaResetAt r \<ge> hi - day \<longrightarrow> int (grants (quota_grant u) cs s) \<le> uq_DailyAILimit r - uq_DailyAIUsed r)
    \<and> quota_inv (quota_run cs s)"
proof -
  have "has_quota u s" using assms(1,2) by (simp add: has_quota_def)
  moreover have "\<forall>c \<in> set cs. within_day lo hi c" using assms(3,4) by (simp add: within_day_def)
  ultimately have "int (grants (quota_grant u) cs s) \<le> day_budget u hi s"
    by (rule quota_day.grants_le_budget)
  moreover have "0 \<le> uq_DailyAIUsed r" "uq_DailyAIUsed r \<le> uq_DailyAILimit r"
    using quota_row_ok [OF assms(1,2)] by (auto simp: quota_row_ok_def)
  ultimately show ?thesis
    using assms(2) quota_inv_run [OF assms(1)] by (auto simp: day_budget_def split: if_splits)
qed

definition demo_quota :: quotaService where
  "demo_quota = \<lparr>user_quotas = [\<lparr>uq_UserID = 1, uq_Plan = ''free'', uq_DailyAILimit = 2, uq_DailyAIUsed = 1,
     uq_QuotaResetAt = 0, uq_UpdatedAt = 0\<rparr>], lastReset = []\<rparr>"

lemma demo_quota_row:
  "quota_inv demo_quota"
  "quota_row 1 demo_quota = Some \<lparr>uq_UserID = 1, uq_Plan = ''free'', uq_DailyAILimit = 2, uq_DailyAIUsed = 1,
     uq_QuotaResetAt = 0, uq_UpdatedAt = 0\<rparr>"
  by (simp_all add: demo_quota_def quota_inv_def quota_row_ok_def quota_row_def)

theorem quota_day_bound_witness:
  "int (grants (quota_grant 1) [(no_faults, 3, OpIncrement 1), (no_faults, 4, OpIncrement 1)] demo_quota) \<le> 1"
  using quota_day_bound [OF demo_quota_row, of 10 0 "[(no_faults, 3, OpIncrement 1), (no_faults, 4, OpIncrement 1)]"]
  by simp

text \<open>The quota is served in full and not beyond. While no reset is due and the database
  answers, a burst of requests gets exactly the remaining units: the first
  \<open>limit - used\<close> requests succeed and every later one gets the quota-exceeded error.\<close>

theorem quota_served_exactly:
  assumes "quota_inv s" and "quota_row u s = Some r"
    and "\<forall>now \<in> set ts. uq_QuotaResetAt r \<ge> now - day"
  shows "fst (increment_all ts u s) =
    replicate (min (length ts) (nat (uq_DailyAILimit r - uq_DailyAIUsed r))) None
    @ replicate (length ts - nat (uq_DailyAILimit r - uq_DailyAIUsed r)) (Some ErrQuotaExceeded)"
  using assms by (rule increment_all_exact)

theorem quota_served_exactly_witness:
  "fst (increment_all [5, 6, 7] 1 demo_quota) = [None, Some ErrQuotaExceeded, Some ErrQuotaExceeded]"
  using quota_served_exactly [OF demo_quota_row, of "[5, 6, 7]"] by (simp add: numeral_eq_Suc)

text \<open>The reset cache can withhold a due reset. A user has spent the whole limit; the
  first request of a UTC date comes when the last reset is at most a day old, a second one on
  the same date when it is more than a day old. The second request is still refused, because the
  first one has marked the date as reset; without the cache entry it would have been granted.\<close>

theorem quota_cache_withholds_reset:
  assumes "quota_inv s" and "quota_row u s = Some r"
    and "uq_DailyAIUsed r = uq_DailyAILimit r" and "0 < uq_DailyAILimit r"
    and "uq_QuotaResetAt r \<ge> a - day" and "uq_QuotaResetAt r < b - day" and "utc_date a = utc_date b"
  shows "let s1 = snd (IncrementUsage no_faults a u s) in
      fst (IncrementUsage no_faults b u s1) = Some ErrQuotaExceeded
    \<and> fst (IncrementUsage no_faults b u (s1\<lparr>lastReset := []\<rparr>)) = None"
proof -
  obtain e s1 where I: "IncrementUsage no_faults a u s = (e, s1)" by fastforce
  obtain e2 s2 where I2: "IncrementUsage no_faults b u s1 = (e2, s2)" by fastforce
  obtain e3 s3 where I3: "IncrementUsage no_faults b u (s1\<lparr>lastReset := []\<rparr>) = (e3, s3)" by fastforce
  have inv: "quota_inv s1" using quota_inv_increment [OF assms(1), of no_faults a u] I by simp
  have row: "quota_row u s1 = Some r" using increment_no_fault(2) [OF assms(1,2,5) I] assms(3) by simp
  have "map_of (lastReset s1) u = Some (utc_date b)"
    using I assms(7)
    by (auto simp: IncrementUsage_def quota_resetIfNeeded_def ResetIfNeeded_def Let_def
        split: prod.splits option.splits bool.splits if_splits)
  then have "quota_resetIfNeeded False b u s1 = s1" by (simp add: quota_resetIfNeeded_def)
  then have "e2 \<noteq> None" using quota_row_increment(1) [OF inv I2] row assms(3) by simp
  moreover have "e2 \<noteq> Some QuotaDBError"
    using I2 by (auto simp: IncrementUsage_def TryIncrementUsage_def Let_def split: option.splits bool.splits)
  ultimately have "e2 = Some ErrQuotaExceeded" by (metis QuotaError.exhaust option.exhaust)
  moreover have "quota_row u (s1\<lparr>lastReset := []\<rparr>) = Some r" using row by (simp add: quota_row_def)
  then have "quota_row u (quota_resetIfNeeded False b u (s1\<lparr>lastReset := []\<rparr>)) =
      Some (r\<lparr>uq_DailyAIUsed := 0, uq_QuotaResetAt := b, uq_UpdatedAt := b\<rparr>)"
    using assms(6) by (simp add: quota_row_reset)
  then have "e3 = None"
    using quota_row_increment(1) [of "s1\<lparr>lastReset := []\<rparr>", OF _ I3] inv assms(4) by simp
  ultimately show ?thesis using I I2 I3 by simp
qed

definition spent_quota :: quotaService where
  "spent_quota = \<lparr>user_quotas = [\<lparr>uq_UserID = 1, uq_Plan = ''free'', uq_DailyAILimit = 50, uq_DailyAIUsed = 50,
     uq_QuotaResetAt = 20 * hour, uq_UpdatedAt = 0\<rparr>], lastReset = []\<rparr>"

lemma spent_quota_row:
  "quota_inv spent_quota"
  "quota_row 1 spent_quota = Some \<lparr>uq_UserID = 1, uq_Plan = ''free'', uq_DailyAILimit = 50, uq_DailyAIUsed = 50,
     uq_QuotaResetAt = 20 * hour, uq_UpdatedAt = 0\<rparr>"
  by (simp_all add: spent_quota_def quota_inv_def quota_row_ok_def quota_row_def)

theorem quota_cache_withholds_reset_witness:
  "fst (IncrementUsage no_faults (47 * hour) 1 (snd (IncrementUsage no_faults (34 * hour) 1 spent_quota)))
   = Some ErrQuotaExceeded"
  using quota_cache_withholds_reset [OF spent_quota_row, of "34 * hour" "47 * hour"]
  by (simp add: utc_date_def Let_def)

text \<open>What the quota endpoint reports. For a user with a row, a request right after the
  report is granted exactly when the reported usage is below the reported limit. For a user
  without a row, the report is a free plan with 50 unused units, yet every request is refused.\<close>

theorem quota_report_agrees_with_service:
  assumes "quota_inv s" and "GetQuota no_faults now u s = (resp, s1)"
    and "IncrementUsage no_faults now u s1 = (e, s2)"
  shows "(quota_row u s \<noteq> None \<longrightarrow>
            (e = None \<longleftrightarrow> qr_DailyUsed resp < qr_DailyLimit resp) \<and> (e \<noteq> None \<longrightarrow> e = Some ErrQuotaExceeded))
    \<and> (quota_row u s = None \<longrightarrow>
            qr_DailyUsed resp = 0 \<and> qr_DailyLimit resp = 50 \<and> e = Some ErrQuotaExceeded)"
proof -
  have s1: "s1 = quota_resetIfNeeded False now u s"
    and resp: "case quota_row u s1 of None \<Rightarrow> qr_DailyUsed resp = 0 \<and> qr_DailyLimit resp = 50
               | Some q \<Rightarrow> qr_DailyUsed resp = uq_DailyAIUsed q \<and> qr_DailyLimit resp = uq_DailyAILimit q"
    using assms(2) by (auto simp: GetQuota_def quota_GetByUserID_def quota_row_def Let_def split: option.splits)
  have inv: "quota_inv s1" using assms(1) by (simp add: s1 quota_inv_reset)
  have again: "quota_resetIfNeeded False now u s1 = s1"
    unfolding s1 by (simp add: quota_resetIfNeeded_def ResetIfNeeded_def Let_def)
  have "e \<noteq> Some QuotaDBError"
    using assms(3) by (auto simp: IncrementUsage_def TryIncrementUsage_def Let_def split: option.splits bool.splits)
  then have e: "e = None \<or> e = Some ErrQuotaExceeded" by (metis QuotaError.exhaust option.exhaust)
  have none: "quota_row u s1 = None \<longleftrightarrow> quota_row u s = None" by (simp add: s1 quota_row_reset)
  show ?thesis
    using quota_row_increment(1) [OF inv assms(3)] resp e none by (auto simp: again split: option.splits)
qed

theorem quota_report_agrees_with_service_witness:
  "qr_DailyLimit (fst (GetQuota no_faults 7 9 demo_quota)) = 50
   \<and> fst (IncrementUsage no_faults 7 9 (snd (GetQuota no_faults 7 9 demo_quota))) = Some ErrQuotaExceeded"
proof -
  have "quota_row 9 demo_quota = None" by (simp add: demo_quota_def quota_row_def)
  then show ?thesis
    using quota_report_agrees_with_service [OF demo_quota_row(1), of 7 9 "fst (GetQuota no_faults 7 9 demo_quota)"
        "snd (GetQuota no_faults 7 9 demo_quota)"
        "fst (IncrementUsage no_faults 7 9 (snd (GetQuota no_faults 7 9 demo_quota)))"
        "snd (IncrementUsage no_faults 7 9 (snd (GetQuota no_faults 7 9 demo_quota)))"] by simp
qed

end
