(* ===== verification/AI_Proxy.thy ===== *)
theory AI_Proxy
  imports LLM_Config Quota
begin

text \<open>
  AI requests: the resolution of the LLM to use (\<^verbatim>\<open>internal/service/llm_config_resolver.go\<close>), the
  proxy (\<^verbatim>\<open>ai_proxy_service.go\<close>), the agent (\<^verbatim>\<open>ai_agent_service.go\<close>), their HTTP handlers
  (\<^verbatim>\<open>ai_handler.go\<close>, \<^verbatim>\<open>ai_agent_handler.go\<close>) and the queue worker (\<^verbatim>\<open>internal/queue/ai_job_handler.go\<close>).
  The rate limiter is an interface in the code, so its state is a type variable and its
  \<open>Allow\<close> a function of the environment. JSON values are a type variable with the two conversions
  as arguments; the messages built with \<open>fmt.Sprintf\<close> keep their fixed part only.
\<close>

record AIProxyRequest =
  ap_Model :: string
  ap_Messages :: "ChatMessage list"
  ap_Temperature :: "float32 option"
  ap_MaxTokens :: "int option"
  ap_Stream :: bool

record aiProxyService =
  defaultCfg :: GatewayConfig
  fallbackCfg :: "GatewayConfig option"
  encryptionKey :: bytes

record 'l AIState =
  ai_gateway :: Gateway
  ai_quota :: quotaService
  ai_limiter :: 'l
  ai_configs :: "LLMConfig list"

text \<open>The environment of one request: UUID parsing, the limiter, the cipher, clock readings (0 for the
  quota, the others for the gateway), and the faults of the configuration and quota tables.\<close>

record 'l AIEnv =
  ae_parse :: "string \<Rightarrow> uuid option"
  ae_allow :: "string \<Rightarrow> 'l \<Rightarrow> bool \<times> 'l"
  ae_open :: aead_open
  ae_clock :: "nat \<Rightarrow> time"
  ae_llmFaults :: faults
  ae_quotaFaults :: faults

datatype ProxyError =
    ProxyQuota QuotaError
  | ProxyGateway GatewayError
  | ProxyUnavailable GatewayError
  | ProxyFallback GatewayError GatewayError

section \<open>Which LLM to use\<close>

definition defaultLLMTimeout :: int where
  "defaultLLMTimeout = 120 * second"

definition UserLLMConfig :: "aead_open \<Rightarrow> bytes \<Rightarrow> faults \<Rightarrow> uuid \<Rightarrow> LLMConfig list \<Rightarrow> GatewayConfig option" where
  "UserLLMConfig open' key f userID t =
     (case (case llm_GetDefaultByUser (f 0) userID t of
              Some c \<Rightarrow> Some c
            | None \<Rightarrow> (case llm_ListByUser (f 1) userID t of
                        Some (c # _) \<Rightarrow> Some c
                      | _ \<Rightarrow> None)) of
        None \<Rightarrow> None
      | Some userCfg \<Rightarrow>
          (case DecryptAPIKey open' (lc_EncryptedKey userCfg) key of
             None \<Rightarrow> None
           | Some decryptedKey \<Rightarrow>
               Some \<lparr>cfg_Provider = lc_Provider userCfg, cfg_BaseURL = lc_BaseURL userCfg, cfg_APIKey = decryptedKey,
                     cfg_Model = lc_Model userCfg, cfg_MaxTokens = lc_MaxTokens userCfg,
                     cfg_Temperature = lc_Temperature userCfg, cfg_Timeout = defaultLLMTimeout,
                     cfg_MaxRetries = 0, cfg_RetryBaseDelay = 0\<rparr>))"

definition ResolveChatModel :: "string \<Rightarrow> GatewayConfig \<Rightarrow> string" where
  "ResolveChatModel reqModel cfg = (if reqModel \<noteq> '''' then reqModel else cfg_Model cfg)"

text \<open>\<open>None\<close> is the nil error.\<close>

definition CheckSharedModeQuota :: "'l AIEnv \<Rightarrow> uuid \<Rightarrow> string \<Rightarrow> 'l AIState \<Rightarrow> QuotaError option \<times> 'l AIState" where
  "CheckSharedModeQuota e userID userIDStr s =
     (let (ok, l) = ae_allow e userIDStr (ai_limiter s); s1 = s\<lparr>ai_limiter := l\<rparr> in
      if \<not> ok then (Some ErrQuotaExceeded, s1)
      else let (err, q) = IncrementUsage (ae_quotaFaults e) (ae_clock e 0) userID (ai_quota s1)
           in (err, s1\<lparr>ai_quota := q\<rparr>))"

section \<open>The proxy\<close>

definition stripSystemMessages :: "ChatMessage list \<Rightarrow> ChatMessage list" where
  "stripSystemMessages msgs = filter (\<lambda>m. Role m \<noteq> ''system'') msgs"

definition toChatRequest :: "AIProxyRequest \<Rightarrow> GatewayConfig \<Rightarrow> ChatRequest" where
  "toChatRequest req cfg =
     \<lparr>Model = (if ap_Model req = '''' then cfg_Model cfg else ap_Model req), Messages = ap_Messages req,
      Temperature = ap_Temperature req, MaxTokens = ap_MaxTokens req, Stream = ap_Stream req,
      Timeout = 0, MaxRetries = 0, RetryBaseDelay = 0\<rparr>"

definition is_circuit_open :: "GatewayError \<Rightarrow> bool" where
  "is_circuit_open err = (case err of CircuitOpen _ \<Rightarrow> True | _ \<Rightarrow> False)"

definition ai_Proxy :: "aiProxyService \<Rightarrow> 'l AIEnv \<Rightarrow> string \<Rightarrow> AIProxyRequest \<Rightarrow> 'l AIState
    \<Rightarrow> (ProxyError + StreamChunk list) \<times> 'l AIState" where
  "ai_Proxy svc e userID req s =
     (let uid = (case ae_parse e userID of Some u \<Rightarrow> u | None \<Rightarrow> 0) in
      case UserLLMConfig (ae_open e) (encryptionKey svc) (ae_llmFaults e) uid (ai_configs s) of
        Some dedicatedCfg \<Rightarrow>
          (let (r, g) = gw_ChatStream (ae_clock e 1) (ae_clock e 2) dedicatedCfg (toChatRequest req dedicatedCfg) (ai_gateway s)
           in (case r of Inl err \<Rightarrow> Inl (ProxyGateway err) | Inr ch \<Rightarrow> Inr ch, s\<lparr>ai_gateway := g\<rparr>))
      | None \<Rightarrow>
          (let (qerr, s1) = CheckSharedModeQuota e uid userID s in
           case qerr of
             Some err \<Rightarrow> (Inl (ProxyQuota err), s1)
           | None \<Rightarrow>
               (let req' = req\<lparr>ap_Messages := stripSystemMessages (ap_Messages req)\<rparr>;
                    (r, g) = gw_ChatStream (ae_clock e 1) (ae_clock e 2) (defaultCfg svc)
                               (toChatRequest req' (defaultCfg svc)) (ai_gateway s1);
                    s2 = s1\<lparr>ai_gateway := g\<rparr>
                in case r of
                     Inr ch \<Rightarrow> (Inr ch, s2)
                   | Inl err \<Rightarrow>
                       (case fallbackCfg svc of
                          Some fb \<Rightarrow>
                            (let (r', g') = gw_ChatStream (ae_clock e 3) (ae_clock e 4) fb (toChatRequest req' fb) g;
                                 s3 = s2\<lparr>ai_gateway := g'\<rparr>
                             in case r' of
                                  Inl fbErr \<Rightarrow> (Inl (ProxyFallback err fbErr), s3)
                                | Inr ch \<Rightarrow> (Inr ch, s3))
                        | None \<Rightarrow>
                            if is_circuit_open err then (Inl (ProxyUnavailable err), s2)
                            else (Inl (ProxyGateway err), s2)))))"

section \<open>The agent\<close>

record 'j AIAgentRequest =
  ag_Action :: string
  ag_Context :: 'j
  ag_NoteIDs :: "uuid list"
  ag_Parameters :: 'j

datatype 'j AgentResult = NoResult | Parsed 'j | Raw string

text \<open>The message of a response is the text of an error; the model keeps the error.\<close>

datatype AgentMessage = NoMessage | ProxyFailed ProxyError | ChunkFailed string

record 'j AIAgentResponse =
  ar_Action :: string
  ar_Status :: string
  ar_Result :: "'j AgentResult"
  ar_Message :: AgentMessage

text \<open>The conversions of the standard library: JSON encoding (\<open>None\<close> on error) and decoding, and
  the printing of a list of UUIDs.\<close>

record 'j JSONLib =
  j_marshal :: "'j \<Rightarrow> string option"
  j_unmarshal :: "string \<Rightarrow> 'j option"
  j_printIDs :: "uuid list \<Rightarrow> string"

definition allowedAgentActions :: "string list" where
  "allowedAgentActions = [''organize_notes'', ''summarize_notes'', ''create_note'']"

definition validateAgentRequest :: "'j JSONLib \<Rightarrow> 'j AIAgentRequest \<Rightarrow> bool" where
  "validateAgentRequest lib req =
     (if length (ag_Action req) > 50 \<or> ag_Action req \<notin> set allowedAgentActions then False
      else if length (ag_NoteIDs req) > 100 then False
      else if (case j_marshal lib (ag_Context req) of Some d \<Rightarrow> length d > 64 * 1024 | None \<Rightarrow> False) then False
      else if (case j_marshal lib (ag_Parameters req) of Some d \<Rightarrow> length d > 64 * 1024 | None \<Rightarrow> False) then False
      else True)"

definition sanitizeAgentInput :: "string \<Rightarrow> string" where
  "sanitizeAgentInput input = replace_char (CHR ''>'') ''&gt;'' (replace_char (CHR ''<'') ''&lt;'' input)"

abbreviation nl :: string where
  "nl \<equiv> [CHR 0x0A]"

text \<open>The lines between the delimiters of the prompt.\<close>

definition agent_prompt_body :: "'j JSONLib \<Rightarrow> 'j AIAgentRequest \<Rightarrow> string" where
  "agent_prompt_body lib req =
     ''Action: '' @ sanitizeAgentInput (ag_Action req) @ nl
     @ (if ag_NoteIDs req \<noteq> [] then ''Note IDs: '' @ sanitizeAgentInput (j_printIDs lib (ag_NoteIDs req)) @ nl else '''')
     @ (case j_marshal lib (ag_Context req) of
          Some d \<Rightarrow> if length d > 2 then ''Context: '' @ sanitizeAgentInput d @ nl else ''''
        | None \<Rightarrow> '''')
     @ (case j_marshal lib (ag_Parameters req) of
          Some d \<Rightarrow> if length d > 2 then ''Parameters: '' @ sanitizeAgentInput d @ nl else ''''
        | None \<Rightarrow> '''')"

definition agent_prompt :: "'j JSONLib \<Rightarrow> 'j AIAgentRequest \<Rightarrow> string" where
  "agent_prompt lib req = ''<user-request>'' @ nl @ agent_prompt_body lib req @ ''</user-request>''"

text \<open>The text of the system prompt is an argument; \<open>Left\<close> of the collection is a chunk error.\<close>

fun collect_chunks :: "string \<Rightarrow> StreamChunk list \<Rightarrow> string + string" where
  "collect_chunks acc [] = Inr acc"
| "collect_chunks acc (c # cs) =
     (if sc_Error c \<noteq> '''' then Inl (sc_Error c)
      else if sc_Done c then Inr (acc @ sc_Content c) else collect_chunks (acc @ sc_Content c) cs)"

definition agent_request :: "string \<Rightarrow> 'j JSONLib \<Rightarrow> 'j AIAgentRequest \<Rightarrow> AIProxyRequest" where
  "agent_request toolDefinitions lib req =
     \<lparr>ap_Model = '''', ap_Messages = [\<lparr>Role = ''system'', Content = toolDefinitions\<rparr>,
                                   \<lparr>Role = ''user'', Content = agent_prompt lib req\<rparr>],
      ap_Temperature = None, ap_MaxTokens = None, ap_Stream = False\<rparr>"

definition ExecuteAction :: "string \<Rightarrow> 'j JSONLib \<Rightarrow> aiProxyService \<Rightarrow> 'l AIEnv \<Rightarrow> string \<Rightarrow> 'j AIAgentRequest \<Rightarrow> 'l AIState
    \<Rightarrow> 'j AIAgentResponse option \<times> 'l AIState" where
  "ExecuteAction toolDefinitions lib svc e userID req s =
     (if \<not> validateAgentRequest lib req then (None, s)
      else let (r, s') = ai_Proxy svc e userID (agent_request toolDefinitions lib req) s in
           (case r of
              Inl err \<Rightarrow> (Some \<lparr>ar_Action = ag_Action req, ar_Status = ''failed'', ar_Result = NoResult,
                             ar_Message = ProxyFailed err\<rparr>, s')
            | Inr chunks \<Rightarrow>
                (case collect_chunks '''' chunks of
                   Inl err \<Rightarrow> (Some \<lparr>ar_Action = ag_Action req, ar_Status = ''failed'', ar_Result = NoResult,
                                  ar_Message = ChunkFailed err\<rparr>, s')
                 | Inr fullContent \<Rightarrow>
                     (Some \<lparr>ar_Action = ag_Action req, ar_Status = ''completed'',
                            ar_Result = (case j_unmarshal lib fullContent of Some v \<Rightarrow> Parsed v | None \<Rightarrow> Raw fullContent),
                            ar_Message = NoMessage\<rparr>, s'))))"

definition handle_ExecuteAction :: "string \<Rightarrow> 'j JSONLib \<Rightarrow> aiProxyService \<Rightarrow> 'l AIEnv \<Rightarrow> (uuid \<Rightarrow> string) \<Rightarrow> uuid option
    \<Rightarrow> 'j AIAgentRequest option \<Rightarrow> 'l AIState \<Rightarrow> 'j AIAgentResponse response \<times> 'l AIState" where
  "handle_ExecuteAction toolDefinitions lib svc e uuidString user body s =
     (case user of
        None \<Rightarrow> (HttpError 401 ''unauthorized'' '''', s)
      | Some userID \<Rightarrow>
          (case body of
             None \<Rightarrow> (HttpError 400 ''invalid_request'' ''Failed to parse request body'', s)
           | Some req \<Rightarrow>
               if ag_Action req = '''' then (HttpError 400 ''validation_error'' ''Action is required'', s)
               else if ag_Action req \<notin> set [''organize'', ''summarize'', ''create_note'']
               then (HttpError 400 ''validation_error'' ''Invalid action. Valid: organize, summarize, create_note'', s)
               else case ExecuteAction toolDefinitions lib svc e (uuidString userID) req s of
                      (None, s') \<Rightarrow> (HttpError 500 ''agent_error'' ''AI agent failed'', s')
                    | (Some resp, s') \<Rightarrow> (JSON 200 resp, s')))"

section \<open>The proxy handler\<close>

definition maxTokensCap :: "faults \<Rightarrow> time \<Rightarrow> uuid \<Rightarrow> quotaService \<Rightarrow> int \<times> quotaService" where
  "maxTokensCap f now uid q =
     (let (quota, q') = GetQuota f now uid q in
      (if qr_Plan quota = ''pro'' \<or> qr_Plan quota = ''lifetime'' then 16384 else 4096, q'))"

definition cap_tokens :: "int \<Rightarrow> AIProxyRequest \<Rightarrow> AIProxyRequest" where
  "cap_tokens capForPlan req =
     (if ap_MaxTokens req = None \<or> ap_MaxTokens req = Some 0 then req\<lparr>ap_MaxTokens := Some capForPlan\<rparr>
      else if the (ap_MaxTokens req) > capForPlan then req\<lparr>ap_MaxTokens := Some capForPlan\<rparr> else req)"

text \<open>A server-sent event: a data event with content and the done flag, the closing event of a
  stream without one, or an error.\<close>

datatype sse_event = SSEData string bool | SSEEnd | SSEError string

definition maxChunkSize :: nat where
  "maxChunkSize = 1024 * 1024"

text \<open>The loop of the streaming handler while the client stays connected.\<close>

fun sse_stream :: "StreamChunk list \<Rightarrow> sse_event list" where
  "sse_stream [] = [SSEEnd]"
| "sse_stream (c # cs) =
     (if sc_Error c \<noteq> '''' then [SSEError (sc_Error c)]
      else let content = (if length (sc_Content c) > maxChunkSize then take maxChunkSize (sc_Content c) else sc_Content c)
           in if sc_Done c then [SSEData content True] else SSEData content False # sse_stream cs)"

datatype ai_body = StreamBody "sse_event list" | ContentBody string | QuotaBody

definition handleNonStream :: "StreamChunk list \<Rightarrow> ai_body response" where
  "handleNonStream chunks =
     (case collect_chunks '''' chunks of
        Inl err \<Rightarrow> HttpError 500 ''ai_error'' err
      | Inr fullContent \<Rightarrow> JSON 200 (ContentBody fullContent))"

definition handle_Proxy :: "aiProxyService \<Rightarrow> 'l AIEnv \<Rightarrow> faults \<Rightarrow> (uuid \<Rightarrow> string) \<Rightarrow> uuid option \<Rightarrow> AIProxyRequest option
    \<Rightarrow> 'l AIState \<Rightarrow> ai_body response \<times> 'l AIState" where
  "handle_Proxy svc e capFaults uuidString user body s =
     (case user of
        None \<Rightarrow> (HttpError 401 ''unauthorized'' '''', s)
      | Some userID \<Rightarrow>
          (case body of
             None \<Rightarrow> (HttpError 400 ''invalid_request'' ''Failed to parse request body'', s)
           | Some req \<Rightarrow>
               if length (ap_Messages req) > 100
               then (HttpError 400 ''validation_error'' ''Too many messages (max 100)'', s)
               else if ap_Messages req = [] then (HttpError 400 ''validation_error'' ''Messages are required'', s)
               else if list_ex (\<lambda>m. Role m \<notin> set [''system'', ''user'', ''assistant'']) (ap_Messages req)
               then (HttpError 400 ''validation_error'' ''invalid role'', s)
               else if list_ex (\<lambda>m. length (Content m) > 100000) (ap_Messages req)
               then (HttpError 400 ''validation_error'' ''content exceeds maximum size (100 KB)'', s)
               else
                 (let (capForPlan, q) = maxTokensCap capFaults (ae_clock e 0) userID (ai_quota s);
                      req' = cap_tokens capForPlan req;
                      (r, s') = ai_Proxy svc e (uuidString userID) req' (s\<lparr>ai_quota := q\<rparr>)
                  in case r of
                       Inl (ProxyQuota ErrQuotaExceeded) \<Rightarrow> (JSON 429 QuotaBody, s')
                     | Inl _ \<Rightarrow> (HttpError 500 ''ai_error'' ''AI proxy failed'', s')
                     | Inr chunks \<Rightarrow>
                         if ap_Stream req' then (JSON 200 (StreamBody (sse_stream chunks)), s')
                         else (handleNonStream chunks, s'))))"

section \<open>The queue worker\<close>

record AIJobPayload =
  jp_UserID :: string
  jp_Request :: AIProxyRequest
  jp_JobID :: string
  jp_Stream :: bool

text \<open>The results it stores in Redis, per job the latest one.\<close>

datatype job_result = JobError | JobStreaming string bool | JobCompleted string

definition resolveConfig :: "aiProxyService \<Rightarrow> 'l AIEnv \<Rightarrow> (uuid \<Rightarrow> string) \<Rightarrow> uuid \<Rightarrow> AIProxyRequest \<Rightarrow> 'l AIState
    \<Rightarrow> (QuotaError + GatewayConfig \<times> ChatRequest) \<times> 'l AIState" where
  "resolveConfig svc e uuidString uid req s =
     (let chatReq = \<lparr>Model = ap_Model req, Messages = ap_Messages req, Temperature = ap_Temperature req,
                     MaxTokens = ap_MaxTokens req, Stream = ap_Stream req, Timeout = 0, MaxRetries = 0,
                     RetryBaseDelay = 0\<rparr> in
      case UserLLMConfig (ae_open e) (encryptionKey svc) (ae_llmFaults e) uid (ai_configs s) of
        Some dedicatedCfg \<Rightarrow>
          (Inr (dedicatedCfg, chatReq\<lparr>Model := ResolveChatModel (Model chatReq) dedicatedCfg\<rparr>), s)
      | None \<Rightarrow>
          (let (qerr, s1) = CheckSharedModeQuota e uid (uuidString uid) s in
           case qerr of
             Some err \<Rightarrow> (Inl err, s1)
           | None \<Rightarrow> (Inr (defaultCfg svc, chatReq\<lparr>Model := ResolveChatModel (Model chatReq) (defaultCfg svc)\<rparr>), s1)))"

text \<open>The loop over the chunks of a streaming job: the results stored, in order.\<close>

fun job_stream :: "string \<Rightarrow> StreamChunk list \<Rightarrow> job_result list" where
  "job_stream acc [] = [JobCompleted acc]"
| "job_stream acc (c # cs) =
     (if sc_Error c \<noteq> '''' then [JobError]
      else JobStreaming (acc @ sc_Content c) (sc_Done c) # job_stream (acc @ sc_Content c) cs)"

definition HandleTask :: "aiProxyService \<Rightarrow> 'l AIEnv \<Rightarrow> (uuid \<Rightarrow> string) \<Rightarrow> AIJobPayload option \<Rightarrow> 'l AIState
    \<Rightarrow> bool \<times> job_result list \<times> 'l AIState" where
  "HandleTask svc e uuidString task s =
     (case task of
        None \<Rightarrow> (False, [], s)
      | Some payload \<Rightarrow>
          (case ae_parse e (jp_UserID payload) of
             None \<Rightarrow> (True, [JobError], s)
           | Some uid \<Rightarrow>
               (case resolveConfig svc e uuidString uid (jp_Request payload) s of
                  (Inl _, s1) \<Rightarrow> (True, [JobError], s1)
                | (Inr (cfg, chatReq), s1) \<Rightarrow>
                    if jp_Stream payload
                    then (case gw_ChatStream (ae_clock e 1) (ae_clock e 2) cfg chatReq (ai_gateway s1) of
                            (Inl _, g) \<Rightarrow> (True, [JobError], s1\<lparr>ai_gateway := g\<rparr>)
                          | (Inr ch, g) \<Rightarrow> (True, job_stream '''' ch, s1\<lparr>ai_gateway := g\<rparr>))
                    else (case gw_Chat (ae_clock e 1) (ae_clock e 2) cfg chatReq (ai_gateway s1) of
                            (Inl _, g) \<Rightarrow> (True, [JobError], s1\<lparr>ai_gateway := g\<rparr>)
                          | (Inr resp, g) \<Rightarrow> (True, [JobCompleted (resp_Content resp)], s1\<lparr>ai_gateway := g\<rparr>)))))"

section \<open>Lemmas\<close>

text \<open>Whether a user is in shared mode.\<close>

definition shared_mode :: "aiProxyService \<Rightarrow> 'l AIEnv \<Rightarrow> uuid \<Rightarrow> 'l AIState \<Rightarrow> bool" where
  "shared_mode svc e uid s \<longleftrightarrow>
     UserLLMConfig (ae_open e) (encryptionKey svc) (ae_llmFaults e) uid (ai_configs s) = None"

definition env_uid :: "'l AIEnv \<Rightarrow> string \<Rightarrow> uuid" where
  "env_uid e userID = (case ae_parse e userID of Some u \<Rightarrow> u | None \<Rightarrow> 0)"

text \<open>The gateway requests that a proxy request or a job of user \<open>u\<close> makes with the server's own
  configurations: none unless the shared mode lets it pass, then one to the default, and from the proxy
  a second one to the fallback when the first fails. \<open>shared_requests_run\<close> shows that the gateway of the
  process goes through exactly these.\<close>

definition proxy_requests :: "aiProxyService \<Rightarrow> 'l AIEnv \<Rightarrow> string \<Rightarrow> AIProxyRequest \<Rightarrow> 'l AIState \<Rightarrow> gw_call list" where
  "proxy_requests svc e userID req s =
     (let uid = env_uid e userID; req' = req\<lparr>ap_Messages := stripSystemMessages (ap_Messages req)\<rparr>;
          ask = (\<lambda>i j cfg. CallStream (ae_clock e i) (ae_clock e j) cfg (toChatRequest req' cfg)) in
      if \<not> shared_mode svc e uid s \<or> fst (CheckSharedModeQuota e uid userID s) \<noteq> None then []
      else if fst (gw_call_step (ask 1 2 (defaultCfg svc)) (ai_gateway s)) = None then [ask 1 2 (defaultCfg svc)]
      else ask 1 2 (defaultCfg svc) # (case fallbackCfg svc of None \<Rightarrow> [] | Some fb \<Rightarrow> [ask 3 4 fb]))"

definition job_requests :: "aiProxyService \<Rightarrow> 'l AIEnv \<Rightarrow> (uuid \<Rightarrow> string) \<Rightarrow> AIJobPayload \<Rightarrow> 'l AIState \<Rightarrow> gw_call list" where
  "job_requests svc e str payload s =
     (case ae_parse e (jp_UserID payload) of None \<Rightarrow> []
      | Some uid \<Rightarrow>
          if \<not> shared_mode svc e uid s then []
          else (case fst (resolveConfig svc e str uid (jp_Request payload) s) of
                  Inl _ \<Rightarrow> []
                | Inr (cfg, chatReq) \<Rightarrow>
                    [(if jp_Stream payload then CallStream else CallChat) (ae_clock e 1) (ae_clock e 2) cfg chatReq]))"

section \<open>Several processes\<close>

text \<open>The server and the worker are separate processes (\<^verbatim>\<open>cmd/server/main.go\<close>, \<^verbatim>\<open>cmd/worker/main.go\<close>), and each
  may run more than once. A process has a gateway, a rate limiter and a cache of reset dates of
  its own; the quota and configuration tables are shared. Servers may also keep their limiter in Redis; as the
  answers of the limiter are an argument of each call, that case is covered.\<close>

record 'l AIProcess =
  pc_gateway :: Gateway
  pc_limiter :: 'l
  pc_lastReset :: "(uuid \<times> int) list"

record 'l AIWorld =
  w_quotas :: "UserQuota list"
  w_configs :: "LLMConfig list"
  w_processes :: "nat \<Rightarrow> 'l AIProcess"

definition seen_by :: "nat \<Rightarrow> 'l AIWorld \<Rightarrow> 'l AIState" where
  "seen_by p w = \<lparr>ai_gateway = pc_gateway (w_processes w p),
     ai_quota = \<lparr>user_quotas = w_quotas w, lastReset = pc_lastReset (w_processes w p)\<rparr>,
     ai_limiter = pc_limiter (w_processes w p), ai_configs = w_configs w\<rparr>"

definition left_by :: "nat \<Rightarrow> 'l AIState \<Rightarrow> 'l AIWorld \<Rightarrow> 'l AIWorld" where
  "left_by p s w = \<lparr>w_quotas = user_quotas (ai_quota s), w_configs = ai_configs s,
     w_processes = (w_processes w)(p := \<lparr>pc_gateway = ai_gateway s, pc_limiter = ai_limiter s,
        pc_lastReset = lastReset (ai_quota s)\<rparr>)\<rparr>"

text \<open>What the processes do: a proxy request, a job, or an operation of the quota service itself, such as
  the reading that the handler makes for the cap on tokens.\<close>

datatype 'l ai_call =
    ProxyCall "'l AIEnv" string AIProxyRequest
  | JobCall "'l AIEnv" "uuid \<Rightarrow> string" AIJobPayload
  | QuotaCall faults time quota_op

fun call_time :: "'l ai_call \<Rightarrow> time" where
  "call_time (ProxyCall e userID req) = ae_clock e 0"
| "call_time (JobCall e str payload) = ae_clock e 0"
| "call_time (QuotaCall f now op) = now"

fun ai_exec :: "aiProxyService \<Rightarrow> 'l ai_call \<Rightarrow> 'l AIState \<Rightarrow> 'l AIState" where
  "ai_exec svc (ProxyCall e userID req) s = snd (ai_Proxy svc e userID req s)"
| "ai_exec svc (JobCall e str payload) s = snd (snd (HandleTask svc e str (Some payload) s))"
| "ai_exec svc (QuotaCall f now op) s = s\<lparr>ai_quota := snd (quota_step f now op (ai_quota s))\<rparr>"

text \<open>The requests of one call on the account of user \<open>u\<close>.\<close>

fun shared_requests :: "aiProxyService \<Rightarrow> uuid \<Rightarrow> 'l ai_call \<Rightarrow> 'l AIState \<Rightarrow> gw_call list" where
  "shared_requests svc u (ProxyCall e userID req) s =
     (if env_uid e userID = u then proxy_requests svc e userID req s else [])"
| "shared_requests svc u (JobCall e str payload) s =
     (if ae_parse e (jp_UserID payload) = Some u then job_requests svc e str payload s else [])"
| "shared_requests svc u (QuotaCall f now op) s = []"

definition world_step :: "aiProxyService \<Rightarrow> nat \<times> 'l ai_call \<Rightarrow> 'l AIWorld \<Rightarrow> 'l AIWorld" where
  "world_step svc pc w = left_by (fst pc) (ai_exec svc (snd pc) (seen_by (fst pc) w)) w"

fun world_requests :: "aiProxyService \<Rightarrow> uuid \<Rightarrow> (nat \<times> 'l ai_call) list \<Rightarrow> 'l AIWorld \<Rightarrow> gw_call list" where
  "world_requests svc u [] w = []"
| "world_requests svc u (pc # pcs) w =
     shared_requests svc u (snd pc) (seen_by (fst pc) w) @ world_requests svc u pcs (world_step svc pc w)"

text \<open>A call of user \<open>u\<close> is granted when it makes such a request.\<close>

definition ai_grant :: "aiProxyService \<Rightarrow> uuid \<Rightarrow> nat \<times> 'l ai_call \<Rightarrow> 'l AIWorld \<Rightarrow> bool \<times> 'l AIWorld" where
  "ai_grant svc u pc w = (shared_requests svc u (snd pc) (seen_by (fst pc) w) \<noteq> [], world_step svc pc w)"

text \<open>The table as the quota theory sees it, where the cache of dates plays no part.\<close>

definition shared_quota :: "'l AIWorld \<Rightarrow> quotaService" where
  "shared_quota w = \<lparr>user_quotas = w_quotas w, lastReset = []\<rparr>"

lemma CheckSharedModeQuota_cases:
  assumes "CheckSharedModeQuota e uid str s = (err, s')"
  shows "(err = Some ErrQuotaExceeded \<and> ai_quota s' = ai_quota s)
    \<or> (err, ai_quota s') = IncrementUsage (ae_quotaFaults e) (ae_clock e 0) uid (ai_quota s)"
  using assms by (auto simp: CheckSharedModeQuota_def Let_def split: prod.splits if_splits)

lemma gw_step_stream [simp]: "snd (gw_call_step (CallStream t1 t2 cfg req) g) = snd (gw_ChatStream t1 t2 cfg req g)"
  "fst (gw_call_step (CallStream t1 t2 cfg req) g) = error_of (fst (gw_ChatStream t1 t2 cfg req g))"
  "snd (gw_call_step (CallChat t1 t2 cfg req) g) = snd (gw_Chat t1 t2 cfg req g)"
  by (simp_all add: Let_def case_prod_unfold)

lemma snd_gw_run [simp]: "snd (gw_run [] g) = g" "snd (gw_run (c # cs) g) = snd (gw_run cs (snd (gw_call_step c g)))"
  by (simp_all add: Let_def case_prod_unfold)

lemma error_of_None [simp]: "error_of r = None \<longleftrightarrow> (\<exists>x. r = Inr x)"
  by (cases r) auto

text \<open>In the shared mode the gateway goes through the requests listed, and no other.\<close>

lemma proxy_requests_run:
  assumes "shared_mode svc e (env_uid e userID) s"
  shows "ai_gateway (snd (ai_Proxy svc e userID req s)) = snd (gw_run (proxy_requests svc e userID req s) (ai_gateway s))"
proof -
  obtain err s1 where q: "CheckSharedModeQuota e (env_uid e userID) userID s = (err, s1)" by fastforce
  have g: "ai_gateway s1 = ai_gateway s"
    using q by (auto simp: CheckSharedModeQuota_def Let_def split: prod.splits if_splits)
  obtain r g1 where r: "gw_ChatStream (ae_clock e 1) (ae_clock e 2) (defaultCfg svc)
      (toChatRequest (req\<lparr>ap_Messages := stripSystemMessages (ap_Messages req)\<rparr>) (defaultCfg svc)) (ai_gateway s) = (r, g1)" by fastforce
  have mode: "UserLLMConfig (ae_open e) (encryptionKey svc) (ae_llmFaults e) (env_uid e userID) (ai_configs s) = None"
    using assms by (simp add: shared_mode_def)
  show ?thesis
    unfolding ai_Proxy_def env_uid_def [symmetric] proxy_requests_def Let_def mode
    using assms q r g by (cases err; cases r; cases "fallbackCfg svc")
      (simp_all del: gw_call_step.simps add: case_prod_unfold split: sum.split)
qed

lemma job_requests_run:
  assumes "ae_parse e (jp_UserID payload) = Some uid" and "shared_mode svc e uid s"
  shows "ai_gateway (snd (snd (HandleTask svc e str (Some payload) s))) =
    snd (gw_run (job_requests svc e str payload s) (ai_gateway s))"
proof -
  obtain r s1 where R: "resolveConfig svc e str uid (jp_Request payload) s = (r, s1)" by fastforce
  have "ai_gateway s1 = ai_gateway s"
    using R assms(2) by (auto simp: resolveConfig_def shared_mode_def CheckSharedModeQuota_def Let_def split: prod.splits option.splits if_splits)
  then show ?thesis using assms R
    by (auto simp: HandleTask_def job_requests_def Let_def split: sum.split prod.split)
qed

lemma length_shared_requests:
  "length (shared_requests svc u c s) \<le>
     (if shared_requests svc u c s \<noteq> [] then if fallbackCfg svc = None then 1 else 2 else 0)"
  by (cases c) (auto simp del: gw_call_step.simps simp: proxy_requests_def job_requests_def Let_def split: option.split sum.split)

text \<open>A call changes the quota like at most one operation of the quota service, and makes shared requests only after
  a successful increment for its user.\<close>

lemma CheckSharedModeQuota_step:
  assumes "CheckSharedModeQuota e uid str s = (err, s')"
  shows "(ai_quota s' = ai_quota s \<and> err \<noteq> None)
    \<or> quota_step (ae_quotaFaults e) (ae_clock e 0) (OpIncrement uid) (ai_quota s) = (err = None, ai_quota s')"
  using CheckSharedModeQuota_cases [OF assms] by (auto split: prod.split)

lemma ai_Proxy_quota:
  "ai_quota (snd (ai_Proxy svc e userID req s)) =
     (if shared_mode svc e (env_uid e userID) s then ai_quota (snd (CheckSharedModeQuota e (env_uid e userID) userID s))
      else ai_quota s)"
  unfolding ai_Proxy_def env_uid_def [symmetric] shared_mode_def
  by (auto simp: Let_def split: prod.splits option.splits sum.splits)

lemma resolveConfig_quota:
  assumes "resolveConfig svc e str uid req s = (r, s1)"
  shows "ai_quota s1 = (if shared_mode svc e uid s then ai_quota (snd (CheckSharedModeQuota e uid (str uid) s)) else ai_quota s)"
    and "shared_mode svc e uid s \<Longrightarrow> (\<exists>x. r = Inr x) \<Longrightarrow> fst (CheckSharedModeQuota e uid (str uid) s) = None"
  using assms by (auto simp: resolveConfig_def shared_mode_def Let_def split: prod.splits option.splits)

lemma quota_or_same:
  assumes "(q' = q \<and> err \<noteq> None) \<or> quota_step f t (OpIncrement uid) q = (err = None, q')"
    and "xs \<noteq> [] \<longrightarrow> uid = u \<and> err = None"
  shows "(q' = q \<and> xs = []) \<or> (\<exists>f op ok. quota_step f t op q = (ok, q') \<and> (xs \<noteq> [] \<longrightarrow> ok \<and> op = OpIncrement u))"
  using assms by blast

lemma ai_exec_quota:
  "(ai_quota (ai_exec svc c s) = ai_quota s \<and> shared_requests svc u c s = [])
    \<or> (\<exists>f op ok. quota_step f (call_time c) op (ai_quota s) = (ok, ai_quota (ai_exec svc c s))
        \<and> (shared_requests svc u c s \<noteq> [] \<longrightarrow> ok \<and> op = OpIncrement u))"
proof (cases c)
  case (ProxyCall e userID req)
  let ?uid = "env_uid e userID"
  obtain err s1 where q: "CheckSharedModeQuota e ?uid userID s = (err, s1)" by fastforce
  have R: "shared_requests svc u c s \<noteq> [] \<longrightarrow> ?uid = u \<and> shared_mode svc e ?uid s \<and> err = None"
    using q ProxyCall by (auto simp: proxy_requests_def Let_def)
  show ?thesis
  proof (cases "shared_mode svc e ?uid s")
    case True
    then have q': "ai_quota (ai_exec svc c s) = ai_quota s1" using ai_Proxy_quota [of svc e userID req s] q ProxyCall by simp
    have t: "call_time c = ae_clock e 0" using ProxyCall by simp
    show ?thesis unfolding q' t by (rule quota_or_same [OF CheckSharedModeQuota_step [OF q]]) (use R in blast)
  next
    case False
    then have "ai_quota (ai_exec svc c s) = ai_quota s" using ai_Proxy_quota [of svc e userID req s] ProxyCall by simp
    moreover have "shared_requests svc u c s = []" using R False by blast
    ultimately show ?thesis by blast
  qed
next
  case (JobCall e str payload)
  show ?thesis
  proof (cases "ae_parse e (jp_UserID payload)")
    case None
    then show ?thesis using JobCall by (simp add: HandleTask_def)
  next
    case (Some uid)
    obtain r s1 where R: "resolveConfig svc e str uid (jp_Request payload) s = (r, s1)" by fastforce
    obtain err s2 where q: "CheckSharedModeQuota e uid (str uid) s = (err, s2)" by fastforce
    have s': "ai_quota (ai_exec svc c s) = ai_quota s1"
      using JobCall Some R by (auto simp: HandleTask_def split: prod.split sum.split)
    have q': "shared_requests svc u c s \<noteq> [] \<longrightarrow> uid = u \<and> shared_mode svc e uid s \<and> err = None"
      using resolveConfig_quota(2) [OF R] q JobCall Some R by (auto simp: job_requests_def split: if_splits sum.splits)
    show ?thesis
    proof (cases "shared_mode svc e uid s")
      case True
      then have e': "ai_quota (ai_exec svc c s) = ai_quota s2" using s' resolveConfig_quota(1) [OF R] q by simp
      have t: "call_time c = ae_clock e 0" using JobCall by simp
      show ?thesis unfolding e' t by (rule quota_or_same [OF CheckSharedModeQuota_step [OF q]]) (use q' in blast)
    next
      case False
      then have "ai_quota (ai_exec svc c s) = ai_quota s" using s' resolveConfig_quota(1) [OF R] by simp
      moreover have "shared_requests svc u c s = []" using q' False by blast
      ultimately show ?thesis by blast
    qed
  qed
next
  case (QuotaCall f now op)
  then show ?thesis by (intro disjI2 exI [of _ f] exI [of _ op] exI [of _ "fst (quota_step f now op (ai_quota s))"]) simp
qed

text \<open>The cache of dates plays no part in the budget.\<close>

lemma shared_quota_seen [simp]:
  "has_quota u (ai_quota (seen_by p w)) = has_quota u (shared_quota w)"
  "day_budget u hi (ai_quota (seen_by p w)) = day_budget u hi (shared_quota w)"
  "has_quota u (shared_quota (left_by p s w)) = has_quota u (ai_quota s)"
  "day_budget u hi (shared_quota (left_by p s w)) = day_budget u hi (ai_quota s)"
  by (simp_all add: has_quota_def day_budget_def quota_row_def quota_inv_def shared_quota_def seen_by_def left_by_def)

definition ai_within_day :: "time \<Rightarrow> time \<Rightarrow> nat \<times> 'l ai_call \<Rightarrow> bool" where
  "ai_within_day lo hi pc \<longleftrightarrow> hi \<le> lo + day \<and> lo \<le> call_time (snd pc) \<and> call_time (snd pc) \<le> hi"

lemma ai_grant_budget:
  assumes "ai_within_day lo hi pc" and "has_quota u (shared_quota w)" and "ai_grant svc u pc w = (g, w')"
  shows "has_quota u (shared_quota w')"
    and "day_budget u hi (shared_quota w') + (if g then 1 else 0) \<le> day_budget u hi (shared_quota w)"
proof -
  obtain p c where pc: "pc = (p, c)" by fastforce
  let ?s = "seen_by p w"
  have w': "w' = left_by p (ai_exec svc c ?s) w" and g: "g \<longleftrightarrow> shared_requests svc u c ?s \<noteq> []"
    using assms(3) by (auto simp: ai_grant_def world_step_def pc)
  have "has_quota u (shared_quota w') \<and> day_budget u hi (shared_quota w') + (if g then 1 else 0) \<le> day_budget u hi (shared_quota w)"
    using ai_exec_quota [of svc c ?s u]
  proof (elim disjE exE conjE)
    fix f op ok
    assume I: "quota_step f (call_time c) op (ai_quota ?s) = (ok, ai_quota (ai_exec svc c ?s))"
      and r: "shared_requests svc u c ?s \<noteq> [] \<longrightarrow> ok \<and> op = OpIncrement u"
    have t: "within_day lo hi (f, call_time c, op)" using assms(1) by (simp add: ai_within_day_def within_day_def pc)
    have step: "quota_grant u (f, call_time c, op) (ai_quota ?s) = (ok \<and> op = OpIncrement u, ai_quota (ai_exec svc c ?s))"
      using I by (simp add: quota_grant_def)
    show ?thesis using quota_step_budget [OF t _ step] assms(2) g r w' by (auto split: if_splits)
  qed (use assms(2) w' g in \<open>simp add: has_quota_def [symmetric]\<close>)
  then show "has_quota u (shared_quota w')"
    "day_budget u hi (shared_quota w') + (if g then 1 else 0) \<le> day_budget u hi (shared_quota w)" by auto
qed

interpretation ai_day: budgeted "ai_grant svc u" "ai_within_day lo hi" "\<lambda>w. has_quota u (shared_quota w)"
    "\<lambda>w. day_budget u hi (shared_quota w)"
  for svc u lo hi
  using ai_grant_budget day_budget_nonneg by unfold_locales blast+

lemma world_requests_grants:
  "length (world_requests svc u pcs w) \<le> (if fallbackCfg svc = None then 1 else 2) * grants (ai_grant svc u) pcs w"
proof (induction pcs arbitrary: w)
  case (Cons pc pcs)
  show ?case using Cons.IH [of "world_step svc pc w"] length_shared_requests [of svc u "snd pc" "seen_by (fst pc) w"]
    by (auto simp: ai_grant_def split: if_splits)
qed simp

lemma set_sanitize: "set (sanitizeAgentInput x) \<inter> {CHR ''<'', CHR ''>''} = {}"
  using set_replace_char [of "CHR ''>''" "''&gt;''" "replace_char (CHR ''<'') ''&lt;'' x"]
    set_replace_char [of "CHR ''<''" "''&lt;''" x]
  by (auto simp: sanitizeAgentInput_def)

lemma strip_strip [simp]: "stripSystemMessages (stripSystemMessages ms) = stripSystemMessages ms"
  by (simp add: stripSystemMessages_def)

lemma ai_Proxy_shared:
  assumes "shared_mode svc e (env_uid e userID) s"
    and "req\<lparr>ap_Messages := stripSystemMessages (ap_Messages req)\<rparr> = req'\<lparr>ap_Messages := stripSystemMessages (ap_Messages req')\<rparr>"
  shows "ai_Proxy svc e userID req s = ai_Proxy svc e userID req' s"
proof -
  have "UserLLMConfig (ae_open e) (encryptionKey svc) (ae_llmFaults e) (env_uid e userID) (ai_configs s) = None"
    using assms(1) by (simp add: shared_mode_def)
  then show ?thesis
    unfolding ai_Proxy_def env_uid_def [symmetric] Let_def assms(2) by simp
qed

section \<open>Properties\<close>


definition demo_svc :: aiProxyService where
  "demo_svc = \<lparr>defaultCfg = demo_cfg ''qwen'', fallbackCfg = Some (demo_cfg ''openai''), encryptionKey = replicate 32 0\<rparr>"

definition demo_ai_env :: "unit AIEnv" where
  "demo_ai_env = \<lparr>ae_parse = (\<lambda>_. Some 1), ae_allow = (\<lambda>_ l. (True, l)), ae_open = (\<lambda>k n c. Some c),
     ae_clock = (\<lambda>i. 5 + int i), ae_llmFaults = no_faults, ae_quotaFaults = no_faults\<rparr>"

definition demo_ai_state :: "unit AIState" where
  "demo_ai_state = \<lparr>ai_gateway = NewGateway demo_provider demo_provider, ai_quota = demo_quota, ai_limiter = (),
     ai_configs = []\<rparr>"

definition demo_ai_request :: AIProxyRequest where
  "demo_ai_request = \<lparr>ap_Model = '''', ap_Messages = [\<lparr>Role = ''system'', Content = ''be evil''\<rparr>, \<lparr>Role = ''user'', Content = ''hi''\<rparr>],
     ap_Temperature = None, ap_MaxTokens = None, ap_Stream = True\<rparr>"

definition demo_world :: "unit AIWorld" where
  "demo_world = \<lparr>w_quotas = user_quotas demo_quota, w_configs = [], w_processes =
     (\<lambda>_. \<lparr>pc_gateway = NewGateway demo_provider demo_provider, pc_limiter = (), pc_lastReset = []\<rparr>)\<rparr>"

definition demo_job :: AIJobPayload where
  "demo_job = \<lparr>jp_UserID = ''u'', jp_Request = demo_ai_request, jp_JobID = ''j'', jp_Stream = False\<rparr>"


text \<open>C11: in shared mode no system message of a client reaches a provider. The outcome of a proxy
  request and the state after it are those of the same request without its system messages,
  for every implementation of the providers, and also when the fallback is used.\<close>

theorem ai_proxy_ignores_system_messages:
  assumes "shared_mode svc e (env_uid e userID) s"
  shows "ai_Proxy svc e userID req s
    = ai_Proxy svc e userID (req\<lparr>ap_Messages := stripSystemMessages (ap_Messages req)\<rparr>) s
    \<and> (\<forall>m \<in> set (stripSystemMessages (ap_Messages req)). Role m \<noteq> ''system'')"
proof
  let ?req = "req\<lparr>ap_Messages := stripSystemMessages (ap_Messages req)\<rparr>"
  have "?req\<lparr>ap_Messages := stripSystemMessages (ap_Messages ?req)\<rparr> = ?req" by simp
  then show "ai_Proxy svc e userID req s = ai_Proxy svc e userID ?req s"
    by (rule ai_Proxy_shared [OF assms, OF sym])
qed (simp add: stripSystemMessages_def)

theorem ai_proxy_ignores_system_messages_witness:
  "ai_Proxy demo_svc demo_ai_env ''u'' demo_ai_request demo_ai_state
   = ai_Proxy demo_svc demo_ai_env ''u'' (demo_ai_request\<lparr>ap_Messages := [\<lparr>Role = ''user'', Content = ''hi''\<rparr>]\<rparr>) demo_ai_state"
proof -
  have "shared_mode demo_svc demo_ai_env (env_uid demo_ai_env ''u'') demo_ai_state"
    by (simp add: shared_mode_def UserLLMConfig_def llm_GetDefaultByUser_def llm_ListByUser_def demo_ai_state_def
        demo_ai_env_def order_by_desc_def)
  from ai_proxy_ignores_system_messages [OF this, of demo_ai_request] show ?thesis
    by (simp add: demo_ai_request_def stripSystemMessages_def)
qed

text \<open>C12: the delimiters of the agent's prompt cannot be forged. Whatever action, note ids, context
  and parameters a request carries, and however they are encoded, the prompt is the opening
  delimiter, a body without any angle bracket, and the closing delimiter.\<close>

theorem agent_prompt_delimited:
  "agent_prompt lib req = ''<user-request>'' @ nl @ agent_prompt_body lib req @ ''</user-request>''
   \<and> CHR ''<'' \<notin> set (agent_prompt_body lib req) \<and> CHR ''>'' \<notin> set (agent_prompt_body lib req)
   \<and> length (filter (\<lambda>c. c = CHR ''<'') (agent_prompt lib req)) = 2"
proof -
  have "CHR ''<'' \<notin> set (sanitizeAgentInput x)" "CHR ''>'' \<notin> set (sanitizeAgentInput x)" for x
    using set_sanitize [of x] by auto
  then have body: "CHR ''<'' \<notin> set (agent_prompt_body lib req)" "CHR ''>'' \<notin> set (agent_prompt_body lib req)"
    by (auto simp: agent_prompt_body_def split: option.splits if_splits)
  then have "filter (\<lambda>c. c = CHR ''<'') (agent_prompt_body lib req) = []" by (auto simp: filter_empty_conv)
  then show ?thesis using body by (simp add: agent_prompt_def)
qed

text \<open>Two of the three agent actions cannot be executed, and in shared mode the agent runs
  without its instructions. The handler accepts the actions organize, summarize and create-note,
  the service only organize-notes, summarize-notes and create-note: any other action than
  create-note ends in an error before an LLM is asked, with the state unchanged. And for a user in
  shared mode the outcome of an action does not depend on the system prompt with the tool
  definitions, because the proxy removes it.\<close>

theorem agent_actions_mismatch:
  assumes "ag_Action req \<noteq> ''create_note''"
  shows "(\<exists>status code msg. handle_ExecuteAction tools lib svc e str user (Some req) s = (HttpError status code msg, s))
    \<and> (shared_mode svc e (env_uid e userID) s \<longrightarrow>
         ExecuteAction tools lib svc e userID req' s = ExecuteAction tools' lib svc e userID req' s)"
proof
  show "\<exists>status code msg. handle_ExecuteAction tools lib svc e str user (Some req) s = (HttpError status code msg, s)"
    using assms
    by (cases user) (auto simp: handle_ExecuteAction_def ExecuteAction_def validateAgentRequest_def allowedAgentActions_def)
  have "ai_Proxy svc e userID (agent_request tools lib req') s = ai_Proxy svc e userID (agent_request tools' lib req') s"
    if "shared_mode svc e (env_uid e userID) s"
    using that by (rule ai_Proxy_shared) (simp add: agent_request_def stripSystemMessages_def)
  then show "shared_mode svc e (env_uid e userID) s \<longrightarrow>
      ExecuteAction tools lib svc e userID req' s = ExecuteAction tools' lib svc e userID req' s"
    by (simp add: ExecuteAction_def)
qed

theorem agent_actions_mismatch_witness:
  "\<exists>status code msg. handle_ExecuteAction ''tools'' \<lparr>j_marshal = (\<lambda>_::unit. None), j_unmarshal = (\<lambda>_. None), j_printIDs = (\<lambda>_. '''')\<rparr>
     demo_svc demo_ai_env (\<lambda>_. ''u'') (Some 1)
     (Some \<lparr>ag_Action = ''summarize'', ag_Context = (), ag_NoteIDs = [], ag_Parameters = ()\<rparr>) demo_ai_state
   = (HttpError status code msg, demo_ai_state)"
proof -
  have "ag_Action \<lparr>ag_Action = ''summarize'', ag_Context = (), ag_NoteIDs = [], ag_Parameters = ()\<rparr> \<noteq> ''create_note''"
    by simp
  from conjunct1 [OF agent_actions_mismatch [OF this]] show ?thesis by blast
qed

section \<open>The round trip of an API key\<close>

lemma llm_Create_okD:
  assumes "llm_Create e u cfg t = (Inr result, t')"
  obtains encryptedKey where "EncryptAPIKey (le_seal e) (le_nonce e) (lc_DecryptedKey cfg) (le_masterKey e) = Some encryptedKey"
    and "t' = t @ [stored_config (cfg\<lparr>lc_ID := le_newID e, lc_UserID := u, lc_EncryptedKey := encryptedKey,
               lc_DecryptedKey := '''', lc_CreatedAt := le_now e, lc_UpdatedAt := le_now e\<rparr>)]"
  using assms
  by (auto simp: llm_Create_def llm_repo_Create_def Let_def split: option.split_asm if_split_asm prod.split_asm)

text \<open>C24: an API key survives its round trip through the table. With a cipher whose decryption undoes its
  encryption, the configuration a user creates, when it is marked as the default and is the only one so
  marked, or when it is the user's only one, is the one the AI proxy resolves for that user, with the same
  API key, provider, base URL, model, token limit and temperature; the row itself holds only the
  ciphertext.\<close>

theorem llm_api_key_round_trip:
  assumes "llm_handle_Create e (Some u) (Some body) t = (JSON 201 result, t')"
    and "\<And>k n m. aes_key_ok k \<Longrightarrow> length n = 12 \<Longrightarrow> le_open e k n (le_seal e k n m) = Some m"
    and "length (le_nonce e) = 12"
    and "\<forall>c \<in> set t. lc_UserID c = u \<longrightarrow> lc_IsDefault body \<and> \<not> lc_IsDefault c"
  shows "UserLLMConfig (le_open e) (le_masterKey e) no_faults u t' =
      Some \<lparr>cfg_Provider = lc_Provider body, cfg_BaseURL = lc_BaseURL body, cfg_APIKey = lc_APIKey body,
            cfg_Model = lc_Model body, cfg_MaxTokens = lc_MaxTokens body, cfg_Temperature = lc_Temperature body,
            cfg_Timeout = defaultLLMTimeout, cfg_MaxRetries = 0, cfg_RetryBaseDelay = 0\<rparr>
    \<and> (\<exists>c. t' = t @ [c] \<and> lc_APIKey c = '''' \<and> lc_DecryptedKey c = '''')"
proof -
  have "llm_Create e u (body\<lparr>lc_DecryptedKey := lc_APIKey body\<rparr>) t = (Inr result, t')"
    using assms(1) by (simp add: llm_handle_Create_def Let_def split: if_split_asm sum.split_asm prod.split_asm)
  then obtain ek c where ek: "EncryptAPIKey (le_seal e) (le_nonce e) (lc_APIKey body) (le_masterKey e) = Some ek"
    and t': "t' = t @ [c]"
    and c: "c = stored_config (body\<lparr>lc_ID := le_newID e, lc_UserID := u, lc_EncryptedKey := ek,
               lc_CreatedAt := le_now e, lc_UpdatedAt := le_now e\<rparr>)"
    by (elim llm_Create_okD) (simp add: stored_config_def)
  have key: "aes_key_ok (le_masterKey e)" using ek by (auto simp: EncryptAPIKey_def split: if_split_asm)
  have dec: "DecryptAPIKey (le_open e) ek (le_masterKey e) = Some (lc_APIKey body)"
    using Encrypt_Decrypt [OF ek assms(3), of "le_open e"] assms(2) [OF key assms(3)] by blast
  have none: "find_row (\<lambda>c. lc_UserID c = u \<and> lc_IsDefault c) t = None"
    using assms(4) by (auto simp: find_row_None_iff)
  have "(case llm_GetDefaultByUser False u t' of Some c \<Rightarrow> Some c
      | None \<Rightarrow> (case llm_ListByUser False u t' of Some (c # _) \<Rightarrow> Some c | _ \<Rightarrow> None)) = Some c"
  proof (cases "lc_IsDefault body")
    case True
    then show ?thesis using none by (simp add: t' c llm_GetDefaultByUser_def find_row_append stored_config_def)
  next
    case False
    then have "filter (\<lambda>c. lc_UserID c = u) t = []" using assms(4) by (auto simp: filter_empty_conv)
    then show ?thesis using none False
      by (simp add: t' c llm_GetDefaultByUser_def llm_ListByUser_def order_by_desc_def find_row_append stored_config_def)
  qed
  note cfg = this
  have "lc_EncryptedKey c = ek" "lc_APIKey c = ''''" "lc_DecryptedKey c = ''''" by (simp_all add: c stored_config_def)
  then show ?thesis unfolding UserLLMConfig_def cfg using dec t' by (simp add: c stored_config_def)
qed

theorem llm_api_key_round_trip_witness:
  "map_option cfg_APIKey (UserLLMConfig (le_open demo_llm_env) (le_masterKey demo_llm_env) no_faults 1
     (snd (llm_handle_Create demo_llm_env (Some 1)
        (Some (demo_llm_config\<lparr>lc_BaseURL := ''https://api.x/v1'', lc_APIKey := ''sk''\<rparr>)) []))) = Some ''sk''"
proof -
  let ?body = "demo_llm_config\<lparr>lc_BaseURL := ''https://api.x/v1'', lc_APIKey := ''sk''\<rparr>"
  have url: "ValidateBaseURL (le_lookup demo_llm_env) ''https://api.x/v1'' = None" by code_simp
  obtain r t' where h: "llm_handle_Create demo_llm_env (Some 1) (Some ?body) [] = (JSON 201 r, t')"
    using url by (simp add: llm_handle_Create_def llm_Create_def demo_llm_config_def demo_llm_env_def aes_key_ok_def
        EncryptAPIKey_def ListProviders_def llm_repo_Create_def int4_ok_def Let_def)
  have "UserLLMConfig (le_open demo_llm_env) (le_masterKey demo_llm_env) no_faults 1 t' \<noteq> None
     \<and> map_option cfg_APIKey (UserLLMConfig (le_open demo_llm_env) (le_masterKey demo_llm_env) no_faults 1 t') = Some ''sk''"
    using llm_api_key_round_trip [OF h] by (simp add: demo_llm_env_def)
  then show ?thesis using h by simp
qed

end
