(* ===== verification/LLM_Provider.thy ===== *)
theory LLM_Provider
  imports LLM_Config
begin

text \<open>
  The provider for OpenAI-compatible services of \<^verbatim>\<open>internal/llm/openai_compat.go\<close>: the retry loop of
  \<open>Chat\<close> with its helpers, and the stream reader of \<open>ChatStream\<close>. The network is an argument: what the
  \<open>a\<close>-th attempt gets back, and whether the context ends while the loop waits before it. JSON, DNS and the
  parsing of HTTP dates are arguments too. The call returns its result with the number of requests sent and
  the delays waited, which the code only logs. The last definition is the record of functions that the
  gateway takes as a provider.
\<close>

section \<open>Chat\<close>

datatype http_outcome = NetError string | BodyError string | HttpAnswer nat string string

text \<open>The errors of a call, each with the text of the error it wraps. Running out of attempts wraps the last
  error; without any attempt there is none.\<close>

datatype chat_error =
    BadBaseURL URLError
  | MarshalRequest string
  | CreateRequest string
  | SendRequest string
  | ReadBody string
  | ReadErrorBody string
  | LLMStatus nat
  | ParseResponse string
  | NoChoices
  | CtxEnded string
  | RetriesExhausted int "chat_error option"

record openaiChatResponse =
  oc_Model :: string
  oc_Choices :: "string list"
  oc_Usage :: Usage

text \<open>A response of the stream is the list of its choices, each with content and finish reason.\<close>

record ProviderEnv =
  pe_lookup :: "string \<Rightarrow> ip list option"
  pe_marshal :: "ChatRequest \<Rightarrow> string + string"
  pe_newRequest :: "string \<Rightarrow> string option"
  pe_send :: "nat \<Rightarrow> http_outcome"
  pe_done :: "nat \<Rightarrow> string option"
  pe_parseChat :: "string \<Rightarrow> string + openaiChatResponse"
  pe_parseStream :: "string \<Rightarrow> (string \<times> string) list option"
  pe_parseTime :: "string \<Rightarrow> bool"

definition requestTimeout :: "duration \<Rightarrow> duration" where
  "requestTimeout cfg = (if cfg > 0 then cfg else 120 * second)"

definition isRetriable :: "nat \<Rightarrow> bool" where
  "isRetriable statusCode \<longleftrightarrow> statusCode = 429 \<or> statusCode = 502 \<or> statusCode = 503 \<or> statusCode = 504"

text \<open>For attempt 0, which the loop never asks for, the conversion to \<open>uint\<close> wraps and the shift is capped.\<close>

definition retryBackoff :: "nat \<Rightarrow> duration \<Rightarrow> duration" where
  "retryBackoff attempt baseDelay =
     (let base = (if baseDelay \<le> 0 then 1 * second else baseDelay);
          shift = (if attempt = 0 \<or> attempt - 1 > 10 then 10 else attempt - 1)
      in wrap64 (base * 2 ^ shift))"

definition parseRetryAfter :: "(string \<Rightarrow> bool) \<Rightarrow> string \<Rightarrow> duration" where
  "parseRetryAfter isDate s =
     (if s = '''' then 0
      else case Atoi s of
        Some n \<Rightarrow> if n > 0 then wrap64 (n * second) else if isDate s then 5 * second else 0
      | None \<Rightarrow> if isDate s then 5 * second else 0)"

definition decode_chat :: "ProviderEnv \<Rightarrow> string \<Rightarrow> chat_error + ChatResponse" where
  "decode_chat e body =
     (case pe_parseChat e body of
        Inl m \<Rightarrow> Inl (ParseResponse m)
      | Inr r \<Rightarrow> (case oc_Choices r of
                    [] \<Rightarrow> Inl NoChoices
                  | c # _ \<Rightarrow> Inr \<lparr>resp_Content = c, resp_Model = oc_Model r, resp_Usage = oc_Usage r\<rparr>))"

text \<open>The loop with \<open>n\<close> attempts left, the first of them number \<open>a\<close>. Network errors, unreadable bodies and
  retriable statuses go on to the next attempt.\<close>

fun chat_loop :: "ProviderEnv \<Rightarrow> string \<Rightarrow> int \<Rightarrow> nat \<Rightarrow> nat \<Rightarrow> duration \<Rightarrow> chat_error option
    \<Rightarrow> (chat_error + ChatResponse) \<times> nat \<times> duration list" where
  "chat_loop e url maxRetries 0 a base lastErr = (Inl (RetriesExhausted maxRetries lastErr), 0, [])"
| "chat_loop e url maxRetries (Suc n) a base lastErr =
     (let waits = (if a > 0 then [retryBackoff a base] else []) in
      case (if a > 0 then pe_done e a else None) of
        Some err \<Rightarrow> (Inl (CtxEnded err), 0, waits)
      | None \<Rightarrow>
          (case pe_newRequest e url of
             Some m \<Rightarrow> (Inl (CreateRequest m), 0, waits)
           | None \<Rightarrow>
               (let (r, sent, ds) =
                  (case pe_send e a of
                     NetError m \<Rightarrow> chat_loop e url maxRetries n (Suc a) base (Some (SendRequest m))
                   | BodyError m \<Rightarrow> chat_loop e url maxRetries n (Suc a) base (Some (ReadBody m))
                   | HttpAnswer st body ra \<Rightarrow>
                       if st = 400 \<or> st = 401 \<or> st = 403 then (Inl (LLMStatus st), 0, [])
                       else if isRetriable st then
                         let after = parseRetryAfter (pe_parseTime e) ra in
                         chat_loop e url maxRetries n (Suc a) (if st = 429 \<and> after > 0 then after else base) (Some (LLMStatus st))
                       else if st \<noteq> 200 then (Inl (LLMStatus st), 0, [])
                       else (decode_chat e body, 0, []))
                in (r, Suc sent, waits @ ds))))"

definition chat_url :: "string \<Rightarrow> string" where
  "chat_url baseURL = trim_right_char (CHR ''/'') baseURL @ ''/chat/completions''"

text \<open>The context carries the timeout \<open>requestTimeout\<close>; that it expires is one of the reasons for
  \<open>pe_done\<close> and for a network error.\<close>

definition compat_Chat :: "ProviderEnv \<Rightarrow> string \<Rightarrow> string \<Rightarrow> ChatRequest
    \<Rightarrow> (chat_error + ChatResponse) \<times> nat \<times> duration list" where
  "compat_Chat e apiKey baseURL req0 =
     (let req = req0\<lparr>Stream := False\<rparr> in
      case ValidateBaseURL (pe_lookup e) baseURL of
        Some err \<Rightarrow> (Inl (BadBaseURL err), 0, [])
      | None \<Rightarrow>
          (case pe_marshal e req of
             Inl m \<Rightarrow> (Inl (MarshalRequest m), 0, [])
           | Inr body \<Rightarrow>
               chat_loop e (chat_url baseURL) (MaxRetries req) (nat (MaxRetries req + 1)) 0 (RetryBaseDelay req) None))"

section \<open>Streaming\<close>

text \<open>The reader of the event stream. The input are the lines of the scanner and the error with which it
  ends; \<open>ended k\<close> says whether the context has ended when line \<open>k\<close> is looked at.\<close>

fun read_stream :: "(string \<Rightarrow> (string \<times> string) list option) \<Rightarrow> (nat \<Rightarrow> bool) \<Rightarrow> nat \<Rightarrow> string list \<Rightarrow> string option \<Rightarrow> StreamChunk list" where
  "read_stream dec ended k [] err =
     (case err of None \<Rightarrow> []
      | Some m \<Rightarrow> if ended k then [] else [\<lparr>sc_Content = '''', sc_Done = False, sc_Error = m\<rparr>])"
| "read_stream dec ended k (line # ls) err =
     (if ended k then []
      else if \<not> has_prefix line ''data: '' then read_stream dec ended (Suc k) ls err
      else let data = TrimPrefix line ''data: '' in
      if data = ''[DONE]'' then [\<lparr>sc_Content = '''', sc_Done = True, sc_Error = ''''\<rparr>]
      else case dec data of
        None \<Rightarrow> read_stream dec ended (Suc k) ls err
      | Some [] \<Rightarrow> read_stream dec ended (Suc k) ls err
      | Some ((content, finish) # _) \<Rightarrow>
          (if content = '''' then [] else [\<lparr>sc_Content = content, sc_Done = False, sc_Error = ''''\<rparr>])
          @ (if finish = ''stop'' then [\<lparr>sc_Content = '''', sc_Done = True, sc_Error = ''''\<rparr>]
             else read_stream dec ended (Suc k) ls err))"

text \<open>An answer to the streaming request: its status, the error met when the body of a refusal is read, and
  the lines of the scanner with the error with which it ends.\<close>

datatype stream_outcome = StreamNetError string | StreamAnswer nat "string option" "string list" "string option"

record StreamEnv =
  se_send :: "string \<Rightarrow> stream_outcome"
  se_ended :: "nat \<Rightarrow> bool"

definition compat_ChatStream :: "ProviderEnv \<Rightarrow> StreamEnv \<Rightarrow> string \<Rightarrow> string \<Rightarrow> ChatRequest \<Rightarrow> chat_error + StreamChunk list" where
  "compat_ChatStream e se apiKey baseURL req0 =
     (let req = req0\<lparr>Stream := True\<rparr> in
      case ValidateBaseURL (pe_lookup e) baseURL of
        Some err \<Rightarrow> Inl (BadBaseURL err)
      | None \<Rightarrow>
          (case pe_marshal e req of
             Inl m \<Rightarrow> Inl (MarshalRequest m)
           | Inr body \<Rightarrow>
               (case pe_newRequest e (chat_url baseURL) of
                  Some m \<Rightarrow> Inl (CreateRequest m)
                | None \<Rightarrow>
                    (case se_send se body of
                       StreamNetError m \<Rightarrow> Inl (SendRequest m)
                     | StreamAnswer st bodyErr ls err \<Rightarrow>
                         if st \<noteq> 200 then (case bodyErr of Some m \<Rightarrow> Inl (ReadErrorBody m) | None \<Rightarrow> Inl (LLMStatus st))
                         else Inr (read_stream (pe_parseStream e) (se_ended se) 0 ls err)))))"

text \<open>The provider the gateway calls; \<open>show_err\<close> prints an error.\<close>

definition OpenAICompatProvider :: "(chat_error \<Rightarrow> string) \<Rightarrow> ProviderEnv \<Rightarrow> StreamEnv \<Rightarrow> Provider" where
  "OpenAICompatProvider show_err e se =
     \<lparr>prov_ChatStream = (\<lambda>k b r. map_sum show_err (\<lambda>x. x) (compat_ChatStream e se k b r)),
      prov_Chat = (\<lambda>k b r. map_sum show_err (\<lambda>x. x) (fst (compat_Chat e k b r)))\<rparr>"

section \<open>The retry loop against a reference\<close>

text \<open>An outcome decides the call unless it is a failure of the transport or a retriable status.\<close>

fun decisive :: "http_outcome \<Rightarrow> bool" where
  "decisive (HttpAnswer st body ra) \<longleftrightarrow> st \<notin> {429, 502, 503, 504}"
| "decisive _ \<longleftrightarrow> False"

fun outcome_error :: "http_outcome \<Rightarrow> chat_error" where
  "outcome_error (HttpAnswer st body ra) = LLMStatus st"
| "outcome_error (NetError m) = SendRequest m"
| "outcome_error (BodyError m) = ReadBody m"

fun answer_of :: "ProviderEnv \<Rightarrow> http_outcome \<Rightarrow> chat_error + ChatResponse" where
  "answer_of e (HttpAnswer st body ra) = (if st = 200 then decode_chat e body else Inl (LLMStatus st))"
| "answer_of e h = Inl (outcome_error h)"

text \<open>The base delay before attempt \<open>a\<close>: the last positive Retry-After of an answer with status 429, or the
  configured one.\<close>

fun next_base :: "ProviderEnv \<Rightarrow> duration \<Rightarrow> http_outcome \<Rightarrow> duration" where
  "next_base e base (HttpAnswer st body ra) =
     (let after = parseRetryAfter (pe_parseTime e) ra in if st = 429 \<and> after > 0 then after else base)"
| "next_base e base _ = base"

fun retry_base :: "ProviderEnv \<Rightarrow> duration \<Rightarrow> nat \<Rightarrow> duration" where
  "retry_base e base 0 = base"
| "retry_base e base (Suc a) = next_base e (retry_base e base a) (pe_send e a)"

text \<open>The error the loop carries into attempt \<open>a\<close>.\<close>

fun last_error :: "ProviderEnv \<Rightarrow> nat \<Rightarrow> chat_error option" where
  "last_error e 0 = None"
| "last_error e (Suc a) = Some (outcome_error (pe_send e a))"

lemma chat_loop_step:
  assumes "pe_newRequest e url = None" and "\<And>a. pe_done e a = None"
  shows "chat_loop e url mr (Suc n) a base le =
    (let waits = (if a > 0 then [retryBackoff a base] else []) in
     if decisive (pe_send e a) then (answer_of e (pe_send e a), 1, waits)
     else let (r, sent, ds) = chat_loop e url mr n (Suc a) (next_base e base (pe_send e a)) (Some (outcome_error (pe_send e a)))
          in (r, Suc sent, waits @ ds))"
proof (cases "pe_send e a")
  case (HttpAnswer st body ra)
  show ?thesis
  proof (cases "isRetriable st")
    case True
    then have "st \<noteq> 400" "st \<noteq> 401" "st \<noteq> 403" "st \<noteq> 200" "st \<in> {429, 502, 503, 504}"
      by (auto simp: isRetriable_def)
    then show ?thesis using assms True unfolding chat_loop.simps HttpAnswer by (cases "a = 0") (simp_all add: Let_def)
  next
    case False
    then have "st \<notin> {429, 502, 503, 504}" by (auto simp: isRetriable_def)
    then show ?thesis using assms False unfolding chat_loop.simps HttpAnswer by (cases "a = 0") (auto simp: Let_def)
  qed
next
  case (NetError m)
  then show ?thesis using assms unfolding chat_loop.simps NetError by (cases "a = 0") (simp_all add: Let_def)
next
  case (BodyError m)
  then show ?thesis using assms unfolding chat_loop.simps BodyError by (cases "a = 0") (simp_all add: Let_def)
qed

lemma chat_loop_eq:
  assumes "pe_newRequest e url = None" and "\<And>a. pe_done e a = None"
  shows "case chat_loop e url mr n a (retry_base e base a) (last_error e a) of (r, sent, ds) \<Rightarrow>
    (case find (\<lambda>i. decisive (pe_send e i)) [a..<a + n] of
       Some i \<Rightarrow> r = answer_of e (pe_send e i) \<and> sent = Suc i - a
     | None \<Rightarrow> r = Inl (RetriesExhausted mr (last_error e (a + n))) \<and> sent = n)
    \<and> ds = map (\<lambda>i. retryBackoff i (retry_base e base i)) [max 1 a..<a + sent]"
proof (induction n arbitrary: a)
  case (Suc n)
  obtain r sent ds where l: "chat_loop e url mr n (Suc a) (retry_base e base (Suc a)) (last_error e (Suc a)) = (r, sent, ds)"
    by (metis prod_cases3)
  have step: "chat_loop e url mr (Suc n) a (retry_base e base a) (last_error e a) =
    (let waits = (if a > 0 then [retryBackoff a (retry_base e base a)] else []) in
     if decisive (pe_send e a) then (answer_of e (pe_send e a), 1, waits) else (r, Suc sent, waits @ ds))"
    unfolding chat_loop_step [OF assms] using l by (simp add: Let_def)
  have IH: "(case find (\<lambda>i. decisive (pe_send e i)) [Suc a..<Suc a + n] of
       Some i \<Rightarrow> r = answer_of e (pe_send e i) \<and> sent = Suc i - Suc a
     | None \<Rightarrow> r = Inl (RetriesExhausted mr (last_error e (Suc a + n))) \<and> sent = n)"
    and ds: "ds = map (\<lambda>i. retryBackoff i (retry_base e base i)) [max 1 (Suc a)..<Suc a + sent]"
    using Suc.IH [of "Suc a"] unfolding l prod.case by blast+
  have up: "[a..<a + Suc n] = a # [Suc a..<Suc a + n]" by (simp add: upt_conv_Cons)
  show ?case
  proof (cases "decisive (pe_send e a)")
    case True
    then show ?thesis unfolding step up by (cases a) (simp_all add: Let_def)
  next
    case False
    have rest: "find (\<lambda>i. decisive (pe_send e i)) [a..<a + Suc n] = find (\<lambda>i. decisive (pe_send e i)) [Suc a..<Suc a + n]"
      unfolding up using False by simp
    have 1: "case find (\<lambda>i. decisive (pe_send e i)) [a..<a + Suc n] of
       Some i \<Rightarrow> r = answer_of e (pe_send e i) \<and> Suc sent = Suc i - a
     | None \<Rightarrow> r = Inl (RetriesExhausted mr (last_error e (a + Suc n))) \<and> Suc sent = Suc n"
    proof (cases "find (\<lambda>i. decisive (pe_send e i)) [Suc a..<Suc a + n]")
      case None
      then show ?thesis unfolding rest using IH by simp
    next
      case (Some i)
      have "Suc a \<le> i" by (metis Some find_Some_iff atLeastLessThan_iff nth_mem set_upt)
      then show ?thesis unfolding rest Some using IH [unfolded Some option.case] by (simp add: Suc_diff_le)
    qed
    have "[max 1 a..<a + Suc sent] = (if a > 0 then [a] else []) @ [Suc a..<Suc a + sent]"
      by (cases a) (simp_all add: upt_conv_Cons)
    then have 2: "(if a > 0 then [retryBackoff a (retry_base e base a)] else []) @ ds
        = map (\<lambda>i. retryBackoff i (retry_base e base i)) [max 1 a..<a + Suc sent]"
      using ds by (simp add: max_def)
    show ?thesis unfolding step using 1 2 False by (simp add: Let_def)
  qed
qed simp

text \<open>
  C23: while the context lasts, the retry loop of \<open>Chat\<close> sends the request until the first outcome that
  decides (any answer but 429, 502, 503 and 504), returns what that outcome gives, and gives up after
  \<open>MaxRetries + 1\<close> requests with the error of the last one; before each attempt after the first it waits the
  base delay, replaced by each positive Retry-After of a 429, times a power of two. A negative
  \<open>MaxRetries\<close> sends nothing.
\<close>

theorem llm_chat_retries:
  assumes "ValidateBaseURL (pe_lookup e) baseURL = None" and "pe_marshal e (req\<lparr>Stream := False\<rparr>) = Inr body"
    and "pe_newRequest e (chat_url baseURL) = None" and "\<And>a. pe_done e a = None"
  shows "case compat_Chat e apiKey baseURL req of (r, sent, ds) \<Rightarrow>
    (let n = nat (MaxRetries req + 1) in
     case find (\<lambda>i. decisive (pe_send e i)) [0..<n] of
       Some i \<Rightarrow> r = answer_of e (pe_send e i) \<and> sent = Suc i
     | None \<Rightarrow> r = Inl (RetriesExhausted (MaxRetries req) (last_error e n)) \<and> sent = n)
    \<and> ds = map (\<lambda>i. retryBackoff i (retry_base e (RetryBaseDelay req) i)) [1..<sent]"
proof -
  have "compat_Chat e apiKey baseURL req =
      chat_loop e (chat_url baseURL) (MaxRetries req) (nat (MaxRetries req + 1)) 0
        (retry_base e (RetryBaseDelay req) 0) (last_error e 0)"
    using assms(1,2) by (simp add: compat_Chat_def Let_def)
  moreover have "max 1 0 = (1::nat)" by simp
  ultimately show ?thesis
    using chat_loop_eq [OF assms(3,4), where mr = "MaxRetries req" and n = "nat (MaxRetries req + 1)" and a = 0 and base = "RetryBaseDelay req"]
    unfolding Let_def by (simp only: add_0 diff_zero)
qed

text \<open>A provider that is rate limited once, with a Retry-After of two seconds, then answers.\<close>

definition demo_provider_env :: ProviderEnv where
  "demo_provider_env =
     \<lparr>pe_lookup = (\<lambda>_. Some [[8, 8, 8, 8]]), pe_marshal = (\<lambda>_. Inr ''{}''), pe_newRequest = (\<lambda>_. None),
      pe_send = (\<lambda>a. if a = 0 then HttpAnswer 429 '''' ''2'' else HttpAnswer 200 ''ok'' ''''),
      pe_done = (\<lambda>_. None),
      pe_parseChat = (\<lambda>s. Inr \<lparr>oc_Model = ''m'', oc_Choices = [s],
        oc_Usage = \<lparr>PromptTokens = 1, CompletionTokens = 1, TotalTokens = 2\<rparr>\<rparr>),
      pe_parseStream = (\<lambda>_. None), pe_parseTime = (\<lambda>_. False)\<rparr>"

definition demo_chat_request :: ChatRequest where
  "demo_chat_request = \<lparr>Model = ''m'', Messages = [], Temperature = None, MaxTokens = None, Stream = True,
     Timeout = 0, MaxRetries = 3, RetryBaseDelay = 0\<rparr>"

theorem llm_chat_retries_witness:
  "compat_Chat demo_provider_env ''k'' ''https://api.x/v1/'' demo_chat_request =
     (Inr \<lparr>resp_Content = ''ok'', resp_Model = ''m'',
        resp_Usage = \<lparr>PromptTokens = 1, CompletionTokens = 1, TotalTokens = 2\<rparr>\<rparr>, Suc 1, [2 * second])"
proof -
  have url: "ValidateBaseURL (pe_lookup demo_provider_env) ''https://api.x/v1/'' = None" by code_simp
  have env: "pe_marshal demo_provider_env (demo_chat_request\<lparr>Stream := False\<rparr>) = Inr ''{}''"
    "pe_newRequest demo_provider_env (chat_url ''https://api.x/v1/'') = None" "\<And>a. pe_done demo_provider_env a = None"
    by (simp_all add: demo_provider_env_def)
  have first: "find (\<lambda>i. decisive (pe_send demo_provider_env i)) [0..<nat (MaxRetries demo_chat_request + 1)] = Some 1"
    by code_simp
  have ans: "answer_of demo_provider_env (pe_send demo_provider_env 1) = Inr \<lparr>resp_Content = ''ok'', resp_Model = ''m'',
      resp_Usage = \<lparr>PromptTokens = 1, CompletionTokens = 1, TotalTokens = 2\<rparr>\<rparr>"
    by code_simp
  have wait: "map (\<lambda>i. retryBackoff i (retry_base demo_provider_env (RetryBaseDelay demo_chat_request) i)) [1..<Suc 1] = [2 * second]"
    by code_simp
  obtain r sent ds where c: "compat_Chat demo_provider_env ''k'' ''https://api.x/v1/'' demo_chat_request = (r, sent, ds)"
    by (metis prod_cases3)
  show ?thesis
    using llm_chat_retries [OF url env, of "''k''"] ans wait unfolding c prod.case Let_def first option.case by metis
qed

end
