(* ===== verification/Share.thy ===== *)
theory Share
  imports AnyNote_Prelude Http Go_Strings
begin

text \<open>
  Shared notes and reactions: \<^verbatim>\<open>internal/handler/share_handler.go\<close> over
  \<^verbatim>\<open>internal/service/share_service.go\<close> over \<^verbatim>\<open>internal/repository/shared_note_repository.go\<close>.
  The state is the tables \<^verbatim>\<open>shared_notes\<close> (primary key \<^verbatim>\<open>id\<close>) and \<^verbatim>\<open>note_reactions\<close> (unique on note,
  user and type, deleted with its note), with the identifiers of the existing users, to which both
  refer. A failing statement yields the text of its error: the oracle of a call maps the index of
  a statement to that text. bcrypt and SHA-256 are arguments.
\<close>

type_synonym dberrs = "nat \<Rightarrow> string option"

abbreviation no_errs :: dberrs where
  "no_errs \<equiv> (\<lambda>_. None)"

record SharedNote =
  sn_ID :: string
  sn_EncryptedContent :: string
  sn_EncryptedTitle :: string
  sn_ShareKeyHash :: string
  sn_HasPassword :: bool
  sn_IsPublic :: bool
  sn_ExpiresAt :: "time option"
  sn_ViewCount :: int
  sn_MaxViews :: "int option"
  sn_ReactionHeart :: int
  sn_ReactionBookmark :: int
  sn_CreatedBy :: uuid
  sn_CreatedAt :: time

record CreateShareRequest =
  cs_EncryptedContent :: string
  cs_EncryptedTitle :: string
  cs_ShareKeyHash :: string
  cs_HasPassword :: bool
  cs_IsPublic :: "bool option"
  cs_ExpiresHours :: "int option"
  cs_MaxViews :: "int option"

record CreateShareResponse =
  csr_ID :: string
  csr_URL :: string

record GetShareResponse =
  gs_ID :: string
  gs_EncryptedContent :: string
  gs_EncryptedTitle :: string
  gs_HasPassword :: bool
  gs_ShareKeyHash :: string
  gs_ExpiresAt :: "time option"
  gs_ViewCount :: int
  gs_MaxViews :: "int option"

record DiscoverFeedItem =
  df_ID :: string
  df_EncryptedTitle :: string
  df_HasPassword :: bool
  df_ViewCount :: int
  df_ReactionHeart :: int
  df_ReactionBookmark :: int
  df_CreatedAt :: time

record ReactResponse =
  rr_ReactionType :: string
  rr_Active :: bool
  rr_Count :: int

record note_reaction =
  nr_ID :: uuid
  nr_SharedNoteID :: string
  nr_UserID :: uuid
  nr_Type :: string

record share_db =
  shared_notes :: "SharedNote list"
  note_reactions :: "note_reaction list"
  share_users :: "uuid list"

section \<open>Repository\<close>

text \<open>Errors of the database that depend on the data. Their text carries the SQLSTATE.\<close>

definition unique_violation :: string where
  "unique_violation = ''ERROR: duplicate key value violates unique constraint (SQLSTATE 23505)''"

definition fk_violation :: string where
  "fk_violation = ''ERROR: insert or update violates foreign key constraint (SQLSTATE 23503)''"

definition out_of_range :: string where
  "out_of_range = ''ERROR: integer out of range (SQLSTATE 22003)''"

definition no_rows :: string where
  "no_rows = ''no rows in result set''"

text \<open>The columns an insert leaves to their defaults.\<close>

definition inserted :: "time \<Rightarrow> SharedNote \<Rightarrow> SharedNote" where
  "inserted now note = note\<lparr>sn_ViewCount := 0, sn_ReactionHeart := 0, sn_ReactionBookmark := 0, sn_CreatedAt := now\<rparr>"

definition share_repo_Create :: "string option \<Rightarrow> time \<Rightarrow> SharedNote \<Rightarrow> share_db \<Rightarrow> service_error option \<times> share_db" where
  "share_repo_Create err now note db =
     (case err of Some e \<Rightarrow> (Some (OtherError e), db)
      | None \<Rightarrow>
        if \<not> pred_option int4_ok (sn_MaxViews note) then (Some (OtherError out_of_range), db)
        else if find_row (\<lambda>r. sn_ID r = sn_ID note) (shared_notes db) \<noteq> None
          then (Some (OtherError unique_violation), db)
        else if sn_CreatedBy note \<notin> set (share_users db) then (Some (OtherError fk_violation), db)
        else (None, db\<lparr>shared_notes := shared_notes db @
               [inserted now note]\<rparr>))"

definition share_repo_GetByID :: "string option \<Rightarrow> string \<Rightarrow> share_db \<Rightarrow> service_error + SharedNote" where
  "share_repo_GetByID err sid db =
     (case err of Some e \<Rightarrow> Inl (OtherError e)
      | None \<Rightarrow> case find_row (\<lambda>r. sn_ID r = sid) (shared_notes db) of
                  None \<Rightarrow> Inl (OtherError no_rows)
                | Some note \<Rightarrow> Inr note)"

definition IncrementViewCount :: "string option \<Rightarrow> string \<Rightarrow> share_db \<Rightarrow> service_error option \<times> share_db" where
  "IncrementViewCount err sid db =
     (case err of Some e \<Rightarrow> (Some (OtherError e), db)
      | None \<Rightarrow>
        if \<exists>r \<in> set (shared_notes db). sn_ID r = sid \<and> \<not> int4_ok (sn_ViewCount r + 1)
        then (Some (OtherError out_of_range), db)
        else (None, db\<lparr>shared_notes := update_rows (\<lambda>r. sn_ID r = sid)
                (\<lambda>r. r\<lparr>sn_ViewCount := sn_ViewCount r + 1\<rparr>) (shared_notes db)\<rparr>))"

definition share_expired :: "time \<Rightarrow> SharedNote \<Rightarrow> bool" where
  "share_expired now r = (case sn_ExpiresAt r of None \<Rightarrow> False | Some t \<Rightarrow> t < now)"

definition share_DeleteExpired :: "string option \<Rightarrow> time \<Rightarrow> share_db \<Rightarrow> (service_error + nat) \<times> share_db" where
  "share_DeleteExpired err now db =
     (case err of Some e \<Rightarrow> (Inl (OtherError e), db)
      | None \<Rightarrow> (Inr (count_rows (share_expired now) (shared_notes db)),
          db\<lparr>shared_notes := delete_rows (share_expired now) (shared_notes db),
             note_reactions := delete_rows (\<lambda>x. \<exists>r \<in> set (shared_notes db). share_expired now r \<and> sn_ID r = nr_SharedNoteID x)
               (note_reactions db)\<rparr>))"

definition share_ListByUser :: "string option \<Rightarrow> uuid \<Rightarrow> share_db \<Rightarrow> service_error + SharedNote list" where
  "share_ListByUser err userID db =
     (case err of Some e \<Rightarrow> Inl (OtherError e)
      | None \<Rightarrow> Inr (order_by_desc sn_CreatedAt (filter (\<lambda>r. sn_CreatedBy r = userID) (shared_notes db))))"

definition feed_item :: "SharedNote \<Rightarrow> DiscoverFeedItem" where
  "feed_item r = \<lparr>df_ID = sn_ID r, df_EncryptedTitle = sn_EncryptedTitle r, df_HasPassword = sn_HasPassword r,
     df_ViewCount = sn_ViewCount r, df_ReactionHeart = sn_ReactionHeart r,
     df_ReactionBookmark = sn_ReactionBookmark r, df_CreatedAt = sn_CreatedAt r\<rparr>"

definition share_listed :: "time \<Rightarrow> SharedNote \<Rightarrow> bool" where
  "share_listed now r \<longleftrightarrow> sn_IsPublic r \<and> (case sn_ExpiresAt r of None \<Rightarrow> True | Some t \<Rightarrow> t > now)"

text \<open>The database refuses a negative LIMIT or OFFSET.\<close>

definition share_ListPublic :: "string option \<Rightarrow> time \<Rightarrow> int \<Rightarrow> int \<Rightarrow> share_db \<Rightarrow> service_error + DiscoverFeedItem list" where
  "share_ListPublic err now limit offset db =
     (case err of Some e \<Rightarrow> Inl (OtherError e)
      | None \<Rightarrow> if limit < 0 \<or> offset < 0 then Inl (OtherError ''LIMIT or OFFSET must not be negative'')
                else Inr (map feed_item (take (nat limit) (drop (nat offset)
                       (order_by_desc sn_CreatedAt (filter (share_listed now) (shared_notes db)))))))"

text \<open>The counter column of a reaction type; \<open>React\<close> writes and reads it by name.\<close>

definition counter_of :: "string \<Rightarrow> SharedNote \<Rightarrow> int" where
  "counter_of rt r = (if rt = ''heart'' then sn_ReactionHeart r else sn_ReactionBookmark r)"

definition set_counter :: "string \<Rightarrow> int \<Rightarrow> SharedNote \<Rightarrow> SharedNote" where
  "set_counter rt n r = (if rt = ''heart'' then r\<lparr>sn_ReactionHeart := n\<rparr> else r\<lparr>sn_ReactionBookmark := n\<rparr>)"

definition update_counter :: "string option \<Rightarrow> string \<Rightarrow> (int \<Rightarrow> int) \<Rightarrow> string \<Rightarrow> share_db \<Rightarrow> service_error option \<times> share_db" where
  "update_counter err rt g sid db =
     (case err of Some e \<Rightarrow> (Some (OtherError e), db)
      | None \<Rightarrow>
        if \<exists>r \<in> set (shared_notes db). sn_ID r = sid \<and> \<not> int4_ok (g (counter_of rt r))
        then (Some (OtherError out_of_range), db)
        else (None, db\<lparr>shared_notes := update_rows (\<lambda>r. sn_ID r = sid)
                (\<lambda>r. set_counter rt (g (counter_of rt r)) r) (shared_notes db)\<rparr>))"

definition read_counter :: "string option \<Rightarrow> string \<Rightarrow> bool \<Rightarrow> string \<Rightarrow> share_db \<Rightarrow> service_error + ReactResponse" where
  "read_counter err rt active sid db =
     (case err of Some e \<Rightarrow> Inl (OtherError e)
      | None \<Rightarrow> case find_row (\<lambda>r. sn_ID r = sid) (shared_notes db) of
                  None \<Rightarrow> Inl (OtherError no_rows)
                | Some r \<Rightarrow> Inr \<lparr>rr_ReactionType = rt, rr_Active = active, rr_Count = counter_of rt r\<rparr>)"

definition is_reaction :: "string \<Rightarrow> uuid \<Rightarrow> string \<Rightarrow> note_reaction \<Rightarrow> bool" where
  "is_reaction sid userID rt x \<longleftrightarrow> nr_SharedNoteID x = sid \<and> nr_UserID x = userID \<and> nr_Type x = rt"

text \<open>\<^verbatim>\<open>INSERT ... ON CONFLICT DO NOTHING\<close>: a conflict is no error and inserts nothing.\<close>

definition insert_reaction :: "string option \<Rightarrow> uuid \<Rightarrow> string \<Rightarrow> uuid \<Rightarrow> string \<Rightarrow> share_db \<Rightarrow> service_error option \<times> share_db" where
  "insert_reaction err newID sid userID rt db =
     (case err of Some e \<Rightarrow> (Some (OtherError e), db)
      | None \<Rightarrow>
        if find_row (\<lambda>x. is_reaction sid userID rt x \<or> nr_ID x = newID) (note_reactions db) \<noteq> None then (None, db)
        else if find_row (\<lambda>r. sn_ID r = sid) (shared_notes db) = None \<or> userID \<notin> set (share_users db)
          then (Some (OtherError fk_violation), db)
        else (None, db\<lparr>note_reactions := note_reactions db @
               [\<lparr>nr_ID = newID, nr_SharedNoteID = sid, nr_UserID = userID, nr_Type = rt\<rparr>]\<rparr>))"

definition react_count :: "string option \<Rightarrow> string option \<Rightarrow> string \<Rightarrow> bool \<Rightarrow> (int \<Rightarrow> int) \<Rightarrow> string \<Rightarrow> share_db \<Rightarrow>
    (service_error + ReactResponse) \<times> share_db" where
  "react_count err err' rt active g sid db =
     (case update_counter err rt g sid db of
        (Some e, db') \<Rightarrow> (Inl e, db')
      | (None, db') \<Rightarrow> (read_counter err' rt active sid db', db'))"

text \<open>Every error of the first query, not only an empty result, takes the branch that adds the reaction.
  The code's \<open>domain.ErrInvalidReaction\<close> is a value of its own, unknown to the handlers.\<close>

definition React :: "dberrs \<Rightarrow> uuid \<Rightarrow> string \<Rightarrow> uuid \<Rightarrow> string \<Rightarrow> share_db \<Rightarrow> (service_error + ReactResponse) \<times> share_db" where
  "React f newID sid userID rt db =
     (if rt \<noteq> ''heart'' \<and> rt \<noteq> ''bookmark'' then (Inl (OtherError ''invalid reaction type''), db)
      else case (if f 0 \<noteq> None then None else find_row (is_reaction sid userID rt) (note_reactions db)) of
        Some x \<Rightarrow>
          (case f 1 of Some e \<Rightarrow> (Inl (OtherError e), db)
           | None \<Rightarrow> react_count (f 2) (f 3) rt False (\<lambda>n. max (n - 1) 0) sid
               (db\<lparr>note_reactions := delete_rows (\<lambda>y. nr_ID y = nr_ID x) (note_reactions db)\<rparr>))
      | None \<Rightarrow>
          (case insert_reaction (f 1) newID sid userID rt db of
             (Some e, db') \<Rightarrow> (Inl e, db')
           | (None, db') \<Rightarrow> react_count (f 2) (f 3) rt True (\<lambda>n. n + 1) sid db'))"

definition GetUserReaction :: "string option \<Rightarrow> string \<Rightarrow> uuid \<Rightarrow> share_db \<Rightarrow> service_error + (string \<times> bool) list" where
  "GetUserReaction err sid userID db =
     (case err of Some e \<Rightarrow> Inl (OtherError e)
      | None \<Rightarrow> Inr (fold (\<lambda>x m. AList.update (nr_Type x) True m)
          (filter (\<lambda>x. nr_SharedNoteID x = sid \<and> nr_UserID x = userID) (note_reactions db)) []))"

section \<open>Service\<close>

text \<open>\<open>rnd n\<close> is the outcome of reading \<open>n\<close> random bytes.\<close>

definition generateShareID :: "(nat \<Rightarrow> bytes option) \<Rightarrow> string option" where
  "generateShareID rnd = map_option hex_encode (rnd 16)"

definition share_expiry :: "time \<Rightarrow> int option \<Rightarrow> time option" where
  "share_expiry now h = (case h of None \<Rightarrow> None | Some h \<Rightarrow> if h > 0 then Some (now + wrap64 (h * hour)) else None)"

definition created_note :: "time \<Rightarrow> string \<Rightarrow> uuid \<Rightarrow> CreateShareRequest \<Rightarrow> SharedNote" where
  "created_note now shareID userID req =
     \<lparr>sn_ID = shareID, sn_EncryptedContent = cs_EncryptedContent req,
      sn_EncryptedTitle = cs_EncryptedTitle req, sn_ShareKeyHash = cs_ShareKeyHash req,
      sn_HasPassword = cs_HasPassword req,
      sn_IsPublic = (case cs_IsPublic req of None \<Rightarrow> False | Some b \<Rightarrow> b),
      sn_ExpiresAt = share_expiry now (cs_ExpiresHours req), sn_ViewCount = 0,
      sn_MaxViews = cs_MaxViews req, sn_ReactionHeart = 0, sn_ReactionBookmark = 0,
      sn_CreatedBy = userID, sn_CreatedAt = 0\<rparr>"

definition CreateShare :: "(nat \<Rightarrow> bytes option) \<Rightarrow> string option \<Rightarrow> time \<Rightarrow> uuid \<Rightarrow> CreateShareRequest \<Rightarrow> share_db \<Rightarrow>
    (service_error + CreateShareResponse) \<times> share_db" where
  "CreateShare rnd err now userID req db =
     (case generateShareID rnd of
        None \<Rightarrow> (Inl (OtherError ''rand''), db)
      | Some shareID \<Rightarrow>
          case share_repo_Create err now (created_note now shareID userID req) db of
               (Some e, db') \<Rightarrow> (Inl e, db')
             | (None, db') \<Rightarrow> (Inr \<lparr>csr_ID = shareID, csr_URL = ''/share/'' @ shareID\<rparr>, db'))"

text \<open>\<open>GetShare\<close> in its two halves: the read with its checks, and the count with the answer. Another
  request can run between them.\<close>

definition GetShare_check :: "string option \<Rightarrow> time \<Rightarrow> string \<Rightarrow> share_db \<Rightarrow> service_error + SharedNote" where
  "GetShare_check err now sid db =
     (case share_repo_GetByID err sid db of
        Inl _ \<Rightarrow> Inl ErrShareNotFound
      | Inr note \<Rightarrow>
          if share_expired now note then Inl ErrShareExpired
          else if (case sn_MaxViews note of None \<Rightarrow> False | Some m \<Rightarrow> sn_ViewCount note \<ge> m) then Inl ErrShareMaxViews
          else Inr note)"

definition GetShare_finish :: "string option \<Rightarrow> string \<Rightarrow> SharedNote \<Rightarrow> share_db \<Rightarrow> GetShareResponse \<times> share_db" where
  "GetShare_finish err sid note db =
     (\<lparr>gs_ID = sn_ID note, gs_EncryptedContent = sn_EncryptedContent note,
       gs_EncryptedTitle = sn_EncryptedTitle note, gs_HasPassword = sn_HasPassword note,
       gs_ShareKeyHash = sn_ShareKeyHash note, gs_ExpiresAt = sn_ExpiresAt note,
       gs_ViewCount = sn_ViewCount note + 1, gs_MaxViews = sn_MaxViews note\<rparr>,
      snd (IncrementViewCount err sid db))"

definition GetShare :: "dberrs \<Rightarrow> time \<Rightarrow> string \<Rightarrow> share_db \<Rightarrow> (service_error + GetShareResponse) \<times> share_db" where
  "GetShare f now sid db =
     (case GetShare_check (f 0) now sid db of
        Inl e \<Rightarrow> (Inl e, db)
      | Inr note \<Rightarrow> let (resp, db') = GetShare_finish (f 1) sid note db in (Inr resp, db'))"

definition DiscoverFeed :: "string option \<Rightarrow> time \<Rightarrow> int \<Rightarrow> int \<Rightarrow> share_db \<Rightarrow> service_error + DiscoverFeedItem list" where
  "DiscoverFeed err now limit offset db =
     share_ListPublic err now (if limit \<le> 0 \<or> limit > 100 then 20 else limit) (if offset < 0 then 0 else offset) db"

fun isFKViolation :: "service_error \<Rightarrow> bool" where
  "isFKViolation (OtherError e) = str_Contains e ''23503''"
| "isFKViolation _ = False"

definition ToggleReaction :: "dberrs \<Rightarrow> uuid \<Rightarrow> uuid \<Rightarrow> string \<Rightarrow> string \<Rightarrow> share_db \<Rightarrow> (service_error + ReactResponse) \<times> share_db" where
  "ToggleReaction f newID userID sid rt db =
     (if rt \<noteq> ''heart'' \<and> rt \<noteq> ''bookmark'' then (Inl ErrInvalidReaction, db)
      else case React f newID sid userID rt db of
             (Inl e, db') \<Rightarrow> (Inl (if isFKViolation e then ErrShareNotFound else e), db')
           | (Inr resp, db') \<Rightarrow> (Inr resp, db'))"

section \<open>Handlers\<close>

text \<open>bcrypt and SHA-256. \<open>bc_Generate\<close> fails on an input it cannot hash.\<close>

record Hashing =
  bc_Generate :: "string \<Rightarrow> string option"
  bc_Compare :: "string \<Rightarrow> string \<Rightarrow> bool"
  sha256 :: "string \<Rightarrow> bytes"

definition handle_CreateShare :: "Hashing \<Rightarrow> (nat \<Rightarrow> bytes option) \<Rightarrow> string option \<Rightarrow> time \<Rightarrow> uuid option \<Rightarrow>
    CreateShareRequest option \<Rightarrow> share_db \<Rightarrow> CreateShareResponse response \<times> share_db" where
  "handle_CreateShare hs rnd err now user body db =
     (case user of None \<Rightarrow> (HttpError 401 ''unauthorized'' '''', db)
      | Some userID \<Rightarrow>
     (case body of None \<Rightarrow> (HttpError 400 ''invalid_request'' ''Failed to parse request body'', db)
      | Some req \<Rightarrow>
     if cs_EncryptedContent req = '''' \<or> cs_EncryptedTitle req = ''''
       then (HttpError 400 ''validation_error'' ''encrypted_content and encrypted_title are required'', db)
     else if length (cs_EncryptedContent req) > 1048576
       then (HttpError 400 ''validation_error'' ''encrypted_content must be at most 1 MB'', db)
     else if length (cs_EncryptedTitle req) > 500
       then (HttpError 400 ''validation_error'' ''encrypted_title must be at most 500 characters'', db)
     else if cs_ShareKeyHash req = ''''
       then (HttpError 400 ''validation_error'' ''share_key_hash is required'', db)
     else if length (cs_ShareKeyHash req) > 256
       then (HttpError 400 ''validation_error'' ''share_key_hash must be at most 256 characters'', db)
     else case (if cs_HasPassword req then bc_Generate hs (cs_ShareKeyHash req) else Some (cs_ShareKeyHash req)) of
       None \<Rightarrow> (HttpError 500 ''hash_error'' ''Failed to hash share password'', db)
     | Some h \<Rightarrow>
         case CreateShare rnd err now userID (req\<lparr>cs_ShareKeyHash := h\<rparr>) db of
           (Inl _, db') \<Rightarrow> (HttpError 500 ''create_error'' ''Failed to create shared note'', db')
         | (Inr resp, db') \<Rightarrow> (JSON 201 resp, db')))"

definition password_matches :: "Hashing \<Rightarrow> string \<Rightarrow> string \<Rightarrow> bool" where
  "password_matches hs stored pw =
     (let providedHash = hex_encode (sha256 hs pw) in bc_Compare hs stored providedHash \<or> providedHash = stored)"

definition handle_GetShare :: "Hashing \<Rightarrow> dberrs \<Rightarrow> time \<Rightarrow> string \<Rightarrow> string \<Rightarrow> share_db \<Rightarrow> GetShareResponse response \<times> share_db" where
  "handle_GetShare hs f now sid pw db =
     (if sid = '''' then (HttpError 400 ''missing_id'' ''Share ID is required'', db)
      else case GetShare f now sid db of
        (Inl e, db') \<Rightarrow> (sentinel_or_500 ''internal_error'' ''Failed to retrieve shared note'' e, db')
      | (Inr resp, db') \<Rightarrow>
          if gs_HasPassword resp \<and> pw = '''' then
            (HttpError 403 ''password_required''
               ''This shared note requires a password. Send it via X-Share-Password header.'', db')
          else if gs_HasPassword resp \<and> \<not> password_matches hs (gs_ShareKeyHash resp) pw
            then (HttpError 403 ''wrong_password'' ''Incorrect password'', db')
          else (JSON 200 (resp\<lparr>gs_ShareKeyHash := ''''\<rparr>), db'))"

definition handle_DiscoverFeed :: "string option \<Rightarrow> time \<Rightarrow> string \<Rightarrow> string \<Rightarrow> share_db \<Rightarrow> DiscoverFeedItem list response" where
  "handle_DiscoverFeed err now qlimit qoffset db =
     (let limit = (let n = query_int 20 qlimit in if n > 0 then n else 20);
          offset = (let n = query_int 0 qoffset in if n \<ge> 0 then n else 0)
      in case DiscoverFeed err now limit offset db of
           Inl _ \<Rightarrow> HttpError 500 ''internal_error'' ''Failed to fetch discovery feed''
         | Inr items \<Rightarrow> JSON 200 items)"

definition handle_ToggleReaction :: "dberrs \<Rightarrow> uuid \<Rightarrow> uuid option \<Rightarrow> string \<Rightarrow> string option \<Rightarrow> share_db \<Rightarrow> ReactResponse response \<times> share_db" where
  "handle_ToggleReaction f newID user sid body db =
     (case user of None \<Rightarrow> (HttpError 401 ''unauthorized'' '''', db)
      | Some userID \<Rightarrow>
        if sid = '''' then (HttpError 400 ''missing_id'' ''Share ID is required'', db)
        else case body of None \<Rightarrow> (HttpError 400 ''invalid_request'' ''Failed to parse request body'', db)
          | Some rt \<Rightarrow>
              case ToggleReaction f newID userID sid rt db of
                (Inl e, db') \<Rightarrow> (sentinel_or_500 ''internal_error'' ''Failed to toggle reaction'' e, db')
              | (Inr resp, db') \<Rightarrow> (JSON 200 resp, db'))"

section \<open>Rows and sequences of calls\<close>

definition note_row :: "string \<Rightarrow> share_db \<Rightarrow> SharedNote option" where
  "note_row sid db = find_row (\<lambda>r. sn_ID r = sid) (shared_notes db)"

definition notes_distinct :: "share_db \<Rightarrow> bool" where
  "notes_distinct db \<longleftrightarrow> distinct (map sn_ID (shared_notes db))"

datatype share_op =
    SCreate Hashing "nat \<Rightarrow> bytes option" "string option" time "uuid option" "CreateShareRequest option"
  | SView Hashing dberrs time string string
  | SReact dberrs uuid "uuid option" string "string option"
  | SDeleteExpired "string option" time

fun share_exec :: "share_op \<Rightarrow> share_db \<Rightarrow> share_db" where
  "share_exec (SCreate hs rnd err now user body) db = snd (handle_CreateShare hs rnd err now user body db)"
| "share_exec (SView hs f now sid pw) db = snd (handle_GetShare hs f now sid pw db)"
| "share_exec (SReact f newID user sid body) db = snd (handle_ToggleReaction f newID user sid body db)"
| "share_exec (SDeleteExpired err now) db = snd (share_DeleteExpired err now db)"

definition is_JSON :: "'a response \<Rightarrow> bool" where
  "is_JSON r = (case r of JSON _ _ \<Rightarrow> True | HttpError _ _ _ \<Rightarrow> False)"

lemma is_JSON_simps [simp]: "is_JSON (JSON n b)" "\<not> is_JSON (HttpError n c m)"
  by (simp_all add: is_JSON_def)

lemma is_JSON_sentinel [simp]: "\<not> is_JSON (sentinel_or_500 c m e)"
  by (cases e) (simp_all add: sentinel_or_500_def)

text \<open>Whether a call shows the content of a share, with the state it leaves.\<close>

fun share_view :: "string \<Rightarrow> share_op \<Rightarrow> share_db \<Rightarrow> bool \<times> share_db" where
  "share_view sid (SView hs f now sid' pw) db =
     (let (r, db') = handle_GetShare hs f now sid' pw db in (is_JSON r \<and> sid' = sid, db'))"
| "share_view sid op db = (False, share_exec op db)"

lemma snd_share_view: "snd (share_view sid op db) = share_exec op db"
  by (cases op) (simp_all add: case_prod_unfold Let_def)

lemma note_row_Some: "notes_distinct db \<Longrightarrow> note_row sid db = Some r \<longleftrightarrow> r \<in> set (shared_notes db) \<and> sn_ID r = sid"
  unfolding note_row_def notes_distinct_def
  by (metis (mono_tags, lifting) find_row_SomeD find_row_unique)

lemma note_row_None: "note_row sid db = None \<longleftrightarrow> (\<forall>r \<in> set (shared_notes db). sn_ID r \<noteq> sid)"
  by (simp add: note_row_def find_row_None_iff)

text \<open>Both counting statements are an update of the rows with one identifier.\<close>

definition map_note :: "string \<Rightarrow> (SharedNote \<Rightarrow> SharedNote) \<Rightarrow> share_db \<Rightarrow> share_db" where
  "map_note sid g db = db\<lparr>shared_notes := update_rows (\<lambda>r. sn_ID r = sid) g (shared_notes db)\<rparr>"

lemma map_note_frame [simp]:
  "note_reactions (map_note sid g db) = note_reactions db" "share_users (map_note sid g db) = share_users db"
  by (simp_all add: map_note_def)

lemma note_row_map_note:
  assumes "\<And>r. sn_ID (g r) = sn_ID r"
  shows "note_row sid' (map_note sid g db) = (if sid' = sid then map_option g (note_row sid db) else note_row sid' db)"
proof -
  have "note_row sid' (map_note sid g db) = map_option (\<lambda>r. if sn_ID r = sid then g r else r) (note_row sid' db)"
    unfolding note_row_def map_note_def using assms by (simp add: find_row_update)
  then show ?thesis
    by (cases "note_row sid' db") (auto simp: note_row_def dest: find_row_SomeD)
qed

lemma notes_distinct_map_note [simp]:
  "(\<And>r. sn_ID (g r) = sn_ID r) \<Longrightarrow> notes_distinct (map_note sid g db) = notes_distinct db"
  by (simp add: notes_distinct_def map_note_def map_update_rows)

lemma counter_set_counter [simp]: "counter_of rt (set_counter rt n r) = n"
  by (simp add: counter_of_def set_counter_def)

lemma set_counter_frame [simp]:
  "sn_ID (set_counter rt n r) = sn_ID r" "sn_ViewCount (set_counter rt n r) = sn_ViewCount r"
  "sn_MaxViews (set_counter rt n r) = sn_MaxViews r" "sn_ExpiresAt (set_counter rt n r) = sn_ExpiresAt r"
  by (simp_all add: set_counter_def)

lemma update_counter_cases:
  "snd (update_counter err rt g sid db) = db
   \<or> snd (update_counter err rt g sid db) = map_note sid (\<lambda>r. set_counter rt (g (counter_of rt r)) r) db"
  by (simp add: update_counter_def map_note_def split: option.split)

lemma IncrementViewCount_cases:
  "snd (IncrementViewCount err sid db) = db
   \<or> snd (IncrementViewCount err sid db) = map_note sid (\<lambda>r. r\<lparr>sn_ViewCount := sn_ViewCount r + 1\<rparr>) db"
  by (simp add: IncrementViewCount_def map_note_def split: option.split)

lemma IncrementViewCount_ok:
  assumes "notes_distinct db" and "note_row sid db = Some r"
  shows "snd (IncrementViewCount None sid db) =
    (if int4_ok (sn_ViewCount r + 1) then map_note sid (\<lambda>r. r\<lparr>sn_ViewCount := sn_ViewCount r + 1\<rparr>) db else db)"
proof -
  have "(\<exists>x \<in> set (shared_notes db). sn_ID x = sid \<and> \<not> int4_ok (sn_ViewCount x + 1)) \<longleftrightarrow> \<not> int4_ok (sn_ViewCount r + 1)"
    using assms(2) note_row_Some [OF assms(1), of sid] by (metis option.inject)
  then show ?thesis by (simp add: IncrementViewCount_def map_note_def)
qed

lemma GetShare_check_Inr:
  "GetShare_check err now sid db = Inr note \<longleftrightarrow>
     err = None \<and> note_row sid db = Some note \<and> \<not> share_expired now note
     \<and> (\<forall>m. sn_MaxViews note = Some m \<longrightarrow> sn_ViewCount note < m)"
  by (auto simp: GetShare_check_def share_repo_GetByID_def note_row_def split: option.split)

lemma handle_GetShare_state:
  "snd (handle_GetShare hs f now sid pw db) =
     (case GetShare_check (f 0) now sid db of
        Inr note \<Rightarrow> if sid = '''' then db else snd (IncrementViewCount (f 1) sid db) | Inl _ \<Rightarrow> db)"
  by (simp add: handle_GetShare_def GetShare_def GetShare_finish_def split: sum.split)

lemma handle_GetShare_JSON:
  assumes "is_JSON (fst (handle_GetShare hs f now sid pw db))"
  shows "\<exists>note. GetShare_check (f 0) now sid db = Inr note \<and> sid \<noteq> ''''"
  using assms by (auto simp: handle_GetShare_def GetShare_def split: sum.splits if_splits)

lemma inserted_simps [simp]:
  "sn_ID (inserted now n) = sn_ID n" "sn_ReactionHeart (inserted now n) = 0" "sn_ReactionBookmark (inserted now n) = 0"
  by (simp_all add: inserted_def)

lemma created_note_ID [simp]: "sn_ID (created_note now sid u req) = sid"
  by (simp add: created_note_def)

definition add_note :: "SharedNote \<Rightarrow> share_db \<Rightarrow> share_db" where
  "add_note n db = db\<lparr>shared_notes := shared_notes db @ [n]\<rparr>"

lemma add_note_frame [simp]:
  "note_reactions (add_note n db) = note_reactions db" "share_users (add_note n db) = share_users db"
  by (simp_all add: add_note_def)

lemma note_row_add_note:
  "note_row sid (add_note n db) = (case note_row sid db of Some r \<Rightarrow> Some r | None \<Rightarrow> if sn_ID n = sid then Some n else None)"
  by (simp add: note_row_def add_note_def find_row_append split: option.split)

lemma notes_distinct_add_note: "note_row (sn_ID n) db = None \<Longrightarrow> notes_distinct (add_note n db) = notes_distinct db"
  by (auto simp: notes_distinct_def add_note_def note_row_None)

lemma CreateShare_state:
  "snd (CreateShare rnd err now u req db) = db
   \<or> (\<exists>sid. generateShareID rnd = Some sid \<and> note_row sid db = None
        \<and> snd (CreateShare rnd err now u req db) = add_note (inserted now (created_note now sid u req)) db)"
  by (simp add: CreateShare_def share_repo_Create_def note_row_def add_note_def Let_def split: option.split)

lemma handle_CreateShare_state:
  "snd (handle_CreateShare hs rnd err now user body db) = db
   \<or> (\<exists>sid u req. generateShareID rnd = Some sid \<and> note_row sid db = None
        \<and> snd (handle_CreateShare hs rnd err now user body db) = add_note (inserted now (created_note now sid u req)) db)"
proof (cases "user = None \<or> body = None")
  case True
  then show ?thesis by (auto simp: handle_CreateShare_def split: option.split)
next
  case False
  then obtain u req where [simp]: "user = Some u" "body = Some req" by auto
  show ?thesis
  proof (cases "if cs_HasPassword req then bc_Generate hs (cs_ShareKeyHash req) else Some (cs_ShareKeyHash req)")
    case None
    then show ?thesis by (simp add: handle_CreateShare_def)
  next
    case (Some h)
    have "snd (handle_CreateShare hs rnd err now user body db) \<in> {db, snd (CreateShare rnd err now u (req\<lparr>cs_ShareKeyHash := h\<rparr>) db)}"
      by (simp add: handle_CreateShare_def Some split: prod.split sum.split)
    then show ?thesis
      using CreateShare_state [of rnd err now u "req\<lparr>cs_ShareKeyHash := h\<rparr>" db] by (metis insert_iff singletonD)
  qed
qed

lemma insert_reaction_notes: "shared_notes (snd (insert_reaction er newID sid u rt db)) = shared_notes db"
  by (simp add: insert_reaction_def split: option.split)

lemma react_count_state: "snd (react_count er er' rt a g sid db) = snd (update_counter er rt g sid db)"
  by (simp add: react_count_def split: prod.split option.split)

lemma React_state:
  "\<exists>db1 g. shared_notes db1 = shared_notes db \<and>
     (snd (React er newID sid u rt db) = db1
      \<or> snd (React er newID sid u rt db) = map_note sid (\<lambda>r. set_counter rt (g (counter_of rt r)) r) db1)"
proof -
  have "\<exists>db1. shared_notes db1 = shared_notes db \<and>
      (snd (React er newID sid u rt db) = db1 \<or> (\<exists>g. snd (React er newID sid u rt db) = snd (update_counter (er 2) rt g sid db1)))"
  proof (cases "if er 0 \<noteq> None then None else find_row (is_reaction sid u rt) (note_reactions db)")
    case None
    obtain e db1 where i: "insert_reaction (er 1) newID sid u rt db = (e, db1)" by fastforce
    then have "shared_notes db1 = shared_notes db" using insert_reaction_notes [of "er 1" newID sid u rt db] by simp
    moreover have "snd (React er newID sid u rt db) \<in> {db, db1, snd (update_counter (er 2) rt (\<lambda>n. n + 1) sid db1)}"
      unfolding React_def None i by (simp add: react_count_state split: option.split)
    ultimately show ?thesis by blast
  next
    case (Some x)
    define db1 where "db1 = db\<lparr>note_reactions := delete_rows (\<lambda>y. nr_ID y = nr_ID x) (note_reactions db)\<rparr>"
    have "snd (React er newID sid u rt db) \<in> {db, snd (update_counter (er 2) rt (\<lambda>n. max (n - 1) 0) sid db1)}"
      unfolding React_def Some by (simp add: react_count_state db1_def split: option.split)
    moreover have "shared_notes db1 = shared_notes db" by (simp add: db1_def)
    ultimately show ?thesis by blast
  qed
  then show ?thesis using update_counter_cases by metis
qed

lemma React_note_row:
  assumes "\<And>rt n r. f (set_counter rt n r) = f r"
  shows "map_option f (note_row sid' (snd (React er newID sid u rt db))) = map_option f (note_row sid' db)"
    and "notes_distinct (snd (React er newID sid u rt db)) = notes_distinct db"
proof -
  obtain db1 g where db1: "shared_notes db1 = shared_notes db"
    and cases: "snd (React er newID sid u rt db) = db1
      \<or> snd (React er newID sid u rt db) = map_note sid (\<lambda>r. set_counter rt (g (counter_of rt r)) r) db1"
    using React_state [of db er newID sid u rt] by auto
  have "note_row sid' db1 = note_row sid' db" "notes_distinct db1 = notes_distinct db"
    using db1 by (simp_all add: note_row_def notes_distinct_def)
  then show "map_option f (note_row sid' (snd (React er newID sid u rt db))) = map_option f (note_row sid' db)"
    and "notes_distinct (snd (React er newID sid u rt db)) = notes_distinct db"
    using cases assms by (auto simp: note_row_map_note option.map_comp comp_def)
qed

lemma handle_ToggleReaction_state:
  "snd (handle_ToggleReaction er newID user sid body db) \<in> {db} \<union> {snd (React er newID sid u rt db) | u rt. True}"
proof (cases "user = None \<or> sid = '''' \<or> body = None")
  case True
  then show ?thesis by (auto simp: handle_ToggleReaction_def split: option.split)
next
  case False
  then obtain u rt where [simp]: "user = Some u" "body = Some rt" "sid \<noteq> ''''" by auto
  have "snd (handle_ToggleReaction er newID user sid body db) = snd (ToggleReaction er newID u sid rt db)"
    by (simp add: handle_ToggleReaction_def split: prod.split sum.split)
  moreover have "snd (ToggleReaction er newID u sid rt db) \<in> {db, snd (React er newID sid u rt db)}"
    by (simp add: ToggleReaction_def split: prod.split sum.split)
  ultimately show ?thesis by auto
qed

section \<open>Views are a budget\<close>

text \<open>The views left of a share; nothing is left of a share that is gone.\<close>

definition views_left :: "string \<Rightarrow> share_db \<Rightarrow> int" where
  "views_left sid db = (case note_row sid db of
     Some r \<Rightarrow> (case sn_MaxViews r of Some m \<Rightarrow> max 0 (m - sn_ViewCount r) | None \<Rightarrow> 0)
   | None \<Rightarrow> 0)"

definition view_limited :: "string \<Rightarrow> share_db \<Rightarrow> bool" where
  "view_limited sid db \<longleftrightarrow> notes_distinct db \<and>
     (case note_row sid db of None \<Rightarrow> True
      | Some r \<Rightarrow> 0 \<le> sn_ViewCount r \<and> sn_MaxViews r \<noteq> None \<and> pred_option int4_ok (sn_MaxViews r))"

text \<open>Calls that keep the promise: the statement that counts a view of the share does not fail, and no
  new share draws its identifier.\<close>

fun counts_views :: "string \<Rightarrow> share_op \<Rightarrow> bool" where
  "counts_views sid (SCreate hs rnd err now user body) \<longleftrightarrow> generateShareID rnd \<noteq> Some sid"
| "counts_views sid (SView hs f now sid' pw) \<longleftrightarrow> f 1 = None"
| "counts_views sid (SReact f newID user sid' body) \<longleftrightarrow> True"
| "counts_views sid (SDeleteExpired err now) \<longleftrightarrow> True"

definition view_data :: "SharedNote \<Rightarrow> int \<times> int option" where
  "view_data r = (sn_ViewCount r, sn_MaxViews r)"

lemma view_limited_via_data:
  "views_left sid db = (case map_option view_data (note_row sid db) of Some (v, Some m) \<Rightarrow> max 0 (m - v) | _ \<Rightarrow> 0)"
  "view_limited sid db \<longleftrightarrow> notes_distinct db \<and>
     (case map_option view_data (note_row sid db) of None \<Rightarrow> True
      | Some (v, mx) \<Rightarrow> 0 \<le> v \<and> mx \<noteq> None \<and> pred_option int4_ok mx)"
  by (simp_all add: views_left_def view_limited_def view_data_def split: option.split)

lemma view_limited_same:
  assumes "map_option view_data (note_row sid db') = map_option view_data (note_row sid db)"
    and "notes_distinct db' = notes_distinct db"
  shows "views_left sid db' = views_left sid db" and "view_limited sid db' = view_limited sid db"
  unfolding view_limited_via_data assms by (rule refl)+

lemma view_limited_gone:
  assumes "note_row sid db' = None" and "notes_distinct db'"
  shows "views_left sid db' = 0" and "view_limited sid db'"
  using assms by (auto simp: views_left_def view_limited_def)

lemma share_DeleteExpired_row:
  assumes "notes_distinct db"
  shows "note_row sid (snd (share_DeleteExpired err now db)) \<in> {None, note_row sid db}"
    and "notes_distinct (snd (share_DeleteExpired err now db))"
proof -
  have "note_row sid (db\<lparr>shared_notes := delete_rows P (shared_notes db), note_reactions := z\<rparr>) \<in> {None, note_row sid db}" for P z
  proof (cases "note_row sid (db\<lparr>shared_notes := delete_rows P (shared_notes db), note_reactions := z\<rparr>)")
    case (Some r)
    then have "r \<in> set (shared_notes db) \<and> sn_ID r = sid" by (auto simp: note_row_def dest: find_row_SomeD)
    then have "note_row sid db = Some r" by (simp add: note_row_Some [OF assms])
    then show ?thesis by (simp add: Some)
  qed simp
  then show "note_row sid (snd (share_DeleteExpired err now db)) \<in> {None, note_row sid db}"
    and "notes_distinct (snd (share_DeleteExpired err now db))"
    using assms by (auto simp: share_DeleteExpired_def notes_distinct_def distinct_map_delete_rows split: option.split)
qed

lemma view_step_budget:
  assumes "view_limited sid db" and "f 1 = None" and "GetShare_check (f 0) now sid db = Inr note"
  shows "views_left sid (snd (IncrementViewCount (f 1) sid db)) + 1 = views_left sid db"
    and "view_limited sid (snd (IncrementViewCount (f 1) sid db))"
proof -
  have d: "notes_distinct db" and r: "note_row sid db = Some note"
    and v: "\<forall>m. sn_MaxViews note = Some m \<longrightarrow> sn_ViewCount note < m"
    using assms by (auto simp: view_limited_def GetShare_check_Inr)
  obtain m where m: "sn_MaxViews note = Some m" "int4_ok m" "0 \<le> sn_ViewCount note" "sn_ViewCount note < m"
    using assms(1) r v by (auto simp: view_limited_def)
  then have "snd (IncrementViewCount (f 1) sid db) = map_note sid (\<lambda>r. r\<lparr>sn_ViewCount := sn_ViewCount r + 1\<rparr>) db"
    using IncrementViewCount_ok [OF d r] assms(2) by (simp add: int4_ok_def)
  then show "views_left sid (snd (IncrementViewCount (f 1) sid db)) + 1 = views_left sid db"
    and "view_limited sid (snd (IncrementViewCount (f 1) sid db))"
    using m r d by (simp_all add: views_left_def view_limited_def note_row_map_note)
qed

lemma view_other:
  assumes "sid' \<noteq> sid"
  shows "note_row sid (snd (IncrementViewCount err sid' db)) = note_row sid db"
    and "notes_distinct (snd (IncrementViewCount err sid' db)) = notes_distinct db"
  using IncrementViewCount_cases [of err sid' db] assms by (auto simp: note_row_map_note)

lemma share_view_budget:
  assumes "counts_views sid op" and "view_limited sid db" and "share_view sid op db = (g, db')"
  shows "view_limited sid db' \<and> views_left sid db' + (if g then 1 else 0) \<le> views_left sid db"
proof (cases op)
  case (SCreate hs rnd err now user body)
  then have g: "\<not> g" "db' = snd (handle_CreateShare hs rnd err now user body db)" using assms(3) by auto
  have "note_row sid db' = note_row sid db \<and> notes_distinct db' = notes_distinct db"
    using handle_CreateShare_state [of hs rnd err now user body db] assms(1) SCreate
    by (auto simp: g(2) note_row_add_note notes_distinct_add_note split: option.split)
  then show ?thesis using assms(2) view_limited_same [of sid db' db] g(1) by simp
next
  case (SView hs f now sid' pw)
  then have g: "g \<longrightarrow> sid' = sid \<and> is_JSON (fst (handle_GetShare hs f now sid' pw db))"
    and db': "db' = snd (handle_GetShare hs f now sid' pw db)" and f: "f 1 = None"
    using assms(1,3) by (auto simp: case_prod_unfold Let_def)
  show ?thesis
  proof (cases "sid' = sid \<and> sid \<noteq> '''' \<and> (\<exists>note. GetShare_check (f 0) now sid db = Inr note)")
    case True
    then obtain x where n: "sid' = sid" "sid \<noteq> ''''" "GetShare_check (f 0) now sid db = Inr x" by blast
    show ?thesis using view_step_budget [OF assms(2) f n(3)] n(1,2) by (simp add: db' handle_GetShare_state n(3))
  next
    case False
    then have "\<not> g" using g handle_GetShare_JSON by blast
    moreover have "note_row sid db' = note_row sid db \<and> notes_distinct db' = notes_distinct db"
      using False view_other [of sid' sid]
      by (cases "sid' = sid") (auto simp: db' handle_GetShare_state split: sum.split)
    ultimately show ?thesis using assms(2) view_limited_same [of sid db' db] by simp
  qed
next
  case (SReact f newID user sid' body)
  then have g: "\<not> g" "db' = snd (handle_ToggleReaction f newID user sid' body db)" using assms(3) by auto
  have "map_option view_data (note_row sid db') = map_option view_data (note_row sid db) \<and> notes_distinct db' = notes_distinct db"
    using handle_ToggleReaction_state [of f newID user sid' body db] React_note_row [of view_data]
    by (auto simp: g(2) view_data_def)
  then show ?thesis using assms(2) view_limited_same [of sid db' db] g(1) by simp
next
  case (SDeleteExpired err now)
  then have g: "\<not> g" "db' = snd (share_DeleteExpired err now db)" using assms(3) by auto
  have d: "notes_distinct db" using assms(2) by (simp add: view_limited_def)
  have "0 \<le> views_left sid db" by (simp add: views_left_def split: option.split)
  then show ?thesis
    using share_DeleteExpired_row(1) [OF d, of sid err now] share_DeleteExpired_row(2) [OF d, of err now]
      view_limited_gone [of sid db'] view_limited_same [of sid db' db] assms(2) d g
    by auto
qed

interpretation shared_views: budgeted "share_view sid" "counts_views sid" "view_limited sid" "views_left sid" for sid
  by unfold_locales (use share_view_budget in \<open>auto simp: views_left_def split: option.split\<close>)

section \<open>Concurrent viewers\<close>

text \<open>
  Requests for one share that interleave. A system is the database, the notes read by the requests
  that have passed the checks and not yet counted, and the number of requests answered. At most
  \<open>p\<close> requests are in flight. A request arrives with \<open>GetShare_check\<close> and leaves with \<open>GetShare_finish\<close>.
\<close>

type_synonym view_sys = "share_db \<times> SharedNote list \<times> nat"

inductive view_race :: "string \<Rightarrow> nat \<Rightarrow> view_sys \<Rightarrow> view_sys \<Rightarrow> bool" for sid p where
  arrive: "GetShare_check None now sid db = Inr note \<Longrightarrow> length ps < p \<Longrightarrow>
    view_race sid p (db, ps, n) (db, note # ps, n)"
| leave: "GetShare_finish None sid note db = (resp, db') \<Longrightarrow>
    view_race sid p (db, ps @ note # qs, n) (db', ps @ qs, Suc n)"

inductive_cases view_raceE: "view_race sid p s s'"

lemma GetShare_is_race:
  "GetShare no_errs now sid db = (Inr resp, db') \<Longrightarrow> 0 < p \<Longrightarrow> (view_race sid p)\<^sup>*\<^sup>* (db, [], n) (db', [], Suc n)"
proof -
  assume a: "GetShare no_errs now sid db = (Inr resp, db')" and p: "0 < p"
  then obtain x where x: "GetShare_check None now sid db = Inr x" "GetShare_finish None sid x db = (resp, db')"
    by (auto simp: GetShare_def split: sum.splits prod.splits)
  have "view_race sid p (db, [], n) (db, [x], n)" using arrive [OF x(1)] p by simp
  moreover have "view_race sid p (db, [x], n) (db', [], Suc n)"
    using view_race.leave [OF x(2), of p "[]" "[]" n] by simp
  ultimately show ?thesis by (meson converse_rtranclp_into_rtranclp rtranclp.rtrancl_refl)
qed

text \<open>What holds while requests interleave: the stored count is the initial one plus the answers
  (saturated at the largest INTEGER), and what is answered or in flight exceeds the views that
  were left by less than the number of requests that may be in flight.\<close>

definition race_inv :: "string \<Rightarrow> int \<Rightarrow> int \<Rightarrow> nat \<Rightarrow> view_sys \<Rightarrow> bool" where
  "race_inv sid v m p s = (case s of (db, ps, n) \<Rightarrow>
     notes_distinct db \<and>
     (\<exists>r. note_row sid db = Some r \<and> sn_MaxViews r = Some m \<and> sn_ViewCount r = min (v + int n) 2147483647) \<and>
     int n + int (length ps) \<le> max 0 (m - v) + int p - 1)"

lemma GetShare_finish_row:
  assumes "notes_distinct db" and "note_row sid db = Some r" and "0 \<le> sn_ViewCount r" "sn_ViewCount r \<le> 2147483647"
    and "GetShare_finish None sid x db = (resp, db')"
  shows "notes_distinct db'" and "note_row sid db' = Some (r\<lparr>sn_ViewCount := min (sn_ViewCount r + 1) 2147483647\<rparr>)"
proof -
  have "db' = snd (IncrementViewCount None sid db)" using assms(5) by (simp add: GetShare_finish_def)
  then have "db' = (if sn_ViewCount r < 2147483647 then map_note sid (\<lambda>r. r\<lparr>sn_ViewCount := sn_ViewCount r + 1\<rparr>) db else db)"
    using IncrementViewCount_ok [OF assms(1,2)] assms(3,4) by (simp add: int4_ok_def)
  then show "notes_distinct db'" and "note_row sid db' = Some (r\<lparr>sn_ViewCount := min (sn_ViewCount r + 1) 2147483647\<rparr>)"
    using assms(1,2,4) by (auto simp: note_row_map_note)
qed

lemma race_inv_step:
  assumes "view_race sid p s s'" and "race_inv sid v m p s" and "0 \<le> v" and "int4_ok m"
  shows "race_inv sid v m p s'"
  using assms(1)
proof cases
  case (arrive now db x ps n)
  then have "note_row sid db = Some x" "\<forall>m. sn_MaxViews x = Some m \<longrightarrow> sn_ViewCount x < m"
    by (auto simp: GetShare_check_Inr)
  then show ?thesis using assms(2-4) arrive by (auto simp: race_inv_def int4_ok_def)
next
  case (leave x db resp db' ps qs n)
  then obtain r where r: "notes_distinct db" "note_row sid db = Some r" "sn_MaxViews r = Some m"
      "sn_ViewCount r = min (v + int n) 2147483647"
    using assms(2) by (auto simp: race_inv_def)
  have "0 \<le> sn_ViewCount r" "sn_ViewCount r \<le> 2147483647" using r(4) assms(3) by auto
  then show ?thesis using GetShare_finish_row [OF r(1,2) _ _ leave(3)] r(3,4) assms(2) leave(1,2)
    by (auto simp: race_inv_def)
qed

lemma race_inv_run:
  assumes "(view_race sid p)\<^sup>*\<^sup>* s s'" and "race_inv sid v m p s" and "0 \<le> v" and "int4_ok m"
  shows "race_inv sid v m p s'"
  using assms(1,2) by (induction rule: rtranclp_induct) (auto intro: race_inv_step [OF _ _ assms(3,4)])

lemma race_sequential:
  assumes "notes_distinct db" and "note_row sid db = Some r" and "sn_ExpiresAt r = None" and "sn_MaxViews r = Some m"
    and "0 \<le> sn_ViewCount r" and "int4_ok m" and "sn_ViewCount r + int j < m" and "0 < p"
  shows "\<exists>db'. (view_race sid p)\<^sup>*\<^sup>* (db, [], 0) (db', [], j) \<and> notes_distinct db'
    \<and> note_row sid db' = Some (r\<lparr>sn_ViewCount := sn_ViewCount r + int j\<rparr>)"
  using assms(7)
proof (induction j)
  case 0
  show ?case using assms by (intro exI [of _ db]) simp
next
  case (Suc j)
  then obtain db1 where db1: "(view_race sid p)\<^sup>*\<^sup>* (db, [], 0) (db1, [], j)" "notes_distinct db1"
      "note_row sid db1 = Some (r\<lparr>sn_ViewCount := sn_ViewCount r + int j\<rparr>)" by auto
  obtain resp db2 where g: "GetShare no_errs 0 sid db1 = (Inr resp, db2)"
      "GetShare_finish None sid (r\<lparr>sn_ViewCount := sn_ViewCount r + int j\<rparr>) db1 = (resp, db2)"
  proof -
    have "GetShare_check None 0 sid db1 = Inr (r\<lparr>sn_ViewCount := sn_ViewCount r + int j\<rparr>)"
      using db1(3) Suc.prems assms(3,4) by (simp add: GetShare_check_Inr share_expired_def)
    then show thesis by (intro that [OF _ prod.collapse [symmetric]]) (simp add: GetShare_def case_prod_unfold Let_def)
  qed
  have "notes_distinct db2" "note_row sid db2 = Some (r\<lparr>sn_ViewCount := sn_ViewCount r + int (Suc j)\<rparr>)"
    using GetShare_finish_row [OF db1(2,3) _ _ g(2)] assms(5,6) Suc.prems by (simp_all add: int4_ok_def)
  moreover have "(view_race sid p)\<^sup>*\<^sup>* (db, [], 0) (db2, [], Suc j)"
    using db1(1) GetShare_is_race [OF g(1) assms(8)] by (rule rtranclp_trans)
  ultimately show ?case by blast
qed

lemma race_burst:
  assumes "GetShare_check None now sid db = Inr x" and "k \<le> p"
  shows "(view_race sid p)\<^sup>*\<^sup>* (db, [], n) (db, replicate k x, n)"
  using assms(2)
proof (induction k)
  case (Suc k)
  then have "(view_race sid p)\<^sup>*\<^sup>* (db, [], n) (db, replicate k x, n)" by simp
  moreover have "view_race sid p (db, replicate k x, n) (db, replicate (Suc k) x, n)"
    using arrive [OF assms(1), of "replicate k x"] Suc.prems by simp
  ultimately show ?case by (rule rtranclp.rtrancl_into_rtrancl)
qed simp

lemma race_drain: "\<exists>db'. (view_race sid p)\<^sup>*\<^sup>* (db, ps, n) (db', [], n + length ps)"
proof (induction ps arbitrary: db n)
  case (Cons x ps)
  obtain resp db1 where "GetShare_finish None sid x db = (resp, db1)" by fastforce
  then have "view_race sid p (db, x # ps, n) (db1, ps, Suc n)" using view_race.leave [of sid x db _ _ p "[]" ps n] by simp
  moreover obtain db' where "(view_race sid p)\<^sup>*\<^sup>* (db1, ps, Suc n) (db', [], Suc n + length ps)" using Cons.IH by blast
  ultimately show ?case by (metis add_Suc_shift converse_rtranclp_into_rtranclp length_Cons)
qed auto

section \<open>Properties\<close>

text \<open>C14: a share shows its content at most as often as its view limit allows. In any sequence of
  requests that create, view and react to shares and of clean-ups, as long as the statement that
  counts views does not fail and no new share draws the same identifier, the number of requests
  that are shown the content is at most the number of views that were left.\<close>

theorem share_views_bounded:
  assumes "notes_distinct db" and "note_row sid db = Some r" and "sn_MaxViews r = Some m" and "int4_ok m"
    and "0 \<le> sn_ViewCount r" and "\<forall>op \<in> set ops. counts_views sid op"
  shows "int (grants (share_view sid) ops db) \<le> max 0 (m - sn_ViewCount r)"
proof -
  have "view_limited sid db" using assms by (simp add: view_limited_def)
  then have "int (grants (share_view sid) ops db) \<le> views_left sid db"
    using assms(6) by (rule shared_views.grants_le_budget)
  then show ?thesis using assms(2,3) by (simp add: views_left_def)
qed

definition demo_note :: SharedNote where
  "demo_note = \<lparr>sn_ID = ''s'', sn_EncryptedContent = ''c'', sn_EncryptedTitle = ''t'', sn_ShareKeyHash = ''k'',
     sn_HasPassword = False, sn_IsPublic = True, sn_ExpiresAt = None, sn_ViewCount = 0, sn_MaxViews = Some 1,
     sn_ReactionHeart = 0, sn_ReactionBookmark = 0, sn_CreatedBy = 1, sn_CreatedAt = 0\<rparr>"

definition demo_share_db :: share_db where
  "demo_share_db = \<lparr>shared_notes = [demo_note], note_reactions = [], share_users = [1, 2]\<rparr>"

definition demo_hashing :: Hashing where
  "demo_hashing = \<lparr>bc_Generate = (\<lambda>p. Some (CHR ''$'' # p)), bc_Compare = (\<lambda>h p. h = CHR ''$'' # p),
     sha256 = (\<lambda>p. string_bytes p)\<rparr>"

lemma demo_share_row: "notes_distinct demo_share_db" "note_row ''s'' demo_share_db = Some demo_note"
  by (simp_all add: notes_distinct_def note_row_def demo_share_db_def demo_note_def)

theorem share_views_bounded_witness:
  "int (grants (share_view ''s'') [SView demo_hashing no_errs 0 ''s'' '''', SView demo_hashing no_errs 0 ''s'' ''''] demo_share_db) \<le> 1"
  using share_views_bounded [OF demo_share_row, of 1 "[SView demo_hashing no_errs 0 ''s'' '''', SView demo_hashing no_errs 0 ''s'' '''']"]
  by (simp add: demo_note_def int4_ok_def)

text \<open>With concurrent requests the view limit is exceeded, by less than the number of requests
  in flight and possibly by exactly that number minus one. The limit is checked on the row that was
  read and the view is counted by a later statement. If at most \<open>p\<close> requests for a share are in flight at
  any moment, then at most \<open>p - 1\<close> more requests are answered than views were left; and for a share that
  does not expire and has views left, some interleaving reaches that number.\<close>

theorem share_view_race:
  assumes "notes_distinct db" and "note_row sid db = Some r" and "sn_MaxViews r = Some m" and "int4_ok m"
    and "0 \<le> sn_ViewCount r" and "sn_ViewCount r \<le> 2147483647" and "0 < p"
  shows "(\<forall>db' ps n. (view_race sid p)\<^sup>*\<^sup>* (db, [], 0) (db', ps, n) \<longrightarrow> int n \<le> max 0 (m - sn_ViewCount r) + int p - 1)
    \<and> (sn_ViewCount r < m \<and> sn_ExpiresAt r = None \<longrightarrow>
        (\<exists>db'. (view_race sid p)\<^sup>*\<^sup>* (db, [], 0) (db', [], nat (m - sn_ViewCount r) + p - 1)))"
proof (intro conjI allI impI)
  fix db' ps n
  assume run: "(view_race sid p)\<^sup>*\<^sup>* (db, [], 0) (db', ps, n)"
  have "race_inv sid (sn_ViewCount r) m p (db, [], 0)" using assms by (simp add: race_inv_def)
  then have "race_inv sid (sn_ViewCount r) m p (db', ps, n)" by (rule race_inv_run [OF run _ assms(5,4)])
  then show "int n \<le> max 0 (m - sn_ViewCount r) + int p - 1" by (simp add: race_inv_def)
next
  assume a: "sn_ViewCount r < m \<and> sn_ExpiresAt r = None"
  define j where "j = nat (m - sn_ViewCount r) - 1"
  have j: "sn_ViewCount r + int j < m" using a unfolding j_def by linarith
  obtain db1 where db1: "(view_race sid p)\<^sup>*\<^sup>* (db, [], 0) (db1, [], j)"
      "note_row sid db1 = Some (r\<lparr>sn_ViewCount := sn_ViewCount r + int j\<rparr>)"
    using race_sequential [OF assms(1,2) _ assms(3,5,4) j assms(7)] a by auto
  have "GetShare_check None 0 sid db1 = Inr (r\<lparr>sn_ViewCount := sn_ViewCount r + int j\<rparr>)"
    using db1(2) j a assms(3) by (simp add: GetShare_check_Inr share_expired_def)
  from race_burst [OF this order_refl] race_drain
  obtain db' where "(view_race sid p)\<^sup>*\<^sup>* (db1, [], j) (db', [], j + p)"
    by (metis (no_types) length_replicate rtranclp_trans)
  moreover have "j + p = nat (m - sn_ViewCount r) + p - 1" using a unfolding j_def by linarith
  ultimately show "\<exists>db'. (view_race sid p)\<^sup>*\<^sup>* (db, [], 0) (db', [], nat (m - sn_ViewCount r) + p - 1)"
    using db1(1) by (metis rtranclp_trans)
qed

theorem share_view_race_witness:
  "\<exists>db'. (view_race ''s'' 7)\<^sup>*\<^sup>* (demo_share_db, [], 0) (db', [], 7)"
  using share_view_race [OF demo_share_row, of 1 7] by (simp add: demo_note_def int4_ok_def)

lemma handle_CreateShare_JSON:
  assumes "handle_CreateShare hs rnd err now (Some u) (Some req) db = (JSON st resp, db')"
  obtains h where "if cs_HasPassword req then bc_Generate hs (cs_ShareKeyHash req) = Some h else h = cs_ShareKeyHash req"
    and "generateShareID rnd = Some (csr_ID resp)" and "note_row (csr_ID resp) db = None"
    and "db' = add_note (inserted now (created_note now (csr_ID resp) u (req\<lparr>cs_ShareKeyHash := h\<rparr>))) db"
    and "pred_option int4_ok (cs_MaxViews req)"
proof -
  obtain h where h: "(if cs_HasPassword req then bc_Generate hs (cs_ShareKeyHash req) else Some (cs_ShareKeyHash req)) = Some h"
    and c: "CreateShare rnd err now u (req\<lparr>cs_ShareKeyHash := h\<rparr>) db = (Inr resp, db')"
    using assms unfolding handle_CreateShare_def
    by (simp split: option.split_asm if_split_asm prod.split_asm sum.split_asm)
  have "generateShareID rnd = Some (csr_ID resp) \<and> note_row (csr_ID resp) db = None \<and> pred_option int4_ok (cs_MaxViews req)
      \<and> db' = add_note (inserted now (created_note now (csr_ID resp) u (req\<lparr>cs_ShareKeyHash := h\<rparr>))) db"
    using c by (auto simp: CreateShare_def share_repo_Create_def note_row_def add_note_def created_note_def
        split: option.split_asm if_split_asm)
  then show thesis using that [of h] h by (auto split: if_splits)
qed

text \<open>C15: a password-protected share comes back as it was created. A share is created with a
  lifetime of \<open>h\<close> hours and the hex-encoded SHA-256 hash of a password, as the client does. The first
  request with that password within the lifetime gets the same ciphertexts, the view count 1 and no key
  hash; after the lifetime it gets 410. A request whose password bcrypt rejects and whose hash is not
  the stored one gets 403 and nothing else. The lifetime is exact because \<open>h\<close> is at most 2562047, beyond
  which the conversion of hours to nanoseconds overflows.\<close>

theorem share_round_trip:
  assumes created: "handle_CreateShare hs rnd err t (Some u) (Some req) db = (JSON st resp, db1)"
    and bcrypt: "\<And>p c. bc_Generate hs p = Some c \<Longrightarrow> bc_Compare hs c p"
    and rand: "\<And>n b. rnd n = Some b \<Longrightarrow> length b = n"
    and "cs_HasPassword req" and "cs_ShareKeyHash req = hex_encode (sha256 hs pw)" and "pw \<noteq> ''''"
    and "cs_ExpiresHours req = Some h" and "0 < h" and "h \<le> 2562047"
    and "cs_MaxViews req = Some m" and "0 < m"
  shows "fst (handle_GetShare hs no_errs now (csr_ID resp) pw db1) =
      (if now \<le> t + h * hour
       then JSON 200 \<lparr>gs_ID = csr_ID resp, gs_EncryptedContent = cs_EncryptedContent req,
              gs_EncryptedTitle = cs_EncryptedTitle req, gs_HasPassword = True, gs_ShareKeyHash = '''',
              gs_ExpiresAt = Some (t + h * hour), gs_ViewCount = 1, gs_MaxViews = Some m\<rparr>
       else HttpError 410 ''expired'' ''Shared note has expired'')
    \<and> (\<forall>pw'. \<not> is_JSON (fst (handle_GetShare hs no_errs now (csr_ID resp) pw' db1)) \<or>
         (\<exists>c. bc_Generate hs (cs_ShareKeyHash req) = Some c \<and>
           (bc_Compare hs c (hex_encode (sha256 hs pw')) \<or> hex_encode (sha256 hs pw') = c)))"
proof -
  obtain c where c: "bc_Generate hs (cs_ShareKeyHash req) = Some c" and sid: "generateShareID rnd = Some (csr_ID resp)"
    and free: "note_row (csr_ID resp) db = None"
    and db1: "db1 = add_note (inserted t (created_note t (csr_ID resp) u (req\<lparr>cs_ShareKeyHash := c\<rparr>))) db"
    using handle_CreateShare_JSON [OF created] assms(4) by metis
  define n where "n = inserted t (created_note t (csr_ID resp) u (req\<lparr>cs_ShareKeyHash := c\<rparr>))"
  have nonempty: "csr_ID resp \<noteq> ''''"
    using sid rand [of 16] by (auto simp: generateShareID_def dest: arg_cong [where f = length])
  have exp: "sn_ExpiresAt n = Some (t + h * hour)"
    using assms(7-9) by (simp add: n_def inserted_def created_note_def share_expiry_def wrap64_id)
  have row: "note_row (csr_ID resp) db1 = Some n" by (simp add: db1 note_row_add_note free n_def)
  have n: "sn_ID n = csr_ID resp" "sn_ShareKeyHash n = c" "sn_HasPassword n" "sn_MaxViews n = Some m" "sn_ViewCount n = 0"
      "sn_EncryptedContent n = cs_EncryptedContent req" "sn_EncryptedTitle n = cs_EncryptedTitle req"
    using assms(4,10) by (simp_all add: n_def inserted_def created_note_def)
  have check: "GetShare_check None now (csr_ID resp) db1 = (if now \<le> t + h * hour then Inr n else Inl ErrShareExpired)"
    using row exp n assms(11) by (simp add: GetShare_check_def share_repo_GetByID_def note_row_def share_expired_def)
  have "password_matches hs c pw" using bcrypt [OF c] assms(5) by (simp add: password_matches_def Let_def)
  then show ?thesis using nonempty assms(6) exp n c
    by (auto simp: handle_GetShare_def GetShare_def check GetShare_finish_def sentinel_or_500_def password_matches_def Let_def)
qed

definition demo_create :: CreateShareRequest where
  "demo_create = \<lparr>cs_EncryptedContent = ''c'', cs_EncryptedTitle = ''t'', cs_ShareKeyHash = ''7077'', cs_HasPassword = True,
     cs_IsPublic = None, cs_ExpiresHours = Some 1, cs_MaxViews = Some 1\<rparr>"

definition demo_rand :: "nat \<Rightarrow> bytes option" where
  "demo_rand n = Some (replicate n 0)"

definition demo_id :: string where
  "demo_id = ''00000000000000000000000000000000''"

definition demo_created_db :: share_db where
  "demo_created_db = add_note (inserted 0 (created_note 0 demo_id 1 (demo_create\<lparr>cs_ShareKeyHash := ''$7077''\<rparr>))) demo_share_db"

lemma demo_id: "generateShareID demo_rand = Some demo_id"
  by code_simp

lemma demo_created:
  "handle_CreateShare demo_hashing demo_rand None 0 (Some 1) (Some demo_create) demo_share_db =
    (JSON 201 \<lparr>csr_ID = demo_id, csr_URL = ''/share/'' @ demo_id\<rparr>, demo_created_db)"
  by (simp add: handle_CreateShare_def demo_create_def demo_hashing_def CreateShare_def demo_id
      share_repo_Create_def demo_share_db_def demo_note_def int4_ok_def add_note_def demo_created_db_def)
    (simp add: created_note_def demo_id_def int4_ok_def)

lemma demo_password: "hex_encode (sha256 demo_hashing ''pw'') = ''7077''"
  by code_simp

theorem share_round_trip_witness:
  "is_JSON (fst (handle_GetShare demo_hashing no_errs 5 demo_id ''pw'' demo_created_db))"
proof -
  have bcrypt: "bc_Generate demo_hashing p = Some c \<Longrightarrow> bc_Compare demo_hashing c p" for p c
    by (auto simp: demo_hashing_def)
  have rand: "demo_rand n = Some b \<Longrightarrow> length b = n" for n b by (auto simp: demo_rand_def)
  show ?thesis
    using share_round_trip [OF demo_created bcrypt rand, of "''pw''" 1 1 5]
    by (simp add: demo_create_def demo_password)
qed

text \<open>A protected share is used up without its password: the view is counted before the password
  is looked at. After as many requests without a password as there are views left, each answered
  with 403, the right password gets 410.\<close>

fun knock :: "Hashing \<Rightarrow> time \<Rightarrow> string \<Rightarrow> nat \<Rightarrow> share_db \<Rightarrow> share_db" where
  "knock hs now sid 0 db = db"
| "knock hs now sid (Suc k) db = knock hs now sid k (snd (handle_GetShare hs no_errs now sid '''' db))"

theorem share_exhausted_without_password:
  assumes "notes_distinct db" and "note_row sid db = Some r" and "sn_MaxViews r = Some m" and "int4_ok m"
    and "0 \<le> sn_ViewCount r" and "\<not> share_expired now r" and "sn_HasPassword r" and "sid \<noteq> ''''"
    and "m - sn_ViewCount r \<le> int k"
  shows "fst (handle_GetShare hs no_errs now sid pw (knock hs now sid k db)) =
    HttpError 410 ''max_views'' ''Shared note has reached maximum views''"
  using assms
proof (induction k arbitrary: db r)
  case 0
  then have "GetShare_check None now sid db = Inl ErrShareMaxViews"
    by (simp add: GetShare_check_def share_repo_GetByID_def note_row_def)
  then show ?case using 0 by (simp add: handle_GetShare_def GetShare_def sentinel_or_500_def)
next
  case (Suc k)
  let ?db = "snd (handle_GetShare hs no_errs now sid '''' db)"
  show ?case
  proof (cases "sn_ViewCount r < m")
    case True
    then have "GetShare_check None now sid db = Inr r" using Suc.prems by (simp add: GetShare_check_Inr)
    then have "?db = map_note sid (\<lambda>r. r\<lparr>sn_ViewCount := sn_ViewCount r + 1\<rparr>) db"
      using Suc.prems True IncrementViewCount_ok [OF Suc.prems(1,2)] by (simp add: handle_GetShare_state int4_ok_def)
    then show ?thesis using Suc.IH [of ?db "r\<lparr>sn_ViewCount := sn_ViewCount r + 1\<rparr>"] Suc.prems
      by (simp add: note_row_map_note share_expired_def)
  next
    case False
    then have "GetShare_check None now sid db = Inl ErrShareMaxViews"
      using Suc.prems by (simp add: GetShare_check_def share_repo_GetByID_def note_row_def)
    then have "?db = db" by (simp add: handle_GetShare_state)
    then show ?thesis using Suc.IH [of db r] Suc.prems False by simp
  qed
qed

text \<open>The lifetime overflows: a share created for 2562048 hours has expired when it is created.\<close>

lemma share_expiry_overflow: "share_expiry t (Some 2562048) = Some (t - 9223371273709551616)"
  by (simp add: share_expiry_def wrap64_def)

end
