(* ===== verification/Reactions.thy ===== *)
theory Reactions
  imports Share
begin

text \<open>
  Correctness of the reactions of \<open>Share\<close>: the counters stored with a note are the numbers of its rows in
  \<^verbatim>\<open>note_reactions\<close>, a toggle flips one reaction and reports the new number, and what breaks this: a
  query that fails, and the deletion of an account that has reacted to a note of somebody else
  (\<^verbatim>\<open>repository/user_repository.go\<close>, \<open>Delete\<close>, with the cascades of the foreign keys).
\<close>

definition reaction_key :: "note_reaction \<Rightarrow> string \<times> uuid \<times> string" where
  "reaction_key x = (nr_SharedNoteID x, nr_UserID x, nr_Type x)"

definition reaction_count :: "string \<Rightarrow> string \<Rightarrow> share_db \<Rightarrow> nat" where
  "reaction_count sid rt db = count_rows (\<lambda>x. nr_SharedNoteID x = sid \<and> nr_Type x = rt) (note_reactions db)"

definition reacted :: "string \<Rightarrow> uuid \<Rightarrow> string \<Rightarrow> share_db \<Rightarrow> bool" where
  "reacted sid u rt db \<longleftrightarrow> (sid, u, rt) \<in> reaction_key ` set (note_reactions db)"

text \<open>Keys are unique, every reaction belongs to a note, and the counters stored with a note are the
  numbers of its reactions.\<close>

definition reactions_ok :: "share_db \<Rightarrow> bool" where
  "reactions_ok db \<longleftrightarrow> notes_distinct db \<and> distinct (map nr_ID (note_reactions db))
     \<and> distinct (map reaction_key (note_reactions db))
     \<and> (\<forall>x \<in> set (note_reactions db). note_row (nr_SharedNoteID x) db \<noteq> None)
     \<and> (\<forall>r \<in> set (shared_notes db). sn_ReactionHeart r = int (reaction_count (sn_ID r) ''heart'' db)
           \<and> sn_ReactionBookmark r = int (reaction_count (sn_ID r) ''bookmark'' db))"

lemma reacted_find: "reacted sid u rt db \<longleftrightarrow> find_row (is_reaction sid u rt) (note_reactions db) \<noteq> None"
  by (auto simp: reacted_def find_row_None_iff is_reaction_def reaction_key_def image_iff)

lemma counter_other: "rt' \<noteq> rt \<Longrightarrow> rt' \<in> {''heart'', ''bookmark''} \<Longrightarrow> rt \<in> {''heart'', ''bookmark''} \<Longrightarrow>
    counter_of rt' (set_counter rt n r) = counter_of rt' r"
  by (auto simp: counter_of_def set_counter_def)

lemma reactions_ok_counter:
  "reactions_ok db \<longleftrightarrow> notes_distinct db \<and> distinct (map nr_ID (note_reactions db))
     \<and> distinct (map reaction_key (note_reactions db))
     \<and> (\<forall>x \<in> set (note_reactions db). note_row (nr_SharedNoteID x) db \<noteq> None)
     \<and> (\<forall>sid r. note_row sid db = Some r \<longrightarrow>
          (\<forall>rt \<in> {''heart'', ''bookmark''}. counter_of rt r = int (reaction_count sid rt db)))"
  by (auto simp: reactions_ok_def counter_of_def note_row_Some)

text \<open>One change of a reaction with the matching change of the counter keeps the counters exact.\<close>

lemma reactions_ok_change:
  assumes "reactions_ok db" and rt: "rt \<in> {''heart'', ''bookmark''}"
    and "distinct (map nr_ID xs)" and "distinct (map reaction_key xs)"
    and "\<forall>x \<in> set xs. note_row (nr_SharedNoteID x) db \<noteq> None"
    and count: "\<And>sid' rt'. int (count_rows (\<lambda>x. nr_SharedNoteID x = sid' \<and> nr_Type x = rt') xs)
      = (if sid' = sid \<and> rt' = rt then g (int (reaction_count sid rt db)) else int (reaction_count sid' rt' db))"
  shows "reactions_ok (map_note sid (\<lambda>r. set_counter rt (g (counter_of rt r)) r) (db\<lparr>note_reactions := xs\<rparr>))"
    (is "reactions_ok ?db")
proof -
  have row: "note_row sid' (db\<lparr>note_reactions := xs\<rparr>) = note_row sid' db" for sid'
    by (simp add: note_row_def)
  have d: "notes_distinct (db\<lparr>note_reactions := xs\<rparr>)" using assms(1) by (simp add: reactions_ok_def notes_distinct_def)
  have "counter_of rt' r' = int (reaction_count sid' rt' ?db)"
    if r': "note_row sid' ?db = Some r'" and rt': "rt' \<in> {''heart'', ''bookmark''}" for sid' r' rt'
  proof -
    have n: "int (reaction_count sid' rt' ?db) = (if sid' = sid \<and> rt' = rt then g (int (reaction_count sid rt db))
        else int (reaction_count sid' rt' db))"
      using count by (simp add: reaction_count_def)
    obtain r where r: "note_row sid' db = Some r" "r' = (if sid' = sid then set_counter rt (g (counter_of rt r)) r else r)"
      using r' by (auto simp: note_row_map_note row split: if_splits)
    then have "counter_of rt' r = int (reaction_count sid' rt' db)" using assms(1) rt' unfolding reactions_ok_counter by blast
    then show ?thesis using r(2) counter_other [OF _ rt' rt] by (auto simp: n)
  qed
  moreover have "note_row (nr_SharedNoteID x) ?db \<noteq> None" if "x \<in> set xs" for x
    using that assms(5) by (auto simp: note_row_map_note row)
  ultimately show ?thesis using assms(3,4) d unfolding reactions_ok_counter by simp
qed

lemma count_delete_one:
  assumes "distinct (map k t)" and "x \<in> set t"
  shows "count_rows P (delete_rows (\<lambda>y. k y = k x) t) + (if P x then 1 else 0) = count_rows P t"
  using assms
proof (induction t)
  case (Cons a t)
  show ?case
  proof (cases "a = x")
    case True
    then have "delete_rows (\<lambda>y. k y = k x) t = t" using Cons.prems by (force simp: delete_rows_def filter_id_conv image_iff)
    then show ?thesis using True by simp
  next
    case False
    then have "k a \<noteq> k x" using Cons.prems by (auto simp: image_iff)
    then show ?thesis using Cons False by auto
  qed
qed simp

lemma reaction_count_le: "reaction_count sid rt db \<le> length (note_reactions db)"
  by (simp add: reaction_count_def count_rows_le)

lemma update_counter_ok:
  assumes "notes_distinct db" and "note_row sid db = Some r" and "int4_ok (g (counter_of rt r))"
  shows "update_counter None rt g sid db = (None, map_note sid (\<lambda>r. set_counter rt (g (counter_of rt r)) r) db)"
proof -
  have "\<not> (\<exists>x \<in> set (shared_notes db). sn_ID x = sid \<and> \<not> int4_ok (g (counter_of rt x)))"
    using assms(2,3) note_row_Some [OF assms(1), of sid] by (metis option.inject)
  then show ?thesis by (simp add: update_counter_def map_note_def)
qed

lemma react_count_ok:
  assumes "reactions_ok db" and "note_row sid db = Some r" and rt: "rt \<in> {''heart'', ''bookmark''}"
    and "int4_ok (g (int (reaction_count sid rt db)))"
  shows "react_count None None rt a g sid (db\<lparr>note_reactions := xs\<rparr>) =
    (Inr \<lparr>rr_ReactionType = rt, rr_Active = a, rr_Count = g (int (reaction_count sid rt db))\<rparr>,
     map_note sid (\<lambda>r. set_counter rt (g (counter_of rt r)) r) (db\<lparr>note_reactions := xs\<rparr>))"
proof -
  have row: "note_row sid (db\<lparr>note_reactions := xs\<rparr>) = Some r" using assms(2) by (simp add: note_row_def)
  have d: "notes_distinct (db\<lparr>note_reactions := xs\<rparr>)" using assms(1) by (simp add: reactions_ok_def notes_distinct_def)
  have c: "counter_of rt r = int (reaction_count sid rt db)" using assms(1-3) unfolding reactions_ok_counter by blast
  have "note_row sid (map_note sid (\<lambda>r. set_counter rt (g (counter_of rt r)) r) (db\<lparr>note_reactions := xs\<rparr>))
      = Some (set_counter rt (g (counter_of rt r)) r)"
    by (simp add: note_row_map_note row)
  then show ?thesis using update_counter_ok [OF d row, of g rt] assms(4)
    by (simp add: react_count_def read_counter_def note_row_def c)
qed

text \<open>The precondition of a toggle: the note and the user exist, the type is known, the new identifier
  is fresh and the counter cannot overflow.\<close>

definition can_react :: "uuid \<Rightarrow> string \<Rightarrow> uuid \<Rightarrow> string \<Rightarrow> share_db \<Rightarrow> bool" where
  "can_react newID sid u rt db \<longleftrightarrow> note_row sid db \<noteq> None \<and> u \<in> set (share_users db)
     \<and> (rt = ''heart'' \<or> rt = ''bookmark'') \<and> newID \<notin> nr_ID ` set (note_reactions db)
     \<and> length (note_reactions db) < 2147483647"

lemma React_removes:
  assumes "reactions_ok db" and "can_react newID sid u rt db" and "reacted sid u rt db"
    and "React no_errs newID sid u rt db = (res, db')"
  shows "res = Inr \<lparr>rr_ReactionType = rt, rr_Active = False, rr_Count = int (reaction_count sid rt db')\<rparr>"
    and "reactions_ok db'" and "reaction_key ` set (note_reactions db') = reaction_key ` set (note_reactions db) - {(sid, u, rt)}"
proof -
  let ?g = "\<lambda>n::int. max (n - 1) 0"
  obtain x where x: "find_row (is_reaction sid u rt) (note_reactions db) = Some x" using assms(3) by (auto simp: reacted_find)
  then have xin: "x \<in> set (note_reactions db)" and xk: "reaction_key x = (sid, u, rt)"
    by (auto dest: find_row_SomeD simp: is_reaction_def reaction_key_def)
  define xs where "xs = delete_rows (\<lambda>y. nr_ID y = nr_ID x) (note_reactions db)"
  obtain r where r: "note_row sid db = Some r" and rt: "rt \<in> {''heart'', ''bookmark''}" using assms(2) by (auto simp: can_react_def)
  have dID: "distinct (map nr_ID (note_reactions db))" and dk: "distinct (map reaction_key (note_reactions db))"
    and own: "\<forall>y \<in> set (note_reactions db). note_row (nr_SharedNoteID y) db \<noteq> None"
    using assms(1) by (auto simp: reactions_ok_def)
  have count: "count_rows P xs + (if P x then 1 else 0) = count_rows P (note_reactions db)" for P
    unfolding xs_def by (rule count_delete_one [OF dID xin])
  have cnt: "int (count_rows (\<lambda>x. nr_SharedNoteID x = sid' \<and> nr_Type x = rt') xs)
      = (if sid' = sid \<and> rt' = rt then ?g (int (reaction_count sid rt db)) else int (reaction_count sid' rt' db))" for sid' rt'
    using count [of "\<lambda>x. nr_SharedNoteID x = sid' \<and> nr_Type x = rt'"] xk
    by (auto simp: reaction_count_def reaction_key_def split: if_splits)
  have "int4_ok (?g (int (reaction_count sid rt db)))"
    using reaction_count_le [of sid rt db] assms(2) by (simp add: int4_ok_def can_react_def)
  then have res: "(res, db') = (Inr \<lparr>rr_ReactionType = rt, rr_Active = False, rr_Count = ?g (int (reaction_count sid rt db))\<rparr>,
      map_note sid (\<lambda>r. set_counter rt (?g (counter_of rt r)) r) (db\<lparr>note_reactions := xs\<rparr>))"
    using assms(4) rt x react_count_ok [OF assms(1) r rt, of ?g False xs] by (auto simp: React_def xs_def)
  then show "res = Inr \<lparr>rr_ReactionType = rt, rr_Active = False, rr_Count = int (reaction_count sid rt db')\<rparr>"
    using cnt [of sid rt] by (simp add: reaction_count_def)
  show "reactions_ok db'"
    using reactions_ok_change [OF assms(1) rt, of xs sid ?g] res cnt dID dk own
    by (simp add: xs_def distinct_map_delete_rows)
  have "set xs = set (note_reactions db) - {x}"
    unfolding xs_def using dID xin by (auto dest: unique_row)
  moreover have "inj_on reaction_key (set (note_reactions db))" using dk by (simp add: distinct_map)
  ultimately show "reaction_key ` set (note_reactions db') = reaction_key ` set (note_reactions db) - {(sid, u, rt)}"
    using res xin xk by (simp add: inj_on_image_set_diff)
qed

lemma React_adds:
  assumes "reactions_ok db" and "can_react newID sid u rt db" and "\<not> reacted sid u rt db"
    and "React no_errs newID sid u rt db = (res, db')"
  shows "res = Inr \<lparr>rr_ReactionType = rt, rr_Active = True, rr_Count = int (reaction_count sid rt db')\<rparr>"
    and "reactions_ok db'" and "reaction_key ` set (note_reactions db') = insert (sid, u, rt) (reaction_key ` set (note_reactions db))"
proof -
  define xs where "xs = note_reactions db @ [\<lparr>nr_ID = newID, nr_SharedNoteID = sid, nr_UserID = u, nr_Type = rt\<rparr>]"
  obtain r where r: "note_row sid db = Some r" and rt: "rt \<in> {''heart'', ''bookmark''}" using assms(2) by (auto simp: can_react_def)
  have fresh: "find_row (is_reaction sid u rt) (note_reactions db) = None"
      "find_row (\<lambda>x. is_reaction sid u rt x \<or> nr_ID x = newID) (note_reactions db) = None"
    using assms(2,3) by (auto simp: reacted_find find_row_None_iff can_react_def image_iff)
  then have ins: "insert_reaction None newID sid u rt db = (None, db\<lparr>note_reactions := xs\<rparr>)"
    using assms(2) by (auto simp: insert_reaction_def can_react_def note_row_def xs_def)
  have cnt: "int (count_rows (\<lambda>x. nr_SharedNoteID x = sid' \<and> nr_Type x = rt') xs)
      = (if sid' = sid \<and> rt' = rt then int (reaction_count sid rt db) + 1 else int (reaction_count sid' rt' db))" for sid' rt'
    by (simp add: xs_def reaction_count_def)
  have "int4_ok (int (reaction_count sid rt db) + 1)"
    using reaction_count_le [of sid rt db] assms(2) by (simp add: int4_ok_def can_react_def)
  then have res: "(res, db') = (Inr \<lparr>rr_ReactionType = rt, rr_Active = True, rr_Count = int (reaction_count sid rt db) + 1\<rparr>,
      map_note sid (\<lambda>r. set_counter rt (counter_of rt r + 1) r) (db\<lparr>note_reactions := xs\<rparr>))"
    using assms(4) rt fresh ins react_count_ok [OF assms(1) r rt, of "\<lambda>n. n + 1" True xs] by (auto simp: React_def)
  then show "res = Inr \<lparr>rr_ReactionType = rt, rr_Active = True, rr_Count = int (reaction_count sid rt db')\<rparr>"
    using cnt [of sid rt] by (simp add: reaction_count_def)
  have "(sid, u, rt) \<notin> reaction_key ` set (note_reactions db)" using assms(3) by (simp add: reacted_def)
  then show "reactions_ok db'"
    using reactions_ok_change [OF assms(1) rt, of xs sid "\<lambda>n. n + 1"] res cnt assms(1,2) r
    by (auto simp: xs_def reactions_ok_def can_react_def reaction_key_def)
  show "reaction_key ` set (note_reactions db') = insert (sid, u, rt) (reaction_key ` set (note_reactions db))"
    using res by (auto simp: xs_def reaction_key_def)
qed

lemma ToggleReaction_React:
  "rt = ''heart'' \<or> rt = ''bookmark'' \<Longrightarrow> React f newID sid u rt db = (Inr resp, db') \<Longrightarrow>
    ToggleReaction f newID u sid rt db = (Inr resp, db')"
  by (auto simp: ToggleReaction_def)

lemma reactions_ok_frame:
  assumes "reactions_ok db" and "notes_distinct db'" and "note_reactions db' = note_reactions db"
    and "\<And>sid r'. note_row sid db' = Some r' \<Longrightarrow> \<exists>r. note_row sid db = Some r
      \<and> sn_ReactionHeart r' = sn_ReactionHeart r \<and> sn_ReactionBookmark r' = sn_ReactionBookmark r"
    and "\<And>sid. note_row sid db \<noteq> None \<Longrightarrow> note_row sid db' \<noteq> None"
  shows "reactions_ok db'"
proof -
  have count: "reaction_count sid rt db' = reaction_count sid rt db" for sid rt
    by (simp add: reaction_count_def assms(3))
  have "counter_of rt r' = int (reaction_count sid rt db')"
    if r': "note_row sid db' = Some r'" and rt: "rt \<in> {''heart'', ''bookmark''}" for sid r' rt
  proof -
    obtain r where r: "note_row sid db = Some r" "sn_ReactionHeart r' = sn_ReactionHeart r"
        "sn_ReactionBookmark r' = sn_ReactionBookmark r" using assms(4) [OF r'] by blast
    have "counter_of rt r = int (reaction_count sid rt db)" using assms(1) r(1) rt unfolding reactions_ok_counter by blast
    then show ?thesis using r(2,3) by (auto simp: counter_of_def count split: if_splits)
  qed
  then show ?thesis using assms(1,2,3,5) unfolding reactions_ok_counter by simp
qed

lemma reactions_ok_views:
  assumes "reactions_ok db"
  shows "reactions_ok (snd (handle_GetShare hs f now sid pw db))"
proof -
  have "reactions_ok (snd (IncrementViewCount er sid db))" for er
  proof -
    consider "snd (IncrementViewCount er sid db) = db"
      | "snd (IncrementViewCount er sid db) = map_note sid (\<lambda>r. r\<lparr>sn_ViewCount := sn_ViewCount r + 1\<rparr>) db"
      using IncrementViewCount_cases by blast
    then show ?thesis
    proof cases
      case 2
      show ?thesis unfolding 2 using assms
        by (intro reactions_ok_frame [OF assms]) (auto simp: note_row_map_note reactions_ok_def split: if_splits)
    qed (simp add: assms)
  qed
  then show ?thesis using assms by (simp add: handle_GetShare_state split: sum.split)
qed

lemma reactions_ok_create:
  assumes "reactions_ok db"
  shows "reactions_ok (snd (handle_CreateShare hs rnd err now user body db))"
proof -
  have "reactions_ok (add_note n db)"
    if free: "note_row (sn_ID n) db = None" and zero: "sn_ReactionHeart n = 0" "sn_ReactionBookmark n = 0" for n
  proof -
    have none: "reaction_count (sn_ID n) rt db = 0" for rt
      using assms free by (auto simp: reactions_ok_def reaction_count_def count_rows_zero_iff)
    have rows: "note_row sid (add_note n db) = (if sid = sn_ID n then Some n else note_row sid db)" for sid
      using free by (auto simp: note_row_add_note split: option.split)
    then show ?thesis using assms none zero notes_distinct_add_note [OF free]
      unfolding reactions_ok_counter by (auto simp: counter_of_def reaction_count_def)
  qed
  then show ?thesis using handle_CreateShare_state [of hs rnd err now user body db] assms
    by (metis created_note_ID inserted_simps)
qed

text \<open>Deleting notes together with their reactions keeps the other counters exact.\<close>

definition delete_notes :: "(SharedNote \<Rightarrow> bool) \<Rightarrow> share_db \<Rightarrow> share_db" where
  "delete_notes P db = db\<lparr>shared_notes := delete_rows P (shared_notes db),
     note_reactions := delete_rows (\<lambda>x. \<exists>r \<in> set (shared_notes db). P r \<and> sn_ID r = nr_SharedNoteID x) (note_reactions db)\<rparr>"

lemma note_row_delete_notes:
  assumes "notes_distinct db"
  shows "note_row sid (delete_notes P db) = (case note_row sid db of None \<Rightarrow> None | Some r \<Rightarrow> if P r then None else Some r)"
  using assms by (simp add: note_row_def delete_notes_def notes_distinct_def find_row_delete_unique)

lemma reactions_ok_delete:
  assumes "reactions_ok db"
  shows "reactions_ok (delete_notes P db)"
proof -
  let ?db = "delete_notes P db"
  have d: "notes_distinct db" using assms by (simp add: reactions_ok_def)
  note row = note_row_delete_notes [OF d, of _ P]
  have kept: "(\<exists>r \<in> set (shared_notes db). P r \<and> sn_ID r = sid) \<longleftrightarrow> note_row sid ?db = None"
    if n: "note_row sid db \<noteq> None" for sid
  proof -
    obtain r where r: "note_row sid db = Some r" using n by auto
    have "r' \<in> set (shared_notes db) \<and> sn_ID r' = sid \<longleftrightarrow> r' = r" for r' using note_row_Some [OF d, of sid r'] r by auto
    then have "(\<exists>r' \<in> set (shared_notes db). P r' \<and> sn_ID r' = sid) \<longleftrightarrow> P r" by metis
    then show ?thesis using row [of sid] r by simp
  qed
  have own: "\<forall>x \<in> set (note_reactions db). note_row (nr_SharedNoteID x) db \<noteq> None" using assms by (simp add: reactions_ok_def)
  have "note_reactions ?db = delete_rows (\<lambda>x. \<exists>r \<in> set (shared_notes db). P r \<and> sn_ID r = nr_SharedNoteID x)
      (note_reactions db)" by (simp add: delete_notes_def)
  also have "\<dots> = delete_rows (\<lambda>x. note_row (nr_SharedNoteID x) ?db = None) (note_reactions db)"
    unfolding delete_rows_def using own by (intro filter_cong refl arg_cong [where f = Not] kept) blast
  finally have filt: "note_reactions ?db = delete_rows (\<lambda>x. note_row (nr_SharedNoteID x) ?db = None) (note_reactions db)" .
  have "reaction_count sid rt ?db = reaction_count sid rt db" if "note_row sid ?db = Some r" for sid rt r
    unfolding reaction_count_def filt count_rows_def
    by (rule arg_cong [where f = length], rule filter_delete_rows_other) (use that in auto)
  moreover have "note_row sid db = Some r" if "note_row sid ?db = Some r" for sid r
    using that row [of sid] by (auto split: option.splits if_splits)
  moreover have "notes_distinct ?db"
    using d by (simp add: delete_notes_def notes_distinct_def distinct_map_delete_rows)
  ultimately show ?thesis
    using assms filt unfolding reactions_ok_counter by (auto simp: distinct_map_delete_rows)
qed

lemma reactions_ok_expired:
  assumes "reactions_ok db"
  shows "reactions_ok (snd (share_DeleteExpired err now db))"
proof (cases err)
  case None
  then have "snd (share_DeleteExpired err now db) = delete_notes (share_expired now) db"
    by (simp add: share_DeleteExpired_def delete_notes_def)
  then show ?thesis using reactions_ok_delete [OF assms] by simp
qed (simp add: share_DeleteExpired_def assms)

lemma React_refused:
  assumes "reactions_ok db" and "note_row sid db = None \<or> u \<notin> set (share_users db)"
    and "newID \<notin> nr_ID ` set (note_reactions db)" and "\<not> reacted sid u rt db"
  shows "snd (React no_errs newID sid u rt db) = db"
proof -
  have "find_row (\<lambda>x. is_reaction sid u rt x \<or> nr_ID x = newID) (note_reactions db) = None"
    "find_row (is_reaction sid u rt) (note_reactions db) = None"
    using assms(3,4) by (auto simp: reacted_find find_row_None_iff image_iff)
  then show ?thesis using assms(2) by (auto simp: React_def insert_reaction_def note_row_def)
qed

text \<open>A reaction request without failures, with a fresh identifier and no overflow in reach.\<close>

fun reaction_fine :: "share_op \<Rightarrow> share_db \<Rightarrow> bool" where
  "reaction_fine (SReact f newID user sid body) db \<longleftrightarrow> f = no_errs \<and> newID \<notin> nr_ID ` set (note_reactions db)
     \<and> length (note_reactions db) < 2147483647 \<and> (\<forall>x \<in> set (note_reactions db). nr_UserID x \<in> set (share_users db))"
| "reaction_fine _ db \<longleftrightarrow> True"

lemma reactions_ok_exec:
  assumes "reactions_ok db" and "reaction_fine op db"
  shows "reactions_ok (share_exec op db)"
proof (cases op)
  case (SReact f newID user sid body)
  have "reactions_ok (snd (React no_errs newID sid u rt db))" for u rt
  proof (cases "can_react newID sid u rt db")
    case True
    then show ?thesis
      using React_adds(2) [OF assms(1) True _ prod.collapse [symmetric]] React_removes(2) [OF assms(1) True _ prod.collapse [symmetric]]
      by blast
  next
    case False
    have "\<not> reacted sid u rt db" if "note_row sid db = None \<or> u \<notin> set (share_users db)"
      using that assms SReact by (auto simp: reacted_def reaction_key_def reactions_ok_def)
    moreover have "snd (React no_errs newID sid u rt db) = db" if "rt \<noteq> ''heart''" "rt \<noteq> ''bookmark''"
      using that by (simp add: React_def)
    ultimately have "snd (React no_errs newID sid u rt db) = db"
      using False React_refused [OF assms(1), of sid u newID rt] assms(2) SReact by (auto simp: can_react_def)
    then show ?thesis using assms(1) by simp
  qed
  then show ?thesis using handle_ToggleReaction_state [of f newID user sid body db] assms SReact by auto
qed (auto simp: assms reactions_ok_views reactions_ok_create reactions_ok_expired)

section \<open>Accounts\<close>

text \<open>The deletion of an account as these tables see it: the foreign keys of \<^verbatim>\<open>shared_notes\<close> and
  \<^verbatim>\<open>note_reactions\<close> remove the notes of the user, the reactions to them and the reactions of the user. The
  counters of the other notes are columns, and no statement touches them.\<close>

definition share_user_Delete :: "bool \<Rightarrow> uuid \<Rightarrow> share_db \<Rightarrow> share_db" where
  "share_user_Delete fault u db =
     (if fault then db
      else db\<lparr>shared_notes := delete_rows (\<lambda>r. sn_CreatedBy r = u) (shared_notes db),
              note_reactions := delete_rows (\<lambda>x. nr_UserID x = u
                  \<or> (\<exists>r \<in> set (shared_notes db). sn_CreatedBy r = u \<and> sn_ID r = nr_SharedNoteID x)) (note_reactions db),
              share_users := removeAll u (share_users db)\<rparr>)"

datatype share_event = ShareOp share_op | AccountCreated uuid | AccountDeleted bool uuid

fun event_exec :: "share_event \<Rightarrow> share_db \<Rightarrow> share_db" where
  "event_exec (ShareOp op) db = share_exec op db"
| "event_exec (AccountCreated u) db = db\<lparr>share_users := share_users db @ [u]\<rparr>"
| "event_exec (AccountDeleted fault u) db = share_user_Delete fault u db"

text \<open>A deleted account whose reactions are all to its own notes.\<close>

definition leaves_no_reaction :: "uuid \<Rightarrow> share_db \<Rightarrow> bool" where
  "leaves_no_reaction u db \<longleftrightarrow> (\<forall>x \<in> set (note_reactions db). nr_UserID x = u \<longrightarrow>
     (\<exists>r \<in> set (shared_notes db). sn_CreatedBy r = u \<and> sn_ID r = nr_SharedNoteID x))"

fun event_fine :: "share_event \<Rightarrow> share_db \<Rightarrow> bool" where
  "event_fine (ShareOp op) db \<longleftrightarrow> reaction_fine op db"
| "event_fine (AccountCreated u) db \<longleftrightarrow> True"
| "event_fine (AccountDeleted fault u) db \<longleftrightarrow> fault \<or> leaves_no_reaction u db"

fun fine_run :: "share_event list \<Rightarrow> share_db \<Rightarrow> bool" where
  "fine_run [] db \<longleftrightarrow> True"
| "fine_run (ev # evs) db \<longleftrightarrow> event_fine ev db \<and> fine_run evs (event_exec ev db)"

lemma reactions_ok_users: "reactions_ok db \<Longrightarrow> reactions_ok (db\<lparr>share_users := us\<rparr>)"
  by (rule reactions_ok_frame) (auto simp: reactions_ok_def notes_distinct_def note_row_def)

lemma reactions_ok_event:
  assumes "reactions_ok db" and "event_fine ev db"
  shows "reactions_ok (event_exec ev db)"
proof (cases ev)
  case (AccountDeleted fault u)
  show ?thesis
  proof (cases fault)
    case False
    have "delete_rows (\<lambda>x. nr_UserID x = u \<or> (\<exists>r \<in> set (shared_notes db). sn_CreatedBy r = u \<and> sn_ID r = nr_SharedNoteID x)) (note_reactions db)
        = delete_rows (\<lambda>x. \<exists>r \<in> set (shared_notes db). sn_CreatedBy r = u \<and> sn_ID r = nr_SharedNoteID x) (note_reactions db)"
      unfolding delete_rows_def using assms(2) AccountDeleted False by (intro filter_cong) (auto simp: leaves_no_reaction_def)
    then have "event_exec ev db = (delete_notes (\<lambda>r. sn_CreatedBy r = u) db)\<lparr>share_users := removeAll u (share_users db)\<rparr>"
      using AccountDeleted False by (simp add: share_user_Delete_def delete_notes_def)
    then show ?thesis using reactions_ok_users [OF reactions_ok_delete [OF assms(1)]] by simp
  qed (simp add: AccountDeleted share_user_Delete_def assms(1))
qed (use assms in \<open>auto intro: reactions_ok_exec reactions_ok_users\<close>)

lemma reactions_ok_run: "reactions_ok db \<Longrightarrow> fine_run evs db \<Longrightarrow> reactions_ok (fold event_exec evs db)"
  by (induction evs arbitrary: db) (auto intro: reactions_ok_event)

text \<open>C16: reaction counters are exact and toggling works. From a state whose counters are exact, any
  sequence of creations, views, clean-ups, reactions (the reactions without database failures), new accounts and
  deleted accounts that leave no reaction to a note of somebody else ends
  in such a state. There, a reaction by an existing user to an existing note answers 200 with the new
  state of the reaction and the number of the note's reactions of that type, changes no other reaction, and
  a second toggle restores the set of reactions. Without the condition on deleted accounts this fails, see
  \<open>account_deletion_drift\<close>.\<close>

theorem reaction_counters_exact:
  assumes "reactions_ok db0" and "fine_run evs db0" and "db = fold event_exec evs db0"
    and "can_react newID sid u rt db" and "sid \<noteq> ''''"
    and "handle_ToggleReaction no_errs newID (Some u) sid (Some rt) db = (resp, db')"
  shows "reactions_ok db \<and> reactions_ok db'
    \<and> resp = JSON 200 \<lparr>rr_ReactionType = rt, rr_Active = (\<not> reacted sid u rt db), rr_Count = int (reaction_count sid rt db')\<rparr>
    \<and> (\<forall>k. k \<noteq> (sid, u, rt) \<longrightarrow> (k \<in> reaction_key ` set (note_reactions db') \<longleftrightarrow> k \<in> reaction_key ` set (note_reactions db)))
    \<and> (\<forall>newID'. can_react newID' sid u rt db' \<longrightarrow>
         reaction_key ` set (note_reactions (snd (handle_ToggleReaction no_errs newID' (Some u) sid (Some rt) db')))
         = reaction_key ` set (note_reactions db))"
proof -
  have ok: "reactions_ok db" using reactions_ok_run [OF assms(1,2)] assms(3) by simp
  have rt: "rt = ''heart'' \<or> rt = ''bookmark''" using assms(4) by (simp add: can_react_def)
  obtain res where R: "React no_errs newID sid u rt db = (res, db')" and
    resp: "\<And>x. res = Inr x \<Longrightarrow> resp = JSON 200 x"
    using assms(5,6) rt by (auto simp: handle_ToggleReaction_def ToggleReaction_def split: prod.splits sum.splits)
  let ?K = "\<lambda>d. reaction_key ` set (note_reactions d)"
  note A = React_adds [OF ok assms(4) _ R] and D = React_removes [OF ok assms(4) _ R]
  have ok': "reactions_ok db'" using A(2) D(2) by blast
  have keys: "?K db' = (if reacted sid u rt db then ?K db - {(sid, u, rt)} else insert (sid, u, rt) (?K db))"
    using A(3) D(3) by simp
  have res: "res = Inr \<lparr>rr_ReactionType = rt, rr_Active = (\<not> reacted sid u rt db), rr_Count = int (reaction_count sid rt db')\<rparr>"
    using A(1) D(1) by auto
  have "?K (snd (handle_ToggleReaction no_errs newID' (Some u) sid (Some rt) db')) = ?K db" if c: "can_react newID' sid u rt db'" for newID'
  proof -
    have "snd (handle_ToggleReaction no_errs newID' (Some u) sid (Some rt) db') = snd (React no_errs newID' sid u rt db')"
      using assms(5) rt by (auto simp: handle_ToggleReaction_def ToggleReaction_def split: prod.split sum.split)
    then show ?thesis using keys React_adds(3) [OF ok' c _ prod.collapse [symmetric]] React_removes(3) [OF ok' c _ prod.collapse [symmetric]]
      by (auto simp: reacted_def split: if_splits)
  qed
  moreover have "k \<in> ?K db' \<longleftrightarrow> k \<in> ?K db" if "k \<noteq> (sid, u, rt)" for k using that by (simp add: keys)
  ultimately show ?thesis using ok ok' resp [OF res] by blast
qed

definition react_db :: share_db where
  "react_db = \<lparr>shared_notes = [demo_note], note_reactions = [], share_users = [1, 2]\<rparr>"

lemma react_db_ok: "reactions_ok react_db" "can_react 7 ''s'' 2 ''heart'' react_db"
  by (simp_all add: reactions_ok_def can_react_def react_db_def demo_note_def notes_distinct_def reaction_count_def note_row_def)

definition react_events :: "share_event list" where
  "react_events = [AccountCreated 3, ShareOp (SReact no_errs 5 (Some 3) ''s'' (Some ''heart'')),
     ShareOp (SReact no_errs 6 (Some 3) ''s'' (Some ''heart'')), AccountDeleted False 3]"

definition reacted_db :: share_db where
  "reacted_db = \<lparr>shared_notes = [demo_note\<lparr>sn_ReactionHeart := 1\<rparr>],
     note_reactions = [\<lparr>nr_ID = 5, nr_SharedNoteID = ''s'', nr_UserID = 3, nr_Type = ''heart''\<rparr>], share_users = [1, 2, 3]\<rparr>"

lemma react_events_step:
  "share_exec (SReact no_errs 5 (Some 3) ''s'' (Some ''heart'')) (react_db\<lparr>share_users := [1, 2, 3]\<rparr>) = reacted_db"
  "share_exec (SReact no_errs 6 (Some 3) ''s'' (Some ''heart'')) reacted_db = react_db\<lparr>share_users := [1, 2, 3]\<rparr>"
  "share_user_Delete False 3 (react_db\<lparr>share_users := [1, 2, 3]\<rparr>) = react_db"
  by code_simp+

lemma react_events_fine: "fine_run react_events react_db" "fold event_exec react_events react_db = react_db"
proof -
  have "event_exec (AccountCreated 3) react_db = react_db\<lparr>share_users := [1, 2, 3]\<rparr>" by (simp add: react_db_def)
  then show "fine_run react_events react_db" "fold event_exec react_events react_db = react_db"
    using react_events_step by (simp_all add: react_events_def) (simp add: react_db_def reacted_db_def leaves_no_reaction_def)
qed

theorem reaction_counters_exact_witness:
  "fst (handle_ToggleReaction no_errs 7 (Some 2) ''s'' (Some ''heart'') (fold event_exec react_events react_db)) =
     JSON 200 \<lparr>rr_ReactionType = ''heart'', rr_Active = True, rr_Count = 1\<rparr>"
proof -
  let ?r = "handle_ToggleReaction no_errs 7 (Some 2) ''s'' (Some ''heart'') react_db"
  have "reaction_count ''s'' ''heart'' (snd ?r) = 1" by code_simp
  moreover have "\<not> reacted ''s'' 2 ''heart'' react_db" by (simp add: reacted_def react_db_def)
  ultimately show ?thesis
    using reaction_counters_exact [OF react_db_ok(1) react_events_fine(1), of react_db 7 "''s''" 2 "''heart''" "fst ?r" "snd ?r"]
      react_db_ok(2) react_events_fine(2)
    by simp
qed

text \<open>What the deletion of another account does: its reaction to a note of somebody else leaves the table, but
  the counter of that note keeps counting it.\<close>

theorem account_deletion_drift:
  assumes "reactions_ok db" and "x \<in> set (note_reactions db)" and "note_row (nr_SharedNoteID x) db = Some r"
    and "sn_CreatedBy r \<noteq> nr_UserID x" and "nr_Type x \<in> {''heart'', ''bookmark''}"
    and "db' = share_user_Delete False (nr_UserID x) db"
  shows "note_row (nr_SharedNoteID x) db' = Some r
    \<and> int (reaction_count (nr_SharedNoteID x) (nr_Type x) db') < counter_of (nr_Type x) r \<and> \<not> reactions_ok db'"
proof -
  let ?P = "\<lambda>y. nr_SharedNoteID y = nr_SharedNoteID x \<and> nr_Type y = nr_Type x"
  have d: "notes_distinct db" and c: "counter_of (nr_Type x) r = int (reaction_count (nr_SharedNoteID x) (nr_Type x) db)"
    using assms(1,3,5) unfolding reactions_ok_counter by blast+
  have row: "note_row (nr_SharedNoteID x) db' = Some r"
    using d assms(3,4,6) by (simp add: share_user_Delete_def note_row_def notes_distinct_def find_row_delete_unique)
  have "length (filter ?P (note_reactions db')) < length (filter ?P (note_reactions db))"
  proof -
    let ?D = "\<lambda>y. nr_UserID y = nr_UserID x
      \<or> (\<exists>r \<in> set (shared_notes db). sn_CreatedBy r = nr_UserID x \<and> sn_ID r = nr_SharedNoteID y)"
    have "filter ?P (note_reactions db') = filter (\<lambda>y. \<not> ?D y) (filter ?P (note_reactions db))"
      by (auto simp: assms(6) share_user_Delete_def delete_rows_def intro!: filter_cong)
    moreover have "length (filter (\<lambda>y. \<not> ?D y) (filter ?P (note_reactions db))) < length (filter ?P (note_reactions db))"
      by (rule length_filter_less [of x]) (use assms(2) in auto)
    ultimately show ?thesis by simp
  qed
  then have "reaction_count (nr_SharedNoteID x) (nr_Type x) db' < reaction_count (nr_SharedNoteID x) (nr_Type x) db"
    by (simp add: reaction_count_def count_rows_def)
  then show ?thesis using row c assms(5) unfolding reactions_ok_counter by fastforce
qed

text \<open>What a failing lookup does: the reaction of a user who has reacted is counted a second time. The
  table keeps one row, because the insert has nothing to do on a conflict, but the counter grows.\<close>

theorem reaction_counter_drift:
  assumes "reactions_ok db" and "can_react newID sid u rt db" and "reacted sid u rt db" and "f 0 \<noteq> None"
    and "f 1 = None" and "f 2 = None" and "f 3 = None" and "React f newID sid u rt db = (res, db')"
  shows "note_reactions db' = note_reactions db \<and>
    res = Inr \<lparr>rr_ReactionType = rt, rr_Active = True, rr_Count = int (reaction_count sid rt db) + 1\<rparr>
    \<and> \<not> reactions_ok db'"
proof -
  obtain r where r: "note_row sid db = Some r" and rt: "rt \<in> {''heart'', ''bookmark''}" using assms(2) by (auto simp: can_react_def)
  have "find_row (is_reaction sid u rt) (note_reactions db) \<noteq> None" using assms(3) by (simp add: reacted_find)
  then have "find_row (\<lambda>x. is_reaction sid u rt x \<or> nr_ID x = newID) (note_reactions db) \<noteq> None"
    unfolding find_row_None_iff by auto
  then have ins: "insert_reaction None newID sid u rt db = (None, db)" by (simp add: insert_reaction_def)
  have fits: "int4_ok (int (reaction_count sid rt db) + 1)"
    using reaction_count_le [of sid rt db] assms(2) by (simp add: int4_ok_def can_react_def)
  have res: "(res, db') = (Inr \<lparr>rr_ReactionType = rt, rr_Active = True, rr_Count = int (reaction_count sid rt db) + 1\<rparr>,
      map_note sid (\<lambda>r. set_counter rt (counter_of rt r + 1) r) db)"
    using assms(4-8) rt ins react_count_ok [OF assms(1) r rt, of "\<lambda>n. n + 1" True "note_reactions db"] fits by (auto simp: React_def)
  have c: "counter_of rt r = int (reaction_count sid rt db)" using assms(1) r rt unfolding reactions_ok_counter by blast
  have "note_row sid db' = Some (set_counter rt (counter_of rt r + 1) r)" using res r by (simp add: note_row_map_note)
  moreover have "reaction_count sid rt db' = reaction_count sid rt db" using res by (simp add: reaction_count_def)
  ultimately have "\<not> reactions_ok db'" using rt c unfolding reactions_ok_counter by force
  then show ?thesis using res by simp
qed

end
