(* ===== verification/Plan.thy ===== *)
theory Plan
  imports Quota Sync_Store Http Go_Strings
begin

text \<open>
  Subscription plans: \<^verbatim>\<open>internal/domain/plan.go\<close>, \<^verbatim>\<open>internal/service/plan_service.go\<close>,
  \<^verbatim>\<open>internal/repository/plan_repository.go\<close> and \<^verbatim>\<open>internal/handler/plan_handler.go\<close>. Of the table
  \<^verbatim>\<open>users\<close> the columns \<^verbatim>\<open>id\<close> and \<^verbatim>\<open>plan\<close> are modelled here; the usage is read from the tables of
  \<open>Quota\<close> and \<open>Sync_Store\<close>.
\<close>

record PlanLimits =
  pl_MaxNotes :: int
  pl_MaxCollections :: int
  pl_AIDailyQuota :: int
  pl_MaxStorageBytes :: int
  pl_MaxDevices :: int
  pl_CanCollaborate :: bool
  pl_CanPublish :: bool

record PlanInfo =
  pi_Plan :: string
  pi_Limits :: PlanLimits
  pi_AIDailyUsed :: int
  pi_StorageBytes :: int
  pi_NoteCount :: int

record plan_user =
  pu_ID :: uuid
  pu_Plan :: "string option"

definition ValidPlans :: "string list" where
  "ValidPlans = [''free'', ''pro'', ''lifetime'']"

definition PlanLimitsMap :: "(string \<times> PlanLimits) list" where
  "PlanLimitsMap =
     [(''free'', \<lparr>pl_MaxNotes = 500, pl_MaxCollections = 20, pl_AIDailyQuota = 50,
        pl_MaxStorageBytes = 100 * 1024 * 1024, pl_MaxDevices = 2, pl_CanCollaborate = False, pl_CanPublish = True\<rparr>),
      (''pro'', \<lparr>pl_MaxNotes = 10000, pl_MaxCollections = 100, pl_AIDailyQuota = 500,
        pl_MaxStorageBytes = 5 * 1024 * 1024 * 1024, pl_MaxDevices = 5, pl_CanCollaborate = True, pl_CanPublish = True\<rparr>),
      (''lifetime'', \<lparr>pl_MaxNotes = -1, pl_MaxCollections = -1, pl_AIDailyQuota = -1,
        pl_MaxStorageBytes = -1, pl_MaxDevices = -1, pl_CanCollaborate = True, pl_CanPublish = True\<rparr>)]"

definition GetPlanLimits :: "string \<Rightarrow> PlanLimits" where
  "GetPlanLimits p = (case map_of PlanLimitsMap p of Some l \<Rightarrow> l | None \<Rightarrow> the (map_of PlanLimitsMap ''free''))"

section \<open>Repository\<close>

definition plan_GetPlan :: "bool \<Rightarrow> uuid \<Rightarrow> plan_user list \<Rightarrow> string option" where
  "plan_GetPlan fault userID users =
     (if fault then None
      else case find_row (\<lambda>r. pu_ID r = userID) users of
             None \<Rightarrow> None
           | Some r \<Rightarrow> Some (case pu_Plan r of None \<Rightarrow> ''free'' | Some p \<Rightarrow> p))"

definition plan_SetPlan :: "bool \<Rightarrow> uuid \<Rightarrow> string \<Rightarrow> plan_user list \<Rightarrow> bool \<times> plan_user list" where
  "plan_SetPlan fault userID plan users =
     (if fault then (False, users)
      else (True, update_rows (\<lambda>r. pu_ID r = userID) (\<lambda>r. r\<lparr>pu_Plan := Some plan\<rparr>) users))"

definition plan_GetStorageUsage :: "bool \<Rightarrow> uuid \<Rightarrow> SyncBlob list \<Rightarrow> int option" where
  "plan_GetStorageUsage fault userID blobs =
     (if fault then None else Some (sum_list (map b_BlobSize (filter (\<lambda>b. b_UserID b = userID) blobs))))"

definition plan_GetNoteCount :: "bool \<Rightarrow> uuid \<Rightarrow> SyncBlob list \<Rightarrow> int option" where
  "plan_GetNoteCount fault userID blobs =
     (if fault then None else Some (int (count_rows (\<lambda>b. b_UserID b = userID \<and> b_ItemType b = ''note'') blobs)))"

section \<open>Service\<close>

definition GetUserPlan :: "faults \<Rightarrow> uuid \<Rightarrow> plan_user list \<Rightarrow> UserQuota list \<Rightarrow> SyncBlob list \<Rightarrow> PlanInfo option" where
  "GetUserPlan f userID users quotas blobs =
     (case plan_GetPlan (f 0) userID users of
        None \<Rightarrow> None
      | Some plan \<Rightarrow> Some \<lparr>pi_Plan = plan, pi_Limits = GetPlanLimits plan,
          pi_AIDailyUsed = (case quota_GetByUserID (f 1) userID quotas of None \<Rightarrow> 0 | Some q \<Rightarrow> uq_DailyAIUsed q),
          pi_StorageBytes = (case plan_GetStorageUsage (f 2) userID blobs of None \<Rightarrow> 0 | Some n \<Rightarrow> n),
          pi_NoteCount = (case plan_GetNoteCount (f 3) userID blobs of None \<Rightarrow> 0 | Some n \<Rightarrow> n)\<rparr>)"

text \<open>A usage that cannot be read does not refuse.\<close>

definition check_usage :: "int \<Rightarrow> int option \<Rightarrow> service_error option" where
  "check_usage limit usage =
     (if limit = -1 then None
      else case usage of None \<Rightarrow> None | Some n \<Rightarrow> if n \<ge> limit then Some ErrPlanLimitExceeded else None)"

definition CheckLimit :: "faults \<Rightarrow> uuid \<Rightarrow> string \<Rightarrow> plan_user list \<Rightarrow> UserQuota list \<Rightarrow> SyncBlob list \<Rightarrow> service_error option" where
  "CheckLimit f userID limitType users quotas blobs =
     (case plan_GetPlan (f 0) userID users of
        None \<Rightarrow> Some (OtherError ''get plan'')
      | Some plan \<Rightarrow>
          let limits = GetPlanLimits plan in
          if limitType = ''ai_daily''
            then check_usage (pl_AIDailyQuota limits) (map_option uq_DailyAIUsed (quota_GetByUserID (f 1) userID quotas))
          else if limitType = ''storage''
            then check_usage (pl_MaxStorageBytes limits) (plan_GetStorageUsage (f 1) userID blobs)
          else if limitType = ''notes''
            then check_usage (pl_MaxNotes limits) (plan_GetNoteCount (f 1) userID blobs)
          else if limitType = ''publish'' then (if pl_CanPublish limits then None else Some ErrPlanLimitExceeded)
          else if limitType = ''collaborate'' then (if pl_CanCollaborate limits then None else Some ErrPlanLimitExceeded)
          else Some (OtherError (''unknown limit type: '' @ limitType)))"

definition UpgradePlan :: "faults \<Rightarrow> uuid \<Rightarrow> string \<Rightarrow> string \<Rightarrow> plan_user list \<Rightarrow> service_error option \<times> plan_user list" where
  "UpgradePlan f userID plan paymentRef users =
     (if plan \<notin> set ValidPlans then (Some ErrInvalidPlan, users)
      else case plan_GetPlan (f 0) userID users of
        None \<Rightarrow> (Some (OtherError ''get plan''), users)
      | Some currentPlan \<Rightarrow>
          if currentPlan = ''lifetime'' \<and> plan \<noteq> ''lifetime''
            then (Some (OtherError ''cannot downgrade from lifetime plan''), users)
          else case plan_SetPlan (f 1) userID plan users of
                 (True, users') \<Rightarrow> (None, users')
               | (False, users') \<Rightarrow> (Some (OtherError ''set plan''), users'))"

section \<open>Handlers\<close>

definition handle_GetPlan :: "faults \<Rightarrow> uuid option \<Rightarrow> plan_user list \<Rightarrow> UserQuota list \<Rightarrow> SyncBlob list \<Rightarrow> PlanInfo response" where
  "handle_GetPlan f user users quotas blobs =
     (case user of None \<Rightarrow> HttpError 401 ''unauthorized'' ''''
      | Some userID \<Rightarrow>
          case GetUserPlan f userID users quotas blobs of
            None \<Rightarrow> HttpError 500 ''plan_error'' ''Failed to get plan info''
          | Some info \<Rightarrow> JSON 200 info)"

datatype upgrade_body = Upgraded string | UpgradedInfo PlanInfo

definition handle_UpgradePlan :: "faults \<Rightarrow> uuid option \<Rightarrow> (string \<times> string) option \<Rightarrow> plan_user list \<Rightarrow> UserQuota list \<Rightarrow>
    SyncBlob list \<Rightarrow> upgrade_body response \<times> plan_user list" where
  "handle_UpgradePlan f user body users quotas blobs =
     (case user of None \<Rightarrow> (HttpError 401 ''unauthorized'' '''', users)
      | Some userID \<Rightarrow>
        case body of None \<Rightarrow> (HttpError 400 ''invalid_request'' ''Failed to parse request body'', users)
        | Some (plan, paymentRef) \<Rightarrow>
          if plan \<notin> set ValidPlans then (HttpError 400 ''invalid_plan'' ''Plan must be one of: free, pro, lifetime'', users)
          else case UpgradePlan f userID plan paymentRef users of
            (Some e, users') \<Rightarrow>
              (if e = ErrInvalidPlan then HttpError 400 ''invalid_plan'' ''invalid plan''
               else HttpError 500 ''upgrade_error'' ''Failed to upgrade plan'', users')
          | (None, users') \<Rightarrow>
              (case GetUserPlan (\<lambda>i. f (i + 2)) userID users' quotas blobs of
                 None \<Rightarrow> JSON 200 (Upgraded plan)
               | Some info \<Rightarrow> JSON 200 (UpgradedInfo info), users'))"

end
