(* ===== verification/Payment.thy ===== *)
theory Payment
  imports Plan
begin

text \<open>
  Payments: \<^verbatim>\<open>internal/service/payment_service.go\<close>, \<^verbatim>\<open>internal/repository/payment_repository.go\<close> and
  \<^verbatim>\<open>internal/handler/payment_handler.go\<close>. The state is the table \<^verbatim>\<open>payments\<close> (primary key \<^verbatim>\<open>id\<close>, unique
  session identifier), the identifiers in \<^verbatim>\<open>stripe_webhook_events\<close>, and the plans of the users. The
  Stripe client, HMAC-SHA256, the decoding of the event and the text form of UUIDs are arguments; a
  service without a client runs in test mode. A failed commit leaves the tables as they were. Fields of
  the event that no code reads are left out, and so is the context that wraps an error text, since
  the handler compares errors with sentinels only.
\<close>

record Payment =
  pm_ID :: string
  pm_UserID :: string
  pm_StripeSessionID :: string
  pm_AmountCents :: int
  pm_Currency :: string
  pm_Status :: string
  pm_Plan :: string
  pm_CreatedAt :: time
  pm_CompletedAt :: "time option"

record stripeWebhookEvent =
  ev_ID :: string
  ev_Type :: string
  ev_ObjectID :: string
  ev_ClientReferenceID :: string

record pay_db =
  payments :: "Payment list"
  webhook_events :: "string list"
  pay_users :: "plan_user list"

record paymentService =
  ps_stripe :: "(string \<Rightarrow> string \<Rightarrow> string \<Rightarrow> string \<Rightarrow> (string \<times> string) option) option"
  ps_webhookSecret :: string
  ps_hmac :: "string \<Rightarrow> string \<Rightarrow> bytes"
  ps_unmarshal :: "string \<Rightarrow> stripeWebhookEvent option"
  ps_parseUUID :: "string \<Rightarrow> uuid option"
  ps_showUUID :: "uuid \<Rightarrow> string"

section \<open>Repository\<close>

text \<open>The database parses the user identifier and refuses a user that does not exist, a session
  identifier or an identifier that is taken.\<close>

definition CreatePayment :: "paymentService \<Rightarrow> bool \<Rightarrow> time \<Rightarrow> string \<Rightarrow> Payment \<Rightarrow> pay_db \<Rightarrow> bool \<times> pay_db" where
  "CreatePayment svc fault now newID p db =
     (case ps_parseUUID svc (pm_UserID p) of
        None \<Rightarrow> (False, db)
      | Some u \<Rightarrow>
          if fault \<or> u \<notin> set (map pu_ID (pay_users db))
             \<or> find_row (\<lambda>r. pm_StripeSessionID r = pm_StripeSessionID p \<or> pm_ID r = newID) (payments db) \<noteq> None
          then (False, db)
          else (True, db\<lparr>payments := payments db @
                 [p\<lparr>pm_ID := newID, pm_UserID := ps_showUUID svc u, pm_CreatedAt := now, pm_CompletedAt := None\<rparr>]\<rparr>))"

text \<open>An empty result is an error here, never a nil payment.\<close>

definition GetByStripeSessionID :: "bool \<Rightarrow> string \<Rightarrow> pay_db \<Rightarrow> Payment option" where
  "GetByStripeSessionID fault sessionID db =
     (if fault then None else find_row (\<lambda>r. pm_StripeSessionID r = sessionID) (payments db))"

definition pay_UpdateStatus :: "bool \<Rightarrow> time \<Rightarrow> string \<Rightarrow> string \<Rightarrow> pay_db \<Rightarrow> bool \<times> pay_db" where
  "pay_UpdateStatus fault now pid status db =
     (if fault then (False, db)
      else let completedAt = (if status = ''completed'' then Some now else None);
               db' = db\<lparr>payments := update_rows (\<lambda>r. pm_ID r = pid)
                 (\<lambda>r. r\<lparr>pm_Status := status,
                        pm_CompletedAt := (case completedAt of None \<Rightarrow> pm_CompletedAt r | Some t \<Rightarrow> Some t)\<rparr>) (payments db)\<rparr>
           in if count_rows (\<lambda>r. pm_ID r = pid) (payments db) = 0 then (False, db') else (True, db'))"

definition GetPaymentsByUser :: "bool \<Rightarrow> string \<Rightarrow> pay_db \<Rightarrow> Payment list option" where
  "GetPaymentsByUser fault userID db =
     (if fault then None else Some (order_by_desc pm_CreatedAt (filter (\<lambda>r. pm_UserID r = userID) (payments db))))"

text \<open>Rows without a completion time sort first in descending order.\<close>

definition GetLatestCompletedPayment :: "bool \<Rightarrow> string \<Rightarrow> pay_db \<Rightarrow> Payment option" where
  "GetLatestCompletedPayment fault userID db =
     (if fault then None
      else let rows = filter (\<lambda>r. pm_UserID r = userID \<and> pm_Status r = ''completed'') (payments db);
               nulls = filter (\<lambda>r. pm_CompletedAt r = None) rows;
               timed = order_by_desc (\<lambda>r. case pm_CompletedAt r of None \<Rightarrow> 0 | Some t \<Rightarrow> t) (filter (\<lambda>r. pm_CompletedAt r \<noteq> None) rows)
           in (case nulls @ timed of [] \<Rightarrow> None | r # _ \<Rightarrow> Some r))"

text \<open>One transaction: begin, two updates, commit.\<close>

definition CompletePaymentTx :: "faults \<Rightarrow> time \<Rightarrow> string \<Rightarrow> string \<Rightarrow> uuid \<Rightarrow> pay_db \<Rightarrow> bool \<times> pay_db" where
  "CompletePaymentTx f now paymentID plan userID db =
     (if f 0 then (False, db)
      else if f 1 then (False, db)
      else let db1 = db\<lparr>payments := update_rows (\<lambda>r. pm_ID r = paymentID)
                 (\<lambda>r. r\<lparr>pm_Status := ''completed'', pm_CompletedAt := Some now\<rparr>) (payments db)\<rparr> in
      if f 2 then (False, db)
      else let db2 = db1\<lparr>pay_users := update_rows (\<lambda>r. pu_ID r = userID) (\<lambda>r. r\<lparr>pu_Plan := Some plan\<rparr>) (pay_users db1)\<rparr> in
      if f 3 then (False, db)
      else (True, db2))"

text \<open>\<open>None\<close> is an error, \<open>Some False\<close> an event that is already recorded.\<close>

definition RecordWebhookEvent :: "bool \<Rightarrow> string \<Rightarrow> pay_db \<Rightarrow> bool option \<times> pay_db" where
  "RecordWebhookEvent fault eventID db =
     (if fault then (None, db)
      else if eventID \<in> set (webhook_events db) then (Some False, db)
      else (Some True, db\<lparr>webhook_events := webhook_events db @ [eventID]\<rparr>))"

section \<open>Service\<close>

definition planAmounts :: "(string \<times> int) list" where
  "planAmounts = [(''pro'', 499), (''lifetime'', 4999)]"

text \<open>In test mode the session identifier is cut from the text of the user identifier; a text shorter
  than eight bytes panics, which the HTTP server turns into an error.\<close>

definition CreateCheckoutSession :: "paymentService \<Rightarrow> bool \<Rightarrow> time \<Rightarrow> string \<Rightarrow> string \<Rightarrow> string \<times> string \<times> string \<Rightarrow> pay_db \<Rightarrow>
    (service_error + string) \<times> pay_db" where
  "CreateCheckoutSession svc fault now newID userID req db =
     (case req of (plan, successURL, cancelURL) \<Rightarrow>
      case map_of planAmounts plan of
        None \<Rightarrow> (Inl ErrInvalidPaymentPlan, db)
      | Some amount \<Rightarrow>
          case (case ps_stripe svc of
                  None \<Rightarrow> if length userID < 8 then None
                          else let sid = ''cs_test_'' @ take 8 userID @ ''_'' @ plan
                               in Some (sid, ''https://checkout.stripe.test/'' @ sid)
                | Some stripe \<Rightarrow> stripe userID plan successURL cancelURL) of
            None \<Rightarrow> (Inl (OtherError ''failed to create checkout session''), db)
          | Some (sessionID, sessionURL) \<Rightarrow>
              let payment = \<lparr>pm_ID = '''', pm_UserID = userID, pm_StripeSessionID = sessionID, pm_AmountCents = amount,
                             pm_Currency = ''usd'', pm_Status = ''pending'', pm_Plan = plan, pm_CreatedAt = 0, pm_CompletedAt = None\<rparr>
              in case CreatePayment svc fault now newID payment db of
                   (False, db') \<Rightarrow> (Inl (OtherError ''store payment record''), db')
                 | (True, db') \<Rightarrow> (Inr sessionURL, db'))"

definition completePayment :: "paymentService \<Rightarrow> faults \<Rightarrow> time \<Rightarrow> string \<Rightarrow> pay_db \<Rightarrow> service_error option \<times> pay_db" where
  "completePayment svc f now sessionID db =
     (case GetByStripeSessionID (f 0) sessionID db of
        None \<Rightarrow> (Some (OtherError ''lookup payment by session''), db)
      | Some payment \<Rightarrow>
          if pm_Status payment = ''completed'' then (Some ErrPaymentAlreadyDone, db)
          else case ps_parseUUID svc (pm_UserID payment) of
            None \<Rightarrow> (Some (OtherError ''parse user ID''), db)
          | Some userID \<Rightarrow>
              case CompletePaymentTx (\<lambda>i. f (i + 1)) now (pm_ID payment) (pm_Plan payment) userID db of
                (False, db') \<Rightarrow> (Some (OtherError ''complete payment transaction''), db')
              | (True, db') \<Rightarrow> (None, db'))"

definition handleCheckoutCompleted :: "paymentService \<Rightarrow> faults \<Rightarrow> time \<Rightarrow> stripeWebhookEvent \<Rightarrow> pay_db \<Rightarrow> service_error option \<times> pay_db" where
  "handleCheckoutCompleted svc f now event db =
     (if ev_ObjectID event = '''' then (Some (OtherError ''checkout.session.completed event missing session ID''), db)
      else completePayment svc f now (ev_ObjectID event) db)"

definition handleSubscriptionDeleted :: "paymentService \<Rightarrow> faults \<Rightarrow> stripeWebhookEvent \<Rightarrow> pay_db \<Rightarrow> service_error option \<times> pay_db" where
  "handleSubscriptionDeleted svc f event db =
     (if ev_ClientReferenceID event = '''' then (Some (OtherError ''subscription.deleted event missing client_reference_id''), db)
      else case ps_parseUUID svc (ev_ClientReferenceID event) of
        None \<Rightarrow> (Some (OtherError ''parse user ID from client_reference_id''), db)
      | Some uid \<Rightarrow>
          case plan_SetPlan (f 0) uid ''free'' (pay_users db) of
            (False, us) \<Rightarrow> (Some (OtherError ''downgrade plan on subscription deleted''), db\<lparr>pay_users := us\<rparr>)
          | (True, us) \<Rightarrow> (None, db\<lparr>pay_users := us\<rparr>))"

definition handleInvoicePaymentFailed :: "stripeWebhookEvent \<Rightarrow> pay_db \<Rightarrow> service_error option \<times> pay_db" where
  "handleInvoicePaymentFailed event db = (None, db)"

definition handleCheckoutExpired :: "faults \<Rightarrow> time \<Rightarrow> stripeWebhookEvent \<Rightarrow> pay_db \<Rightarrow> service_error option \<times> pay_db" where
  "handleCheckoutExpired f now event db =
     (if ev_ObjectID event = '''' then (Some (OtherError ''checkout.session.expired event missing session ID''), db)
      else case GetByStripeSessionID (f 0) (ev_ObjectID event) db of
        None \<Rightarrow> (Some (OtherError ''lookup payment for expired session''), db)
      | Some payment \<Rightarrow>
          if pm_Status payment \<noteq> ''pending'' then (None, db)
          else case pay_UpdateStatus (f 1) now (pm_ID payment) ''expired'' db of
            (False, db') \<Rightarrow> (Some (OtherError ''mark payment expired''), db')
          | (True, db') \<Rightarrow> (None, db'))"

definition handleChargeRefunded :: "paymentService \<Rightarrow> faults \<Rightarrow> time \<Rightarrow> stripeWebhookEvent \<Rightarrow> pay_db \<Rightarrow> service_error option \<times> pay_db" where
  "handleChargeRefunded svc f now event db =
     (if ev_ObjectID event = '''' then (Some (OtherError ''charge.refunded event missing session ID''), db)
      else case GetByStripeSessionID (f 0) (ev_ObjectID event) db of
        None \<Rightarrow> (Some (OtherError ''lookup payment for refunded charge''), db)
      | Some payment \<Rightarrow>
          case pay_UpdateStatus (f 1) now (pm_ID payment) ''refunded'' db of
            (False, db') \<Rightarrow> (Some (OtherError ''mark payment refunded''), db')
          | (True, db') \<Rightarrow>
              (None, case ps_parseUUID svc (pm_UserID payment) of
                       None \<Rightarrow> db'
                     | Some uid \<Rightarrow> db'\<lparr>pay_users := snd (plan_SetPlan (f 2) uid ''free'' (pay_users db'))\<rparr>))"

text \<open>The two routing switches, of the webhook and of its test mode; the fault oracle of a handler
  starts after the statement that records the event.\<close>

definition webhook_route :: "paymentService \<Rightarrow> faults \<Rightarrow> time \<Rightarrow> stripeWebhookEvent \<Rightarrow> pay_db \<Rightarrow> service_error option \<times> pay_db" where
  "webhook_route svc f now event db =
     (if ev_Type event = ''checkout.session.completed'' then handleCheckoutCompleted svc f now event db
      else if ev_Type event = ''customer.subscription.deleted'' then handleSubscriptionDeleted svc f event db
      else if ev_Type event = ''invoice.payment_failed'' then handleInvoicePaymentFailed event db
      else if ev_Type event = ''checkout.session.expired'' then handleCheckoutExpired f now event db
      else if ev_Type event = ''charge.refunded'' then handleChargeRefunded svc f now event db
      else (None, db))"

definition handleTestWebhook :: "paymentService \<Rightarrow> faults \<Rightarrow> time \<Rightarrow> string \<Rightarrow> pay_db \<Rightarrow> service_error option \<times> pay_db" where
  "handleTestWebhook svc f now payload db =
     (case ps_unmarshal svc payload of
        None \<Rightarrow> (Some (OtherError ''parse test webhook payload''), db)
      | Some event \<Rightarrow>
          let (r, db1) = (if ev_ID event = '''' then (None, db) else RecordWebhookEvent (f 0) (ev_ID event) db)
          in if r = Some False then (None, db1) else webhook_route svc (\<lambda>i. f (i + 1)) now event db1)"

section \<open>Signatures\<close>

definition parseStripeSignatureHeader :: "string \<Rightarrow> (string \<times> string) list" where
  "parseStripeSignatureHeader header =
     fold (\<lambda>pair m. let p = TrimSpace pair in
             case str_Index p ''='' of
               None \<Rightarrow> m
             | Some idx \<Rightarrow> if idx > 0 then AList.update (TrimSpace (take idx p)) (TrimSpace (drop (idx + 1) p)) m else m)
          (split_char (CHR '','') header) []"

definition VerifyStripeSignature :: "(string \<Rightarrow> string \<Rightarrow> bytes) \<Rightarrow> time \<Rightarrow> string \<Rightarrow> string \<Rightarrow> string \<Rightarrow> bool" where
  "VerifyStripeSignature hmac now payload sigHeader secret =
     (if secret = '''' then False
      else let parts = parseStripeSignatureHeader sigHeader in
      case (map_of parts ''t'', map_of parts ''v1'') of
        (Some timestamp, Some signature) \<Rightarrow>
          if signature \<noteq> hex_encode (hmac secret (timestamp @ ''.'' @ payload)) then False
          else (case Atoi timestamp of None \<Rightarrow> True | Some ts \<Rightarrow> \<not> wrap64 (now div second - ts) > 300)
      | _ \<Rightarrow> False)"

definition HandleWebhook :: "paymentService \<Rightarrow> faults \<Rightarrow> time \<Rightarrow> string \<Rightarrow> string \<Rightarrow> pay_db \<Rightarrow> service_error option \<times> pay_db" where
  "HandleWebhook svc f now payload sig db =
     (if ps_stripe svc = None then handleTestWebhook svc f now payload db
      else if \<not> VerifyStripeSignature (ps_hmac svc) now payload sig (ps_webhookSecret svc) then (Some ErrInvalidStripeSig, db)
      else case ps_unmarshal svc payload of
        None \<Rightarrow> (Some (OtherError ''parse webhook payload''), db)
      | Some event \<Rightarrow>
          if ev_ID event = '''' then (Some (OtherError ''webhook event missing ID''), db)
          else case RecordWebhookEvent (f 0) (ev_ID event) db of
            (None, db1) \<Rightarrow> (Some (OtherError ''webhook idempotency check''), db1)
          | (Some False, db1) \<Rightarrow> (None, db1)
          | (Some True, db1) \<Rightarrow> webhook_route svc (\<lambda>i. f (i + 1)) now event db1)"

definition GetPaymentHistory :: "bool \<Rightarrow> string \<Rightarrow> pay_db \<Rightarrow> Payment list option" where
  "GetPaymentHistory fault userID db = GetPaymentsByUser fault userID db"

section \<open>Handlers\<close>

definition handle_CreateCheckout :: "paymentService \<Rightarrow> bool \<Rightarrow> time \<Rightarrow> string \<Rightarrow> uuid option \<Rightarrow> (string \<times> string \<times> string) option \<Rightarrow>
    pay_db \<Rightarrow> string response \<times> pay_db" where
  "handle_CreateCheckout svc fault now newID user body db =
     (case user of None \<Rightarrow> (HttpError 401 ''unauthorized'' '''', db)
      | Some userID \<Rightarrow>
        case body of None \<Rightarrow> (HttpError 400 ''invalid_request'' ''Failed to parse request body'', db)
        | Some req \<Rightarrow>
          if fst req = '''' then (HttpError 400 ''validation_error'' ''plan is required'', db)
          else case CreateCheckoutSession svc fault now newID (ps_showUUID svc userID) req db of
            (Inl e, db') \<Rightarrow>
              (if e = ErrInvalidPaymentPlan then HttpError 400 ''invalid_plan'' ''Plan must be one of: pro, lifetime''
               else HttpError 500 ''checkout_error'' ''Failed to create checkout session'', db')
          | (Inr url, db') \<Rightarrow> (JSON 200 url, db'))"

text \<open>The body is read up to one megabyte; \<open>None\<close> is a failed read.\<close>

definition handle_Webhook :: "paymentService \<Rightarrow> faults \<Rightarrow> time \<Rightarrow> string option \<Rightarrow> string \<Rightarrow> pay_db \<Rightarrow> string response \<times> pay_db" where
  "handle_Webhook svc f now body sig db =
     (case body of None \<Rightarrow> (HttpError 400 ''read_error'' ''Failed to read request body'', db)
      | Some b \<Rightarrow>
          if sig = '''' then (HttpError 400 ''missing_signature'' ''Stripe-Signature header required'', db)
          else case HandleWebhook svc f now (take 1048576 b) sig db of
            (None, db') \<Rightarrow> (JSON 200 ''processed'', db')
          | (Some e, db') \<Rightarrow>
              (if e = ErrInvalidStripeSig then HttpError 400 ''invalid_signature'' ''Invalid webhook signature''
               else if e = ErrPaymentNotFound then HttpError 404 ''not_found'' ''Payment not found''
               else if e = ErrPaymentAlreadyDone then JSON 200 ''already_processed''
               else HttpError 500 ''webhook_error'' ''Webhook processing failed'', db'))"

definition handle_GetPaymentHistory :: "paymentService \<Rightarrow> bool \<Rightarrow> uuid option \<Rightarrow> pay_db \<Rightarrow> Payment list response" where
  "handle_GetPaymentHistory svc fault user db =
     (case user of None \<Rightarrow> HttpError 401 ''unauthorized'' ''''
      | Some userID \<Rightarrow>
          case GetPaymentHistory fault (ps_showUUID svc userID) db of
            None \<Rightarrow> HttpError 500 ''history_error'' ''Failed to get payment history''
          | Some ps \<Rightarrow> JSON 200 ps)"

section \<open>Frames\<close>

lemma plan_SetPlan_snd:
  "snd (plan_SetPlan fault u p us) = (if fault then us else update_rows (\<lambda>r. pu_ID r = u) (\<lambda>r. r\<lparr>pu_Plan := Some p\<rparr>) us)"
  by (simp add: plan_SetPlan_def)

text \<open>What a completed payment, a change of status and a change of plan leave in the tables.\<close>

definition completed_db :: "time \<Rightarrow> string \<Rightarrow> string \<Rightarrow> uuid \<Rightarrow> pay_db \<Rightarrow> pay_db" where
  "completed_db now pid plan u db = db\<lparr>
     payments := update_rows (\<lambda>r. pm_ID r = pid) (\<lambda>r. r\<lparr>pm_Status := ''completed'', pm_CompletedAt := Some now\<rparr>) (payments db),
     pay_users := update_rows (\<lambda>r. pu_ID r = u) (\<lambda>r. r\<lparr>pu_Plan := Some plan\<rparr>) (pay_users db)\<rparr>"

definition status_db :: "string \<Rightarrow> string \<Rightarrow> pay_db \<Rightarrow> pay_db" where
  "status_db pid st db = db\<lparr>payments := update_rows (\<lambda>r. pm_ID r = pid) (\<lambda>r. r\<lparr>pm_Status := st\<rparr>) (payments db)\<rparr>"

definition freed_db :: "uuid \<Rightarrow> pay_db \<Rightarrow> pay_db" where
  "freed_db u db = db\<lparr>pay_users := update_rows (\<lambda>r. pu_ID r = u) (\<lambda>r. r\<lparr>pu_Plan := Some ''free''\<rparr>) (pay_users db)\<rparr>"

text \<open>A refund, whose downgrade of the user may fail (\<open>fault\<close>).\<close>

definition refunded_db :: "paymentService \<Rightarrow> bool \<Rightarrow> Payment \<Rightarrow> pay_db \<Rightarrow> pay_db" where
  "refunded_db svc fault p db =
     (let db' = status_db (pm_ID p) ''refunded'' db in
      case ps_parseUUID svc (pm_UserID p) of
        None \<Rightarrow> db'
      | Some u \<Rightarrow> if fault then db' else freed_db u db')"

lemma CompletePaymentTx_eq:
  "CompletePaymentTx f now pid plan u db =
     (if f 0 \<or> f 1 \<or> f 2 \<or> f 3 then (False, db) else (True, completed_db now pid plan u db))"
  by (simp add: CompletePaymentTx_def completed_db_def Let_def)

lemma pay_UpdateStatus_eq:
  "st \<noteq> ''completed'' \<Longrightarrow> pay_UpdateStatus fault now pid st db =
     (if fault then (False, db) else (0 < count_rows (\<lambda>r. pm_ID r = pid) (payments db), status_db pid st db))"
  by (simp add: pay_UpdateStatus_def status_db_def Let_def)

lemma completePayment_cases:
  "completePayment svc f now sid db =
     (case GetByStripeSessionID (f 0) sid db of
        None \<Rightarrow> (Some (OtherError ''lookup payment by session''), db)
      | Some p \<Rightarrow>
          if pm_Status p = ''completed'' then (Some ErrPaymentAlreadyDone, db)
          else case ps_parseUUID svc (pm_UserID p) of
            None \<Rightarrow> (Some (OtherError ''parse user ID''), db)
          | Some u \<Rightarrow> if f 1 \<or> f 2 \<or> f 3 \<or> f 4 then (Some (OtherError ''complete payment transaction''), db)
                      else (None, completed_db now (pm_ID p) (pm_Plan p) u db))"
  by (simp add: completePayment_def CompletePaymentTx_eq numeral_eq_Suc split: option.split)

lemma completePayment_state:
  "snd (completePayment svc f now sid db) = db
   \<or> (\<exists>p u. p \<in> set (payments db) \<and> ps_parseUUID svc (pm_UserID p) = Some u \<and> pm_Status p \<noteq> ''completed''
        \<and> snd (completePayment svc f now sid db) = completed_db now (pm_ID p) (pm_Plan p) u db)"
proof (cases "GetByStripeSessionID (f 0) sid db")
  case (Some p)
  then have p: "p \<in> set (payments db)" by (auto simp: GetByStripeSessionID_def dest: find_row_SomeD split: if_splits)
  have "snd (completePayment svc f now sid db) = db \<or> (\<exists>u. ps_parseUUID svc (pm_UserID p) = Some u \<and> pm_Status p \<noteq> ''completed''
      \<and> snd (completePayment svc f now sid db) = completed_db now (pm_ID p) (pm_Plan p) u db)"
    by (simp add: completePayment_cases Some split: option.split)
  then show ?thesis using p by blast
qed (simp add: completePayment_cases)

text \<open>Every path of the routing leaves the tables alone, completes a payment that was looked up, or
  changes a status and downgrades users.\<close>

lemma webhook_route_cases:
  obtains (same) "snd (webhook_route svc f now event db) = db"
  | (completed) p u where "p \<in> set (payments db)" "ps_parseUUID svc (pm_UserID p) = Some u" "pm_Status p \<noteq> ''completed''"
      "snd (webhook_route svc f now event db) = completed_db now (pm_ID p) (pm_Plan p) u db"
  | (freed) u where "snd (webhook_route svc f now event db) = freed_db u db"
  | (expired) p where "p \<in> set (payments db)" "pm_Status p = ''pending''"
      "snd (webhook_route svc f now event db) = status_db (pm_ID p) ''expired'' db"
  | (refunded) p where "p \<in> set (payments db)" "snd (webhook_route svc f now event db) = refunded_db svc (f 2) p db"
proof -
  let ?r = "snd (webhook_route svc f now event db)"
  have look: "p \<in> set (payments db)" if "GetByStripeSessionID x sid db = Some p" for x sid p
    using that by (auto simp: GetByStripeSessionID_def dest: find_row_SomeD split: if_splits)
  have "?r = db \<or> (\<exists>p u. p \<in> set (payments db) \<and> ps_parseUUID svc (pm_UserID p) = Some u \<and> pm_Status p \<noteq> ''completed''
      \<and> ?r = completed_db now (pm_ID p) (pm_Plan p) u db)" if "ev_Type event = ''checkout.session.completed''"
    using that completePayment_state by (simp add: webhook_route_def handleCheckoutCompleted_def)
  moreover have "?r = db \<or> (\<exists>u. ?r = freed_db u db)" if "ev_Type event = ''customer.subscription.deleted''"
    using that by (auto simp: webhook_route_def handleSubscriptionDeleted_def plan_SetPlan_def freed_db_def split: option.split)
  moreover have "?r = db \<or> (\<exists>p \<in> set (payments db). pm_Status p = ''pending'' \<and> ?r = status_db (pm_ID p) ''expired'' db)"
    if "ev_Type event = ''checkout.session.expired''"
    using that look by (auto simp: webhook_route_def handleCheckoutExpired_def pay_UpdateStatus_eq split: option.split prod.split bool.split)
  moreover have "?r = db \<or> (\<exists>p \<in> set (payments db). ?r = refunded_db svc (f 2) p db)" if "ev_Type event = ''charge.refunded''"
  proof (cases "ev_ObjectID event = '''' \<or> f 1")
    case False
    show ?thesis
    proof (cases "GetByStripeSessionID (f 0) (ev_ObjectID event) db")
      case (Some p)
      have "count_rows (\<lambda>r. pm_ID r = pm_ID p) (payments db) \<noteq> 0" using look [OF Some] by (auto simp: count_rows_zero_iff)
      then have "?r = refunded_db svc (f 2) p db"
        using that False Some
        by (simp add: webhook_route_def handleChargeRefunded_def pay_UpdateStatus_eq plan_SetPlan_snd refunded_db_def freed_db_def status_db_def
            split: option.split)
      then show ?thesis using look [OF Some] by blast
    qed (use that False in \<open>simp add: webhook_route_def handleChargeRefunded_def\<close>)
  qed (use that in \<open>auto simp: webhook_route_def handleChargeRefunded_def pay_UpdateStatus_eq split: option.split\<close>)
  moreover have "?r = db" if "ev_Type event \<noteq> ''checkout.session.completed''" "ev_Type event \<noteq> ''customer.subscription.deleted''"
      "ev_Type event \<noteq> ''checkout.session.expired''" "ev_Type event \<noteq> ''charge.refunded''"
    using that by (simp add: webhook_route_def handleInvoicePaymentFailed_def)
  ultimately show thesis using that by metis
qed

lemma route_events [simp]: "webhook_events (snd (webhook_route svc f now event db)) = webhook_events db"
  by (rule webhook_route_cases [of svc f now event db])
    (simp_all add: completed_db_def freed_db_def status_db_def refunded_db_def Let_def split: option.split)

section \<open>Deliveries\<close>

type_synonym delivery = "faults \<times> time \<times> string option \<times> string"

definition deliver :: "paymentService \<Rightarrow> delivery \<Rightarrow> pay_db \<Rightarrow> pay_db" where
  "deliver svc d db = (case d of (f, now, body, sig) \<Rightarrow> snd (handle_Webhook svc f now body sig db))"

definition delivery_event :: "paymentService \<Rightarrow> delivery \<Rightarrow> stripeWebhookEvent option" where
  "delivery_event svc d = (case d of (f, now, body, sig) \<Rightarrow>
     (case body of None \<Rightarrow> None | Some b \<Rightarrow> ps_unmarshal svc (take 1048576 b)))"

text \<open>A delivery that passes the checks and whose event is recorded.\<close>

definition accepted :: "paymentService \<Rightarrow> delivery \<Rightarrow> bool" where
  "accepted svc d = (case d of (f, now, body, sig) \<Rightarrow>
     (case body of None \<Rightarrow> False
      | Some b \<Rightarrow> sig \<noteq> '''' \<and> VerifyStripeSignature (ps_hmac svc) now (take 1048576 b) sig (ps_webhookSecret svc)
          \<and> (case ps_unmarshal svc (take 1048576 b) of None \<Rightarrow> False | Some event \<Rightarrow> ev_ID event \<noteq> '''') \<and> \<not> f 0))"

lemma handle_Webhook_state:
  "snd (handle_Webhook svc f now body sig db) =
     (case body of None \<Rightarrow> db | Some b \<Rightarrow> if sig = '''' then db else snd (HandleWebhook svc f now (take 1048576 b) sig db))"
  by (simp add: handle_Webhook_def split: option.split prod.split)

text \<open>In production mode a delivery that is not accepted or repeats an event changes nothing.\<close>

lemma deliver_eq:
  assumes "ps_stripe svc \<noteq> None"
  shows "deliver svc d db =
    (if accepted svc d then
       (case delivery_event svc d of None \<Rightarrow> db
        | Some event \<Rightarrow> if ev_ID event \<in> set (webhook_events db) then db
            else snd (webhook_route svc (\<lambda>i. fst d (i + 1)) (fst (snd d)) event
                   (db\<lparr>webhook_events := webhook_events db @ [ev_ID event]\<rparr>)))
     else db)"
proof -
  obtain f now body sig where d: "d = (f, now, body, sig)" by (cases d) auto
  show ?thesis
  proof (cases body)
    case (Some b)
    show ?thesis unfolding d Some
      using assms by (auto simp: deliver_def accepted_def delivery_event_def handle_Webhook_state HandleWebhook_def
          RecordWebhookEvent_def split: option.split)
  qed (simp add: d deliver_def accepted_def handle_Webhook_state)
qed

lemma deliver_records:
  assumes "ps_stripe svc \<noteq> None" and "accepted svc d" and "delivery_event svc d = Some event"
  shows "ev_ID event \<in> set (webhook_events (deliver svc d db))"
  using assms by (simp add: deliver_eq)

lemma deliver_keeps:
  assumes "ps_stripe svc \<noteq> None"
  shows "set (webhook_events db) \<subseteq> set (webhook_events (deliver svc d db))"
  by (auto simp: deliver_eq [OF assms] split: option.split)

lemma run_keeps:
  assumes "ps_stripe svc \<noteq> None"
  shows "set (webhook_events db) \<subseteq> set (webhook_events (fold (deliver svc) ds db))"
proof (induction ds arbitrary: db)
  case (Cons d ds)
  show ?case using deliver_keeps [OF assms, of db d] Cons [of "deliver svc d db"] by auto
qed simp

section \<open>The signature header\<close>

lemma header_pair:
  assumes "k \<noteq> ''''" and "CHR ''='' \<notin> set k" and "\<forall>c \<in> set k \<union> set v. printable c"
  shows "str_Index (TrimSpace (k @ ''='' @ v)) ''='' = Some (length k)"
    and "TrimSpace (take (length k) (TrimSpace (k @ ''='' @ v))) = k"
    and "TrimSpace (drop (length k + 1) (TrimSpace (k @ ''='' @ v))) = v"
proof -
  have t: "TrimSpace (k @ CHR ''='' # v) = k @ CHR ''='' # v"
    using assms(3) by (intro TrimSpace_printable) (auto simp: printable_def)
  have "str_Index (k @ CHR ''='' # v) ''='' = Some (length k)" using assms(2)
    by (induction k) (auto simp: str_Index_Cons has_prefix_def)
  then show "str_Index (TrimSpace (k @ ''='' @ v)) ''='' = Some (length k)" by (simp add: t)
  show "TrimSpace (take (length k) (TrimSpace (k @ ''='' @ v))) = k"
    and "TrimSpace (drop (length k + 1) (TrimSpace (k @ ''='' @ v))) = v"
    using assms(3) by (simp_all add: t TrimSpace_printable)
qed

lemma parse_header:
  assumes "\<forall>c \<in> set t \<union> set s. printable c \<and> c \<noteq> CHR '',''"
  shows "parseStripeSignatureHeader (''t='' @ t @ '',v1='' @ s) = [(''t'', t), (''v1'', s)]"
proof -
  have "split_char (CHR '','') (''t='' @ t @ '',v1='' @ s) = [''t'' @ ''='' @ t, ''v1'' @ ''='' @ s]"
  proof -
    have "CHR '','' \<notin> set t" "CHR '','' \<notin> set s" using assms by auto
    then show ?thesis by (simp add: split_char_append split_char_none)
  qed
  moreover have "\<forall>c \<in> set ''t'' \<union> set t. printable c" "\<forall>c \<in> set ''v1'' \<union> set s. printable c"
    using assms by (auto simp: printable_def)
  ultimately show ?thesis using header_pair [of "''t''" t] header_pair [of "''v1''" s]
    by (simp add: parseStripeSignatureHeader_def Let_def)
qed

lemma hex_encode_printable: "\<forall>b \<in> set bs. b < 256 \<Longrightarrow> c \<in> set (hex_encode bs) \<Longrightarrow> printable c \<and> c \<noteq> CHR '',''"
proof -
  have "printable (hex_digit n) \<and> hex_digit n \<noteq> CHR '',''" if "n < 16" for n
  proof -
    have "list_all (\<lambda>n. printable (hex_digit n) \<and> hex_digit n \<noteq> CHR '','') [0..<16]" by code_simp
    then show ?thesis using that by (simp add: list_all_iff)
  qed
  then show "\<forall>b \<in> set bs. b < 256 \<Longrightarrow> c \<in> set (hex_encode bs) \<Longrightarrow> printable c \<and> c \<noteq> CHR '',''"
    by (auto simp: hex_encode_def)
qed

lemma VerifyStripeSignature_iff:
  "VerifyStripeSignature hmac now payload header secret \<longleftrightarrow> secret \<noteq> '''' \<and>
     (\<exists>t. map_of (parseStripeSignatureHeader header) ''t'' = Some t
        \<and> map_of (parseStripeSignatureHeader header) ''v1'' = Some (hex_encode (hmac secret (t @ ''.'' @ payload)))
        \<and> (\<forall>ts. Atoi t = Some ts \<longrightarrow> wrap64 (now div second - ts) \<le> 300))"
  by (auto simp: VerifyStripeSignature_def Let_def split: option.split)

section \<open>Plans are backed by payments\<close>

datatype pay_op = PayCheckout bool time string "uuid option" "(string \<times> string \<times> string) option" | PayWebhook delivery

fun pay_exec :: "paymentService \<Rightarrow> pay_op \<Rightarrow> pay_db \<Rightarrow> pay_db" where
  "pay_exec svc (PayCheckout fault now newID user body) db = snd (handle_CreateCheckout svc fault now newID user body db)"
| "pay_exec svc (PayWebhook d) db = deliver svc d db"

text \<open>Every payment has an identifier of its own, is of a user and has the price of its plan, and a user with a paid plan has a
  payment for that plan whose status is completed.\<close>

definition payment_ok :: "paymentService \<Rightarrow> Payment \<Rightarrow> bool" where
  "payment_ok svc p \<longleftrightarrow> map_of planAmounts (pm_Plan p) = Some (pm_AmountCents p) \<and> (\<exists>u. pm_UserID p = ps_showUUID svc u)"

definition backs :: "paymentService \<Rightarrow> plan_user \<Rightarrow> Payment \<Rightarrow> bool" where
  "backs svc r p \<longleftrightarrow> pm_UserID p = ps_showUUID svc (pu_ID r) \<and> pu_Plan r = Some (pm_Plan p) \<and> pm_Status p = ''completed''"

definition plan_backed :: "paymentService \<Rightarrow> Payment list \<Rightarrow> plan_user \<Rightarrow> bool" where
  "plan_backed svc ps r \<longleftrightarrow> pu_Plan r = None \<or> pu_Plan r = Some ''free'' \<or> (\<exists>p \<in> set ps. backs svc r p)"

definition plans_backed :: "paymentService \<Rightarrow> pay_db \<Rightarrow> bool" where
  "plans_backed svc db \<longleftrightarrow> distinct (map pm_ID (payments db)) \<and> (\<forall>p \<in> set (payments db). payment_ok svc p)
     \<and> (\<forall>r \<in> set (pay_users db). plan_backed svc (payments db) r)"

lemma plan_backed_update:
  assumes "plan_backed svc ps r" and "\<And>p. p \<in> set ps \<Longrightarrow> P p \<Longrightarrow> backs svc r p \<Longrightarrow> backs svc r (g p)"
  shows "plan_backed svc (update_rows P g ps) r"
proof (cases "\<exists>p \<in> set ps. backs svc r p")
  case True
  then obtain p where p: "p \<in> set ps" "backs svc r p" by blast
  then have "backs svc r (if P p then g p else p)" using assms(2) by simp
  moreover have "(if P p then g p else p) \<in> set (update_rows P g ps)" using p(1) by (auto simp: set_update_rows)
  ultimately show ?thesis unfolding plan_backed_def by blast
qed (use assms(1) in \<open>auto simp: plan_backed_def\<close>)

text \<open>A change of payments and users that keeps identifiers, users, plans and prices.\<close>

lemma plans_backed_change:
  assumes "plans_backed svc db"
    and "\<And>p. pm_ID (g p) = pm_ID p \<and> pm_UserID (g p) = pm_UserID p \<and> pm_Plan (g p) = pm_Plan p \<and> pm_AmountCents (g p) = pm_AmountCents p"
    and "\<And>r. r \<in> set (pay_users db) \<Longrightarrow> plan_backed svc (payments db) r \<Longrightarrow>
      plan_backed svc (update_rows P g (payments db)) (if Q r then h r else r)"
  shows "plans_backed svc (db\<lparr>payments := update_rows P g (payments db), pay_users := update_rows Q h (pay_users db)\<rparr>)"
proof -
  have "payment_ok svc p" if "p \<in> set (update_rows P g (payments db))" for p
    using assms(1,2) that by (auto simp: set_update_rows plans_backed_def payment_ok_def split: if_splits)
  moreover have "map pm_ID (update_rows P g (payments db)) = map pm_ID (payments db)"
    using assms(2) by (intro map_update_rows) simp
  moreover have "plan_backed svc (update_rows P g (payments db)) r" if "r \<in> set (update_rows Q h (pay_users db))" for r
    using that assms(1,3) unfolding set_update_rows plans_backed_def by blast
  ultimately show ?thesis using assms(1) by (simp add: plans_backed_def)
qed

lemma plans_backed_freed: "plans_backed svc db \<Longrightarrow> plans_backed svc (freed_db u db)"
  using plans_backed_change [of svc db id "\<lambda>_. False" "\<lambda>r. pu_ID r = u" "\<lambda>r. r\<lparr>pu_Plan := Some ''free''\<rparr>"]
  by (auto simp: freed_db_def plan_backed_def update_rows_none)

lemma plans_backed_expired:
  assumes "plans_backed svc db" and "p \<in> set (payments db)" and "pm_Status p = ''pending''"
  shows "plans_backed svc (status_db (pm_ID p) st db)"
proof -
  have "q = p" if "q \<in> set (payments db)" "pm_ID q = pm_ID p" for q
    using unique_row assms(1,2) that by (metis plans_backed_def)
  moreover have "\<not> backs svc r p" for r using assms(3) by (simp add: backs_def)
  ultimately have "\<not> backs svc r q" if "q \<in> set (payments db)" "pm_ID q = pm_ID p" for r q using that by metis
  then have "plan_backed svc (update_rows (\<lambda>r. pm_ID r = pm_ID p) (\<lambda>r. r\<lparr>pm_Status := st\<rparr>) (payments db)) r"
    if "plan_backed svc (payments db) r" for r
    by (intro plan_backed_update [OF that]) blast
  then show ?thesis
    using plans_backed_change [OF assms(1), of "\<lambda>r. r\<lparr>pm_Status := st\<rparr>" "\<lambda>r. pm_ID r = pm_ID p" "\<lambda>_. False" id]
    by (simp add: status_db_def update_rows_none)
qed

text \<open>A refund takes the payment from its user only, who is downgraded.\<close>

lemma plans_backed_refunded:
  assumes "plans_backed svc db" and "p \<in> set (payments db)" and "\<And>v. ps_parseUUID svc (ps_showUUID svc v) = Some v"
  shows "plans_backed svc (refunded_db svc False p db)"
proof -
  obtain u where u: "pm_UserID p = ps_showUUID svc u" using assms(1,2) by (auto simp: plans_backed_def payment_ok_def)
  have one: "q = p" if "q \<in> set (payments db)" "pm_ID q = pm_ID p" for q
    using unique_row assms(1,2) that by (metis plans_backed_def)
  have "plan_backed svc (update_rows (\<lambda>r. pm_ID r = pm_ID p) (\<lambda>r. r\<lparr>pm_Status := ''refunded''\<rparr>) (payments db))
      (if pu_ID r = u then r\<lparr>pu_Plan := Some ''free''\<rparr> else r)" if r: "plan_backed svc (payments db) r" for r
  proof (cases "pu_ID r = u")
    case False
    then have "\<not> backs svc r p" using assms(3) u by (metis backs_def option.inject)
    then show ?thesis using False one by (simp, intro plan_backed_update [OF r]) metis
  qed (simp add: plan_backed_def)
  then show ?thesis
    using plans_backed_change [OF assms(1), of "\<lambda>r. r\<lparr>pm_Status := ''refunded''\<rparr>" "\<lambda>r. pm_ID r = pm_ID p" "\<lambda>r. pu_ID r = u"
      "\<lambda>r. r\<lparr>pu_Plan := Some ''free''\<rparr>"]
    by (simp add: refunded_db_def u assms(3) freed_db_def status_db_def)
qed

lemma plans_backed_completed:
  assumes "plans_backed svc db" and "p \<in> set (payments db)" and "ps_parseUUID svc (pm_UserID p) = Some u"
    and "\<And>v. ps_parseUUID svc (ps_showUUID svc v) = Some v"
  shows "plans_backed svc (completed_db now (pm_ID p) (pm_Plan p) u db)"
  unfolding completed_db_def
proof (rule plans_backed_change [OF assms(1)])
  let ?g = "\<lambda>r. r\<lparr>pm_Status := ''completed'', pm_CompletedAt := Some now\<rparr>" and ?P = "\<lambda>r. pm_ID r = pm_ID p"
  fix r assume r: "plan_backed svc (payments db) r"
  have u: "pm_UserID p = ps_showUUID svc u" using assms by (auto simp: plans_backed_def payment_ok_def)
  have "?g p \<in> set (update_rows ?P ?g (payments db))" using assms(2) by (auto simp: set_update_rows)
  then show "plan_backed svc (update_rows ?P ?g (payments db)) (if pu_ID r = u then r\<lparr>pu_Plan := Some (pm_Plan p)\<rparr> else r)"
    using u plan_backed_update [OF r, of ?P ?g] by (auto simp: plan_backed_def backs_def intro!: bexI [of _ "?g p"])
qed simp

lemma plans_backed_events [simp]: "plans_backed svc (db\<lparr>webhook_events := es\<rparr>) = plans_backed svc db"
  by (simp add: plans_backed_def)

lemma plans_backed_webhook:
  assumes "plans_backed svc db" and "\<And>v. ps_parseUUID svc (ps_showUUID svc v) = Some v" and "\<not> f 2"
  shows "plans_backed svc (snd (webhook_route svc f now event db))"
  by (rule webhook_route_cases [of svc f now event db])
    (use assms in \<open>auto simp: plans_backed_freed plans_backed_expired plans_backed_completed plans_backed_refunded\<close>)

lemma plans_backed_deliver:
  assumes "plans_backed svc db" and "\<And>v. ps_parseUUID svc (ps_showUUID svc v) = Some v" and "\<not> fst d 3"
  shows "plans_backed svc (deliver svc d db)"
proof -
  obtain f now body sig where d: "d = (f, now, body, sig)" by (cases d) auto
  have route: "plans_backed svc (snd (webhook_route svc (\<lambda>i. f (i + 1)) now event db'))" if "plans_backed svc db'" for event db'
    using plans_backed_webhook [OF that assms(2), of "\<lambda>i. f (i + 1)"] assms(3) d by (simp add: numeral_eq_Suc)
  have test: "plans_backed svc (snd (handleTestWebhook svc f now payload db))" for payload
    using assms(1) route
    by (auto simp: handleTestWebhook_def RecordWebhookEvent_def Let_def split: option.split)
  show ?thesis
  proof (cases "ps_stripe svc")
    case None
    then show ?thesis using assms(1) test by (simp add: d deliver_def handle_Webhook_state HandleWebhook_def split: option.split)
  next
    case (Some c)
    then show ?thesis using assms(1) route d by (auto simp: deliver_eq split: option.split)
  qed
qed

lemma plans_backed_checkout:
  assumes "plans_backed svc db"
  shows "plans_backed svc (snd (handle_CreateCheckout svc fault now newID user body db))"
proof -
  have add: "plans_backed svc (snd (CreatePayment svc fault now newID p db))"
    if "map_of planAmounts (pm_Plan p) = Some (pm_AmountCents p)" for p
  proof -
    have "\<forall>r \<in> set (pay_users db). plan_backed svc (payments db @ [q]) r" for q
      using assms by (auto simp: plans_backed_def plan_backed_def)
    then show ?thesis using assms that
      by (auto simp: CreatePayment_def plans_backed_def payment_ok_def find_row_None_iff split: option.split)
  qed
  have session: "plans_backed svc (snd (CreateCheckoutSession svc fault now newID u req db))" for u req
  proof (cases "map_of planAmounts (fst req)")
    case (Some amount)
    then show ?thesis using add assms
      by (auto simp: CreateCheckoutSession_def Let_def case_prod_unfold split: option.split bool.split)
  qed (simp add: CreateCheckoutSession_def case_prod_unfold assms)
  show ?thesis
    using session [of "ps_showUUID svc (the user)" "the body"] assms
    by (cases user; cases body) (auto simp: handle_CreateCheckout_def split: prod.split sum.split)
qed

lemma plans_backed_run:
  assumes "plans_backed svc db" and "\<And>v. ps_parseUUID svc (ps_showUUID svc v) = Some v"
    and "\<forall>d. PayWebhook d \<in> set ops \<longrightarrow> \<not> fst d 3"
  shows "plans_backed svc (fold (pay_exec svc) ops db)"
  using assms(1,3)
proof (induction ops arbitrary: db)
  case (Cons op ops)
  then have "plans_backed svc (pay_exec svc op db)"
    by (cases op) (auto simp: plans_backed_checkout plans_backed_deliver assms(2))
  then show ?case using Cons.IH Cons.prems(2) by simp
qed simp

section \<open>Properties\<close>

text \<open>C17: a webhook event takes effect at most once. In production mode, once a delivery has been
  accepted, any later delivery of an event with the same identifier can be dropped from the sequence of
  deliveries without changing the resulting tables, whatever fails in between, whoever sends it and
  however often.\<close>

theorem webhook_at_most_once:
  assumes "ps_stripe svc \<noteq> None" and "accepted svc d1" and "delivery_event svc d1 = Some e1"
    and "delivery_event svc d2 = Some e2" and "ev_ID e2 = ev_ID e1"
  shows "fold (deliver svc) (ds1 @ d1 # ds2 @ d2 # ds3) db = fold (deliver svc) (ds1 @ d1 # ds2 @ ds3) db"
proof -
  let ?db1 = "deliver svc d1 (fold (deliver svc) ds1 db)"
  have "ev_ID e1 \<in> set (webhook_events (fold (deliver svc) ds2 ?db1))"
    using deliver_records [OF assms(1-3)] run_keeps [OF assms(1)] by blast
  then have "deliver svc d2 (fold (deliver svc) ds2 ?db1) = fold (deliver svc) ds2 ?db1"
    using assms(1,4,5) by (simp add: deliver_eq)
  then show ?thesis by simp
qed

definition demo_event :: stripeWebhookEvent where
  "demo_event = \<lparr>ev_ID = ''evt'', ev_Type = ''checkout.session.completed'', ev_ObjectID = ''cs'', ev_ClientReferenceID = ''''\<rparr>"

definition demo_pay_svc :: paymentService where
  "demo_pay_svc = \<lparr>ps_stripe = Some (\<lambda>u p s c. Some (''cs'', ''url'')), ps_webhookSecret = ''k'', ps_hmac = (\<lambda>k m. [7]),
     ps_unmarshal = (\<lambda>b. Some demo_event), ps_parseUUID = (\<lambda>s. Some (length s)), ps_showUUID = (\<lambda>n. replicate n (CHR ''x''))\<rparr>"

definition demo_delivery :: delivery where
  "demo_delivery = (no_faults, 0, Some ''body'', ''t=0,v1=07'')"

lemma demo_delivery: "accepted demo_pay_svc demo_delivery" "delivery_event demo_pay_svc demo_delivery = Some demo_event"
proof -
  have "printable (CHR ''0'')" "printable (CHR ''7'')" "Atoi ''0'' = Some 0" "wrap64 0 = 0" "hex_encode [7] = ''07''"
    by code_simp+
  then have "VerifyStripeSignature (ps_hmac demo_pay_svc) 0 ''body'' ''t=0,v1=07'' (ps_webhookSecret demo_pay_svc)"
    using parse_header [of "''0''" "''07''"] by (simp add: VerifyStripeSignature_iff demo_pay_svc_def)
  then show "accepted demo_pay_svc demo_delivery" "delivery_event demo_pay_svc demo_delivery = Some demo_event"
    by (simp_all add: accepted_def delivery_event_def demo_delivery_def take_all)
      (simp_all add: demo_pay_svc_def demo_event_def)
qed

definition demo_pay_db :: pay_db where
  "demo_pay_db = \<lparr>payments = [\<lparr>pm_ID = ''p'', pm_UserID = ''x'', pm_StripeSessionID = ''cs'', pm_AmountCents = 499,
     pm_Currency = ''usd'', pm_Status = ''pending'', pm_Plan = ''pro'', pm_CreatedAt = 0, pm_CompletedAt = None\<rparr>],
     webhook_events = [], pay_users = [\<lparr>pu_ID = 1, pu_Plan = Some ''free''\<rparr>]\<rparr>"

theorem webhook_at_most_once_witness:
  "fold (deliver demo_pay_svc) [demo_delivery, demo_delivery] demo_pay_db = deliver demo_pay_svc demo_delivery demo_pay_db
   \<and> ps_stripe demo_pay_svc \<noteq> None"
proof -
  have s: "ps_stripe demo_pay_svc \<noteq> None" by (simp add: demo_pay_svc_def)
  show ?thesis using webhook_at_most_once [OF s demo_delivery demo_delivery(2) refl, of "[]" "[]" "[]" demo_pay_db] s by simp
qed

text \<open>C18: the webhook trusts exactly what is signed. In production mode a request changes the tables only
  if a secret is configured and the header carries the HMAC of its timestamp and of the body under that
  secret, and the timestamp is at most 300 seconds old when it is a number (for clocks and timestamps
  whose difference does not overflow). Conversely a header in Stripe's format with the right HMAC and a
  numeric, fresh timestamp passes.\<close>

theorem webhook_signed:
  assumes "ps_stripe svc \<noteq> None" and "\<And>k m. \<forall>b \<in> set (ps_hmac svc k m). b < 256"
    and "0 \<le> now" and "now < 2 ^ 90"
  shows "(snd (handle_Webhook svc f now (Some body) header db) \<noteq> db \<longrightarrow>
      ps_webhookSecret svc \<noteq> '''' \<and> (\<exists>t. map_of (parseStripeSignatureHeader header) ''t'' = Some t
        \<and> map_of (parseStripeSignatureHeader header) ''v1''
            = Some (hex_encode (ps_hmac svc (ps_webhookSecret svc) (t @ ''.'' @ take 1048576 body)))
        \<and> (\<forall>ts. Atoi t = Some ts \<and> 0 \<le> ts \<longrightarrow> now div second - ts \<le> 300)))
    \<and> (\<forall>t ts. ps_webhookSecret svc \<noteq> '''' \<and> Atoi t = Some ts \<and> (\<forall>c \<in> set t. printable c \<and> c \<noteq> CHR '','')
         \<and> 0 \<le> ts \<and> now div second - ts \<le> 300 \<longrightarrow>
         VerifyStripeSignature (ps_hmac svc) now payload
           (''t='' @ t @ '',v1='' @ hex_encode (ps_hmac svc (ps_webhookSecret svc) (t @ ''.'' @ payload))) (ps_webhookSecret svc))"
proof -
  have sec: "0 \<le> now div second" "now div second < 2 ^ 62"
    using zdiv_mono1 [of now "2 ^ 90" second] zdiv_mono1 [of 0 now second] assms(3,4) by simp_all
  have fresh: "wrap64 (now div second - ts) = now div second - ts" if "Atoi t = Some ts" "0 \<le> ts" for t ts
    using Atoi_bounds [OF that(1)] that(2) sec by (intro wrap64_id) simp_all
  show ?thesis
  proof (intro conjI impI allI)
    assume c: "snd (handle_Webhook svc f now (Some body) header db) \<noteq> db"
    then have v: "VerifyStripeSignature (ps_hmac svc) now (take 1048576 body) header (ps_webhookSecret svc)"
      using assms(1) by (auto simp: handle_Webhook_state HandleWebhook_def split: if_splits)
    then show "ps_webhookSecret svc \<noteq> ''''" by (simp add: VerifyStripeSignature_iff)
    show "\<exists>t. map_of (parseStripeSignatureHeader header) ''t'' = Some t
        \<and> map_of (parseStripeSignatureHeader header) ''v1''
            = Some (hex_encode (ps_hmac svc (ps_webhookSecret svc) (t @ ''.'' @ take 1048576 body)))
        \<and> (\<forall>ts. Atoi t = Some ts \<and> 0 \<le> ts \<longrightarrow> now div second - ts \<le> 300)"
      using v fresh by (auto simp: VerifyStripeSignature_iff)
  next
    fix t ts
    assume a: "ps_webhookSecret svc \<noteq> '''' \<and> Atoi t = Some ts \<and> (\<forall>c \<in> set t. printable c \<and> c \<noteq> CHR '','')
         \<and> 0 \<le> ts \<and> now div second - ts \<le> 300"
    let ?s = "hex_encode (ps_hmac svc (ps_webhookSecret svc) (t @ ''.'' @ payload))"
    have "printable c \<and> c \<noteq> CHR '',''" if c: "c \<in> set t \<union> set ?s" for c
    proof (cases "c \<in> set t")
      case False
      then have "c \<in> set ?s" using c by simp
      then show ?thesis by (rule hex_encode_printable [OF assms(2)])
    qed (use a in simp)
    then have "\<forall>c \<in> set t \<union> set ?s. printable c \<and> c \<noteq> CHR '',''" by (rule ballI)
    then have p: "parseStripeSignatureHeader (''t='' @ t @ '',v1='' @ ?s) = [(''t'', t), (''v1'', ?s)]" by (rule parse_header)
    have secret: "ps_webhookSecret svc \<noteq> ''''" and "Atoi t = Some ts" and "now div second - ts \<le> 300" "0 \<le> ts" using a by blast+
    then have "\<forall>ts. Atoi t = Some ts \<longrightarrow> wrap64 (now div second - ts) \<le> 300" using fresh [of t ts] by (metis option.inject)
    then show "VerifyStripeSignature (ps_hmac svc) now payload (''t='' @ t @ '',v1='' @ ?s) (ps_webhookSecret svc)"
      unfolding VerifyStripeSignature_iff p by (intro conjI exI [of _ t]) (rule secret | assumption | simp)+
  qed
qed

theorem webhook_signed_witness:
  "VerifyStripeSignature (ps_hmac demo_pay_svc) (250 * second) ''body'' (''t=7,v1='' @ hex_encode [7]) (ps_webhookSecret demo_pay_svc)"
proof -
  have "ps_stripe demo_pay_svc \<noteq> None" "\<And>k m. \<forall>b \<in> set (ps_hmac demo_pay_svc k m). b < 256" "ps_webhookSecret demo_pay_svc = ''k''"
      "\<And>k m. ps_hmac demo_pay_svc k m = [7]"
    by (simp_all add: demo_pay_svc_def)
  moreover have "Atoi ''7'' = Some 7" by code_simp
  moreover have "printable (CHR ''7'')" by code_simp
  ultimately show ?thesis
    using webhook_signed [of demo_pay_svc "250 * second" no_faults "''body''" "''h''" demo_pay_db "''body''",
        THEN conjunct2, rule_format, of "''7''" 7] by simp
qed



section \<open>Defects\<close>

text \<open>An event is recorded before it is processed and the record is kept when processing fails: if the
  lookup of the payment fails in the first delivery, the redelivery with which Stripe answers the error
  is skipped with success and the payment stays as it was.\<close>

theorem webhook_lost_event:
  assumes "ps_stripe svc \<noteq> None" and "accepted svc (f, now, body, sig)" and "accepted svc (f', now', body', sig')"
    and "delivery_event svc (f, now, body, sig) = Some e" and "delivery_event svc (f', now', body', sig') = Some e"
    and "ev_Type e = ''checkout.session.completed''" and "ev_ID e \<notin> set (webhook_events db)" and "f 1"
  shows "let db1 = snd (handle_Webhook svc f now body sig db) in
    (\<exists>c m. fst (handle_Webhook svc f now body sig db) = HttpError 500 c m)
    \<and> handle_Webhook svc f' now' body' sig' db1 = (JSON 200 ''processed'', db1)
    \<and> payments db1 = payments db \<and> pay_users db1 = pay_users db"
proof -
  obtain b b' where b: "body = Some b" "body' = Some b'" using assms(2,3) by (auto simp: accepted_def split: option.splits)
  define db1 where "db1 = db\<lparr>webhook_events := webhook_events db @ [ev_ID e]\<rparr>"
  have "\<exists>m. handleCheckoutCompleted svc (\<lambda>i. f (i + 1)) now e db1 = (Some (OtherError m), db1)"
    using assms(8) by (simp add: handleCheckoutCompleted_def completePayment_cases GetByStripeSessionID_def)
  then obtain m where "HandleWebhook svc f now (take 1048576 b) sig db = (Some (OtherError m), db1)"
    using assms(1,2,4,6,7) b
    by (auto simp: HandleWebhook_def accepted_def delivery_event_def RecordWebhookEvent_def webhook_route_def db1_def)
  then have 1: "handle_Webhook svc f now body sig db = (HttpError 500 ''webhook_error'' ''Webhook processing failed'', db1)"
    using assms(2) b by (auto simp: handle_Webhook_def accepted_def)
  have "HandleWebhook svc f' now' (take 1048576 b') sig' db1 = (None, db1)"
    using assms(1,3,5) b by (auto simp: HandleWebhook_def accepted_def delivery_event_def RecordWebhookEvent_def db1_def)
  then have 2: "handle_Webhook svc f' now' body' sig' db1 = (JSON 200 ''processed'', db1)"
    using assms(3) b by (auto simp: handle_Webhook_def accepted_def)
  show ?thesis using 1 2 by (auto simp: db1_def)
qed

text \<open>Any signed-in user can take any plan without a payment.\<close>

theorem plan_upgrade_unpaid:
  assumes "find_row (\<lambda>r. pu_ID r = u) users = Some r"
  shows "\<exists>b. handle_UpgradePlan no_faults (Some u) (Some (''lifetime'', '''')) users quotas blobs
    = (JSON 200 b, update_rows (\<lambda>r. pu_ID r = u) (\<lambda>r. r\<lparr>pu_Plan := Some ''lifetime''\<rparr>) users)"
  using assms
  by (auto simp: handle_UpgradePlan_def UpgradePlan_def ValidPlans_def plan_GetPlan_def plan_SetPlan_def split: option.split)

text \<open>The plan endpoint refuses to downgrade a lifetime plan, a completed checkout of the pro plan does not.\<close>

theorem lifetime_plan_lost:
  assumes "find_row (\<lambda>r. pm_StripeSessionID r = sid) (payments db) = Some p" and "pm_Status p \<noteq> ''completed''"
    and "pm_Plan p = ''pro''" and "ps_parseUUID svc (pm_UserID p) = Some u" and "r \<in> set (pay_users db)" and "pu_ID r = u"
  shows "r\<lparr>pu_Plan := Some ''pro''\<rparr> \<in> set (pay_users (snd (completePayment svc no_faults now sid db)))"
    and "pu_Plan r = Some ''lifetime'' \<Longrightarrow> find_row (\<lambda>r. pu_ID r = u) (pay_users db) = Some r \<Longrightarrow>
      snd (UpgradePlan no_faults u ''pro'' ref (pay_users db)) = pay_users db"
  using assms
  by (auto simp: completePayment_cases GetByStripeSessionID_def completed_db_def set_update_rows image_iff UpgradePlan_def
      ValidPlans_def plan_GetPlan_def)

end
