(* ===== verification/Validation.thy ===== *)
theory Validation
  imports Http Go_Strings
begin

text \<open>
  The validators of \<^verbatim>\<open>internal/handler/validation.go\<close>. A validator returns the message of its
  error or \<open>None\<close>. The two regular expressions are written out as recursive predicates; that the one for
  email addresses accepts what the pattern describes is \<open>email_matches_iff\<close>.
\<close>

definition is_letter :: "char \<Rightarrow> bool" where
  "is_letter c = (let n = of_char c :: nat in 65 \<le> n \<and> n \<le> 90 \<or> 97 \<le> n \<and> n \<le> 122)"

definition is_digit :: "char \<Rightarrow> bool" where
  "is_digit c = (let n = of_char c :: nat in 48 \<le> n \<and> n \<le> 57)"

definition email_local :: "char \<Rightarrow> bool" where
  "email_local c \<longleftrightarrow> is_letter c \<or> is_digit c \<or> c \<in> set ''._%+-''"

definition email_domain :: "char \<Rightarrow> bool" where
  "email_domain c \<longleftrightarrow> is_letter c \<or> is_digit c \<or> c \<in> set ''.-''"

definition email_matches :: "string \<Rightarrow> bool" where
  "email_matches s =
     (case str_IndexAny s {CHR ''@''} of
        None \<Rightarrow> False
      | Some i \<Rightarrow>
          let l = take i s; r = drop (i + 1) s in
          l \<noteq> [] \<and> list_all email_local l \<and>
          (case str_LastIndexChar r (CHR ''.'') of
             None \<Rightarrow> False
           | Some j \<Rightarrow> 0 < j \<and> list_all email_domain (take j r)
               \<and> 2 \<le> length (drop (j + 1) r) \<and> list_all is_letter (drop (j + 1) r)))"

definition validateEmail :: "string \<Rightarrow> string option" where
  "validateEmail email =
     (let e = TrimSpace email in
      if e = '''' then Some ''Email is required''
      else if length e > 254 then Some ''Email is too long (max 254 characters)''
      else if \<not> email_matches e then Some ''Email format is invalid''
      else None)"

definition validateUUID :: "(string \<Rightarrow> 'u option) \<Rightarrow> string \<Rightarrow> string option" where
  "validateUUID parse s =
     (if s = '''' then Some ''ID is required'' else if parse s = None then Some ''Invalid UUID format'' else None)"

definition validatePagination :: "int \<Rightarrow> int \<Rightarrow> string option" where
  "validatePagination limit offset =
     (if limit < 0 \<or> offset < 0 then Some ''Limit and offset must be non-negative''
      else if limit > 100 then Some ''Limit must not exceed 100'' else None)"

definition validateRequired :: "string \<Rightarrow> string \<Rightarrow> string option" where
  "validateRequired v fieldName = (if TrimSpace v = '''' then Some (fieldName @ '' is required'') else None)"

definition username_char :: "char \<Rightarrow> bool" where
  "username_char c \<longleftrightarrow> is_letter c \<or> is_digit c \<or> c \<in> set ''_-''"

definition validateUsername :: "string \<Rightarrow> string option" where
  "validateUsername username =
     (let u = TrimSpace username in
      if u = '''' then Some ''Username is required''
      else if length u < 3 then Some ''Username must be at least 3 characters''
      else if length u > 50 then Some ''Username must be at most 50 characters''
      else if \<not> list_all username_char u then
        Some ''Username must contain only alphanumeric characters, underscores, and hyphens''
      else None)"

text \<open>The validation error body: status 422. Its message is always \<^verbatim>\<open>Validation failed\<close> and the reason is a field of
  its own; the answer here carries the reason.\<close>

definition writeValidationError :: "string \<Rightarrow> 'a response" where
  "writeValidationError msg = HttpError 422 ''validation_error'' msg"

lemma str_IndexAny_split:
  "str_IndexAny s {c} = Some i \<longleftrightarrow> (\<exists>a b. s = a @ c # b \<and> c \<notin> set a \<and> i = length a)"
proof (induction s arbitrary: i)
  case (Cons x s)
  show ?case
  proof (cases "x = c")
    case True
    then show ?thesis by (auto simp: Cons_eq_append_conv)
  next
    case False
    then have "str_IndexAny (x # s) {c} = Some i \<longleftrightarrow> (\<exists>j. i = Suc j \<and> str_IndexAny s {c} = Some j)"
      by (auto simp: map_option_case split: option.split)
    also have "\<dots> \<longleftrightarrow> (\<exists>a b. s = a @ c # b \<and> c \<notin> set a \<and> i = Suc (length a))" by (auto simp: Cons.IH)
    also have "\<dots> \<longleftrightarrow> (\<exists>a b. x # s = a @ c # b \<and> c \<notin> set a \<and> i = length a)"
    proof
      assume "\<exists>a b. s = a @ c # b \<and> c \<notin> set a \<and> i = Suc (length a)"
      then obtain a b where "s = a @ c # b" "c \<notin> set a" "i = Suc (length a)" by blast
      then show "\<exists>a b. x # s = a @ c # b \<and> c \<notin> set a \<and> i = length a"
        using False by (intro exI [of _ "x # a"] exI [of _ b]) simp
    qed (use False in \<open>auto simp: Cons_eq_append_conv\<close>)
    finally show ?thesis .
  qed
qed simp

lemma str_LastIndexChar_split:
  "str_LastIndexChar s c = Some j \<longleftrightarrow> (\<exists>a b. s = a @ c # b \<and> c \<notin> set b \<and> j = length a)"
proof -
  have "str_LastIndexChar s c = Some j \<longleftrightarrow> (\<exists>i. str_IndexAny (rev s) {c} = Some i \<and> j = length s - 1 - i)"
    by (auto simp: str_LastIndexChar_def)
  also have "\<dots> \<longleftrightarrow> (\<exists>a b. rev s = a @ c # b \<and> c \<notin> set a \<and> j = length s - 1 - length a)"
    by (auto simp: str_IndexAny_split)
  also have "\<dots> \<longleftrightarrow> (\<exists>a b. s = rev b @ c # rev a \<and> c \<notin> set a \<and> j = length (rev b))"
  proof
    assume "\<exists>a b. s = rev b @ c # rev a \<and> c \<notin> set a \<and> j = length (rev b)"
    then obtain a b where "s = rev b @ c # rev a" "c \<notin> set a" "j = length (rev b)" by blast
    then show "\<exists>a b. rev s = a @ c # b \<and> c \<notin> set a \<and> j = length s - 1 - length a"
      by (intro exI [of _ a] exI [of _ b]) simp
  next
    assume "\<exists>a b. rev s = a @ c # b \<and> c \<notin> set a \<and> j = length s - 1 - length a"
    then obtain a b where r: "rev s = a @ c # b" "c \<notin> set a" "j = length s - 1 - length a" by blast
    then have "s = rev b @ c # rev a" by (simp add: rev_swap)
    then show "\<exists>a b. s = rev b @ c # rev a \<and> c \<notin> set a \<and> j = length (rev b)"
      using r by (intro exI [of _ a] exI [of _ b]) simp
  qed
  also have "\<dots> \<longleftrightarrow> (\<exists>a b. s = a @ c # b \<and> c \<notin> set b \<and> j = length a)"
    by (metis rev_rev_ident set_rev)
  finally show ?thesis .
qed

text \<open>The predicate is the pattern \<^verbatim>\<open>[a-zA-Z0-9._%+-]+@[a-zA-Z0-9.-]+.[a-zA-Z]{2,}\<close> with a literal
  last dot, anchored at both ends.\<close>

lemma email_matches_iff:
  "email_matches s \<longleftrightarrow> (\<exists>l d t. s = l @ ''@'' @ d @ ''.'' @ t \<and> l \<noteq> [] \<and> list_all email_local l \<and> d \<noteq> []
     \<and> list_all email_domain d \<and> 2 \<le> length t \<and> list_all is_letter t)" (is "?L \<longleftrightarrow> ?R")
proof
  assume ?L
  then obtain i j where i: "str_IndexAny s {CHR ''@''} = Some i" "take i s \<noteq> []" "list_all email_local (take i s)"
    and j: "str_LastIndexChar (drop (i + 1) s) (CHR ''.'') = Some j" "0 < j" "list_all email_domain (take j (drop (i + 1) s))"
      "2 \<le> length (drop (j + 1) (drop (i + 1) s))" "list_all is_letter (drop (j + 1) (drop (i + 1) s))"
    by (auto simp: email_matches_def Let_def split: option.splits)
  from i(1) obtain l r where l: "s = l @ CHR ''@'' # r" "i = length l" by (auto simp: str_IndexAny_split)
  then have "str_LastIndexChar r (CHR ''.'') = Some j" using j(1) by simp
  then obtain d t where "r = d @ CHR ''.'' # t" "j = length d" by (auto simp: str_LastIndexChar_split)
  then show ?R using l i(2,3) j(2-5) by (intro exI [of _ l] exI [of _ d] exI [of _ t]) simp
next
  assume ?R
  then obtain l d t where s: "s = l @ CHR ''@'' # d @ CHR ''.'' # t" and l: "l \<noteq> []" "list_all email_local l"
    and d: "d \<noteq> []" "list_all email_domain d" and t: "2 \<le> length t" "list_all is_letter t" by auto
  have "CHR ''@'' \<notin> set l" using l(2) by (auto simp: list_all_iff email_local_def is_letter_def is_digit_def Let_def)
  then have i: "str_IndexAny s {CHR ''@''} = Some (length l)" using s by (auto simp: str_IndexAny_split)
  have "CHR ''.'' \<notin> set t" using t(2) by (auto simp: list_all_iff is_letter_def Let_def)
  then have "str_LastIndexChar (d @ CHR ''.'' # t) (CHR ''.'') = Some (length d)" by (auto simp: str_LastIndexChar_split)
  then show ?L using i s l d t by (simp add: email_matches_def)
qed

end
