(* ===== verification/Auth.thy ===== *)
theory Auth
  imports AnyNote_Prelude Validation
begin

text \<open>
  Accounts and tokens: \<^verbatim>\<open>internal/service/auth_service.go\<close>, \<^verbatim>\<open>internal/repository/user_repository.go\<close>,
  \<^verbatim>\<open>refresh_token_repository.go\<close>, \<^verbatim>\<open>internal/handler/auth_handler.go\<close> and \<open>AuthMiddleware\<close> of
  \<^verbatim>\<open>handler/middleware.go\<close>. The state is the table \<^verbatim>\<open>users\<close> (unique id, email and username), the
  table \<^verbatim>\<open>refresh_tokens\<close> (unique token id, deleted with its user) and the device tokens. bcrypt,
  SHA-256, HMAC, JSON web tokens and the text form of UUIDs are arguments. One clock reading serves a
  call. A fault of a statement also stands for the refusal of a value that does not fit its column.
\<close>

record User =
  u_ID :: uuid
  u_Email :: string
  u_Username :: string
  u_AuthKeyHash :: bytes
  u_Salt :: bytes
  u_RecoveryKey :: bytes
  u_RecoverySalt :: "bytes option"
  u_EncryptedMasterKey :: "bytes option"
  u_Plan :: string
  u_CreatedAt :: time
  u_UpdatedAt :: time

record RefreshTokenRow =
  rt_UserID :: uuid
  rt_TokenID :: string
  rt_ExpiresAt :: time
  rt_Revoked :: bool

record auth_db =
  users :: "User list"
  refresh_tokens :: "RefreshTokenRow list"
  device_tokens :: "(string \<times> string) list"

record RegisterRequest =
  rq_Email :: string
  rq_Username :: string
  rq_AuthKeyHash :: bytes
  rq_Salt :: bytes
  rq_RecoveryKey :: string
  rq_RecoverySalt :: "bytes option"
  rq_EncryptedMasterKey :: "bytes option"

record AuthResponse =
  ar_AccessToken :: string
  ar_RefreshToken :: string
  ar_ExpiresAt :: time
  ar_User :: User

text \<open>The claims the program writes and reads; \<open>None\<close> is a claim that is missing or not a string.\<close>

record Claims =
  cl_user_id :: "string option"
  cl_email :: string
  cl_plan :: string
  cl_token_type :: "string option"
  cl_iat :: int
  cl_exp :: int
  cl_jti :: "string option"

text \<open>\<open>jwt_parse now k s\<close> are the claims of a token that is signed with HS256 under \<open>k\<close> and valid at \<open>now\<close>.\<close>

record AuthLib =
  bcrypt_gen :: "bytes \<Rightarrow> bytes option"
  bcrypt_cmp :: "bytes \<Rightarrow> bytes \<Rightarrow> bool"
  lib_sha256 :: "bytes \<Rightarrow> bytes"
  lib_hmac :: "string \<Rightarrow> string \<Rightarrow> bytes"
  jwt_sign :: "string \<Rightarrow> Claims \<Rightarrow> string option"
  jwt_parse :: "time \<Rightarrow> string \<Rightarrow> string \<Rightarrow> Claims option"
  uuid_parse :: "string \<Rightarrow> uuid option"
  uuid_show :: "uuid \<Rightarrow> string"

record authService =
  as_hasDeviceTokens :: bool
  as_hasTokenStore :: bool
  as_jwtSecret :: string
  as_tokenExpiry :: duration
  as_refreshExpiry :: duration

text \<open>What a call draws from outside: the clock, a new user identifier, a new token identifier, faults.\<close>

record AuthEnv =
  en_now :: time
  en_newUser :: uuid
  en_newToken :: uuid
  en_faults :: faults

section \<open>Repositories\<close>

definition user_Create :: "AuthLib \<Rightarrow> bool \<Rightarrow> time \<Rightarrow> User \<Rightarrow> auth_db \<Rightarrow> bool \<times> auth_db" where
  "user_Create lib fault now user db =
     (case bcrypt_gen lib (u_AuthKeyHash user) of
        None \<Rightarrow> (False, db)
      | Some hashedAuthKey \<Rightarrow>
          case bcrypt_gen lib (lib_sha256 lib (u_RecoveryKey user)) of
            None \<Rightarrow> (False, db)
          | Some hashedRecoveryKey \<Rightarrow>
              if fault \<or> find_row (\<lambda>r. u_ID r = u_ID user \<or> u_Email r = u_Email user \<or> u_Username r = u_Username user) (users db) \<noteq> None
              then (False, db)
              else (True, db\<lparr>users := users db @ [user\<lparr>u_AuthKeyHash := hashedAuthKey, u_RecoveryKey := hashedRecoveryKey,
                     u_CreatedAt := now, u_UpdatedAt := now\<rparr>]\<rparr>))"

definition user_GetByEmail :: "bool \<Rightarrow> string \<Rightarrow> auth_db \<Rightarrow> User option" where
  "user_GetByEmail fault email db = (if fault then None else find_row (\<lambda>r. u_Email r = email) (users db))"

definition user_GetByID :: "bool \<Rightarrow> uuid \<Rightarrow> auth_db \<Rightarrow> User option" where
  "user_GetByID fault uid db = (if fault then None else find_row (\<lambda>r. u_ID r = uid) (users db))"

text \<open>The refresh tokens of the user go with the user.\<close>

definition user_Delete :: "bool \<Rightarrow> uuid \<Rightarrow> auth_db \<Rightarrow> bool \<times> auth_db" where
  "user_Delete fault uid db =
     (if fault then (False, db)
      else (True, db\<lparr>users := delete_rows (\<lambda>r. u_ID r = uid) (users db),
             refresh_tokens := (if find_row (\<lambda>r. u_ID r = uid) (users db) = None then refresh_tokens db
                                else delete_rows (\<lambda>r. rt_UserID r = uid) (refresh_tokens db))\<rparr>))"

definition user_GetByUsername :: "bool \<Rightarrow> string \<Rightarrow> auth_db \<Rightarrow> User option" where
  "user_GetByUsername fault username db = (if fault then None else find_row (\<lambda>r. u_Username r = username) (users db))"

definition user_GetRecoverySalt :: "bool \<Rightarrow> uuid \<Rightarrow> auth_db \<Rightarrow> bytes option option" where
  "user_GetRecoverySalt fault uid db = map_option u_RecoverySalt (user_GetByID fault uid db)"

definition user_GetRecoveryDataByEmail :: "bool \<Rightarrow> string \<Rightarrow> auth_db \<Rightarrow> (bytes option \<times> bytes option) option" where
  "user_GetRecoveryDataByEmail fault email db =
     map_option (\<lambda>r. (u_RecoverySalt r, u_EncryptedMasterKey r)) (user_GetByEmail fault email db)"

definition user_GetSaltByEmail :: "bool \<Rightarrow> string \<Rightarrow> auth_db \<Rightarrow> bytes option" where
  "user_GetSaltByEmail fault email db = map_option u_Salt (user_GetByEmail fault email db)"

definition rt_Store :: "bool \<Rightarrow> uuid \<Rightarrow> string \<Rightarrow> time \<Rightarrow> auth_db \<Rightarrow> bool \<times> auth_db" where
  "rt_Store fault userID tokenID expiresAt db =
     (if fault \<or> find_row (\<lambda>r. rt_TokenID r = tokenID) (refresh_tokens db) \<noteq> None
         \<or> find_row (\<lambda>r. u_ID r = userID) (users db) = None
      then (False, db)
      else (True, db\<lparr>refresh_tokens := refresh_tokens db @
             [\<lparr>rt_UserID = userID, rt_TokenID = tokenID, rt_ExpiresAt = expiresAt, rt_Revoked = False\<rparr>]\<rparr>))"

definition rt_Revoke :: "bool \<Rightarrow> string \<Rightarrow> auth_db \<Rightarrow> bool option \<times> auth_db" where
  "rt_Revoke fault tokenID db =
     (if fault then (None, db)
      else (Some (0 < count_rows (\<lambda>r. rt_TokenID r = tokenID \<and> \<not> rt_Revoked r) (refresh_tokens db)),
            db\<lparr>refresh_tokens := update_rows (\<lambda>r. rt_TokenID r = tokenID \<and> \<not> rt_Revoked r)
                 (\<lambda>r. r\<lparr>rt_Revoked := True\<rparr>) (refresh_tokens db)\<rparr>))"

text \<open>Any error of the query, not only an empty result, counts as not revoked.\<close>

definition rt_IsRevoked :: "bool \<Rightarrow> string \<Rightarrow> auth_db \<Rightarrow> bool" where
  "rt_IsRevoked fault tokenID db =
     (if fault then False
      else case find_row (\<lambda>r. rt_TokenID r = tokenID) (refresh_tokens db) of None \<Rightarrow> False | Some r \<Rightarrow> rt_Revoked r)"

definition rt_RevokeAllForUser :: "bool \<Rightarrow> uuid \<Rightarrow> auth_db \<Rightarrow> bool \<times> auth_db" where
  "rt_RevokeAllForUser fault userID db =
     (if fault then (False, db)
      else (True, db\<lparr>refresh_tokens := update_rows (\<lambda>r. rt_UserID r = userID \<and> \<not> rt_Revoked r)
             (\<lambda>r. r\<lparr>rt_Revoked := True\<rparr>) (refresh_tokens db)\<rparr>))"

definition rt_PurgeExpired :: "bool \<Rightarrow> time \<Rightarrow> auth_db \<Rightarrow> nat option \<times> auth_db" where
  "rt_PurgeExpired fault now db =
     (if fault then (None, db)
      else (Some (count_rows (\<lambda>r. rt_ExpiresAt r < now) (refresh_tokens db)),
            db\<lparr>refresh_tokens := delete_rows (\<lambda>r. rt_ExpiresAt r < now) (refresh_tokens db)\<rparr>))"

definition dt_DeleteByUser :: "bool \<Rightarrow> string \<Rightarrow> auth_db \<Rightarrow> auth_db" where
  "dt_DeleteByUser fault userID db =
     (if fault then db else db\<lparr>device_tokens := filter (\<lambda>(u, t). u \<noteq> userID) (device_tokens db)\<rparr>)"

section \<open>Service\<close>

definition generateToken :: "AuthLib \<Rightarrow> authService \<Rightarrow> User \<Rightarrow> time \<Rightarrow> duration \<Rightarrow> string \<Rightarrow> string \<Rightarrow> string option" where
  "generateToken lib svc user now expiry tokenType jti =
     jwt_sign lib (as_jwtSecret svc)
       \<lparr>cl_user_id = Some (uuid_show lib (u_ID user)), cl_email = u_Email user, cl_plan = u_Plan user,
        cl_token_type = Some tokenType, cl_iat = now div second, cl_exp = (now + expiry) div second,
        cl_jti = (if jti = '''' then None else Some jti)\<rparr>"

definition generateAuthResponse :: "AuthLib \<Rightarrow> authService \<Rightarrow> AuthEnv \<Rightarrow> User \<Rightarrow> AuthResponse option" where
  "generateAuthResponse lib svc e user =
     (case generateToken lib svc user (en_now e) (as_tokenExpiry svc) ''access'' '''' of
        None \<Rightarrow> None
      | Some accessToken \<Rightarrow>
          case generateToken lib svc user (en_now e) (as_refreshExpiry svc) ''refresh'' (uuid_show lib (en_newToken e)) of
            None \<Rightarrow> None
          | Some refreshToken \<Rightarrow> Some \<lparr>ar_AccessToken = accessToken, ar_RefreshToken = refreshToken,
                ar_ExpiresAt = en_now e + as_tokenExpiry svc, ar_User = user\<rparr>)"

definition extractJTI :: "AuthLib \<Rightarrow> authService \<Rightarrow> time \<Rightarrow> string \<Rightarrow> string" where
  "extractJTI lib svc now tokenStr =
     (case jwt_parse lib now (as_jwtSecret svc) tokenStr of
        None \<Rightarrow> ''''
      | Some claims \<Rightarrow> (case cl_jti claims of None \<Rightarrow> '''' | Some j \<Rightarrow> j))"

text \<open>What registration, login and rotation do with the new refresh token: a failure is only logged.\<close>

definition store_token :: "AuthLib \<Rightarrow> authService \<Rightarrow> time \<Rightarrow> bool \<Rightarrow> uuid \<Rightarrow> AuthResponse \<Rightarrow> auth_db \<Rightarrow> auth_db" where
  "store_token lib svc now fault userID resp db =
     (let jti = extractJTI lib svc now (ar_RefreshToken resp) in
      if as_hasTokenStore svc \<and> jti \<noteq> '''' then snd (rt_Store fault userID jti (now + as_refreshExpiry svc) db) else db)"

definition new_user :: "AuthEnv \<Rightarrow> RegisterRequest \<Rightarrow> User" where
  "new_user e req = \<lparr>u_ID = en_newUser e, u_Email = rq_Email req, u_Username = rq_Username req,
     u_AuthKeyHash = rq_AuthKeyHash req, u_Salt = rq_Salt req, u_RecoveryKey = string_bytes (rq_RecoveryKey req),
     u_RecoverySalt = rq_RecoverySalt req, u_EncryptedMasterKey = rq_EncryptedMasterKey req, u_Plan = ''free'',
     u_CreatedAt = en_now e, u_UpdatedAt = en_now e\<rparr>"

definition auth_Register :: "AuthLib \<Rightarrow> authService \<Rightarrow> AuthEnv \<Rightarrow> RegisterRequest \<Rightarrow> auth_db \<Rightarrow> (service_error + AuthResponse) \<times> auth_db" where
  "auth_Register lib svc e req db =
     (if user_GetByEmail (en_faults e 0) (rq_Email req) db \<noteq> None then (Inl ErrEmailExists, db)
      else if user_GetByUsername (en_faults e 1) (rq_Username req) db \<noteq> None then (Inl ErrUsernameExists, db)
      else case user_Create lib (en_faults e 2) (en_now e) (new_user e req) db of
        (False, db1) \<Rightarrow> (Inl (OtherError ''create user''), db1)
      | (True, db1) \<Rightarrow>
          case generateAuthResponse lib svc e (new_user e req) of
            None \<Rightarrow> (Inl (OtherError ''sign token''), db1)
          | Some resp \<Rightarrow> (Inr resp, store_token lib svc (en_now e) (en_faults e 3) (en_newUser e) resp db1))"

definition Login :: "AuthLib \<Rightarrow> authService \<Rightarrow> AuthEnv \<Rightarrow> string \<Rightarrow> bytes \<Rightarrow> auth_db \<Rightarrow> (service_error + AuthResponse) \<times> auth_db" where
  "Login lib svc e email authKeyHash db =
     (case user_GetByEmail (en_faults e 0) email db of
        None \<Rightarrow> (Inl ErrInvalidCredentials, db)
      | Some user \<Rightarrow>
          if \<not> bcrypt_cmp lib (u_AuthKeyHash user) authKeyHash then (Inl ErrInvalidCredentials, db)
          else case generateAuthResponse lib svc e user of
            None \<Rightarrow> (Inl (OtherError ''sign token''), db)
          | Some resp \<Rightarrow> (Inr resp, store_token lib svc (en_now e) (en_faults e 1) (u_ID user) resp db))"

definition str_or_empty :: "string option \<Rightarrow> string" where
  "str_or_empty s = (case s of None \<Rightarrow> '''' | Some x \<Rightarrow> x)"

text \<open>The part of the exchange after the checks of the token: look up the user, sign new tokens, revoke
  the old token and store the new one. The outcome \<open>None\<close> is the panic of \<open>uuid.MustParse\<close>.\<close>

definition rotate_token :: "AuthLib \<Rightarrow> authService \<Rightarrow> AuthEnv \<Rightarrow> string \<Rightarrow> string option \<Rightarrow> auth_db \<Rightarrow>
    (service_error + AuthResponse) option \<times> auth_db" where
  "rotate_token lib svc e oldJTI claimed db =
     (case claimed of
        None \<Rightarrow> (Some (Inl ErrInvalidCredentials), db)
      | Some userIDStr \<Rightarrow>
          case uuid_parse lib userIDStr of
            None \<Rightarrow> (None, db)
          | Some userID \<Rightarrow>
              case user_GetByID (en_faults e 1) userID db of
                None \<Rightarrow> (Some (Inl ErrUserNotFound), db)
              | Some user \<Rightarrow>
                  case generateAuthResponse lib svc e user of
                    None \<Rightarrow> (Some (Inl (OtherError ''sign token'')), db)
                  | Some resp \<Rightarrow>
                      (Some (Inr resp),
                       let db1 = (if as_hasTokenStore svc \<and> oldJTI \<noteq> '''' then snd (rt_Revoke (en_faults e 2) oldJTI db) else db)
                       in store_token lib svc (en_now e) (en_faults e 3) userID resp db1))"

definition RefreshToken :: "AuthLib \<Rightarrow> authService \<Rightarrow> AuthEnv \<Rightarrow> string \<Rightarrow> auth_db \<Rightarrow>
    (service_error + AuthResponse) option \<times> auth_db" where
  "RefreshToken lib svc e refreshToken db =
     (case jwt_parse lib (en_now e) (as_jwtSecret svc) refreshToken of
        None \<Rightarrow> (Some (Inl ErrInvalidCredentials), db)
      | Some claims \<Rightarrow>
          if str_or_empty (cl_token_type claims) \<noteq> ''refresh'' then (Some (Inl ErrInvalidTokenType), db)
          else let oldJTI = str_or_empty (cl_jti claims) in
          if as_hasTokenStore svc \<and> oldJTI \<noteq> '''' \<and> rt_IsRevoked (en_faults e 0) oldJTI db then (Some (Inl ErrTokenRevoked), db)
          else rotate_token lib svc e oldJTI (cl_user_id claims) db)"

definition GetCurrentUser :: "bool \<Rightarrow> uuid \<Rightarrow> auth_db \<Rightarrow> User option" where
  "GetCurrentUser fault userID db = user_GetByID fault userID db"

definition DeleteAccount :: "AuthLib \<Rightarrow> authService \<Rightarrow> faults \<Rightarrow> uuid \<Rightarrow> bytes \<Rightarrow> auth_db \<Rightarrow> service_error option \<times> auth_db" where
  "DeleteAccount lib svc f userID authKeyHash db =
     (case user_GetByID (f 0) userID db of
        None \<Rightarrow> (Some ErrUserNotFound, db)
      | Some user \<Rightarrow>
          if \<not> bcrypt_cmp lib (u_AuthKeyHash user) authKeyHash then (Some ErrInvalidCredentials, db)
          else let db1 = (if as_hasDeviceTokens svc then dt_DeleteByUser (f 1) (uuid_show lib userID) db else db);
                   db2 = (if as_hasTokenStore svc then snd (rt_RevokeAllForUser (f 2) userID db1) else db1)
               in case user_Delete (f 3) userID db2 of
                    (False, db3) \<Rightarrow> (Some (OtherError ''delete user''), db3)
                  | (True, db3) \<Rightarrow> (None, db3))"

definition auth_GetRecoverySalt :: "bool \<Rightarrow> uuid \<Rightarrow> auth_db \<Rightarrow> service_error + bytes option" where
  "auth_GetRecoverySalt fault userID db =
     (case user_GetRecoverySalt fault userID db of None \<Rightarrow> Inl ErrUserNotFound | Some s \<Rightarrow> Inr s)"

definition GetRecoverySaltByEmail :: "bool \<Rightarrow> string \<Rightarrow> auth_db \<Rightarrow> service_error + (bytes option \<times> bytes option)" where
  "GetRecoverySaltByEmail fault email db =
     (case user_GetRecoveryDataByEmail fault email db of None \<Rightarrow> Inl ErrUserNotFound | Some s \<Rightarrow> Inr s)"

definition auth_GetSaltByEmail :: "bool \<Rightarrow> string \<Rightarrow> auth_db \<Rightarrow> service_error + bytes" where
  "auth_GetSaltByEmail fault email db =
     (case user_GetSaltByEmail fault email db of None \<Rightarrow> Inl ErrUserNotFound | Some s \<Rightarrow> Inr s)"

definition FakeRecoverySalt :: "AuthLib \<Rightarrow> authService \<Rightarrow> string \<Rightarrow> bytes" where
  "FakeRecoverySalt lib svc email = lib_hmac lib (as_jwtSecret svc) email"

definition FakeEncryptedMasterKey :: "AuthLib \<Rightarrow> authService \<Rightarrow> string \<Rightarrow> bytes" where
  "FakeEncryptedMasterKey lib svc email =
     take 72 (concat (map (\<lambda>i. lib_hmac lib (as_jwtSecret svc) (''enc-master-key:'' @ i @ '':'' @ email)) [''0'', ''1'', ''2'']))"

definition FakeSalt :: "AuthLib \<Rightarrow> authService \<Rightarrow> string \<Rightarrow> bytes" where
  "FakeSalt lib svc email = lib_hmac lib (as_jwtSecret svc) (''login-salt:'' @ email)"

section \<open>Middleware\<close>

definition to_lower :: "char \<Rightarrow> char" where
  "to_lower c = (let n = of_char c :: nat in if 65 \<le> n \<and> n \<le> 90 then char_of (n + 32) else c)"

text \<open>The user identifier for the request context, or the answer that refuses the request. Lower-casing
  matters for the first seven bytes only, and a header whose lower-cased form starts with the prefix
  starts with seven ASCII bytes (no other character lower-cases to one of these letters).\<close>

definition AuthMiddleware :: "AuthLib \<Rightarrow> time \<Rightarrow> string \<Rightarrow> string \<Rightarrow> 'a response + string" where
  "AuthMiddleware lib now jwtSecret authHeader =
     (if authHeader = '''' then Inl (HttpError 401 ''missing_authorization'' ''Authorization header required'')
      else let tokenStr = (if has_prefix (map to_lower authHeader) ''bearer '' then TrimSpace (drop 7 authHeader) else authHeader) in
      if tokenStr = '''' \<or> tokenStr = authHeader then Inl (HttpError 401 ''invalid_authorization'' ''Bearer token required'')
      else case jwt_parse lib now jwtSecret tokenStr of
        None \<Rightarrow> Inl (HttpError 401 ''invalid_token'' ''Token is invalid or expired'')
      | Some claims \<Rightarrow>
          case cl_user_id claims of
            None \<Rightarrow> Inl (HttpError 401 ''invalid_claims'' ''user_id not found in token'')
          | Some userID \<Rightarrow>
              if str_or_empty (cl_token_type claims) \<noteq> ''access''
              then Inl (HttpError 401 ''invalid_token_type'' ''Access token required'')
              else Inr userID)"

definition parseUserID :: "AuthLib \<Rightarrow> string \<Rightarrow> uuid option" where
  "parseUserID lib raw = (if raw = '''' then None else uuid_parse lib raw)"

section \<open>Handlers\<close>

definition opt_length :: "bytes option \<Rightarrow> nat" where
  "opt_length b = (case b of None \<Rightarrow> 0 | Some x \<Rightarrow> length x)"

definition handle_Register :: "AuthLib \<Rightarrow> authService \<Rightarrow> AuthEnv \<Rightarrow> RegisterRequest option \<Rightarrow> auth_db \<Rightarrow> AuthResponse response \<times> auth_db" where
  "handle_Register lib svc e body db =
     (case body of None \<Rightarrow> (HttpError 400 ''invalid_request'' ''Failed to parse request body'', db)
      | Some req \<Rightarrow>
        case validateEmail (rq_Email req) of Some m \<Rightarrow> (writeValidationError m, db)
      | None \<Rightarrow>
        case validateUsername (rq_Username req) of Some m \<Rightarrow> (writeValidationError m, db)
      | None \<Rightarrow>
        if length (rq_AuthKeyHash req) = 0 then (HttpError 400 ''validation_error'' ''auth_key_hash is required'', db)
        else if length (rq_AuthKeyHash req) > 128 then (HttpError 400 ''validation_error'' ''auth_key_hash must be at most 128 bytes'', db)
        else if length (rq_Salt req) > 64 then (HttpError 400 ''validation_error'' ''salt must be at most 64 bytes'', db)
        else if rq_RecoveryKey req = '''' then (HttpError 400 ''validation_error'' ''recovery_key is required'', db)
        else if length (rq_RecoveryKey req) > 256 then (HttpError 400 ''validation_error'' ''recovery_key must be at most 256 characters'', db)
        else if opt_length (rq_RecoverySalt req) > 64 then (HttpError 400 ''validation_error'' ''recovery_salt must be at most 64 bytes'', db)
        else if opt_length (rq_EncryptedMasterKey req) > 256
          then (HttpError 400 ''validation_error'' ''encrypted_master_key must be at most 256 bytes'', db)
        else case auth_Register lib svc e req db of
          (Inl err, db') \<Rightarrow> (sentinel_or_500 ''internal_error'' ''Registration failed'' err, db')
        | (Inr resp, db') \<Rightarrow> (JSON 201 resp, db'))"

definition handle_Login :: "AuthLib \<Rightarrow> authService \<Rightarrow> AuthEnv \<Rightarrow> (string \<times> bytes) option \<Rightarrow> auth_db \<Rightarrow> AuthResponse response \<times> auth_db" where
  "handle_Login lib svc e body db =
     (case body of None \<Rightarrow> (HttpError 400 ''invalid_request'' ''Failed to parse request body'', db)
      | Some (email, authKeyHash) \<Rightarrow>
        case validateEmail email of Some m \<Rightarrow> (writeValidationError m, db)
      | None \<Rightarrow>
        if authKeyHash = [] then (HttpError 400 ''validation_error'' ''auth_key_hash is required'', db)
        else case Login lib svc e email authKeyHash db of
          (Inl err, db') \<Rightarrow> (sentinel_or_500 ''internal_error'' ''Login failed'' err, db')
        | (Inr resp, db') \<Rightarrow> (JSON 200 resp, db'))"

text \<open>A panic is answered 500 by the recovery middleware.\<close>

definition handle_RefreshToken :: "AuthLib \<Rightarrow> authService \<Rightarrow> AuthEnv \<Rightarrow> string option \<Rightarrow> auth_db \<Rightarrow> AuthResponse response \<times> auth_db" where
  "handle_RefreshToken lib svc e body db =
     (case body of None \<Rightarrow> (HttpError 400 ''invalid_request'' ''Failed to parse request body'', db)
      | Some tok \<Rightarrow>
        case RefreshToken lib svc e tok db of
          (None, db') \<Rightarrow> (HttpError 500 '''' '''', db')
        | (Some (Inl err), db') \<Rightarrow>
            (case writeErrorFromSentinel err of Some r \<Rightarrow> r
             | None \<Rightarrow> HttpError 401 ''invalid_token'' ''Invalid or expired refresh token'', db')
        | (Some (Inr resp), db') \<Rightarrow> (JSON 200 resp, db'))"

definition handle_Me :: "bool \<Rightarrow> uuid option \<Rightarrow> auth_db \<Rightarrow> User response" where
  "handle_Me fault user db =
     (case user of None \<Rightarrow> HttpError 401 ''unauthorized'' ''User not authenticated''
      | Some userID \<Rightarrow>
          case GetCurrentUser fault userID db of
            None \<Rightarrow> HttpError 404 ''not_found'' ''User not found'' | Some u \<Rightarrow> JSON 200 u)"

definition handle_DeleteAccount :: "AuthLib \<Rightarrow> authService \<Rightarrow> faults \<Rightarrow> uuid option \<Rightarrow> bytes option \<Rightarrow> auth_db \<Rightarrow> string response \<times> auth_db" where
  "handle_DeleteAccount lib svc f user body db =
     (case user of None \<Rightarrow> (HttpError 401 ''unauthorized'' ''User not authenticated'', db)
      | Some userID \<Rightarrow>
        case body of None \<Rightarrow> (HttpError 400 ''invalid_request'' ''Failed to parse request body'', db)
      | Some h \<Rightarrow>
        if h = [] then (HttpError 400 ''validation_error'' ''auth_key_hash is required'', db)
        else if length h > 128 then (HttpError 400 ''validation_error'' ''auth_key_hash must be at most 128 bytes'', db)
        else case DeleteAccount lib svc f userID h db of
          (Some err, db') \<Rightarrow> (sentinel_or_500 ''internal_error'' ''Account deletion failed'' err, db')
        | (None, db') \<Rightarrow> (JSON 200 ''deleted'', db'))"

definition handle_GetRecoverySalt :: "AuthLib \<Rightarrow> authService \<Rightarrow> bool \<Rightarrow> string \<Rightarrow> auth_db \<Rightarrow> (bytes option \<times> bytes option) response" where
  "handle_GetRecoverySalt lib svc fault email db =
     (if email = '''' then HttpError 400 ''validation_error'' ''email query parameter is required''
      else case validateEmail email of Some m \<Rightarrow> writeValidationError m
      | None \<Rightarrow>
          case GetRecoverySaltByEmail fault email db of
            Inl _ \<Rightarrow> JSON 200 (Some (FakeRecoverySalt lib svc email), Some (FakeEncryptedMasterKey lib svc email))
          | Inr resp \<Rightarrow> JSON 200 resp)"

definition handle_GetSalt :: "AuthLib \<Rightarrow> authService \<Rightarrow> bool \<Rightarrow> string \<Rightarrow> auth_db \<Rightarrow> bytes response" where
  "handle_GetSalt lib svc fault email db =
     (if email = '''' then HttpError 400 ''validation_error'' ''email query parameter is required''
      else case validateEmail email of Some m \<Rightarrow> writeValidationError m
      | None \<Rightarrow>
          case auth_GetSaltByEmail fault email db of
            Inl _ \<Rightarrow> JSON 200 (FakeSalt lib svc email)
          | Inr salt \<Rightarrow> JSON 200 salt)"

section \<open>Sequences of calls\<close>

datatype auth_op =
    ARegister AuthEnv "RegisterRequest option"
  | ALogin AuthEnv "(string \<times> bytes) option"
  | ARefresh AuthEnv "string option"
  | ADelete faults "uuid option" "bytes option"

fun auth_exec :: "AuthLib \<Rightarrow> authService \<Rightarrow> auth_op \<Rightarrow> auth_db \<Rightarrow> auth_db" where
  "auth_exec lib svc (ARegister e body) db = snd (handle_Register lib svc e body db)"
| "auth_exec lib svc (ALogin e body) db = snd (handle_Login lib svc e body db)"
| "auth_exec lib svc (ARefresh e body) db = snd (handle_RefreshToken lib svc e body db)"
| "auth_exec lib svc (ADelete f user body) db = snd (handle_DeleteAccount lib svc f user body db)"

definition answered :: "'a response \<Rightarrow> bool" where
  "answered r = (case r of JSON _ _ \<Rightarrow> True | HttpError _ _ _ \<Rightarrow> False)"

text \<open>The identifier of the refresh token a request presents.\<close>

definition presented_jti :: "AuthLib \<Rightarrow> authService \<Rightarrow> AuthEnv \<Rightarrow> string option \<Rightarrow> string option" where
  "presented_jti lib svc e body = (case body of None \<Rightarrow> None
     | Some tok \<Rightarrow> (case jwt_parse lib (en_now e) (as_jwtSecret svc) tok of None \<Rightarrow> None | Some c \<Rightarrow> cl_jti c))"

text \<open>Whether a call exchanges the token with identifier \<open>j\<close> for new tokens.\<close>

fun auth_grant :: "AuthLib \<Rightarrow> authService \<Rightarrow> string \<Rightarrow> auth_op \<Rightarrow> auth_db \<Rightarrow> bool \<times> auth_db" where
  "auth_grant lib svc j (ARefresh e body) db =
     (let (r, db') = handle_RefreshToken lib svc e body db in (answered r \<and> presented_jti lib svc e body = Some j, db'))"
| "auth_grant lib svc j op db = (False, auth_exec lib svc op db)"

section \<open>Rows\<close>

definition user_exists :: "uuid \<Rightarrow> auth_db \<Rightarrow> bool" where
  "user_exists u db \<longleftrightarrow> find_row (\<lambda>r. u_ID r = u) (users db) \<noteq> None"

definition token_row :: "string \<Rightarrow> auth_db \<Rightarrow> RefreshTokenRow option" where
  "token_row j db = find_row (\<lambda>r. rt_TokenID r = j) (refresh_tokens db)"

definition tokens_distinct :: "auth_db \<Rightarrow> bool" where
  "tokens_distinct db \<longleftrightarrow> distinct (map rt_TokenID (refresh_tokens db))"

text \<open>What the signature scheme promises here: a token that was signed parses to its claims or not at
  all (when it has expired).\<close>

definition jwt_sound :: "AuthLib \<Rightarrow> bool" where
  "jwt_sound lib \<longleftrightarrow> (\<forall>k c s now. jwt_sign lib k c = Some s \<longrightarrow> jwt_parse lib now k s = None \<or> jwt_parse lib now k s = Some c)"

lemma answered_simps [simp]: "answered (JSON n b)" "\<not> answered (HttpError n c m)"
  by (simp_all add: answered_def)

lemma generateAuthResponse_Some:
  assumes "generateAuthResponse lib svc e user = Some resp"
  shows "generateToken lib svc user (en_now e) (as_tokenExpiry svc) ''access'' '''' = Some (ar_AccessToken resp)"
    and "generateToken lib svc user (en_now e) (as_refreshExpiry svc) ''refresh'' (uuid_show lib (en_newToken e)) = Some (ar_RefreshToken resp)"
    and "ar_User resp = user"
  using assms by (auto simp: generateAuthResponse_def split: option.splits)

lemma extractJTI_new:
  assumes "jwt_sound lib" and "generateAuthResponse lib svc e user = Some resp"
  shows "extractJTI lib svc now (ar_RefreshToken resp) \<in> {'''', uuid_show lib (en_newToken e)}"
proof -
  obtain c where "jwt_sign lib (as_jwtSecret svc) c = Some (ar_RefreshToken resp)"
    and c: "cl_jti c = (if uuid_show lib (en_newToken e) = '''' then None else Some (uuid_show lib (en_newToken e)))"
    using generateAuthResponse_Some(2) [OF assms(2)] by (auto simp: generateToken_def)
  then have "jwt_parse lib now (as_jwtSecret svc) (ar_RefreshToken resp) \<in> {None, Some c}"
    using assms(1) unfolding jwt_sound_def by blast
  then show ?thesis using c by (auto simp: extractJTI_def split: if_split_asm)
qed

lemma rt_Store_frame:
  assumes "jti \<noteq> j"
  shows "token_row j (snd (rt_Store fault u jti t db)) = token_row j db" and "users (snd (rt_Store fault u jti t db)) = users db"
    and "tokens_distinct db \<Longrightarrow> tokens_distinct (snd (rt_Store fault u jti t db))"
proof -
  show "token_row j (snd (rt_Store fault u jti t db)) = token_row j db"
    using assms by (simp add: rt_Store_def token_row_def find_row_append split: option.split)
qed (auto simp: rt_Store_def tokens_distinct_def find_row_None_iff)

lemma store_token_frame:
  assumes "jwt_sound lib" and "generateAuthResponse lib svc e user = Some resp" and "uuid_show lib (en_newToken e) \<noteq> j"
  shows "token_row j (store_token lib svc now fault u resp db) = token_row j db"
    and "users (store_token lib svc now fault u resp db) = users db"
    and "tokens_distinct db \<Longrightarrow> tokens_distinct (store_token lib svc now fault u resp db)"
  using extractJTI_new [OF assms(1,2), of now] assms(3)
  by (auto simp: store_token_def Let_def rt_Store_frame)

lemma users_store_token: "users (store_token lib svc now fault u resp db) = users db"
  by (simp add: store_token_def rt_Store_def Let_def)

lemma generateAuthResponse_total:
  assumes "\<And>k c. jwt_sign lib k c \<noteq> None"
  obtains resp where "generateAuthResponse lib svc e user = Some resp"
proof -
  have "\<exists>s. generateToken lib svc user now d ty j = Some s" for now d ty j
    using assms by (simp add: generateToken_def)
  then obtain a r where "generateToken lib svc user (en_now e) (as_tokenExpiry svc) ''access'' '''' = Some a"
      "generateToken lib svc user (en_now e) (as_refreshExpiry svc) ''refresh'' (uuid_show lib (en_newToken e)) = Some r"
    by metis
  then show thesis by (intro that) (simp add: generateAuthResponse_def)
qed

lemma rt_Revoke_frame:
  "token_row j (snd (rt_Revoke fault jti db)) =
     (if fault \<or> jti \<noteq> j then token_row j db else map_option (\<lambda>r. r\<lparr>rt_Revoked := True\<rparr>) (token_row j db))"
  "users (snd (rt_Revoke fault jti db)) = users db" "tokens_distinct (snd (rt_Revoke fault jti db)) = tokens_distinct db"
proof -
  have "find_row (\<lambda>r. rt_TokenID r = j) (update_rows (\<lambda>r. rt_TokenID r = jti \<and> \<not> rt_Revoked r) (\<lambda>r. r\<lparr>rt_Revoked := True\<rparr>) t)
      = (if jti \<noteq> j then find_row (\<lambda>r. rt_TokenID r = j) t
         else map_option (\<lambda>r. r\<lparr>rt_Revoked := True\<rparr>) (find_row (\<lambda>r. rt_TokenID r = j) t))" for t
    by (induction t) auto
  from this [of "refresh_tokens db"] show "token_row j (snd (rt_Revoke fault jti db)) =
     (if fault \<or> jti \<noteq> j then token_row j db else map_option (\<lambda>r. r\<lparr>rt_Revoked := True\<rparr>) (token_row j db))"
    by (auto simp: rt_Revoke_def token_row_def)
qed (simp_all add: rt_Revoke_def tokens_distinct_def map_update_rows)

section \<open>A refresh token is a budget of one\<close>

definition session_ok :: "uuid \<Rightarrow> string \<Rightarrow> auth_db \<Rightarrow> bool" where
  "session_ok u j db \<longleftrightarrow> tokens_distinct db \<and> (user_exists u db \<longrightarrow> (\<exists>r. token_row j db = Some r \<and> rt_UserID r = u))"

definition session_left :: "uuid \<Rightarrow> string \<Rightarrow> auth_db \<Rightarrow> int" where
  "session_left u j db =
     (if user_exists u db then (case token_row j db of None \<Rightarrow> 0 | Some r \<Rightarrow> if rt_Revoked r then 0 else 1) else 0)"

text \<open>Calls under which the token is used at most once: no new user or token takes the identifiers, a
  token with identifier \<open>j\<close> belongs to \<open>u\<close>, and when it is presented the revocation can be read and written.\<close>

fun session_calls :: "AuthLib \<Rightarrow> authService \<Rightarrow> uuid \<Rightarrow> string \<Rightarrow> auth_op \<Rightarrow> bool" where
  "session_calls lib svc u j (ARegister e body) \<longleftrightarrow> en_newUser e \<noteq> u \<and> uuid_show lib (en_newToken e) \<noteq> j"
| "session_calls lib svc u j (ALogin e body) \<longleftrightarrow> uuid_show lib (en_newToken e) \<noteq> j"
| "session_calls lib svc u j (ARefresh e body) \<longleftrightarrow> uuid_show lib (en_newToken e) \<noteq> j \<and>
     (presented_jti lib svc e body = Some j \<longrightarrow> \<not> en_faults e 0 \<and> \<not> en_faults e 2 \<and>
       (\<forall>tok c. body = Some tok \<and> jwt_parse lib (en_now e) (as_jwtSecret svc) tok = Some c \<longrightarrow>
          (case cl_user_id c of None \<Rightarrow> True | Some s \<Rightarrow> uuid_parse lib s = Some u)))"
| "session_calls lib svc u j (ADelete f user body) \<longleftrightarrow> True"

lemma session_same:
  assumes "token_row j db' = token_row j db" and "user_exists u db' = user_exists u db" and "tokens_distinct db \<Longrightarrow> tokens_distinct db'"
  shows "session_ok u j db \<Longrightarrow> session_ok u j db'" and "session_left u j db' = session_left u j db"
  using assms by (auto simp: session_ok_def session_left_def)

lemma user_Create_frame:
  assumes "u_ID user \<noteq> u"
  shows "refresh_tokens (snd (user_Create lib fault now user db)) = refresh_tokens db"
    and "user_exists u (snd (user_Create lib fault now user db)) = user_exists u db"
  using assms by (auto simp: user_Create_def user_exists_def find_row_append split: option.split)

lemma Register_session:
  assumes "jwt_sound lib" and "en_newUser e \<noteq> u" and "uuid_show lib (en_newToken e) \<noteq> j"
  shows "token_row j (snd (auth_Register lib svc e req db)) = token_row j db
    \<and> user_exists u (snd (auth_Register lib svc e req db)) = user_exists u db
    \<and> (tokens_distinct db \<longrightarrow> tokens_distinct (snd (auth_Register lib svc e req db)))"
proof -
  obtain ok db1 where c: "user_Create lib (en_faults e 2) (en_now e) (new_user e req) db = (ok, db1)" by fastforce
  have db1: "refresh_tokens db1 = refresh_tokens db" "user_exists u db1 = user_exists u db"
    using user_Create_frame [of "new_user e req" u lib "en_faults e 2" "en_now e" db] assms(2) c by (simp_all add: new_user_def)
  then have same: "token_row j db1 = token_row j db" "tokens_distinct db1 = tokens_distinct db"
    by (simp_all add: token_row_def tokens_distinct_def)
  show ?thesis
    using db1 same store_token_frame [OF assms(1) _ assms(3)]
    by (auto simp: auth_Register_def c user_exists_def split: bool.split option.split)
qed

lemma Login_session:
  assumes "jwt_sound lib" and "uuid_show lib (en_newToken e) \<noteq> j"
  shows "token_row j (snd (Login lib svc e em h db)) = token_row j db
    \<and> user_exists u (snd (Login lib svc e em h db)) = user_exists u db
    \<and> (tokens_distinct db \<longrightarrow> tokens_distinct (snd (Login lib svc e em h db)))"
  using store_token_frame [OF assms(1) _ assms(2)]
  by (auto simp: Login_def user_exists_def split: option.split)

lemma RefreshToken_cases:
  obtains (refused) "\<And>resp. fst (RefreshToken lib svc e tok db) \<noteq> Some (Inr resp)" "snd (RefreshToken lib svc e tok db) = db"
  | (rotated) c s u user resp where "jwt_parse lib (en_now e) (as_jwtSecret svc) tok = Some c" "cl_token_type c = Some ''refresh''"
      "\<not> (as_hasTokenStore svc \<and> str_or_empty (cl_jti c) \<noteq> '''' \<and> rt_IsRevoked (en_faults e 0) (str_or_empty (cl_jti c)) db)"
      "cl_user_id c = Some s" "uuid_parse lib s = Some u" "user_GetByID (en_faults e 1) u db = Some user"
      "generateAuthResponse lib svc e user = Some resp"
      "RefreshToken lib svc e tok db = (Some (Inr resp), store_token lib svc (en_now e) (en_faults e 3) u resp
         (if as_hasTokenStore svc \<and> str_or_empty (cl_jti c) \<noteq> '''' then snd (rt_Revoke (en_faults e 2) (str_or_empty (cl_jti c)) db) else db))"
proof (cases "jwt_parse lib (en_now e) (as_jwtSecret svc) tok")
  case None
  then show thesis by (intro refused) (simp_all add: RefreshToken_def)
next
  case (Some c)
  define old where "old = str_or_empty (cl_jti c)"
  consider "str_or_empty (cl_token_type c) \<noteq> ''refresh''" | "as_hasTokenStore svc \<and> old \<noteq> '''' \<and> rt_IsRevoked (en_faults e 0) old db"
    | (ok) "str_or_empty (cl_token_type c) = ''refresh''" "\<not> (as_hasTokenStore svc \<and> old \<noteq> '''' \<and> rt_IsRevoked (en_faults e 0) old db)"
    by blast
  then show thesis
  proof cases
    case ok
    have ty: "cl_token_type c = Some ''refresh''" using ok(1) by (simp add: str_or_empty_def split: option.split_asm)
    have R: "RefreshToken lib svc e tok db = rotate_token lib svc e old (cl_user_id c) db"
      unfolding RefreshToken_def Some option.case ok(1) Let_def old_def [symmetric] if_not_P [OF ok(2)] by simp
    show thesis
    proof (cases "\<exists>s u user resp. cl_user_id c = Some s \<and> uuid_parse lib s = Some u \<and> user_GetByID (en_faults e 1) u db = Some user
        \<and> generateAuthResponse lib svc e user = Some resp")
      case True
      then obtain s u user resp where su: "cl_user_id c = Some s" "uuid_parse lib s = Some u" "user_GetByID (en_faults e 1) u db = Some user"
          "generateAuthResponse lib svc e user = Some resp" by blast
      show thesis
        by (rule rotated [OF Some ty ok(2) [unfolded old_def] su])
          (unfold R rotate_token_def su option.case Let_def old_def, rule refl)
    next
      case False
      then have "\<nexists>resp. fst (rotate_token lib svc e old (cl_user_id c) db) = Some (Inr resp)"
          "snd (rotate_token lib svc e old (cl_user_id c) db) = db"
        by (auto simp: rotate_token_def split: option.split)
      then show thesis by (intro refused) (auto simp: R)
    qed
  qed (intro refused; simp add: RefreshToken_def Some Let_def old_def)+
qed

lemma handle_RefreshToken_eq:
  "snd (handle_RefreshToken lib svc e body db) = (case body of None \<Rightarrow> db | Some tok \<Rightarrow> snd (RefreshToken lib svc e tok db))"
  "answered (fst (handle_RefreshToken lib svc e body db)) \<longleftrightarrow>
     (\<exists>tok resp. body = Some tok \<and> fst (RefreshToken lib svc e tok db) = Some (Inr resp))"
proof -
  have "\<not> answered (r :: AuthResponse response)" if s: "writeErrorFromSentinel err = Some r" for err r
    using s by (cases err) auto
  then show "answered (fst (handle_RefreshToken lib svc e body db)) \<longleftrightarrow>
     (\<exists>tok resp. body = Some tok \<and> fst (RefreshToken lib svc e tok db) = Some (Inr resp))"
    by (auto simp: handle_RefreshToken_def split: option.split prod.split sum.split)
qed (simp add: handle_RefreshToken_def split: option.split prod.split sum.split)

lemma refresh_budget:
  assumes "jwt_sound lib" and "as_hasTokenStore svc" and "j \<noteq> ''''" and "session_calls lib svc u j (ARefresh e body)"
    and "session_ok u j db" and "auth_grant lib svc j (ARefresh e body) db = (g, db')"
  shows "session_ok u j db' \<and> session_left u j db' + (if g then 1 else 0) \<le> session_left u j db"
proof -
  have g: "g \<longleftrightarrow> answered (fst (handle_RefreshToken lib svc e body db)) \<and> presented_jti lib svc e body = Some j"
    and db': "db' = snd (handle_RefreshToken lib svc e body db)"
    using assms(6) by (auto simp: case_prod_unfold Let_def)
  show ?thesis
  proof (cases body)
    case None
    then show ?thesis using assms(5) by (simp add: g db' handle_RefreshToken_eq)
  next
    case (Some tok)
    show ?thesis
    proof (rule RefreshToken_cases [of lib svc e tok db])
      assume "\<And>resp. fst (RefreshToken lib svc e tok db) \<noteq> Some (Inr resp)" "snd (RefreshToken lib svc e tok db) = db"
      then show ?thesis using assms(5) by (simp add: g db' handle_RefreshToken_eq Some)
    next
      fix c s v user resp
      assume c: "jwt_parse lib (en_now e) (as_jwtSecret svc) tok = Some c"
        and rev: "\<not> (as_hasTokenStore svc \<and> str_or_empty (cl_jti c) \<noteq> '''' \<and> rt_IsRevoked (en_faults e 0) (str_or_empty (cl_jti c)) db)"
        and su: "cl_user_id c = Some s" "uuid_parse lib s = Some v" "user_GetByID (en_faults e 1) v db = Some user"
        and gen: "generateAuthResponse lib svc e user = Some resp"
        and R: "RefreshToken lib svc e tok db = (Some (Inr resp), store_token lib svc (en_now e) (en_faults e 3) v resp
         (if as_hasTokenStore svc \<and> str_or_empty (cl_jti c) \<noteq> '''' then snd (rt_Revoke (en_faults e 2) (str_or_empty (cl_jti c)) db) else db))"
      define db1 where "db1 = (if str_or_empty (cl_jti c) \<noteq> '''' then snd (rt_Revoke (en_faults e 2) (str_or_empty (cl_jti c)) db) else db)"
      have new: "uuid_show lib (en_newToken e) \<noteq> j" using assms(4) by simp
      have st: "db' = store_token lib svc (en_now e) (en_faults e 3) v resp db1"
        using R assms(2) by (simp add: db' handle_RefreshToken_eq Some db1_def)
      note frame = store_token_frame [OF assms(1) gen new, where now = "en_now e" and fault = "en_faults e 3" and u = v and db = db1, folded st]
      have u1: "user_exists u db' = user_exists u db" and d1: "tokens_distinct db \<Longrightarrow> tokens_distinct db'"
        using frame by (auto simp: db1_def user_exists_def rt_Revoke_frame split: if_splits)
      show ?thesis
      proof (cases "cl_jti c = Some j")
        case True
        have ok: "\<not> en_faults e 0" "\<not> en_faults e 2" and "v = u" using assms(4) True c su by (auto simp: Some presented_jti_def)
        have ex: "user_exists u db" using su(3) \<open>v = u\<close> by (auto simp: user_GetByID_def user_exists_def split: if_splits)
        then obtain r where r: "token_row j db = Some r" "rt_UserID r = u" using assms(5) by (auto simp: session_ok_def)
        have "\<not> rt_Revoked r" using rev True assms(2,3) ok(1) r(1) by (simp add: str_or_empty_def rt_IsRevoked_def token_row_def)
        moreover have "token_row j db' = Some (r\<lparr>rt_Revoked := True\<rparr>)"
          using frame(1) True assms(3) ok(2) r(1) by (simp add: db1_def str_or_empty_def rt_Revoke_frame)
        ultimately show ?thesis using ex r u1 d1 assms(5) by (simp add: session_ok_def session_left_def)
      next
        case False
        then have "token_row j db' = token_row j db"
          using frame(1) assms(3) by (auto simp: db1_def str_or_empty_def rt_Revoke_frame split: option.split_asm)
        moreover have "\<not> g" using False c by (simp add: g Some presented_jti_def)
        ultimately show ?thesis using session_same [of j db' db u] u1 d1 assms(5) by simp
      qed
    qed
  qed
qed

lemma RevokeAll_frame:
  "users (snd (rt_RevokeAllForUser fault v db)) = users db"
  "tokens_distinct (snd (rt_RevokeAllForUser fault v db)) = tokens_distinct db"
  "token_row j (snd (rt_RevokeAllForUser fault v db)) \<in> {token_row j db, map_option (\<lambda>r. r\<lparr>rt_Revoked := True\<rparr>) (token_row j db)}"
proof -
  have "find_row (\<lambda>r. rt_TokenID r = j) (update_rows (\<lambda>r. rt_UserID r = v \<and> \<not> rt_Revoked r) (\<lambda>r. r\<lparr>rt_Revoked := True\<rparr>) t)
     \<in> {find_row (\<lambda>r. rt_TokenID r = j) t, map_option (\<lambda>r. r\<lparr>rt_Revoked := True\<rparr>) (find_row (\<lambda>r. rt_TokenID r = j) t)}" for t
    by (induction t) auto
  from this [of "refresh_tokens db"]
  show "token_row j (snd (rt_RevokeAllForUser fault v db)) \<in> {token_row j db, map_option (\<lambda>r. r\<lparr>rt_Revoked := True\<rparr>) (token_row j db)}"
    by (auto simp: rt_RevokeAllForUser_def token_row_def)
qed (simp_all add: rt_RevokeAllForUser_def tokens_distinct_def map_update_rows)

lemma session_revoked:
  assumes "session_ok u j db" and "users db' = users db" and "tokens_distinct db' = tokens_distinct db"
    and "token_row j db' \<in> {token_row j db, map_option (\<lambda>r. r\<lparr>rt_Revoked := True\<rparr>) (token_row j db)}"
  shows "session_ok u j db' \<and> session_left u j db' \<le> session_left u j db"
  using assms by (auto simp: session_ok_def session_left_def user_exists_def split: option.split)

lemma session_user_Delete:
  assumes "session_ok u j db"
  shows "session_ok u j (snd (user_Delete fault v db)) \<and> session_left u j (snd (user_Delete fault v db)) \<le> session_left u j db"
proof (cases "fault")
  case False
  let ?db = "snd (user_Delete False v db)"
  have d: "tokens_distinct ?db" using assms by (simp add: user_Delete_def session_ok_def tokens_distinct_def distinct_map_delete_rows)
  show ?thesis
  proof (cases "v = u")
    case True
    then have "\<not> user_exists u ?db" by (auto simp: user_exists_def user_Delete_def find_row_None_iff)
    then show ?thesis using d False by (simp add: session_ok_def session_left_def split: option.split)
  next
    case v: False
    have "user_exists u ?db = user_exists u db"
      using v by (auto simp: user_exists_def user_Delete_def find_row_None_iff)
    moreover have "token_row j ?db = token_row j db" if ex: "user_exists u db"
    proof -
      obtain r where r: "token_row j db = Some r" "rt_UserID r = u" using assms ex by (auto simp: session_ok_def)
      then show ?thesis using find_row_delete_unique [of rt_TokenID "refresh_tokens db" j "\<lambda>r. rt_UserID r = v"] assms v
        by (simp add: user_Delete_def token_row_def session_ok_def tokens_distinct_def)
    qed
    ultimately show ?thesis using assms d False by (auto simp: session_ok_def session_left_def)
  qed
qed (simp add: user_Delete_def assms)

lemma DeleteAccount_session:
  assumes "session_ok u j db"
  shows "session_ok u j (snd (DeleteAccount lib svc f v h db)) \<and> session_left u j (snd (DeleteAccount lib svc f v h db)) \<le> session_left u j db"
proof -
  have dev: "session_ok u j (dt_DeleteByUser fault s db) = session_ok u j db" "session_left u j (dt_DeleteByUser fault s db) = session_left u j db" for fault s db
    by (auto simp: dt_DeleteByUser_def session_ok_def session_left_def user_exists_def token_row_def tokens_distinct_def)
  define db1 where "db1 = (if as_hasDeviceTokens svc then dt_DeleteByUser (f 1) (uuid_show lib v) db else db)"
  define db2 where "db2 = (if as_hasTokenStore svc then snd (rt_RevokeAllForUser (f 2) v db1) else db1)"
  have 1: "session_ok u j db1" "session_left u j db1 = session_left u j db" using assms dev by (simp_all add: db1_def)
  have 2: "session_ok u j db2 \<and> session_left u j db2 \<le> session_left u j db1"
    using session_revoked [OF 1(1) RevokeAll_frame(1,2,3)] 1(1) by (simp add: db2_def)
  have "snd (DeleteAccount lib svc f v h db) \<in> {db, snd (user_Delete (f 3) v db2)}"
    by (simp add: DeleteAccount_def db1_def db2_def Let_def split: option.split prod.split bool.split)
  then show ?thesis using assms 1 2 session_user_Delete [of u j db2 "f 3" v] by force
qed

lemma handle_Register_state:
  "snd (handle_Register lib svc e body db) \<in> {db} \<union> {snd (auth_Register lib svc e req db) | req. True}"
proof (cases body)
  case (Some req)
  have "snd (handle_Register lib svc e body db) \<in> {db, snd (auth_Register lib svc e req db)}"
    unfolding handle_Register_def Some
    by (simp split: option.split prod.split sum.split)
  then show ?thesis by blast
qed (simp add: handle_Register_def)

lemma handle_Login_state:
  "snd (handle_Login lib svc e body db) \<in> {db} \<union> {snd (Login lib svc e em h db) | em h. True}"
proof (cases body)
  case (Some p)
  have "snd (handle_Login lib svc e body db) \<in> {db, snd (Login lib svc e (fst p) (snd p) db)}"
    unfolding handle_Login_def Some case_prod_unfold
    by (simp split: option.split prod.split sum.split)
  then show ?thesis by blast
qed (simp add: handle_Login_def)

lemma handle_DeleteAccount_state:
  "snd (handle_DeleteAccount lib svc f user body db) \<in> {db} \<union> {snd (DeleteAccount lib svc f u h db) | u h. True}"
proof (cases "user = None \<or> body = None")
  case True
  then show ?thesis by (auto simp: handle_DeleteAccount_def split: option.split)
next
  case False
  then obtain u h where [simp]: "user = Some u" "body = Some h" by auto
  have "snd (handle_DeleteAccount lib svc f user body db) \<in> {db, snd (DeleteAccount lib svc f u h db)}"
    by (simp add: handle_DeleteAccount_def split: prod.split option.split)
  then show ?thesis by blast
qed

lemma auth_budget:
  assumes "jwt_sound lib" and "as_hasTokenStore svc" and "j \<noteq> ''''" and "session_calls lib svc u j op"
    and "session_ok u j db" and "auth_grant lib svc j op db = (g, db')"
  shows "session_ok u j db' \<and> session_left u j db' + (if g then 1 else 0) \<le> session_left u j db"
proof (cases op)
  case (ARegister e body)
  then have g: "\<not> g" "db' = snd (handle_Register lib svc e body db)" using assms(6) by auto
  have "token_row j db' = token_row j db \<and> user_exists u db' = user_exists u db \<and> (tokens_distinct db \<longrightarrow> tokens_distinct db')"
    using handle_Register_state [of lib svc e body db] Register_session [OF assms(1), of e u j] assms(4) ARegister by (auto simp: g)
  then show ?thesis using session_same [of j db' db u] assms(5) g(1) by simp
next
  case (ALogin e body)
  then have g: "\<not> g" "db' = snd (handle_Login lib svc e body db)" using assms(6) by auto
  have "token_row j db' = token_row j db \<and> user_exists u db' = user_exists u db \<and> (tokens_distinct db \<longrightarrow> tokens_distinct db')"
    using handle_Login_state [of lib svc e body db] Login_session [OF assms(1), of e j] assms(4) ALogin by (auto simp: g)
  then show ?thesis using session_same [of j db' db u] assms(5) g(1) by simp
next
  case (ARefresh e body)
  show ?thesis by (rule refresh_budget [OF assms(1-3) assms(4-6) [unfolded ARefresh]])
next
  case (ADelete f user body)
  then have g: "\<not> g" "db' = snd (handle_DeleteAccount lib svc f user body db)" using assms(6) by auto
  then show ?thesis using handle_DeleteAccount_state [of lib svc f user body db] DeleteAccount_session [OF assms(5)] assms(5) by auto
qed

text \<open>The budget contract, with the laws of the signature scheme and of the configuration as part of
  what makes a call admissible.\<close>

definition session_admissible :: "AuthLib \<Rightarrow> authService \<Rightarrow> uuid \<Rightarrow> string \<Rightarrow> auth_op \<Rightarrow> bool" where
  "session_admissible lib svc u j op \<longleftrightarrow> jwt_sound lib \<and> as_hasTokenStore svc \<and> j \<noteq> '''' \<and> session_calls lib svc u j op"

interpretation session: budgeted "auth_grant lib svc j" "session_admissible lib svc u j" "session_ok u j" "session_left u j"
  for lib svc u j
proof
  fix c s g s'
  assume "session_admissible lib svc u j c" and s: "session_ok u j s" "auth_grant lib svc j c s = (g, s')"
  then have "jwt_sound lib" "as_hasTokenStore svc" "j \<noteq> ''''" "session_calls lib svc u j c" by (auto simp: session_admissible_def)
  from auth_budget [OF this s] show "session_ok u j s'" and "session_left u j s' + (if g then 1 else 0) \<le> session_left u j s" by blast+
qed (simp add: session_left_def split: option.split)

section \<open>Properties\<close>

text \<open>C20: refresh tokens are used once. For a token store and a signature scheme whose tokens parse to
  the claims that were signed, in any sequence of registrations, logins, exchanges of tokens and
  account deletions by anyone, the refresh token with a given identifier is exchanged at most once, as long as
  its record can be read and revoked when it is presented and no new identifier collides. After one exchange
  the next one is refused.\<close>

theorem refresh_token_single_use:
  assumes "jwt_sound lib" and "as_hasTokenStore svc" and "j \<noteq> ''''" and "tokens_distinct db"
    and "token_row j db = Some r" and "rt_UserID r = u" and "\<forall>op \<in> set ops. session_calls lib svc u j op"
  shows "grants (auth_grant lib svc j) ops db \<le> 1 \<and> (rt_Revoked r \<longrightarrow> grants (auth_grant lib svc j) ops db = 0)"
proof -
  have "session_ok u j db" using assms by (simp add: session_ok_def)
  moreover have "\<forall>op \<in> set ops. session_admissible lib svc u j op" using assms by (simp add: session_admissible_def)
  ultimately have "int (grants (auth_grant lib svc j) ops db) \<le> session_left u j db" by (rule session.grants_le_budget)
  then show ?thesis using assms(5) by (auto simp: session_left_def split: if_splits)
qed

text \<open>A scheme in which one token is valid, until its expiry.\<close>

definition toy_claims :: Claims where
  "toy_claims = \<lparr>cl_user_id = Some ''x'', cl_email = ''a@b.co'', cl_plan = ''free'', cl_token_type = Some ''refresh'',
     cl_iat = 0, cl_exp = 9, cl_jti = Some ''xx''\<rparr>"

definition toy_sign :: "Claims \<Rightarrow> string" where
  "toy_sign c = (if c = toy_claims then ''good'' else ''other'')"

definition toy_lib :: AuthLib where
  "toy_lib = \<lparr>bcrypt_gen = Some, bcrypt_cmp = (=), lib_sha256 = (\<lambda>b. b), lib_hmac = (\<lambda>k m. []),
     jwt_sign = (\<lambda>k c. Some (toy_sign c)),
     jwt_parse = (\<lambda>now k s. if s = ''good'' \<and> now < 9 * second then Some toy_claims else None),
     uuid_parse = (\<lambda>s. Some (length s)), uuid_show = (\<lambda>n. replicate n (CHR ''x''))\<rparr>"

lemma toy_sound: "jwt_sound toy_lib"
  by (auto simp: jwt_sound_def toy_lib_def toy_sign_def)

definition demo_auth_svc :: authService where
  "demo_auth_svc = \<lparr>as_hasDeviceTokens = True, as_hasTokenStore = True, as_jwtSecret = ''secret'', as_tokenExpiry = 5 * second, as_refreshExpiry = 9 * second\<rparr>"

definition demo_user :: User where
  "demo_user = \<lparr>u_ID = 1, u_Email = ''a@b.co'', u_Username = ''abc'', u_AuthKeyHash = [1], u_Salt = [], u_RecoveryKey = [],
     u_RecoverySalt = None, u_EncryptedMasterKey = None, u_Plan = ''free'', u_CreatedAt = 0, u_UpdatedAt = 0\<rparr>"

definition demo_auth_db :: auth_db where
  "demo_auth_db = \<lparr>users = [demo_user], refresh_tokens = [\<lparr>rt_UserID = 1, rt_TokenID = ''xx'', rt_ExpiresAt = 9 * second, rt_Revoked = False\<rparr>],
     device_tokens = []\<rparr>"

definition demo_auth_env :: AuthEnv where
  "demo_auth_env = \<lparr>en_now = 0, en_newUser = 5, en_newToken = 3, en_faults = no_faults\<rparr>"

theorem refresh_token_single_use_witness:
  "grants (auth_grant toy_lib demo_auth_svc ''xx'') [ARefresh demo_auth_env (Some ''good''), ARefresh demo_auth_env (Some ''good'')] demo_auth_db \<le> 1
   \<and> fst (auth_grant toy_lib demo_auth_svc ''xx'' (ARefresh demo_auth_env (Some ''good'')) demo_auth_db)"
proof -
  have "tokens_distinct demo_auth_db" "token_row ''xx'' demo_auth_db = Some (hd (refresh_tokens demo_auth_db))"
    by (simp_all add: tokens_distinct_def token_row_def demo_auth_db_def)
  moreover have "session_calls toy_lib demo_auth_svc 1 ''xx'' (ARefresh demo_auth_env (Some ''good''))"
    by (auto simp: toy_lib_def toy_claims_def demo_auth_env_def numeral_eq_Suc split: if_splits)
  moreover have "fst (auth_grant toy_lib demo_auth_svc ''xx'' (ARefresh demo_auth_env (Some ''good'')) demo_auth_db)" by code_simp
  ultimately show ?thesis
    using refresh_token_single_use [OF toy_sound, of demo_auth_svc "''xx''" demo_auth_db _ 1
        "[ARefresh demo_auth_env (Some ''good''), ARefresh demo_auth_env (Some ''good'')]"]
    by (simp add: demo_auth_svc_def demo_auth_db_def)
qed

text \<open>What is required of the token library: a token is a printable string that parses to the signed claims
  exactly until they expire.\<close>

definition jwt_law :: "AuthLib \<Rightarrow> bool" where
  "jwt_law lib \<longleftrightarrow> (\<forall>k c s. jwt_sign lib k c = Some s \<longrightarrow> s \<noteq> '''' \<and> (\<forall>x \<in> set s. printable x)
     \<and> (\<forall>now. jwt_parse lib now k s = (if now < cl_exp c * second then Some c else None)))"

lemma AuthMiddleware_bearer:
  assumes "tok \<noteq> ''''" and "\<forall>x \<in> set tok. printable x"
  shows "AuthMiddleware lib now k (''Bearer '' @ tok) =
    (case jwt_parse lib now k tok of
       None \<Rightarrow> Inl (HttpError 401 ''invalid_token'' ''Token is invalid or expired'')
     | Some claims \<Rightarrow>
         case cl_user_id claims of
           None \<Rightarrow> Inl (HttpError 401 ''invalid_claims'' ''user_id not found in token'')
         | Some userID \<Rightarrow>
             if str_or_empty (cl_token_type claims) \<noteq> ''access''
             then Inl (HttpError 401 ''invalid_token_type'' ''Access token required'')
             else Inr userID)"
proof -
  have "map to_lower ''Bearer '' = ''bearer ''" by code_simp
  then have "has_prefix (map to_lower (''Bearer '' @ tok)) ''bearer ''" by (simp add: has_prefix_def)
  moreover have "TrimSpace (drop 7 (''Bearer '' @ tok)) = tok" using TrimSpace_printable [OF assms(2)] by simp
  moreover have "tok \<noteq> ''Bearer '' @ tok" using arg_cong [of tok "''Bearer '' @ tok" length] by auto
  ultimately show ?thesis using assms(1) by (simp add: AuthMiddleware_def Let_def)
qed

text \<open>C21: access and refresh tokens are not interchangeable. If tokens are printable strings that parse to the
  signed claims exactly until they expire, then of a pair issued together the access token passes the
  middleware as its user until its expiry and gets 401 afterwards, the refresh token never passes the
  middleware, and the access token is never exchanged for new tokens and changes nothing.\<close>

theorem tokens_not_interchangeable:
  assumes "jwt_law lib" and "generateAuthResponse lib svc e user = Some resp"
  shows "AuthMiddleware lib now (as_jwtSecret svc) (''Bearer '' @ ar_AccessToken resp) =
      (if now < (en_now e + as_tokenExpiry svc) div second * second then Inr (uuid_show lib (u_ID user))
       else Inl (HttpError 401 ''invalid_token'' ''Token is invalid or expired''))
    \<and> (\<exists>c m. AuthMiddleware lib now (as_jwtSecret svc) (''Bearer '' @ ar_RefreshToken resp) = Inl (HttpError 401 c m))
    \<and> (\<forall>e' db. \<exists>c m. handle_RefreshToken lib svc e' (Some (ar_AccessToken resp)) db = (HttpError 401 c m, db))"
proof -
  obtain ca cr where ca: "jwt_sign lib (as_jwtSecret svc) ca = Some (ar_AccessToken resp)"
      "cl_user_id ca = Some (uuid_show lib (u_ID user))" "cl_token_type ca = Some ''access''" "cl_exp ca = (en_now e + as_tokenExpiry svc) div second"
    and cr: "jwt_sign lib (as_jwtSecret svc) cr = Some (ar_RefreshToken resp)" "cl_token_type cr = Some ''refresh''"
    using generateAuthResponse_Some [OF assms(2)] by (auto simp: generateToken_def)
  have A: "ar_AccessToken resp \<noteq> ''''" "\<forall>x \<in> set (ar_AccessToken resp). printable x"
      "\<And>now. jwt_parse lib now (as_jwtSecret svc) (ar_AccessToken resp) = (if now < cl_exp ca * second then Some ca else None)"
    using assms(1) ca(1) unfolding jwt_law_def by blast+
  have R: "ar_RefreshToken resp \<noteq> ''''" "\<forall>x \<in> set (ar_RefreshToken resp). printable x"
      "\<And>now. jwt_parse lib now (as_jwtSecret svc) (ar_RefreshToken resp) = (if now < cl_exp cr * second then Some cr else None)"
    using assms(1) cr(1) unfolding jwt_law_def by blast+
  have "AuthMiddleware lib now (as_jwtSecret svc) (''Bearer '' @ ar_AccessToken resp) =
      (if now < (en_now e + as_tokenExpiry svc) div second * second then Inr (uuid_show lib (u_ID user))
       else Inl (HttpError 401 ''invalid_token'' ''Token is invalid or expired''))"
    unfolding AuthMiddleware_bearer [OF A(1,2)] A(3) ca(4) using ca(2,3) by (simp add: str_or_empty_def)
  moreover have "\<exists>c m. AuthMiddleware lib now (as_jwtSecret svc) (''Bearer '' @ ar_RefreshToken resp) = Inl (HttpError 401 c m)"
    unfolding AuthMiddleware_bearer [OF R(1,2)] R(3) using cr(2) by (simp add: str_or_empty_def split: option.split)
  moreover have "\<exists>c m. handle_RefreshToken lib svc e' (Some (ar_AccessToken resp)) db = (HttpError 401 c m, db)" for e' db
    unfolding handle_RefreshToken_def option.case RefreshToken_def A(3) using ca(3) by (simp add: str_or_empty_def)
  ultimately show ?thesis by blast
qed

definition pair_claims :: "string \<Rightarrow> int \<Rightarrow> string option \<Rightarrow> Claims" where
  "pair_claims ty expiry jti = \<lparr>cl_user_id = Some ''x'', cl_email = ''a@b.co'', cl_plan = ''free'', cl_token_type = Some ty,
     cl_iat = 0, cl_exp = expiry, cl_jti = jti\<rparr>"

definition pair_lib :: AuthLib where
  "pair_lib = toy_lib\<lparr>
     jwt_sign := (\<lambda>k c. if c = pair_claims ''access'' 5 None then Some ''a''
                        else if c = pair_claims ''refresh'' 9 (Some ''xxx'') then Some ''r'' else None),
     jwt_parse := (\<lambda>now k s. if s = ''a'' \<and> now < 5 * second then Some (pair_claims ''access'' 5 None)
                        else if s = ''r'' \<and> now < 9 * second then Some (pair_claims ''refresh'' 9 (Some ''xxx'')) else None)\<rparr>"

lemma pair_law: "jwt_law pair_lib"
proof -
  have "printable (CHR ''a'')" "printable (CHR ''r'')" by code_simp+
  then show ?thesis by (auto simp: jwt_law_def pair_lib_def pair_claims_def split: if_splits)
qed

definition demo_pair :: AuthResponse where
  "demo_pair = \<lparr>ar_AccessToken = ''a'', ar_RefreshToken = ''r'', ar_ExpiresAt = 5 * second, ar_User = demo_user\<rparr>"

theorem tokens_not_interchangeable_witness:
  "AuthMiddleware pair_lib (4 * second) (as_jwtSecret demo_auth_svc) (''Bearer '' @ ar_AccessToken demo_pair)
   = (Inr ''x'' :: unit response + string)"
proof -
  have g: "generateAuthResponse pair_lib demo_auth_svc demo_auth_env demo_user = Some demo_pair"
  proof -
    have "replicate 3 (CHR ''x'') = ''xxx''" by (simp add: numeral_eq_Suc)
    then show ?thesis
      by (simp add: generateAuthResponse_def generateToken_def pair_lib_def pair_claims_def toy_lib_def demo_auth_svc_def
          demo_auth_env_def demo_user_def demo_pair_def)
  qed
  show ?thesis
    by (subst tokens_not_interchangeable [OF pair_law g, THEN conjunct1])
      (simp add: demo_auth_svc_def demo_auth_env_def demo_user_def pair_lib_def toy_lib_def)
qed

text \<open>C22: a registered account can be used and is unique. After a registration that was answered 201, a
  login with the same email and key gets 200 for the same user and a login with a key that bcrypt rejects gets
  401; another registration with the same email gets 409 and one with another email and the same
  username gets 409, and both leave the tables as they are.\<close>

theorem register_login:
  assumes reg: "handle_Register lib svc e (Some req) db = (JSON st resp, db1)"
    and bcrypt: "\<And>p h. bcrypt_gen lib p = Some h \<Longrightarrow> bcrypt_cmp lib h p"
    and sign: "\<And>k c. jwt_sign lib k c \<noteq> None" and "en_faults e' = no_faults"
  shows "(\<exists>resp'. fst (handle_Login lib svc e' (Some (rq_Email req, rq_AuthKeyHash req)) db1) = JSON 200 resp'
        \<and> u_ID (ar_User resp') = en_newUser e)
    \<and> (\<forall>k. (\<forall>h. bcrypt_gen lib (rq_AuthKeyHash req) = Some h \<longrightarrow> \<not> bcrypt_cmp lib h k) \<and> k \<noteq> [] \<longrightarrow>
         handle_Login lib svc e' (Some (rq_Email req, k)) db1 = (HttpError 401 ''invalid_credentials'' ''Invalid email or password'', db1))
    \<and> (\<forall>req'. rq_Email req' = rq_Email req \<longrightarrow> auth_Register lib svc e' req' db1 = (Inl ErrEmailExists, db1))
    \<and> (\<forall>req'. rq_Username req' = rq_Username req \<and> find_row (\<lambda>r. u_Email r = rq_Email req') (users db1) = None \<longrightarrow>
         auth_Register lib svc e' req' db1 = (Inl ErrUsernameExists, db1))"
proof -
  have v: "validateEmail (rq_Email req) = None" "rq_AuthKeyHash req \<noteq> []"
    using reg by (auto simp: handle_Register_def writeValidationError_def split: option.split_asm if_split_asm)
  have R: "auth_Register lib svc e req db = (Inr resp, db1)"
    using reg unfolding handle_Register_def
    by (simp add: writeValidationError_def split: option.split_asm if_split_asm prod.split_asm sum.split_asm)
  obtain db2 where c: "user_Create lib (en_faults e 2) (en_now e) (new_user e req) db = (True, db2)"
    and g: "generateAuthResponse lib svc e (new_user e req) = Some resp"
    and db1: "db1 = store_token lib svc (en_now e) (en_faults e 3) (en_newUser e) resp db2"
    using R by (simp add: auth_Register_def split: if_split_asm prod.split_asm bool.split_asm option.split_asm)
  have us: "users db1 = users db2" by (simp add: db1 users_store_token)
  obtain h n where h: "bcrypt_gen lib (rq_AuthKeyHash req) = Some h"
    and u: "users db2 = users db @ [n]" "u_ID n = en_newUser e" "u_Email n = rq_Email req" "u_Username n = rq_Username req" "u_AuthKeyHash n = h"
    and none: "find_row (\<lambda>r. u_ID r = en_newUser e \<or> u_Email r = rq_Email req \<or> u_Username r = rq_Username req) (users db) = None"
    using c by (auto simp: user_Create_def new_user_def split: option.split_asm if_split_asm)
  have em: "find_row (\<lambda>r. u_Email r = rq_Email req) (users db1) = Some n"
    and un: "find_row (\<lambda>r. u_Username r = rq_Username req) (users db1) = Some n"
    using none u by (auto simp: us find_row_append find_row_None_iff split: option.split dest: find_row_SomeD)
  have login: "Login lib svc e' (rq_Email req) k db1 = (if bcrypt_cmp lib h k then
      (case generateAuthResponse lib svc e' n of None \<Rightarrow> (Inl (OtherError ''sign token''), db1)
       | Some resp \<Rightarrow> (Inr resp, store_token lib svc (en_now e') False (u_ID n) resp db1)) else (Inl ErrInvalidCredentials, db1))" for k
    using em u(5) assms(4) by (simp add: Login_def user_GetByEmail_def split: option.split)
  obtain resp' where r': "generateAuthResponse lib svc e' n = Some resp'"
    using generateAuthResponse_total [OF sign] .
  have 1: "\<exists>resp'. fst (handle_Login lib svc e' (Some (rq_Email req, rq_AuthKeyHash req)) db1) = JSON 200 resp' \<and> u_ID (ar_User resp') = en_newUser e"
    using v login [of "rq_AuthKeyHash req"] bcrypt [OF h] r' generateAuthResponse_Some(3) [OF r'] u(2) by (simp add: handle_Login_def)
  have 2: "handle_Login lib svc e' (Some (rq_Email req, k)) db1 = (HttpError 401 ''invalid_credentials'' ''Invalid email or password'', db1)"
    if "\<not> bcrypt_cmp lib h k" "k \<noteq> []" for k
    using v(1) login [of k] that by (simp add: handle_Login_def sentinel_or_500_def)
  have 3: "auth_Register lib svc e' req' db1 = (Inl ErrEmailExists, db1)" if "rq_Email req' = rq_Email req" for req'
    using that em assms(4) by (simp add: auth_Register_def user_GetByEmail_def)
  have 4: "auth_Register lib svc e' req' db1 = (Inl ErrUsernameExists, db1)"
    if "rq_Username req' = rq_Username req" "find_row (\<lambda>r. u_Email r = rq_Email req') (users db1) = None" for req'
    using that un assms(4) by (simp add: auth_Register_def user_GetByEmail_def user_GetByUsername_def)
  show ?thesis using 1 2 3 4 h by blast
qed

definition demo_register :: RegisterRequest where
  "demo_register = \<lparr>rq_Email = ''c@d.org'', rq_Username = ''cde'', rq_AuthKeyHash = [7], rq_Salt = [], rq_RecoveryKey = ''words'',
     rq_RecoverySalt = None, rq_EncryptedMasterKey = None\<rparr>"

theorem register_login_witness:
  "auth_Register toy_lib demo_auth_svc demo_auth_env demo_register (snd (handle_Register toy_lib demo_auth_svc demo_auth_env (Some demo_register) demo_auth_db))
   = (Inl ErrEmailExists, snd (handle_Register toy_lib demo_auth_svc demo_auth_env (Some demo_register) demo_auth_db))"
proof -
  have "\<forall>c \<in> set ''c@d.org''. printable c" "\<forall>c \<in> set ''cde''. printable c" "email_matches ''c@d.org''" "list_all username_char ''cde''"
    by code_simp+
  then have "validateEmail ''c@d.org'' = None" "validateUsername ''cde'' = None"
    by (simp_all add: validateEmail_def validateUsername_def TrimSpace_printable Let_def)
  then have "\<exists>resp. fst (handle_Register toy_lib demo_auth_svc demo_auth_env (Some demo_register) demo_auth_db) = JSON 201 resp"
    by (simp add: handle_Register_def demo_register_def opt_length_def auth_Register_def user_GetByEmail_def user_GetByUsername_def
        demo_auth_db_def demo_user_def demo_auth_env_def user_Create_def toy_lib_def new_user_def generateAuthResponse_def generateToken_def)
  then obtain resp where "handle_Register toy_lib demo_auth_svc demo_auth_env (Some demo_register) demo_auth_db
      = (JSON 201 resp, snd (handle_Register toy_lib demo_auth_svc demo_auth_env (Some demo_register) demo_auth_db))" by (metis prod.collapse)
  from register_login [OF this, of demo_auth_env] show ?thesis
    by (simp add: toy_lib_def demo_auth_env_def)
qed

section \<open>Defects\<close>

text \<open>Revocation fails open: when the query for the revocation fails, a revoked token is exchanged.\<close>

theorem revocation_fails_open:
  assumes "jwt_parse lib (en_now e) (as_jwtSecret svc) tok = Some c" and "cl_token_type c = Some ''refresh''"
    and "cl_user_id c = Some s" and "uuid_parse lib s = Some u" and "find_row (\<lambda>r. u_ID r = u) (users db) = Some user"
    and "\<And>k c. jwt_sign lib k c \<noteq> None" and "en_faults e 0" and "\<not> en_faults e 1"
  shows "\<exists>resp. fst (handle_RefreshToken lib svc e (Some tok) db) = JSON 200 resp"
proof -
  obtain resp where g: "generateAuthResponse lib svc e user = Some resp"
    using generateAuthResponse_total [OF assms(6)] .
  have "fst (RefreshToken lib svc e tok db) = Some (Inr resp)"
    using assms g by (simp add: RefreshToken_def str_or_empty_def rt_IsRevoked_def rotate_token_def user_GetByID_def Let_def)
  then show ?thesis by (cases "RefreshToken lib svc e tok db") (simp add: handle_RefreshToken_def)
qed

text \<open>Two requests with the same token that have both passed the check are both exchanged: the second
  one does not notice that the first one has revoked the token.\<close>

theorem refresh_race:
  assumes "rotate_token lib svc e j claimed db = (Some (Inr resp), db1)" and "\<not> en_faults e' 1" and "\<And>k c. jwt_sign lib k c \<noteq> None"
  shows "\<exists>resp'. fst (rotate_token lib svc e' j claimed db1) = Some (Inr resp')"
proof -
  obtain s u user where su: "claimed = Some s" "uuid_parse lib s = Some u" "find_row (\<lambda>r. u_ID r = u) (users db) = Some user"
    and db1: "users db1 = users db"
    using assms(1)
    by (simp add: rotate_token_def user_GetByID_def Let_def split: option.split_asm if_split_asm)
      (auto simp: users_store_token rt_Revoke_frame)
  obtain resp' where "generateAuthResponse lib svc e' user = Some resp'"
    using generateAuthResponse_total [OF assms(3)] .
  then show ?thesis using su db1 assms(2) by (simp add: rotate_token_def user_GetByID_def)
qed

text \<open>The email is validated without the white space around it and stored with it: an address that is
  taken can be registered again with a space in front.\<close>

theorem padded_email_registered:
  "user_GetByEmail False ''a@b.co'' demo_auth_db \<noteq> None
   \<and> answered (fst (handle_Register toy_lib demo_auth_svc demo_auth_env (Some (demo_register\<lparr>rq_Email := '' a@b.co''\<rparr>)) demo_auth_db))"
proof -
  have "\<forall>c \<in> set ''a@b.co''. printable c" "\<forall>c \<in> set ''cde''. printable c" "email_matches ''a@b.co''" "list_all username_char ''cde''"
    by code_simp+
  then have "validateEmail '' a@b.co'' = None" "validateUsername ''cde'' = None"
    by (simp_all add: validateEmail_def validateUsername_def TrimSpace_blank TrimSpace_printable Let_def)
  then show ?thesis
    by (simp add: handle_Register_def demo_register_def opt_length_def auth_Register_def user_GetByEmail_def user_GetByUsername_def
        demo_auth_db_def demo_user_def demo_auth_env_def user_Create_def toy_lib_def new_user_def generateAuthResponse_def generateToken_def)
qed

end
