(* ===== verification/Base64.thy ===== *)
theory Base64
  imports Go_Strings
begin

text \<open>
  \<open>base64.StdEncoding\<close> of Go's package \<^verbatim>\<open>encoding/base64\<close>: the standard alphabet with padding. The decoder
  skips line breaks anywhere, wants complete groups of four and ignores the unused bits of the last one.
\<close>

definition b64_alphabet :: string where
  "b64_alphabet = ''ABCDEFGHIJKLMNOPQRSTUVWXYZabcdefghijklmnopqrstuvwxyz0123456789+/''"

definition b64_char :: "nat \<Rightarrow> char" where
  "b64_char n = b64_alphabet ! n"

definition b64_value :: "char \<Rightarrow> nat option" where
  "b64_value c = List.find (\<lambda>n. b64_char n = c) [0..<64]"

fun b64_encode :: "nat list \<Rightarrow> string" where
  "b64_encode [] = []"
| "b64_encode [a] = [b64_char (a div 4), b64_char (a mod 4 * 16), CHR ''='', CHR ''='']"
| "b64_encode [a, b] =
     [b64_char (a div 4), b64_char (a mod 4 * 16 + b div 16), b64_char (b mod 16 * 4), CHR ''='']"
| "b64_encode (a # b # c # bs) =
     b64_char (a div 4) # b64_char (a mod 4 * 16 + b div 16) # b64_char (b mod 16 * 4 + c div 64)
     # b64_char (c mod 64) # b64_encode bs"

fun b64_groups :: "string \<Rightarrow> nat list option" where
  "b64_groups [] = Some []"
| "b64_groups (c1 # c2 # c3 # c4 # cs) =
     (case (b64_value c1, b64_value c2) of
        (Some v1, Some v2) \<Rightarrow>
          if c3 = CHR ''='' then (if c4 = CHR ''='' \<and> cs = [] then Some [v1 * 4 + v2 div 16] else None)
          else (case b64_value c3 of
            None \<Rightarrow> None
          | Some v3 \<Rightarrow>
              if c4 = CHR ''='' then (if cs = [] then Some [v1 * 4 + v2 div 16, v2 mod 16 * 16 + v3 div 4] else None)
              else (case (b64_value c4, b64_groups cs) of
                (Some v4, Some bs) \<Rightarrow> Some ([v1 * 4 + v2 div 16, v2 mod 16 * 16 + v3 div 4, v3 mod 4 * 64 + v4] @ bs)
              | _ \<Rightarrow> None))
      | _ \<Rightarrow> None)"
| "b64_groups _ = None"

definition b64_decode :: "string \<Rightarrow> nat list option" where
  "b64_decode s = b64_groups (filter (\<lambda>c. c \<noteq> CHR 0x0A \<and> c \<noteq> CHR 0x0D) s)"

lemma b64_chars_ok:
  "list_all (\<lambda>n. b64_value (b64_char n) = Some n \<and> b64_char n \<noteq> CHR ''='' \<and> b64_char n \<noteq> CHR 0x0A \<and> b64_char n \<noteq> CHR 0x0D) [0..<64]"
  by code_simp

lemma b64_char [simp]:
  assumes "n < 64"
  shows "b64_value (b64_char n) = Some n" "b64_char n \<noteq> CHR ''=''" "b64_char n \<noteq> CHR 0x0A" "b64_char n \<noteq> CHR 0x0D"
  using b64_chars_ok assms by (auto simp: list_all_iff)

lemma b64_encode_set: "\<forall>b \<in> set bs. b < 256 \<Longrightarrow> set (b64_encode bs) \<subseteq> insert (CHR ''='') (b64_char ` {..<64})"
  by (induction bs rule: b64_encode.induct) (auto intro!: imageI)

lemma sextets:
  assumes "a < 256" "b < 256" "c < (256::nat)"
  shows "a div 4 < 64" "a mod 4 * 16 < 64" "b mod 16 * 4 < 64" "c mod 64 < 64"
    "a mod 4 * 16 + b div 16 < 64" "b mod 16 * 4 + c div 64 < 64" "b div 16 < 16" "c div 64 < 4"
proof -
  have "a mod 4 < 4" "b mod 16 < 16" "b div 16 < 16" "c div 64 < 4" using assms by auto
  then show "a mod 4 * 16 < 64" "b mod 16 * 4 < 64" "a mod 4 * 16 + b div 16 < 64" "b mod 16 * 4 + c div 64 < 64"
    "b div 16 < 16" "c div 64 < 4" by linarith+
qed (use assms in auto)

lemma b64_groups_encode: "\<forall>b \<in> set bs. b < 256 \<Longrightarrow> b64_groups (b64_encode bs) = Some bs"
proof (induction bs rule: b64_encode.induct)
  case (2 a)
  then show ?case using sextets [of a 0 0] by simp
next
  case (3 a b)
  then show ?case using sextets [of a b 0] by simp
next
  case (4 a b c bs)
  then show ?case using sextets [of a b c] by simp
qed simp

theorem b64_round_trip:
  assumes "\<forall>b \<in> set bs. b < 256"
  shows "b64_decode (b64_encode bs) = Some bs"
proof -
  have "filter (\<lambda>c. c \<noteq> CHR 0x0A \<and> c \<noteq> CHR 0x0D) (b64_encode bs) = b64_encode bs"
    unfolding filter_id_conv
  proof
    fix c assume "c \<in> set (b64_encode bs)"
    then consider "c = CHR ''=''" | n where "n < 64" "c = b64_char n" using b64_encode_set [OF assms] by blast
    then show "c \<noteq> CHR 0x0A \<and> c \<noteq> CHR 0x0D" by cases simp_all
  qed
  then show ?thesis by (simp add: b64_decode_def b64_groups_encode [OF assms])
qed

lemma b64_encode_Nil_iff [simp]: "b64_encode bs = [] \<longleftrightarrow> bs = []"
  by (cases bs rule: b64_encode.cases) simp_all

end
