(* ===== verification/Platform.thy ===== *)
theory Platform
  imports AnyNote_Prelude Validation Base64 "HOL-Library.List_Lexorder" "HOL-Library.Char_ord"
begin

text \<open>
  Connections to publishing platforms: the registry of adapters (\<^verbatim>\<open>internal/platform/registry.go\<close>,
  \<^verbatim>\<open>adapter.go\<close>), the table \<^verbatim>\<open>platform_connections\<close> (\<^verbatim>\<open>repository/platform_connection_repository.go\<close>),
  the service with its sessions in memory (\<^verbatim>\<open>service/platform_service.go\<close>) and the handlers
  (\<^verbatim>\<open>handler/platform_handler.go\<close>). An adapter is a record of functions, given by the environment of each
  call. The events of a server-sent stream are returned as a list.
\<close>

section \<open>Adapters and the registry\<close>

record PublishParams =
  pp_Title :: string
  pp_Content :: string
  pp_Tags :: "string list"
  pp_Images :: "(string \<times> string) list"
  pp_ScheduleAt :: "string option"

record PublishResult =
  pr_PlatformURL :: string
  pr_PlatformID :: string

record PostStats =
  ps_Views :: int
  ps_Likes :: int
  ps_Comments :: int

text \<open>What the adapters keep in a session between \<open>StartAuth\<close> and \<open>PollAuth\<close>: nothing, a map with the credentials a
  user has entered, the state of an OAuth flow, or a handle of a browser tab.\<close>

record oauthState =
  os_State :: string
  os_Code :: string
  os_Completed :: bool

datatype cdp_context = CtxNil | CtxCredentials "(string \<times> string) list" | CtxOAuth oauthState | CtxBrowser nat

record AuthSession =
  ses_CDPContext :: cdp_context
  ses_AuthRef :: string

text \<open>\<open>PollAuth\<close> returns no data while the user has not finished. Fetching statistics is optional.\<close>

record Adapter =
  ad_StartAuth :: "bytes \<Rightarrow> string + (AuthSession \<times> bytes)"
  ad_PollAuth :: "AuthSession \<Rightarrow> bytes \<Rightarrow> string + bytes option"
  ad_Publish :: "bytes \<Rightarrow> bytes \<Rightarrow> PublishParams \<Rightarrow> string + PublishResult option"
  ad_CheckStatus :: "bytes \<Rightarrow> bytes \<Rightarrow> string \<Rightarrow> string \<times> string option"
  ad_RevokeAuth :: "bytes \<Rightarrow> bytes \<Rightarrow> string option"
  ad_FetchStats :: "(bytes \<Rightarrow> bytes \<Rightarrow> string \<Rightarrow> string + PostStats) option"

type_synonym Registry = "(string \<times> Adapter) list"

definition reg_Register :: "string \<Rightarrow> Adapter \<Rightarrow> Registry \<Rightarrow> Registry" where
  "reg_Register name adapter r = AList.update name adapter r"

definition reg_Get :: "Registry \<Rightarrow> string \<Rightarrow> string + Adapter" where
  "reg_Get r name = (case map_of r name of None \<Rightarrow> Inl (''unsupported platform: '' @ name) | Some a \<Rightarrow> Inr a)"

definition reg_List :: "Registry \<Rightarrow> string list" where
  "reg_List r = map fst r"

section \<open>Repository\<close>

record PlatformConnection =
  pc_ID :: uuid
  pc_UserID :: uuid
  pc_Platform :: string
  pc_PlatformUID :: string
  pc_DisplayName :: string
  pc_EncryptedAuth :: bytes
  pc_Status :: string
  pc_LastVerified :: "time option"
  pc_CreatedAt :: time
  pc_UpdatedAt :: time

definition conn_ListByUser :: "bool \<Rightarrow> uuid \<Rightarrow> PlatformConnection list \<Rightarrow> PlatformConnection list option" where
  "conn_ListByUser fault userID t =
     (if fault then None else Some (order_by_desc pc_CreatedAt (filter (\<lambda>c. pc_UserID c = userID) t)))"

definition conn_GetByPlatform :: "bool \<Rightarrow> uuid \<Rightarrow> string \<Rightarrow> PlatformConnection list \<Rightarrow> PlatformConnection option" where
  "conn_GetByPlatform fault userID platform t =
     (if fault then None else find_row (\<lambda>c. pc_UserID c = userID \<and> pc_Platform c = platform) t)"

text \<open>The table has a unique id and a unique pair of user and platform.\<close>

definition conn_Create :: "bool \<Rightarrow> time \<Rightarrow> PlatformConnection \<Rightarrow> PlatformConnection list \<Rightarrow> bool \<times> PlatformConnection list" where
  "conn_Create fault now conn t =
     (if fault \<or> find_row (\<lambda>c. pc_ID c = pc_ID conn) t \<noteq> None
         \<or> find_row (\<lambda>c. pc_UserID c = pc_UserID conn \<and> pc_Platform c = pc_Platform conn) t \<noteq> None
      then (False, t)
      else (True, t @ [conn\<lparr>pc_LastVerified := None, pc_CreatedAt := now, pc_UpdatedAt := now\<rparr>]))"

definition conn_Delete :: "bool \<Rightarrow> uuid \<Rightarrow> PlatformConnection list \<Rightarrow> bool \<times> PlatformConnection list" where
  "conn_Delete fault cid t = (if fault then (False, t) else (True, delete_rows (\<lambda>c. pc_ID c = cid) t))"

definition conn_Update :: "bool \<Rightarrow> time \<Rightarrow> PlatformConnection \<Rightarrow> PlatformConnection list \<Rightarrow> bool \<times> PlatformConnection list" where
  "conn_Update fault now conn t =
     (if fault then (False, t)
      else (True, update_rows (\<lambda>c. pc_ID c = pc_ID conn \<and> pc_UserID c = pc_UserID conn)
              (\<lambda>c. c\<lparr>pc_PlatformUID := pc_PlatformUID conn, pc_DisplayName := pc_DisplayName conn,
                     pc_EncryptedAuth := pc_EncryptedAuth conn, pc_Status := pc_Status conn,
                     pc_LastVerified := Some now, pc_UpdatedAt := now\<rparr>) t))"

section \<open>Service\<close>

record storedAuthSession =
  sa_userID :: uuid
  sa_platform :: string
  sa_authRef :: string
  sa_cdpHandle :: AuthSession
  sa_createdAt :: time

record PlatformState =
  pf_conns :: "PlatformConnection list"
  pf_sessions :: "(string \<times> storedAuthSession) list"

text \<open>What a call gets from outside: the text form of UUIDs, the adapters, the clock, the identifier it may
  generate and the faults of its statements.\<close>

record PlatformEnv =
  pv_show :: "uuid \<Rightarrow> string"
  pv_registry :: Registry
  pv_now :: time
  pv_newID :: uuid
  pv_faults :: faults

definition sessionMaxAge :: duration where
  "sessionMaxAge = 5 * minute"

definition authSessionKey :: "(uuid \<Rightarrow> string) \<Rightarrow> uuid \<Rightarrow> string \<Rightarrow> string \<Rightarrow> string" where
  "authSessionKey shw userID platformName authRef = shw userID @ '':'' @ platformName @ '':'' @ authRef"

text \<open>One tick of the background loop.\<close>

definition cleanupExpiredSessions :: "time \<Rightarrow> PlatformState \<Rightarrow> PlatformState" where
  "cleanupExpiredSessions now s =
     s\<lparr>pf_sessions := filter (\<lambda>(k, session). \<not> now - sa_createdAt session > sessionMaxAge) (pf_sessions s)\<rparr>"

definition CancelAuth :: "(uuid \<Rightarrow> string) \<Rightarrow> uuid \<Rightarrow> string \<Rightarrow> string \<Rightarrow> PlatformState \<Rightarrow> PlatformState" where
  "CancelAuth shw userID platformName authRef s =
     s\<lparr>pf_sessions := AList.delete (authSessionKey shw userID platformName authRef) (pf_sessions s)\<rparr>"

definition plat_List :: "PlatformEnv \<Rightarrow> uuid \<Rightarrow> PlatformState \<Rightarrow> PlatformConnection list option" where
  "plat_List e userID s = conn_ListByUser (pv_faults e 0) userID (pf_conns s)"

text \<open>The display names of the three Chinese platforms are UTF-8 strings.\<close>

definition platformDisplayNames :: "(string \<times> string) list" where
  "platformDisplayNames =
     [(''xiaohongshu'', bytes_string [229, 176, 143, 231, 186, 162, 228, 185, 166]),
      (''wechat'', bytes_string [229, 190, 174, 228, 191, 161]),
      (''zhihu'', bytes_string [231, 159, 165, 228, 185, 142]),
      (''medium'', ''Medium''), (''wordpress'', ''WordPress''), (''webhook'', ''Webhook'')]"

record PlatformCatalogEntry =
  ce_Platform :: string
  ce_DisplayName :: string
  ce_Connected :: bool

definition Catalog :: "PlatformEnv \<Rightarrow> uuid \<Rightarrow> PlatformState \<Rightarrow> PlatformCatalogEntry list option" where
  "Catalog e userID s =
     (case conn_ListByUser (pv_faults e 0) userID (pf_conns s) of
        None \<Rightarrow> None
      | Some conns \<Rightarrow>
          Some (map (\<lambda>name. \<lparr>ce_Platform = name,
                    ce_DisplayName = (case map_of platformDisplayNames name of Some d \<Rightarrow> d | None \<Rightarrow> name),
                    ce_Connected = list_ex (\<lambda>c. pc_Platform c = name) conns\<rparr>) (sort (reg_List (pv_registry e)))))"

definition plat_Connect :: "PlatformEnv \<Rightarrow> uuid \<Rightarrow> string \<Rightarrow> PlatformState \<Rightarrow> (string + PlatformConnection) \<times> PlatformState" where
  "plat_Connect e userID platformName s =
     (case conn_GetByPlatform (pv_faults e 0) userID platformName (pf_conns s) of
        Some existing \<Rightarrow> (Inl ''platform already connected'', s)
      | None \<Rightarrow>
          let conn = \<lparr>pc_ID = pv_newID e, pc_UserID = userID, pc_Platform = platformName, pc_PlatformUID = '''',
                      pc_DisplayName = '''', pc_EncryptedAuth = [], pc_Status = ''pending'', pc_LastVerified = None,
                      pc_CreatedAt = 0, pc_UpdatedAt = 0\<rparr>;
              (ok, t) = conn_Create (pv_faults e 1) (pv_now e) conn (pf_conns s)
          in if \<not> ok then (Inl ''database error'', s\<lparr>pf_conns := t\<rparr>) else (Inr conn, s\<lparr>pf_conns := t\<rparr>))"

text \<open>Disconnecting also returns the credentials it asked the adapter to revoke, without the master key; an
  error of the adapter is only logged.\<close>

definition Disconnect :: "PlatformEnv \<Rightarrow> uuid \<Rightarrow> string \<Rightarrow> PlatformState \<Rightarrow> string option \<times> bytes list \<times> PlatformState" where
  "Disconnect e userID platformName s =
     (case conn_GetByPlatform (pv_faults e 0) userID platformName (pf_conns s) of
        None \<Rightarrow> (Some ''platform not connected'', [], s)
      | Some conn \<Rightarrow>
          let revoked = (case reg_Get (pv_registry e) platformName of
                           Inl _ \<Rightarrow> []
                         | Inr adapter \<Rightarrow> if pc_EncryptedAuth conn \<noteq> [] then [pc_EncryptedAuth conn] else []);
              (ok, t) = conn_Delete (pv_faults e 1) (pc_ID conn) (pf_conns s)
          in (if ok then None else Some ''database error'', revoked, s\<lparr>pf_conns := t\<rparr>))"

definition Verify :: "PlatformEnv \<Rightarrow> uuid \<Rightarrow> string \<Rightarrow> PlatformState \<Rightarrow> (string + PlatformConnection) \<times> PlatformState" where
  "Verify e userID platformName s =
     (case conn_GetByPlatform (pv_faults e 0) userID platformName (pf_conns s) of
        None \<Rightarrow> (Inl ''platform not connected'', s)
      | Some conn0 \<Rightarrow>
          let conn = conn0\<lparr>pc_Status := ''active''\<rparr>;
              (ok, t) = conn_Update (pv_faults e 1) (pv_now e) conn (pf_conns s)
          in if \<not> ok then (Inl ''update verification: database error'', s\<lparr>pf_conns := t\<rparr>)
             else (Inr conn, s\<lparr>pf_conns := t\<rparr>))"

definition StartAuth :: "PlatformEnv \<Rightarrow> uuid \<Rightarrow> string \<Rightarrow> bytes \<Rightarrow> PlatformState \<Rightarrow> (string + string \<times> bytes) \<times> PlatformState" where
  "StartAuth e userID platformName masterKey s =
     (case reg_Get (pv_registry e) platformName of
        Inl err \<Rightarrow> (Inl err, s)
      | Inr adapter \<Rightarrow>
          (case ad_StartAuth adapter masterKey of
             Inl err \<Rightarrow> (Inl (''start auth: '' @ err), s)
           | Inr (session, qrPNG) \<Rightarrow>
               (Inr (ses_AuthRef session, qrPNG),
                s\<lparr>pf_sessions := AList.update (authSessionKey (pv_show e) userID platformName (ses_AuthRef session))
                    \<lparr>sa_userID = userID, sa_platform = platformName, sa_authRef = ses_AuthRef session,
                     sa_cdpHandle = session, sa_createdAt = pv_now e\<rparr> (pf_sessions s)\<rparr>)))"

text \<open>Storing the credentials of a finished authentication. Any error of the query counts as no connection.\<close>

definition save_auth :: "PlatformEnv \<Rightarrow> uuid \<Rightarrow> string \<Rightarrow> bytes \<Rightarrow> PlatformConnection list \<Rightarrow> string option \<times> PlatformConnection list" where
  "save_auth e userID platformName encryptedAuth t =
     (case conn_GetByPlatform (pv_faults e 0) userID platformName t of
        None \<Rightarrow>
          let (ok, t') = conn_Create (pv_faults e 1) (pv_now e)
                \<lparr>pc_ID = pv_newID e, pc_UserID = userID, pc_Platform = platformName, pc_PlatformUID = '''',
                 pc_DisplayName = '''', pc_EncryptedAuth = encryptedAuth, pc_Status = ''active'', pc_LastVerified = None,
                 pc_CreatedAt = 0, pc_UpdatedAt = 0\<rparr> t
          in (if ok then None else Some ''create connection: database error'', t')
      | Some conn \<Rightarrow>
          let (ok, t') = conn_Update (pv_faults e 1) (pv_now e)
                (conn\<lparr>pc_EncryptedAuth := encryptedAuth, pc_Status := ''active''\<rparr>) t
          in (if ok then None else Some ''update connection: database error'', t'))"

definition PollAuth :: "PlatformEnv \<Rightarrow> uuid \<Rightarrow> string \<Rightarrow> string \<Rightarrow> bytes \<Rightarrow> PlatformState
    \<Rightarrow> (string + bytes option) \<times> PlatformState" where
  "PollAuth e userID platformName authRef masterKey s =
     (let sessionKey = authSessionKey (pv_show e) userID platformName authRef in
      case map_of (pf_sessions s) sessionKey of
        None \<Rightarrow> (Inl ''auth session not found or expired'', s)
      | Some stored \<Rightarrow>
          (case reg_Get (pv_registry e) platformName of
             Inl err \<Rightarrow> (Inl err, s)
           | Inr adapter \<Rightarrow>
               (case ad_PollAuth adapter (sa_cdpHandle stored) masterKey of
                  Inl err \<Rightarrow> (Inl (''poll auth: '' @ err), s)
                | Inr None \<Rightarrow> (Inr None, s)
                | Inr (Some encryptedAuth) \<Rightarrow>
                    (case save_auth e userID platformName encryptedAuth (pf_conns s) of
                       (Some err, t) \<Rightarrow> (Inl err, s\<lparr>pf_conns := t\<rparr>)
                     | (None, t) \<Rightarrow> (Inr (Some encryptedAuth),
                         s\<lparr>pf_conns := t, pf_sessions := AList.delete sessionKey (pf_sessions s)\<rparr>)))))"

definition CheckStatus :: "PlatformEnv \<Rightarrow> uuid \<Rightarrow> string \<Rightarrow> string \<Rightarrow> bytes \<Rightarrow> PlatformState \<Rightarrow> string \<times> string option" where
  "CheckStatus e userID platformName platformID masterKey s =
     (case reg_Get (pv_registry e) platformName of
        Inl err \<Rightarrow> (''unknown'', Some err)
      | Inr adapter \<Rightarrow>
          (case conn_GetByPlatform (pv_faults e 0) userID platformName (pf_conns s) of
             None \<Rightarrow> (''unknown'', Some ''platform not connected'')
           | Some conn \<Rightarrow> ad_CheckStatus adapter (pc_EncryptedAuth conn) masterKey platformID))"

section \<open>Handlers\<close>

definition handle_PlatformList :: "PlatformEnv \<Rightarrow> uuid option \<Rightarrow> PlatformState \<Rightarrow> PlatformConnection list response" where
  "handle_PlatformList e user s =
     (case user of
        None \<Rightarrow> HttpError 401 ''unauthorized'' ''''
      | Some userID \<Rightarrow>
          (case plat_List e userID s of
             None \<Rightarrow> HttpError 500 ''list_error'' ''Failed to list platforms''
           | Some connections \<Rightarrow> JSON 200 connections))"

definition handle_Catalog :: "PlatformEnv \<Rightarrow> uuid option \<Rightarrow> PlatformState \<Rightarrow> PlatformCatalogEntry list response" where
  "handle_Catalog e user s =
     (case user of
        None \<Rightarrow> HttpError 401 ''unauthorized'' ''''
      | Some userID \<Rightarrow>
          (case Catalog e userID s of
             None \<Rightarrow> HttpError 500 ''catalog_error'' ''Failed to list platform catalog''
           | Some entries \<Rightarrow> JSON 200 entries))"

datatype sse = QrCode string string | SseStatus string "string option"

definition sanitizeError :: "string \<Rightarrow> string" where
  "sanitizeError msg = (if length msg > 200 then take 200 msg @ ''...'' else msg)"

text \<open>What the loop of \<open>Connect\<close> waits for: the end of the request's context, or a tick with the environment
  of its poll. The list ends when the three minutes are over.\<close>

datatype poll_event = CtxDone | Tick PlatformEnv

fun connect_loop :: "uuid \<Rightarrow> string \<Rightarrow> string \<Rightarrow> bytes \<Rightarrow> poll_event list \<Rightarrow> PlatformState \<Rightarrow> sse list \<times> PlatformState" where
  "connect_loop userID platformName authRef key [] s = ([SseStatus ''failed'' (Some ''authentication timed out'')], s)"
| "connect_loop userID platformName authRef key (CtxDone # evs) s = ([], s)"
| "connect_loop userID platformName authRef key (Tick e # evs) s =
     (case PollAuth e userID platformName authRef key s of
        (Inl err, s') \<Rightarrow> ([SseStatus ''failed'' (Some (sanitizeError err))], s')
      | (Inr None, s') \<Rightarrow>
          (let (out, s'') = connect_loop userID platformName authRef key evs s'
           in (SseStatus ''waiting'' None # out, s''))
      | (Inr (Some _), s') \<Rightarrow> ([SseStatus ''done'' None], s'))"

definition handle_Connect :: "PlatformEnv \<Rightarrow> bool \<Rightarrow> bytes \<Rightarrow> uuid option \<Rightarrow> string \<Rightarrow> poll_event list \<Rightarrow> PlatformState
    \<Rightarrow> sse list response \<times> PlatformState" where
  "handle_Connect e canFlush masterKey user platformName evs s =
     (case user of
        None \<Rightarrow> (HttpError 401 ''unauthorized'' '''', s)
      | Some userID \<Rightarrow>
          (case validateRequired platformName ''platform'' of
             Some m \<Rightarrow> (writeValidationError m, s)
           | None \<Rightarrow>
               (case StartAuth e userID platformName masterKey s of
                  (Inl err, s1) \<Rightarrow> (HttpError 500 ''connect_error'' ''Failed to start platform authentication'', s1)
                | (Inr (authRef, qrPNG), s1) \<Rightarrow>
                    if \<not> canFlush then (HttpError 500 ''streaming_error'' ''Streaming not supported'', s1)
                    else
                      (let (out, s2) = connect_loop userID platformName authRef masterKey evs s1
                       in (JSON 200 (QrCode authRef (b64_encode qrPNG) # out),
                           CancelAuth (pv_show e) userID platformName authRef s2)))))"

definition handle_Disconnect :: "PlatformEnv \<Rightarrow> uuid option \<Rightarrow> string \<Rightarrow> PlatformState \<Rightarrow> unit response \<times> bytes list \<times> PlatformState" where
  "handle_Disconnect e user platformName s =
     (case user of
        None \<Rightarrow> (HttpError 401 ''unauthorized'' '''', [], s)
      | Some userID \<Rightarrow>
          (case validateRequired platformName ''platform'' of
             Some m \<Rightarrow> (writeValidationError m, [], s)
           | None \<Rightarrow>
               (case Disconnect e userID platformName s of
                  (Some err, revoked, s') \<Rightarrow> (HttpError 500 ''disconnect_error'' ''Failed to disconnect platform'', revoked, s')
                | (None, revoked, s') \<Rightarrow> (JSON 204 (), revoked, s'))))"

text \<open>A failed verification answers 400 with the error in the body.\<close>

definition handle_Verify :: "PlatformEnv \<Rightarrow> uuid option \<Rightarrow> string \<Rightarrow> PlatformState
    \<Rightarrow> (string + PlatformConnection) response \<times> PlatformState" where
  "handle_Verify e user platformName s =
     (case user of
        None \<Rightarrow> (HttpError 401 ''unauthorized'' '''', s)
      | Some userID \<Rightarrow>
          (case validateRequired platformName ''platform'' of
             Some m \<Rightarrow> (writeValidationError m, s)
           | None \<Rightarrow>
               (case Verify e userID platformName s of
                  (Inl err, s') \<Rightarrow> (JSON 400 (Inl err), s')
                | (Inr conn, s') \<Rightarrow> (JSON 200 (Inr conn), s'))))"

section \<open>Connections belong to their users\<close>

definition conn_inv :: "PlatformConnection list \<Rightarrow> bool" where
  "conn_inv t \<longleftrightarrow> distinct (map pc_ID t) \<and> distinct (map (\<lambda>c. (pc_UserID c, pc_Platform c)) t)"

definition user_conns :: "uuid \<Rightarrow> PlatformConnection list \<Rightarrow> PlatformConnection list" where
  "user_conns u t = filter (\<lambda>c. pc_UserID c = u) t"

text \<open>A change of the table on behalf of user \<open>u\<close>.\<close>

definition conns_step :: "uuid \<Rightarrow> PlatformConnection list \<Rightarrow> PlatformConnection list \<Rightarrow> bool" where
  "conns_step u t t' \<longleftrightarrow> (conn_inv t \<longrightarrow> conn_inv t' \<and> (\<forall>v. v \<noteq> u \<longrightarrow> user_conns v t' = user_conns v t))"

lemma conns_step_refl [simp, intro]: "conns_step u t t"
  by (simp add: conns_step_def)

lemma conns_step_trans: "conns_step u t t' \<Longrightarrow> conns_step u t' t'' \<Longrightarrow> conns_step u t t''"
  by (auto simp: conns_step_def)

lemma conn_Create_step: "conns_step (pc_UserID c) t (snd (conn_Create f now c t))"
  by (auto simp: conns_step_def conn_inv_def user_conns_def conn_Create_def find_row_None_iff)

lemma conn_Update_step: "conns_step (pc_UserID c) t (snd (conn_Update f now c t))"
proof -
  have "user_conns v (snd (conn_Update f now c t)) = user_conns v t" if "v \<noteq> pc_UserID c" for v
    unfolding user_conns_def conn_Update_def using that by (cases f) (auto intro!: filter_update_rows_other)
  moreover have "conn_inv t \<Longrightarrow> conn_inv (snd (conn_Update f now c t))"
    by (simp add: conn_inv_def conn_Update_def map_update_rows)
  ultimately show ?thesis by (simp add: conns_step_def)
qed

lemma conn_GetByPlatform_SomeD:
  "conn_GetByPlatform f u p t = Some c \<Longrightarrow> c \<in> set t \<and> pc_UserID c = u \<and> pc_Platform c = p"
  by (auto simp: conn_GetByPlatform_def dest: find_row_SomeD split: if_split_asm)

lemma conn_Delete_step:
  assumes "c \<in> set t"
  shows "conns_step (pc_UserID c) t (snd (conn_Delete f (pc_ID c) t))"
proof -
  have "pc_ID r \<noteq> pc_ID c" if "distinct (map pc_ID t)" "r \<in> set t" "pc_UserID r \<noteq> pc_UserID c" for r
    using unique_row [OF that(1,2) assms] that(3) by auto
  then have "user_conns v (delete_rows (\<lambda>r. pc_ID r = pc_ID c) t) = user_conns v t"
    if "distinct (map pc_ID t)" "v \<noteq> pc_UserID c" for v
    using that by (auto simp: user_conns_def delete_rows_def intro!: filter_cong)
  then show ?thesis
    by (auto simp: conns_step_def conn_inv_def conn_Delete_def delete_rows_def distinct_map_filter)
qed

lemma save_auth_step: "conns_step u t (snd (save_auth e u p a t))"
  using conn_Create_step [of "\<lparr>pc_ID = pv_newID e, pc_UserID = u, pc_Platform = p, pc_PlatformUID = '''',
      pc_DisplayName = '''', pc_EncryptedAuth = a, pc_Status = ''active'', pc_LastVerified = None,
      pc_CreatedAt = 0, pc_UpdatedAt = 0\<rparr>" t "pv_faults e 1" "pv_now e"]
    conn_Update_step [of "c\<lparr>pc_EncryptedAuth := a, pc_Status := ''active''\<rparr>" t "pv_faults e 1" "pv_now e" for c]
  by (auto simp: save_auth_def case_prod_unfold Let_def dest: conn_GetByPlatform_SomeD split: option.split)

lemma PollAuth_step: "conns_step u (pf_conns s) (pf_conns (snd (PollAuth e u p r k s)))"
  using save_auth_step [of u "pf_conns s" e p]
  by (auto simp: PollAuth_def Let_def split: option.split sum.split prod.split) (metis snd_conv)+

lemma connect_loop_step: "conns_step u (pf_conns s) (pf_conns (snd (connect_loop u p r k evs s)))"
proof (induction evs arbitrary: s)
  case (Cons ev evs)
  show ?case
  proof (cases ev)
    case (Tick e)
    obtain x s' where x: "PollAuth e u p r k s = (x, s')" by fastforce
    have "conns_step u (pf_conns s) (pf_conns s')" using PollAuth_step [of u s e p r k] x by simp
    then show ?thesis
      using Cons.IH [of s'] x Tick by (auto simp: case_prod_unfold Let_def intro: conns_step_trans split: sum.split option.split)
  qed simp
qed simp

lemma StartAuth_conns [simp]: "StartAuth e u p k s = (x, s') \<Longrightarrow> pf_conns s' = pf_conns s"
  by (auto simp: StartAuth_def split: sum.split_asm)

lemma handle_Connect_step: "conns_step u (pf_conns s) (pf_conns (snd (handle_Connect e fl k (Some u) p evs s)))"
proof -
  obtain x s1 where x: "StartAuth e u p k s = (x, s1)" by fastforce
  show ?thesis
    using connect_loop_step [of u s1 p _ k evs] StartAuth_conns [OF x] x
    by (auto simp: handle_Connect_def CancelAuth_def case_prod_unfold Let_def split: option.split sum.split)
qed

lemma Disconnect_step: "conns_step u (pf_conns s) (pf_conns (snd (snd (Disconnect e u p s))))"
proof (cases "conn_GetByPlatform (pv_faults e 0) u p (pf_conns s)")
  case (Some c)
  then have "conns_step u (pf_conns s) (snd (conn_Delete (pv_faults e 1) (pc_ID c) (pf_conns s)))"
    using conn_Delete_step [of c "pf_conns s" "pv_faults e 1"] conn_GetByPlatform_SomeD [OF Some] by auto
  then show ?thesis using Some by (simp add: Disconnect_def case_prod_unfold Let_def)
qed (simp add: Disconnect_def)

lemma Verify_step: "conns_step u (pf_conns s) (pf_conns (snd (Verify e u p s)))"
proof (cases "conn_GetByPlatform (pv_faults e 0) u p (pf_conns s)")
  case (Some c)
  then have "pc_UserID (c\<lparr>pc_Status := ''active''\<rparr>) = u" using conn_GetByPlatform_SomeD [OF Some] by simp
  then show ?thesis
    using conn_Update_step [of "c\<lparr>pc_Status := ''active''\<rparr>" "pf_conns s" "pv_faults e 1" "pv_now e"] Some
    by (simp add: Verify_def case_prod_unfold Let_def)
qed (simp add: Verify_def)

text \<open>What clients and the background loop can do with the platforms.\<close>

datatype platform_op =
    ConnectOp PlatformEnv bool bytes uuid string "poll_event list"
  | DisconnectOp PlatformEnv uuid string
  | VerifyOp PlatformEnv uuid string
  | CleanupOp time

fun platform_owner :: "platform_op \<Rightarrow> uuid option" where
  "platform_owner (ConnectOp e fl k u p evs) = Some u"
| "platform_owner (DisconnectOp e u p) = Some u"
| "platform_owner (VerifyOp e u p) = Some u"
| "platform_owner (CleanupOp now) = None"

fun run_platform :: "platform_op \<Rightarrow> PlatformState \<Rightarrow> PlatformState" where
  "run_platform (ConnectOp e fl k u p evs) s = snd (handle_Connect e fl k (Some u) p evs s)"
| "run_platform (DisconnectOp e u p) s = snd (snd (handle_Disconnect e (Some u) p s))"
| "run_platform (VerifyOp e u p) s = snd (handle_Verify e (Some u) p s)"
| "run_platform (CleanupOp now) s = cleanupExpiredSessions now s"

lemma run_platform_step:
  "(case platform_owner x of
      Some u \<Rightarrow> conns_step u (pf_conns s) (pf_conns (run_platform x s))
    | None \<Rightarrow> pf_conns (run_platform x s) = pf_conns s)"
proof (cases x)
  case (DisconnectOp e u p)
  then show ?thesis using Disconnect_step [of u s e p]
    by (auto simp: handle_Disconnect_def split: option.split prod.split)
next
  case (VerifyOp e u p)
  then show ?thesis using Verify_step [of u s e p]
    by (auto simp: handle_Verify_def split: option.split sum.split prod.split)
qed (simp_all add: handle_Connect_step cleanupExpiredSessions_def)

interpretation pf: owned_ops run_platform platform_owner "\<lambda>s. conn_inv (pf_conns s)" "\<lambda>u s. user_conns u (pf_conns s)"
proof
  fix s :: PlatformState and x assume "conn_inv (pf_conns s)"
  then show "conn_inv (pf_conns (run_platform x s))"
    using run_platform_step [of x s] by (auto simp: conns_step_def split: option.split_asm)
next
  fix s :: PlatformState and x u assume "conn_inv (pf_conns s)" "platform_owner x \<noteq> Some u"
  then show "user_conns u (pf_conns (run_platform x s)) = user_conns u (pf_conns s)"
    using run_platform_step [of x s] by (auto simp: conns_step_def split: option.split_asm)
qed

text \<open>Platform connections belong to their users. Whatever users do with their platforms, every user has
  at most one connection per platform and ids stay unique, and the connections of a user, with their
  credentials, are untouched by everything other users and the session cleanup do.\<close>

theorem platform_connections_isolated:
  assumes "conn_inv (pf_conns s)"
  shows "conn_inv (pf_conns (fold run_platform xs s))
    \<and> ((\<forall>x \<in> set xs. platform_owner x \<noteq> Some u) \<longrightarrow>
         user_conns u (pf_conns (fold run_platform xs s)) = user_conns u (pf_conns s))"
  using pf.run_inv [OF assms] pf.run_view [OF assms] by blast

definition demo_adapter :: Adapter where
  "demo_adapter = \<lparr>ad_StartAuth = (\<lambda>k. Inr (\<lparr>ses_CDPContext = CtxBrowser 0, ses_AuthRef = ''r''\<rparr>, [1, 2])),
     ad_PollAuth = (\<lambda>ses k. Inr (Some [7])),
     ad_Publish = (\<lambda>a k p. Inr (Some \<lparr>pr_PlatformURL = ''https://x/1'', pr_PlatformID = ''1''\<rparr>)),
     ad_CheckStatus = (\<lambda>a k i. (''live'', None)), ad_RevokeAuth = (\<lambda>a k. None),
     ad_FetchStats = Some (\<lambda>a k i. Inr \<lparr>ps_Views = 3, ps_Likes = 2, ps_Comments = 1\<rparr>)\<rparr>"

definition demo_platform_env :: PlatformEnv where
  "demo_platform_env = \<lparr>pv_show = (\<lambda>u. replicate u (CHR ''u'')), pv_registry = [(''medium'', demo_adapter)],
     pv_now = 10, pv_newID = 5, pv_faults = no_faults\<rparr>"

definition demo_conn :: PlatformConnection where
  "demo_conn = \<lparr>pc_ID = 4, pc_UserID = 1, pc_Platform = ''medium'', pc_PlatformUID = '''', pc_DisplayName = '''',
     pc_EncryptedAuth = [9], pc_Status = ''active'', pc_LastVerified = None, pc_CreatedAt = 0, pc_UpdatedAt = 0\<rparr>"

theorem platform_connections_isolated_witness:
  "user_conns 1 (pf_conns (fold run_platform
      [ConnectOp demo_platform_env True [] 2 ''medium'' [Tick demo_platform_env], DisconnectOp demo_platform_env 2 ''medium'', CleanupOp 99]
      \<lparr>pf_conns = [demo_conn], pf_sessions = []\<rparr>)) = [demo_conn]"
  using platform_connections_isolated [of "\<lparr>pf_conns = [demo_conn], pf_sessions = []\<rparr>"
      "[ConnectOp demo_platform_env True [] 2 ''medium'' [Tick demo_platform_env], DisconnectOp demo_platform_env 2 ''medium'', CleanupOp 99]" 1]
  by (simp del: fold_simps add: conn_inv_def user_conns_def demo_conn_def)

section \<open>The authentication flow\<close>

lemma save_auth_cases:
  assumes "save_auth e u p a t = (err, t')"
  shows "(err \<noteq> None \<longrightarrow> t' = t)
    \<and> (err = None \<longrightarrow> (\<exists>c \<in> set t'. pc_UserID c = u \<and> pc_Platform c = p \<and> pc_Status c = ''active'' \<and> pc_EncryptedAuth c = a))"
proof (cases "conn_GetByPlatform (pv_faults e 0) u p t")
  case None
  then show ?thesis using assms by (auto simp: save_auth_def conn_Create_def Let_def split: if_split_asm)
next
  case (Some c)
  have c: "c \<in> set t" "pc_UserID c = u" "pc_Platform c = p" using conn_GetByPlatform_SomeD [OF Some] by simp_all
  define f :: "PlatformConnection \<Rightarrow> PlatformConnection" where "f = (\<lambda>r. r\<lparr>pc_PlatformUID := pc_PlatformUID c, pc_DisplayName := pc_DisplayName c,
      pc_EncryptedAuth := a, pc_Status := ''active'', pc_LastVerified := Some (pv_now e), pc_UpdatedAt := pv_now e\<rparr>)"
  have t': "if pv_faults e 1 then err \<noteq> None \<and> t' = t
      else err = None \<and> t' = update_rows (\<lambda>r. pc_ID r = pc_ID c \<and> pc_UserID r = pc_UserID c) f t"
    using assms Some by (auto simp: save_auth_def conn_Update_def Let_def f_def split: if_split_asm)
  show ?thesis
  proof (cases "pv_faults e 1")
    case False
    then have "err = None" "f c \<in> set t'" using t' update_rows_member [OF c(1)] by simp_all
    then show ?thesis using c by (auto simp: f_def intro!: bexI [of _ "f c"])
  qed (use t' in auto)
qed

lemma PollAuth_cases:
  assumes "PollAuth e u p r k s = (x, s')" and "map_of (pf_sessions s) (authSessionKey (pv_show e) u p r) = Some stored"
  shows "case x of
      Inl err \<Rightarrow> pf_conns s' = pf_conns s
    | Inr None \<Rightarrow> s' = s
    | Inr (Some a) \<Rightarrow> (\<exists>c \<in> set (pf_conns s'). pc_UserID c = u \<and> pc_Platform c = p \<and> pc_Status c = ''active'' \<and> pc_EncryptedAuth c = a)
        \<and> (\<exists>ad. reg_Get (pv_registry e) p = Inr ad \<and> ad_PollAuth ad (sa_cdpHandle stored) k = Inr (Some a))"
  using assms
  by (auto simp: PollAuth_def Let_def dest!: save_auth_cases split: sum.splits option.splits prod.splits)

text \<open>The credentials \<open>a\<close> come from a poll of the session \<open>ses\<close> in one of the environments of the ticks.\<close>

definition polled :: "poll_event list \<Rightarrow> string \<Rightarrow> bytes \<Rightarrow> AuthSession \<Rightarrow> bytes \<Rightarrow> bool" where
  "polled evs p k ses a \<longleftrightarrow> (\<exists>e ad. Tick e \<in> set evs \<and> reg_Get (pv_registry e) p = Inr ad \<and> ad_PollAuth ad ses k = Inr (Some a))"

lemma connect_loop_cases:
  assumes "\<forall>e. Tick e \<in> set evs \<longrightarrow> pv_show e = shw"
    and "map_of (pf_sessions s) (authSessionKey shw u p r) = Some stored"
    and "connect_loop u p r k evs s = (out, s')"
  shows "if out \<noteq> [] \<and> last out = SseStatus ''done'' None
    then \<exists>c \<in> set (pf_conns s'). pc_UserID c = u \<and> pc_Platform c = p \<and> pc_Status c = ''active''
           \<and> polled evs p k (sa_cdpHandle stored) (pc_EncryptedAuth c)
    else pf_conns s' = pf_conns s"
  using assms
proof (induction evs arbitrary: out)
  case (Cons ev evs)
  show ?case
  proof (cases ev)
    case (Tick e)
    obtain x s1 where x: "PollAuth e u p r k s = (x, s1)" by fastforce
    have st: "map_of (pf_sessions s) (authSessionKey (pv_show e) u p r) = Some stored" using Cons.prems Tick by simp
    note poll = PollAuth_cases [OF x st]
    have more: "polled evs p k ses a \<Longrightarrow> polled (ev # evs) p k ses a" for ses a by (auto simp: polled_def)
    show ?thesis
    proof (cases x)
      case (Inr v)
      show ?thesis
      proof (cases v)
        case None
        then obtain out' where out': "connect_loop u p r k evs s = (out', s')" "out = SseStatus ''waiting'' None # out'"
          using Cons.prems(3) x Tick Inr poll by (auto simp: Let_def split: prod.split_asm)
        then show ?thesis using Cons.IH [OF _ Cons.prems(2) out'(1)] Cons.prems(1) more by (auto split: if_split_asm)
      next
        case (Some a)
        then show ?thesis using Cons.prems(3) x Tick Inr poll by (auto simp: polled_def)
      qed
    qed (use Cons.prems(3) x Tick poll in auto)
  qed (use Cons.prems in auto)
qed auto

text \<open>The flow that connects a platform. A stream starts with the QR code of a new session; when its last
  event says that the authentication is done, the user has an active connection to the platform whose
  credentials the adapter gave for that session, and in every other case the connections are as before.
  However the stream ends, the session is gone.\<close>

theorem platform_connect_flow:
  assumes "handle_Connect e canFlush k (Some u) p evs s = (JSON 200 out, s')"
    and "\<forall>e'. Tick e' \<in> set evs \<longrightarrow> pv_show e' = pv_show e"
  shows "\<exists>ad ses png evts. reg_Get (pv_registry e) p = Inr ad \<and> ad_StartAuth ad k = Inr (ses, png)
    \<and> out = QrCode (ses_AuthRef ses) (b64_encode png) # evts
    \<and> map_of (pf_sessions s') (authSessionKey (pv_show e) u p (ses_AuthRef ses)) = None
    \<and> (if evts \<noteq> [] \<and> last evts = SseStatus ''done'' None
       then \<exists>c \<in> set (pf_conns s'). pc_UserID c = u \<and> pc_Platform c = p \<and> pc_Status c = ''active''
              \<and> polled evs p k ses (pc_EncryptedAuth c)
       else pf_conns s' = pf_conns s)"
proof -
  obtain ad ses png s1 where ad: "reg_Get (pv_registry e) p = Inr ad" "ad_StartAuth ad k = Inr (ses, png)"
    and s1: "s1 = s\<lparr>pf_sessions := AList.update (authSessionKey (pv_show e) u p (ses_AuthRef ses))
        \<lparr>sa_userID = u, sa_platform = p, sa_authRef = ses_AuthRef ses, sa_cdpHandle = ses, sa_createdAt = pv_now e\<rparr> (pf_sessions s)\<rparr>"
    and out: "out = QrCode (ses_AuthRef ses) (b64_encode png) # fst (connect_loop u p (ses_AuthRef ses) k evs s1)"
    and s': "s' = CancelAuth (pv_show e) u p (ses_AuthRef ses) (snd (connect_loop u p (ses_AuthRef ses) k evs s1))"
    using assms(1)
    by (auto simp: handle_Connect_def writeValidationError_def StartAuth_def case_prod_unfold Let_def
        split: option.split_asm sum.split_asm if_split_asm)
  have "map_of (pf_sessions s1) (authSessionKey (pv_show e) u p (ses_AuthRef ses)) =
      Some \<lparr>sa_userID = u, sa_platform = p, sa_authRef = ses_AuthRef ses, sa_cdpHandle = ses, sa_createdAt = pv_now e\<rparr>"
    by (simp add: s1)
  note loop = connect_loop_cases [OF assms(2) this, of k "fst (connect_loop u p (ses_AuthRef ses) k evs s1)"
      "snd (connect_loop u p (ses_AuthRef ses) k evs s1)"]
  have "pf_conns s' = pf_conns (snd (connect_loop u p (ses_AuthRef ses) k evs s1))" "pf_conns s1 = pf_conns s"
    "map_of (pf_sessions s') (authSessionKey (pv_show e) u p (ses_AuthRef ses)) = None"
    by (simp_all add: s' s1 CancelAuth_def)
  then show ?thesis using ad out loop by auto
qed

theorem platform_connect_flow_witness:
  "\<exists>out s'. handle_Connect demo_platform_env True [] (Some 2) ''medium'' [Tick demo_platform_env] \<lparr>pf_conns = [], pf_sessions = []\<rparr>
       = (JSON 200 out, s')
     \<and> last out = SseStatus ''done'' None \<and> (\<exists>c \<in> set (pf_conns s'). pc_UserID c = 2 \<and> pc_Status c = ''active'')"
proof -
  have "validateRequired ''medium'' ''platform'' = None" by code_simp
  then obtain out s' where h: "handle_Connect demo_platform_env True [] (Some 2) ''medium'' [Tick demo_platform_env]
      \<lparr>pf_conns = [], pf_sessions = []\<rparr> = (JSON 200 (QrCode ''r'' out # [SseStatus ''done'' None]), s')"
    by (simp add: handle_Connect_def StartAuth_def PollAuth_def save_auth_def conn_GetByPlatform_def conn_Create_def
        demo_platform_env_def demo_adapter_def reg_Get_def Let_def)
  from platform_connect_flow [OF h] h show ?thesis by auto
qed

end
