(* ===== verification/Push.thy ===== *)
theory Push
  imports AnyNote_Prelude Http Go_Strings
begin

text \<open>
  Push messages: the table \<^verbatim>\<open>device_tokens\<close> (\<^verbatim>\<open>repository/device_token_repository.go\<close>), the service
  (\<^verbatim>\<open>service/push_service.go\<close>), the handlers (\<^verbatim>\<open>handler/push_handler.go\<close>) and the queue worker
  (\<^verbatim>\<open>queue/push_job_handler.go\<close>). Users are known by the text of their id. Firebase is an argument that
  answers each message with an error or not; the messages sent are part of a call's result.
\<close>

section \<open>Device tokens\<close>

record DeviceTokenEntry =
  dk_ID :: uuid
  dk_UserID :: string
  dk_Token :: string
  dk_Platform :: string
  dk_CreatedAt :: time
  dk_UpdatedAt :: time

text \<open>The token is unique; inserting a known token moves it to the new user.\<close>

definition token_Create :: "bool \<Rightarrow> time \<Rightarrow> uuid \<Rightarrow> string \<Rightarrow> string \<Rightarrow> string \<Rightarrow> DeviceTokenEntry list \<Rightarrow> bool \<times> DeviceTokenEntry list" where
  "token_Create fault now did userID token platform t =
     (if fault then (False, t)
      else if find_row (\<lambda>r. dk_Token r = token) t \<noteq> None
      then (True, update_rows (\<lambda>r. dk_Token r = token)
              (\<lambda>r. r\<lparr>dk_UserID := userID, dk_Platform := platform, dk_UpdatedAt := now\<rparr>) t)
      else if find_row (\<lambda>r. dk_ID r = did) t \<noteq> None then (False, t)
      else (True, t @ [\<lparr>dk_ID = did, dk_UserID = userID, dk_Token = token, dk_Platform = platform,
                        dk_CreatedAt = now, dk_UpdatedAt = now\<rparr>]))"

definition token_DeleteByToken :: "bool \<Rightarrow> string \<Rightarrow> DeviceTokenEntry list \<Rightarrow> bool \<times> DeviceTokenEntry list" where
  "token_DeleteByToken fault token t = (if fault then (False, t) else (True, delete_rows (\<lambda>r. dk_Token r = token) t))"

text \<open>The queries read the creation time, a timestamp, into a string field. Whether the driver does that is an
  argument (\<open>tsText\<close>); pgx refuses it.\<close>

definition token_GetByToken :: "bool \<Rightarrow> bool \<Rightarrow> string \<Rightarrow> DeviceTokenEntry list \<Rightarrow> DeviceTokenEntry option" where
  "token_GetByToken tsText fault token t =
     (if fault then None
      else case find_row (\<lambda>r. dk_Token r = token) t of None \<Rightarrow> None | Some r \<Rightarrow> if tsText then Some r else None)"

definition token_DeleteByUser :: "bool \<Rightarrow> string \<Rightarrow> DeviceTokenEntry list \<Rightarrow> bool \<times> DeviceTokenEntry list" where
  "token_DeleteByUser fault userID t = (if fault then (False, t) else (True, delete_rows (\<lambda>r. dk_UserID r = userID) t))"

definition token_ListByUser :: "bool \<Rightarrow> bool \<Rightarrow> string \<Rightarrow> DeviceTokenEntry list \<Rightarrow> DeviceTokenEntry list option" where
  "token_ListByUser tsText fault userID t =
     (let rows = order_by_desc dk_CreatedAt (filter (\<lambda>r. dk_UserID r = userID) t)
      in if fault \<or> (rows \<noteq> [] \<and> \<not> tsText) then None else Some rows)"

section \<open>Service\<close>

datatype push_value = PStr string | PBool bool

text \<open>\<open>fmt.Sprint\<close> on the two kinds of values the program puts into a message.\<close>

fun push_sprint :: "push_value \<Rightarrow> string" where
  "push_sprint (PStr s) = s"
| "push_sprint (PBool b) = (if b then ''true'' else ''false'')"

record PushPayload =
  ph_Title :: string
  ph_Body :: string
  ph_Data :: "(string \<times> push_value) list"
  ph_Priority :: string

record FCMMessage =
  fm_Token :: string
  fm_Title :: string
  fm_Body :: string
  fm_Data :: "(string \<times> string) list"
  fm_Priority :: string

text \<open>A call of \<open>SendPush\<close> by another service: the user and the payload. Its errors are only logged there.\<close>

type_synonym push_call = "string \<times> PushPayload"

definition convertDataToStringMap :: "(string \<times> push_value) list \<Rightarrow> (string \<times> string) list" where
  "convertDataToStringMap d = map (\<lambda>(k, v). (k, push_sprint v)) d"

definition isUnregisteredError :: "string option \<Rightarrow> bool" where
  "isUnregisteredError err =
     (case err of
        None \<Rightarrow> False
      | Some msg \<Rightarrow> str_Contains msg ''UNREGISTERED'' \<or> str_Contains msg ''invalid-registration-token'' \<or> str_Contains msg ''NotRegistered'')"

text \<open>The environment: the driver, the answers of Firebase to the messages of a call in their order (no client
  means log-only mode), the clock, a new id and the faults.\<close>

record PushEnv =
  pue_tsText :: bool
  pue_fcm :: "(nat \<Rightarrow> FCMMessage \<Rightarrow> string option) option"
  pue_now :: time
  pue_newID :: uuid
  pue_faults :: faults

definition fcm_message :: "PushPayload \<Rightarrow> DeviceTokenEntry \<Rightarrow> FCMMessage" where
  "fcm_message payload device =
     \<lparr>fm_Token = dk_Token device, fm_Title = ph_Title payload, fm_Body = ph_Body payload,
      fm_Data = convertDataToStringMap (ph_Data payload), fm_Priority = ph_Priority payload\<rparr>"

fun send_devices :: "(nat \<Rightarrow> FCMMessage \<Rightarrow> string option) \<Rightarrow> faults \<Rightarrow> PushPayload \<Rightarrow> nat \<Rightarrow> DeviceTokenEntry list
    \<Rightarrow> DeviceTokenEntry list \<Rightarrow> FCMMessage list \<times> DeviceTokenEntry list" where
  "send_devices send f payload i [] t = ([], t)"
| "send_devices send f payload i (device # devices) t =
     (let msg = fcm_message payload device;
          t1 = (if isUnregisteredError (send i msg) then snd (token_DeleteByToken (f (Suc i)) (dk_Token device) t) else t);
          (msgs, t2) = send_devices send f payload (Suc i) devices t1
      in (msg # msgs, t2))"

definition SendPush :: "PushEnv \<Rightarrow> string \<Rightarrow> PushPayload \<Rightarrow> DeviceTokenEntry list \<Rightarrow> string option \<times> FCMMessage list \<times> DeviceTokenEntry list" where
  "SendPush e userID payload t =
     (case token_ListByUser (pue_tsText e) (pue_faults e 0) userID t of
        None \<Rightarrow> (Some ''list device tokens'', [], t)
      | Some devices \<Rightarrow>
          if devices = [] then (None, [], t)
          else (case pue_fcm e of
                  None \<Rightarrow> (None, [], t)
                | Some send \<Rightarrow> let (msgs, t') = send_devices send (pue_faults e) payload 0 devices t in (None, msgs, t')))"

definition push_RegisterDevice :: "PushEnv \<Rightarrow> string \<Rightarrow> string \<Rightarrow> string \<Rightarrow> DeviceTokenEntry list \<Rightarrow> string option \<times> DeviceTokenEntry list" where
  "push_RegisterDevice e userID token platform t =
     (let (ok, t') = token_Create (pue_faults e 0) (pue_now e) (pue_newID e) userID token platform t
      in (if ok then None else Some ''register device token'', t'))"

definition push_UnregisterDevice :: "PushEnv \<Rightarrow> string \<Rightarrow> string \<Rightarrow> DeviceTokenEntry list \<Rightarrow> string option \<times> DeviceTokenEntry list" where
  "push_UnregisterDevice e userID token t =
     (case token_GetByToken (pue_tsText e) (pue_faults e 0) token t of
        None \<Rightarrow> (Some ''device token not found'', t)
      | Some entry \<Rightarrow>
          if dk_UserID entry \<noteq> userID then (Some ''device token does not belong to the requesting user'', t)
          else let (ok, t') = token_DeleteByToken (pue_faults e 1) token t
               in (if ok then None else Some ''unregister device token'', t'))"

section \<open>Handlers and worker\<close>

definition handle_RegisterDeviceToken :: "PushEnv \<Rightarrow> string option \<Rightarrow> (string \<times> string) option \<Rightarrow> DeviceTokenEntry list
    \<Rightarrow> string response \<times> DeviceTokenEntry list" where
  "handle_RegisterDeviceToken e user body t =
     (case user of
        None \<Rightarrow> (HttpError 401 ''unauthorized'' '''', t)
      | Some userID \<Rightarrow>
          (case body of
             None \<Rightarrow> (HttpError 400 ''invalid_request'' ''Failed to parse request body'', t)
           | Some (token, platform) \<Rightarrow>
               if token = '''' then (HttpError 400 ''validation_error'' ''token is required'', t)
               else if platform = '''' then (HttpError 400 ''validation_error'' ''platform is required'', t)
               else if platform \<notin> {''android'', ''ios'', ''web''}
               then (HttpError 400 ''validation_error'' ''platform must be one of: android, ios, web'', t)
               else (case push_RegisterDevice e userID token platform t of
                       (Some err, t') \<Rightarrow> (HttpError 500 ''register_error'' ''Failed to register device token'', t')
                     | (None, t') \<Rightarrow> (JSON 200 ''registered'', t'))))"

definition handle_UnregisterDeviceToken :: "PushEnv \<Rightarrow> string option \<Rightarrow> string option \<Rightarrow> DeviceTokenEntry list
    \<Rightarrow> string response \<times> DeviceTokenEntry list" where
  "handle_UnregisterDeviceToken e user body t =
     (case user of
        None \<Rightarrow> (HttpError 401 ''unauthorized'' '''', t)
      | Some userID \<Rightarrow>
          (case body of
             None \<Rightarrow> (HttpError 400 ''invalid_request'' ''Failed to parse request body'', t)
           | Some token \<Rightarrow>
               if token = '''' then (HttpError 400 ''validation_error'' ''token is required'', t)
               else (case push_UnregisterDevice e userID token t of
                       (Some err, t') \<Rightarrow> (HttpError 500 ''unregister_error'' ''Failed to unregister device token'', t')
                     | (None, t') \<Rightarrow> (JSON 200 ''unregistered'', t'))))"

text \<open>A push job: user, title, body and string data. The first component of the result says whether the worker
  returned an error, which makes the queue retry.\<close>

definition push_ProcessTask :: "PushEnv \<Rightarrow> (string \<times> string \<times> string \<times> (string \<times> string) list) option \<Rightarrow> DeviceTokenEntry list
    \<Rightarrow> bool \<times> FCMMessage list \<times> DeviceTokenEntry list" where
  "push_ProcessTask e task t =
     (case task of
        None \<Rightarrow> (True, [], t)
      | Some (userID, title, body, d) \<Rightarrow>
          if userID = '''' then (False, [], t)
          else let (err, msgs, t') = SendPush e userID
                     \<lparr>ph_Title = title, ph_Body = body, ph_Data = map (\<lambda>(k, v). (k, PStr v)) d, ph_Priority = ''''\<rparr> t
               in (err \<noteq> None, msgs, t'))"

section \<open>Delivery\<close>

text \<open>The devices of a call that Firebase reported as unregistered and whose removal reached the table.\<close>

definition stale_tokens :: "(nat \<Rightarrow> FCMMessage \<Rightarrow> string option) \<Rightarrow> faults \<Rightarrow> PushPayload \<Rightarrow> nat \<Rightarrow> DeviceTokenEntry list \<Rightarrow> string set" where
  "stale_tokens send f payload i devices =
     {dk_Token (devices ! j) |j. j < length devices \<and> isUnregisteredError (send (i + j) (fcm_message payload (devices ! j)))
        \<and> \<not> f (Suc (i + j))}"

lemma stale_tokens_Cons:
  "stale_tokens send f payload i (d # ds) =
     (if isUnregisteredError (send i (fcm_message payload d)) \<and> \<not> f (Suc i) then {dk_Token d} else {}) \<union> stale_tokens send f payload (Suc i) ds"
  (is "?L = ?R")
proof -
  have "x \<in> ?L \<longleftrightarrow> (\<exists>j < Suc (length ds). x = dk_Token ((d # ds) ! j)
      \<and> isUnregisteredError (send (i + j) (fcm_message payload ((d # ds) ! j))) \<and> \<not> f (Suc (i + j)))" for x
    by (auto simp: stale_tokens_def)
  also have "\<dots> x \<longleftrightarrow> x \<in> ?R" for x
    unfolding Ex_less_Suc2 by (auto simp: stale_tokens_def)
  finally show ?thesis by blast
qed

lemma send_devices_eq:
  "send_devices send f payload i ds t =
     (map (fcm_message payload) ds, filter (\<lambda>r. dk_Token r \<notin> stale_tokens send f payload i ds) t)"
proof (induction ds arbitrary: i t)
  case Nil
  then show ?case by (simp add: stale_tokens_def)
next
  case (Cons d ds)
  have 1: "filter P (snd (token_DeleteByToken fault tok t)) = filter (\<lambda>r. P r \<and> (fault \<or> dk_Token r \<noteq> tok)) t" for P fault tok
    by (auto simp: token_DeleteByToken_def delete_rows_def conj_commute)
  show ?case
    unfolding stale_tokens_Cons by (auto simp: Let_def Cons.IH 1 intro!: filter_cong)
qed

text \<open>A push reaches every device of its user and no other. When the query for the devices succeeds and a
  client is configured, \<open>SendPush\<close> returns no error and sends one message with the payload to each token
  registered for the user, newest first, whatever Firebase answers; afterwards exactly the tokens it reported
  as unregistered are gone, as far as their removal reached the table.\<close>

theorem push_delivery:
  assumes "pue_fcm e = Some send" and "pue_tsText e" and "\<not> pue_faults e 0"
  shows "\<exists>devices. SendPush e userID payload t =
      (None, map (fcm_message payload) devices,
       filter (\<lambda>r. dk_Token r \<notin> stale_tokens send (pue_faults e) payload 0 devices) t)
    \<and> set devices = {r \<in> set t. dk_UserID r = userID} \<and> length devices = count_rows (\<lambda>r. dk_UserID r = userID) t
    \<and> sorted (map (\<lambda>r. - dk_CreatedAt r) devices)"
proof -
  let ?ds = "order_by_desc dk_CreatedAt (filter (\<lambda>r. dk_UserID r = userID) t)"
  have "SendPush e userID payload t =
      (None, map (fcm_message payload) ?ds, filter (\<lambda>r. dk_Token r \<notin> stale_tokens send (pue_faults e) payload 0 ?ds) t)"
    using assms by (cases "?ds = []") (simp_all add: SendPush_def token_ListByUser_def send_devices_eq stale_tokens_def)
  then show ?thesis
    by (intro exI [of _ ?ds]) (auto simp: count_rows_def order_by_desc_def)
qed

definition demo_push_env :: PushEnv where
  "demo_push_env = \<lparr>pue_tsText = True, pue_fcm = Some (\<lambda>i m. if fm_Token m = ''t1'' then Some ''NotRegistered'' else None),
     pue_now = 0, pue_newID = 9, pue_faults = no_faults\<rparr>"

definition demo_tokens :: "DeviceTokenEntry list" where
  "demo_tokens = map (\<lambda>(u, tok). \<lparr>dk_ID = 1, dk_UserID = u, dk_Token = tok, dk_Platform = ''ios'', dk_CreatedAt = 0, dk_UpdatedAt = 0\<rparr>)
     [(''a'', ''t1''), (''b'', ''t2''), (''a'', ''t3'')]"

theorem push_delivery_witness:
  "length (fst (snd (SendPush demo_push_env ''a'' \<lparr>ph_Title = ''T'', ph_Body = ''B'', ph_Data = [], ph_Priority = ''''\<rparr> demo_tokens))) = 2
   \<and> map dk_Token (snd (snd (SendPush demo_push_env ''a'' \<lparr>ph_Title = ''T'', ph_Body = ''B'', ph_Data = [], ph_Priority = ''''\<rparr> demo_tokens)))
     = [''t2'', ''t3'']"
proof
  let ?p = "\<lparr>ph_Title = ''T'', ph_Body = ''B'', ph_Data = [], ph_Priority = ''''\<rparr>"
  have "pue_fcm demo_push_env = Some (\<lambda>i m. if fm_Token m = ''t1'' then Some ''NotRegistered'' else None)"
    "pue_tsText demo_push_env" "\<not> pue_faults demo_push_env 0"
    by (simp_all add: demo_push_env_def)
  from push_delivery [OF this, of "''a''" ?p demo_tokens]
  have "length (fst (snd (SendPush demo_push_env ''a'' ?p demo_tokens))) = count_rows (\<lambda>r. dk_UserID r = ''a'') demo_tokens"
    by (elim exE conjE) simp
  moreover have "count_rows (\<lambda>r. dk_UserID r = ''a'') demo_tokens = 2" by (simp add: demo_tokens_def count_rows_def)
  ultimately show "length (fst (snd (SendPush demo_push_env ''a'' ?p demo_tokens))) = 2" by simp
  have "isUnregisteredError (Some ''NotRegistered'')" "\<not> isUnregisteredError None" by code_simp+
  then show "map dk_Token (snd (snd (SendPush demo_push_env ''a'' ?p demo_tokens))) = [''t2'', ''t3'']"
    by (simp add: SendPush_def token_ListByUser_def demo_push_env_def demo_tokens_def order_by_desc_def fcm_message_def
        token_DeleteByToken_def Let_def)
qed

end
