(* ===== verification/Publish.thy ===== *)
theory Publish
  imports Platform LLM_Config Push
begin

text \<open>
  Publishing: the tables \<^verbatim>\<open>publish_logs\<close> and \<^verbatim>\<open>post_stats\<close> (\<^verbatim>\<open>repository/publish_log_repository.go\<close>), the
  service and the handlers (\<^verbatim>\<open>service/publish_service.go\<close>, \<^verbatim>\<open>handler/publish_handler.go\<close>), the worker that
  executes a job (\<^verbatim>\<open>queue/publish_job_handler.go\<close>), the refresh of statistics
  (\<^verbatim>\<open>queue/stats_refresh_handler.go\<close>) and \<open>Publish\<close> of \<^verbatim>\<open>service/platform_service.go\<close>. Jobs enqueued,
  calls of an adapter and push messages are returned as lists. A job is passed to the worker as the record its
  JSON describes.
\<close>

section \<open>Repository\<close>

record PostStatsSnapshot =
  sn_Views :: int
  sn_Likes :: int
  sn_Comments :: int
  sn_FetchedAt :: time

text \<open>A row of the table and the struct it is read into. The URL, the post id and the error message are
  NULL (\<open>None\<close>) in a new row; the statistics are not a column.\<close>

record PublishLog =
  pl_ID :: uuid
  pl_UserID :: uuid
  pl_Platform :: string
  pl_PlatformConnID :: "uuid option"
  pl_ContentItemID :: "uuid option"
  pl_Title :: string
  pl_Content :: string
  pl_Status :: string
  pl_PlatformURL :: "string option"
  pl_PlatformPostID :: "string option"
  pl_ErrorMessage :: "string option"
  pl_PublishedAt :: "time option"
  pl_CreatedAt :: time
  pl_Stats :: "PostStatsSnapshot option"

record post_stats_row =
  st_ID :: nat
  st_PublishID :: uuid
  st_Views :: int
  st_Likes :: int
  st_Comments :: int
  st_FetchedAt :: time

record PublishState =
  pb_logs :: "PublishLog list"
  pb_stats :: "post_stats_row list"
  pb_nextStat :: nat
  pb_conns :: "PlatformConnection list"

text \<open>Scanning a row into the struct: the post id is coalesced in the query, but a NULL does not fit the string
  fields for the URL and the error message.\<close>

definition scan_log :: "PublishLog \<Rightarrow> PublishLog option" where
  "scan_log r =
     (if pl_PlatformURL r = None \<or> pl_ErrorMessage r = None then None
      else Some (r\<lparr>pl_PlatformPostID := (case pl_PlatformPostID r of None \<Rightarrow> Some '''' | Some x \<Rightarrow> Some x)\<rparr>))"

fun scan_logs :: "PublishLog list \<Rightarrow> PublishLog list option" where
  "scan_logs [] = Some []"
| "scan_logs (r # rs) = (case scan_log r of None \<Rightarrow> None | Some l \<Rightarrow> map_option (\<lambda>ls. l # ls) (scan_logs rs))"

definition log_Create :: "bool \<Rightarrow> time \<Rightarrow> PublishLog \<Rightarrow> PublishLog list \<Rightarrow> bool \<times> PublishLog list" where
  "log_Create fault now l t =
     (if fault \<or> find_row (\<lambda>r. pl_ID r = pl_ID l) t \<noteq> None then (False, t)
      else (True, t @ [l\<lparr>pl_PlatformURL := None, pl_PlatformPostID := None, pl_ErrorMessage := None,
                        pl_PublishedAt := None, pl_CreatedAt := now, pl_Stats := None\<rparr>]))"

definition log_GetByID :: "bool \<Rightarrow> uuid \<Rightarrow> PublishLog list \<Rightarrow> PublishLog option" where
  "log_GetByID fault lid t =
     (if fault then None else case find_row (\<lambda>r. pl_ID r = lid) t of None \<Rightarrow> None | Some r \<Rightarrow> scan_log r)"

definition log_GetByIDAndUser :: "bool \<Rightarrow> uuid \<Rightarrow> uuid \<Rightarrow> PublishLog list \<Rightarrow> PublishLog option" where
  "log_GetByIDAndUser fault lid userID t =
     (if fault then None
      else case find_row (\<lambda>r. pl_ID r = lid \<and> pl_UserID r = userID) t of None \<Rightarrow> None | Some r \<Rightarrow> scan_log r)"

definition log_ListByUser :: "bool \<Rightarrow> uuid \<Rightarrow> PublishLog list \<Rightarrow> PublishLog list option" where
  "log_ListByUser fault userID t =
     (if fault then None else scan_logs (order_by_desc pl_CreatedAt (filter (\<lambda>r. pl_UserID r = userID) t)))"

text \<open>PostgreSQL determines the type of a parameter from its uses in the statement and refuses a statement with a parameter it
  cannot type. The two updates pass a parameter \<^verbatim>\<open>$2\<close> that they do not use: \<open>params_typed n uses\<close> checks the \<open>n\<close> parameters of
  a statement against the list of its uses.\<close>

definition params_typed :: "nat \<Rightarrow> nat list \<Rightarrow> bool" where
  "params_typed n uses \<longleftrightarrow> list_all (\<lambda>i. i \<in> set uses) [1..<Suc n]"

definition log_UpdateStatus :: "bool \<Rightarrow> time \<Rightarrow> uuid \<Rightarrow> string \<Rightarrow> string \<Rightarrow> string \<Rightarrow> PublishLog list \<Rightarrow> bool \<times> PublishLog list" where
  "log_UpdateStatus fault now lid status errMsg platformURL t =
     (if fault \<or> \<not> params_typed 5 [3, 4, 5, 3, 1] then (False, t)
      else (True, update_rows (\<lambda>r. pl_ID r = lid)
              (\<lambda>r. r\<lparr>pl_Status := status, pl_ErrorMessage := Some errMsg, pl_PlatformURL := Some platformURL,
                     pl_PublishedAt := (if status = ''published'' then Some now else pl_PublishedAt r)\<rparr>) t))"

definition log_UpdateStatusWithPostID :: "bool \<Rightarrow> time \<Rightarrow> uuid \<Rightarrow> string \<Rightarrow> string \<Rightarrow> string \<Rightarrow> string
    \<Rightarrow> PublishLog list \<Rightarrow> bool \<times> PublishLog list" where
  "log_UpdateStatusWithPostID fault now lid status errMsg platformURL platformPostID t =
     (if fault \<or> \<not> params_typed 6 [3, 4, 5, 6, 3, 1] then (False, t)
      else (True, update_rows (\<lambda>r. pl_ID r = lid)
              (\<lambda>r. r\<lparr>pl_Status := status, pl_ErrorMessage := Some errMsg, pl_PlatformURL := Some platformURL,
                     pl_PlatformPostID := Some platformPostID,
                     pl_PublishedAt := (if status = ''published'' then Some now else pl_PublishedAt r)\<rparr>) t))"

lemma log_update_refused:
  "log_UpdateStatus fault now lid st err url t = (False, t)"
  "log_UpdateStatusWithPostID fault now lid st err url pid t = (False, t)"
  by (simp_all add: log_UpdateStatus_def log_UpdateStatusWithPostID_def params_typed_def upt_rec)

definition SetPlatformPostID :: "bool \<Rightarrow> uuid \<Rightarrow> string \<Rightarrow> PublishLog list \<Rightarrow> bool \<times> PublishLog list" where
  "SetPlatformPostID fault lid platformPostID t =
     (if fault then (False, t)
      else (True, update_rows (\<lambda>r. pl_ID r = lid) (\<lambda>r. r\<lparr>pl_PlatformPostID := Some platformPostID\<rparr>) t))"

text \<open>The columns of the statistics are 32-bit integers and the publish must exist.\<close>

definition InsertPostStats :: "bool \<Rightarrow> uuid \<Rightarrow> int \<Rightarrow> int \<Rightarrow> int \<Rightarrow> time \<Rightarrow> PublishState \<Rightarrow> bool \<times> PublishState" where
  "InsertPostStats fault publishID views likes comments fetchedAt db =
     (if fault \<or> \<not> int4_ok views \<or> \<not> int4_ok likes \<or> \<not> int4_ok comments
         \<or> find_row (\<lambda>r. pl_ID r = publishID) (pb_logs db) = None
      then (False, db)
      else (True, db\<lparr>pb_stats := pb_stats db @ [\<lparr>st_ID = pb_nextStat db, st_PublishID = publishID, st_Views = views,
                       st_Likes = likes, st_Comments = comments, st_FetchedAt = fetchedAt\<rparr>],
                     pb_nextStat := Suc (pb_nextStat db)\<rparr>))"

definition stats_newest :: "uuid \<Rightarrow> post_stats_row list \<Rightarrow> post_stats_row list" where
  "stats_newest publishID t = order_by_desc st_FetchedAt (filter (\<lambda>r. st_PublishID r = publishID) t)"

text \<open>\<open>None\<close> is an error, \<open>Some None\<close> no snapshot.\<close>

definition LatestPostStats :: "bool \<Rightarrow> uuid \<Rightarrow> post_stats_row list \<Rightarrow> PostStatsSnapshot option option" where
  "LatestPostStats fault publishID t =
     (if fault then None
      else case stats_newest publishID t of
        [] \<Rightarrow> Some None
      | r # _ \<Rightarrow> Some (Some \<lparr>sn_Views = st_Views r, sn_Likes = st_Likes r, sn_Comments = st_Comments r, sn_FetchedAt = st_FetchedAt r\<rparr>))"

definition TrimPostStats :: "bool \<Rightarrow> uuid \<Rightarrow> nat \<Rightarrow> post_stats_row list \<Rightarrow> bool \<times> post_stats_row list" where
  "TrimPostStats fault publishID keep t =
     (if fault then (False, t)
      else (True, delete_rows (\<lambda>r. st_PublishID r = publishID \<and> st_ID r \<notin> set (map st_ID (take keep (stats_newest publishID t)))) t))"

text \<open>A day of the interval is 24 hours, as in a session without daylight saving time.\<close>

definition ListRecentPublishedWithPostID :: "bool \<Rightarrow> time \<Rightarrow> int \<Rightarrow> PublishLog list \<Rightarrow> PublishLog list option" where
  "ListRecentPublishedWithPostID fault now days t =
     (if fault then None
      else scan_logs (filter (\<lambda>r. pl_Status r = ''published'' \<and> (case pl_PlatformPostID r of None \<Rightarrow> False | Some x \<Rightarrow> x \<noteq> '''')
                         \<and> pl_CreatedAt r > now - days * day) t))"

section \<open>Service\<close>

record PublishRequest =
  prq_Platform :: string
  prq_ContentItemID :: string
  prq_Title :: string
  prq_Content :: string
  prq_Tags :: "string list"

record publishService =
  sv_queue :: bool
  sv_pushSvc :: bool
  sv_masterKey :: bytes
  sv_validPlatforms :: "string list"

record PublishEnv =
  pbe_seal :: aead_seal
  pbe_open :: aead_open
  pbe_nonce :: "nat \<Rightarrow> bytes"
  pbe_show :: "uuid \<Rightarrow> string"
  pbe_parse :: "string \<Rightarrow> uuid option"
  pbe_newID :: uuid
  pbe_now :: time
  pbe_enqueueErr :: "string option"
  pbe_faults :: faults

record PublishJobPayload =
  jb_UserID :: string
  jb_Platform :: string
  jb_PublishLogID :: string
  jb_Title :: string
  jb_Content :: string
  jb_Tags :: "string list"

definition publish_started_push :: "(uuid \<Rightarrow> string) \<Rightarrow> uuid \<Rightarrow> string \<Rightarrow> uuid \<Rightarrow> push_call" where
  "publish_started_push shw userID platform logID =
     (shw userID, \<lparr>ph_Title = ''Publishing Started'', ph_Body = ''Publishing to '' @ platform,
        ph_Data = [(''type'', PStr ''publish_started''), (''platform'', PStr platform), (''publish_log_id'', PStr (shw logID))],
        ph_Priority = ''normal''\<rparr>)"

definition encryptField :: "aead_seal \<Rightarrow> bytes \<Rightarrow> bytes \<Rightarrow> string \<Rightarrow> string option" where
  "encryptField seal nonce masterKey plaintext =
     (if plaintext = '''' \<or> masterKey = [] then Some plaintext
      else map_option b64_encode (EncryptAPIKey seal nonce plaintext masterKey))"

definition decryptField :: "aead_open \<Rightarrow> bytes \<Rightarrow> string \<Rightarrow> string option" where
  "decryptField open' masterKey encoded =
     (if encoded = '''' \<or> masterKey = [] then Some encoded
      else case b64_decode encoded of
        None \<Rightarrow> Some encoded
      | Some ciphertext \<Rightarrow> DecryptAPIKey open' ciphertext masterKey)"

definition svc_Publish :: "publishService \<Rightarrow> PublishEnv \<Rightarrow> uuid \<Rightarrow> PublishRequest \<Rightarrow> PublishState
    \<Rightarrow> (string + PublishLog) \<times> PublishJobPayload list \<times> push_call list \<times> PublishState" where
  "svc_Publish svc e userID req db =
     (case encryptField (pbe_seal e) (pbe_nonce e 0) (sv_masterKey svc) (prq_Title req) of
        None \<Rightarrow> (Inl ''encrypt publish field'', [], [], db)
      | Some encTitle \<Rightarrow>
      case encryptField (pbe_seal e) (pbe_nonce e 1) (sv_masterKey svc) (prq_Content req) of
        None \<Rightarrow> (Inl ''encrypt publish field'', [], [], db)
      | Some encContent \<Rightarrow>
          (let l = \<lparr>pl_ID = pbe_newID e, pl_UserID = userID, pl_Platform = prq_Platform req, pl_PlatformConnID = None,
                    pl_ContentItemID = None, pl_Title = encTitle, pl_Content = encContent, pl_Status = ''pending'',
                    pl_PlatformURL = Some '''', pl_PlatformPostID = Some '''', pl_ErrorMessage = Some '''',
                    pl_PublishedAt = None, pl_CreatedAt = 0, pl_Stats = None\<rparr>;
               (ok, t) = log_Create (pbe_faults e 0) (pbe_now e) l (pb_logs db);
               db1 = db\<lparr>pb_logs := t\<rparr>;
               push = (if sv_pushSvc svc
                       then [publish_started_push (pbe_show e) userID (prq_Platform req) (pl_ID l)] else [])
           in if \<not> ok then (Inl ''database error'', [], [], db1)
              else if \<not> sv_queue svc then (Inr l, [], push, db1)
              else case pbe_enqueueErr e of
                Some err \<Rightarrow>
                  (let (_, t') = log_UpdateStatus (pbe_faults e 1) (pbe_now e) (pl_ID l) ''failed''
                                   (''failed to enqueue: '' @ err) '''' t
                   in (Inl (''enqueue publish job: '' @ err), [], [], db1\<lparr>pb_logs := t'\<rparr>))
              | None \<Rightarrow>
                  (Inr l,
                   [\<lparr>jb_UserID = pbe_show e userID, jb_Platform = prq_Platform req, jb_PublishLogID = pbe_show e (pl_ID l),
                     jb_Title = encTitle, jb_Content = encContent, jb_Tags = prq_Tags req\<rparr>],
                   push, db1)))"

text \<open>The loop of \<open>GetHistory\<close>; the query for the statistics of log \<open>i\<close> is round trip \<open>i + 1\<close>.\<close>

fun history_rows :: "publishService \<Rightarrow> PublishEnv \<Rightarrow> post_stats_row list \<Rightarrow> nat \<Rightarrow> PublishLog list \<Rightarrow> PublishLog list option" where
  "history_rows svc e st i [] = Some []"
| "history_rows svc e st i (l # ls) =
     (case decryptField (pbe_open e) (sv_masterKey svc) (pl_Title l) of
        None \<Rightarrow> None
      | Some title \<Rightarrow>
      case decryptField (pbe_open e) (sv_masterKey svc) (pl_Content l) of
        None \<Rightarrow> None
      | Some content \<Rightarrow>
          (let l1 = l\<lparr>pl_Title := title, pl_Content := content\<rparr>;
               l2 = (if pl_PlatformPostID l1 \<noteq> Some ''''
                     then (case LatestPostStats (pbe_faults e (Suc i)) (pl_ID l1) st of
                             Some (Some stats) \<Rightarrow> l1\<lparr>pl_Stats := Some stats\<rparr>
                           | _ \<Rightarrow> l1)
                     else l1)
           in map_option (\<lambda>rest. l2 # rest) (history_rows svc e st (Suc i) ls)))"

definition GetHistory :: "publishService \<Rightarrow> PublishEnv \<Rightarrow> uuid \<Rightarrow> PublishState \<Rightarrow> PublishLog list option" where
  "GetHistory svc e userID db =
     (case log_ListByUser (pbe_faults e 0) userID (pb_logs db) of
        None \<Rightarrow> None
      | Some logs \<Rightarrow> history_rows svc e (pb_stats db) 0 logs)"

definition svc_GetByID :: "publishService \<Rightarrow> PublishEnv \<Rightarrow> uuid \<Rightarrow> uuid \<Rightarrow> PublishState \<Rightarrow> service_error + PublishLog" where
  "svc_GetByID svc e userID lid db =
     (case log_GetByID (pbe_faults e 0) lid (pb_logs db) of
        None \<Rightarrow> Inl (OtherError ''query'')
      | Some l \<Rightarrow>
          if pl_UserID l \<noteq> userID then Inl ErrNotOwner
          else case decryptField (pbe_open e) (sv_masterKey svc) (pl_Title l) of
            None \<Rightarrow> Inl (OtherError ''decrypt publish field'')
          | Some title \<Rightarrow>
          case decryptField (pbe_open e) (sv_masterKey svc) (pl_Content l) of
            None \<Rightarrow> Inl (OtherError ''decrypt publish field'')
          | Some content \<Rightarrow> Inr (l\<lparr>pl_Title := title, pl_Content := content\<rparr>))"

definition IsValidPlatform :: "publishService \<Rightarrow> string \<Rightarrow> bool" where
  "IsValidPlatform svc name =
     (if name = '''' then False
      else if sv_validPlatforms svc = [] then True
      else name \<in> set (sv_validPlatforms svc))"

text \<open>\<open>Publish\<close> of the platform service, which publishes at once. \<open>None\<close> is the panic on an adapter that returns
  neither a result nor an error.\<close>

definition plat_Publish :: "PlatformEnv \<Rightarrow> uuid \<Rightarrow> string \<Rightarrow> PublishParams \<Rightarrow> bytes \<Rightarrow> PlatformState \<Rightarrow> (string + PublishLog) option" where
  "plat_Publish e userID platformName req masterKey s =
     (case reg_Get (pv_registry e) platformName of
        Inl err \<Rightarrow> Some (Inl err)
      | Inr adapter \<Rightarrow>
          (case conn_GetByPlatform (pv_faults e 0) userID platformName (pf_conns s) of
             None \<Rightarrow> Some (Inl ''platform not connected'')
           | Some conn \<Rightarrow>
               if pc_EncryptedAuth conn = [] then Some (Inl ''platform authentication expired, please reconnect'')
               else (case ad_Publish adapter (pc_EncryptedAuth conn) masterKey (req\<lparr>pp_ScheduleAt := None\<rparr>) of
                       Inl err \<Rightarrow> Some (Inl (''publish to '' @ platformName @ '': '' @ err))
                     | Inr None \<Rightarrow> None
                     | Inr (Some result) \<Rightarrow>
                         Some (Inr \<lparr>pl_ID = pv_newID e, pl_UserID = userID, pl_Platform = platformName,
                                    pl_PlatformConnID = None, pl_ContentItemID = None, pl_Title = pp_Title req,
                                    pl_Content = pp_Content req, pl_Status = ''published'',
                                    pl_PlatformURL = Some (pr_PlatformURL result), pl_PlatformPostID = Some '''',
                                    pl_ErrorMessage = Some '''', pl_PublishedAt = None, pl_CreatedAt = 0, pl_Stats = None\<rparr>))))"

section \<open>Handlers\<close>

definition handle_Publish :: "publishService \<Rightarrow> PublishEnv \<Rightarrow> uuid option \<Rightarrow> PublishRequest option \<Rightarrow> PublishState
    \<Rightarrow> PublishLog response \<times> PublishJobPayload list \<times> push_call list \<times> PublishState" where
  "handle_Publish svc e user body db =
     (let refuse = (\<lambda>status code msg. (HttpError status code msg, [], [], db)) in
      case user of
        None \<Rightarrow> refuse 401 ''unauthorized'' ''''
      | Some userID \<Rightarrow>
      case body of
        None \<Rightarrow> refuse 400 ''invalid_request'' ''Failed to parse request body''
      | Some req \<Rightarrow>
          if pbe_parse e (prq_ContentItemID req) = None then refuse 400 ''validation_error'' ''content_item_id must be a valid UUID''
          else if prq_Platform req = '''' then refuse 400 ''validation_error'' ''Platform is required''
          else if \<not> IsValidPlatform svc (prq_Platform req) then refuse 400 ''validation_error'' ''Unsupported platform''
          else if prq_Title req = '''' then refuse 400 ''validation_error'' ''Title is required''
          else if prq_Content req = '''' then refuse 400 ''validation_error'' ''Content is required''
          else if length (prq_Title req) > 500 then refuse 400 ''validation_error'' ''Title must be at most 500 characters''
          else if length (prq_Content req) > 10000000 then refuse 400 ''validation_error'' ''Content must be at most 10 MB''
          else if length (prq_Tags req) > 50 then refuse 400 ''validation_error'' ''Too many tags (max 50)''
          else if list_ex (\<lambda>tag. length tag > 100) (prq_Tags req)
          then refuse 400 ''validation_error'' ''Tag too long (max 100 characters each)''
          else case svc_Publish svc e userID req db of
            (Inl err, jobs, pushes, db') \<Rightarrow> (HttpError 500 ''publish_error'' ''Failed to publish'', jobs, pushes, db')
          | (Inr l, jobs, pushes, db') \<Rightarrow> (JSON 202 (l\<lparr>pl_Title := '''', pl_Content := ''''\<rparr>), jobs, pushes, db'))"

definition handle_History :: "publishService \<Rightarrow> PublishEnv \<Rightarrow> uuid option \<Rightarrow> PublishState \<Rightarrow> PublishLog list response" where
  "handle_History svc e user db =
     (case user of
        None \<Rightarrow> HttpError 401 ''unauthorized'' ''''
      | Some userID \<Rightarrow>
          (case GetHistory svc e userID db of
             None \<Rightarrow> HttpError 500 ''history_error'' ''Failed to get history''
           | Some logs \<Rightarrow> JSON 200 logs))"

definition handle_PublishGet :: "publishService \<Rightarrow> PublishEnv \<Rightarrow> uuid option \<Rightarrow> string \<Rightarrow> PublishState \<Rightarrow> PublishLog response" where
  "handle_PublishGet svc e user idStr db =
     (case user of
        None \<Rightarrow> HttpError 401 ''unauthorized'' ''''
      | Some userID \<Rightarrow>
          if idStr = '''' then HttpError 400 ''missing_id'' ''Publish log ID is required''
          else case pbe_parse e idStr of
            None \<Rightarrow> HttpError 400 ''invalid_id'' ''Invalid publish log ID format''
          | Some lid \<Rightarrow>
              (case svc_GetByID svc e userID lid db of
                 Inl err \<Rightarrow> (case writeErrorFromSentinel err of Some r \<Rightarrow> r
                            | None \<Rightarrow> HttpError 404 ''not_found'' ''Publish log not found'')
               | Inr l \<Rightarrow> JSON 200 l))"

section \<open>The worker\<close>

record PublishWorker =
  wk_registry :: Registry
  wk_pushSvc :: bool
  wk_masterKey :: bytes

text \<open>An adapter call that publishes: the platform, the credentials and the content. The worker's result is
  whether it returned an error, which makes the queue retry; an undecodable task is \<open>None\<close>.\<close>

type_synonym publish_call = "string \<times> bytes \<times> PublishParams"

definition sendPublishPush :: "PublishWorker \<Rightarrow> string \<Rightarrow> string \<Rightarrow> string \<Rightarrow> bool \<Rightarrow> string \<Rightarrow> push_call list" where
  "sendPublishPush wk userID platform publishLogID success errMsg =
     (if \<not> wk_pushSvc wk then []
      else let (title, body) = (if success then (''Publish Complete'', ''Your note has been published to '' @ platform)
                                else (''Publish Failed'', ''Failed to publish to '' @ platform @ '': '' @ errMsg))
           in [(userID, \<lparr>ph_Title = title, ph_Body = body,
                 ph_Data = [(''type'', PStr ''publish_result''), (''platform'', PStr platform),
                            (''publish_log_id'', PStr publishLogID), (''success'', PBool success)],
                 ph_Priority = ''normal''\<rparr>)])"

definition publish_HandleTask :: "PublishWorker \<Rightarrow> PublishEnv \<Rightarrow> PublishJobPayload option \<Rightarrow> PublishState
    \<Rightarrow> bool \<times> publish_call list \<times> push_call list \<times> PublishState" where
  "publish_HandleTask wk e task db =
     (case task of
        None \<Rightarrow> (True, [], [], db)
      | Some payload \<Rightarrow>
      case pbe_parse e (jb_PublishLogID payload) of
        None \<Rightarrow> (False, [], [], db)
      | Some logID \<Rightarrow>
      case pbe_parse e (jb_UserID payload) of
        None \<Rightarrow> (False, [], [], db)
      | Some userID \<Rightarrow>
          (let t1 = snd (log_UpdateStatus (pbe_faults e 0) (pbe_now e) logID ''publishing'' '''' '''' (pb_logs db));
               failed = (\<lambda>msg. db\<lparr>pb_logs := snd (log_UpdateStatus (pbe_faults e 2) (pbe_now e) logID ''failed'' msg '''' t1)\<rparr>)
           in case reg_Get (wk_registry wk) (jb_Platform payload) of
                Inl _ \<Rightarrow> (False, [], [], failed (''unsupported platform: '' @ jb_Platform payload))
              | Inr adapter \<Rightarrow>
              case conn_GetByPlatform (pbe_faults e 1) userID (jb_Platform payload) (pb_conns db) of
                None \<Rightarrow> (False, [], [], failed ''platform not connected'')
              | Some conn \<Rightarrow>
                  if pc_EncryptedAuth conn = [] then (False, [], [], failed ''platform authentication expired'')
                  else case decryptField (pbe_open e) (wk_masterKey wk) (jb_Title payload) of
                    None \<Rightarrow> (False, [], [], failed ''failed to decrypt title'')
                  | Some title \<Rightarrow>
                  case decryptField (pbe_open e) (wk_masterKey wk) (jb_Content payload) of
                    None \<Rightarrow> (False, [], [], failed ''failed to decrypt content'')
                  | Some content \<Rightarrow>
                      (let params = \<lparr>pp_Title = title, pp_Content = content, pp_Tags = jb_Tags payload, pp_Images = [], pp_ScheduleAt = None\<rparr>;
                           calls = [(jb_Platform payload, pc_EncryptedAuth conn, params)];
                           push = sendPublishPush wk (jb_UserID payload) (jb_Platform payload) (jb_PublishLogID payload)
                       in case ad_Publish adapter (pc_EncryptedAuth conn) (wk_masterKey wk) params of
                            Inl err \<Rightarrow>
                              (True, calls, push False err, failed err)
                          | Inr result \<Rightarrow>
                              (let url = (case result of None \<Rightarrow> '''' | Some r \<Rightarrow> pr_PlatformURL r);
                                   postID = (case result of None \<Rightarrow> '''' | Some r \<Rightarrow> pr_PlatformID r)
                               in (False, calls, push True '''',
                                   db\<lparr>pb_logs := snd (log_UpdateStatusWithPostID (pbe_faults e 2) (pbe_now e) logID
                                                        ''published'' '''' url postID t1)\<rparr>)))))"

section \<open>Statistics\<close>

text \<open>The environment of one log in the refresh loop: the clock and the faults of its three statements.\<close>

type_synonym refresh_env = "time \<times> faults"

definition refresh_log :: "Registry \<Rightarrow> bytes \<Rightarrow> refresh_env \<Rightarrow> PublishLog \<Rightarrow> PublishState \<Rightarrow> PublishState" where
  "refresh_log reg masterKey re l db =
     (let (now, f) = re in
      case reg_Get reg (pl_Platform l) of
        Inl _ \<Rightarrow> db
      | Inr adapter \<Rightarrow>
      case ad_FetchStats adapter of
        None \<Rightarrow> db
      | Some fetch \<Rightarrow>
      case conn_GetByPlatform (f 0) (pl_UserID l) (pl_Platform l) (pb_conns db) of
        None \<Rightarrow> db
      | Some conn \<Rightarrow>
          if pc_EncryptedAuth conn = [] then db
          else case fetch (pc_EncryptedAuth conn) masterKey (case pl_PlatformPostID l of Some x \<Rightarrow> x | None \<Rightarrow> '''') of
            Inl _ \<Rightarrow> db
          | Inr stats \<Rightarrow>
              (let (ok, db1) = InsertPostStats (f 1) (pl_ID l) (ps_Views stats) (ps_Likes stats) (ps_Comments stats) now db
               in if \<not> ok then db1
                  else db1\<lparr>pb_stats := snd (TrimPostStats (f 2) (pl_ID l) 30 (pb_stats db1))\<rparr>))"

fun refresh_logs :: "Registry \<Rightarrow> bytes \<Rightarrow> (PublishLog \<Rightarrow> refresh_env) \<Rightarrow> PublishLog list \<Rightarrow> PublishState \<Rightarrow> PublishState" where
  "refresh_logs reg masterKey env [] db = db"
| "refresh_logs reg masterKey env (l # ls) db = refresh_logs reg masterKey env ls (refresh_log reg masterKey (env l) l db)"

definition HandleRefreshPostStats :: "Registry \<Rightarrow> bytes \<Rightarrow> bool \<Rightarrow> time \<Rightarrow> (PublishLog \<Rightarrow> refresh_env) \<Rightarrow> PublishState \<Rightarrow> bool \<times> PublishState" where
  "HandleRefreshPostStats reg masterKey fault now env db =
     (case ListRecentPublishedWithPostID fault now 30 (pb_logs db) of
        None \<Rightarrow> (True, db)
      | Some logs \<Rightarrow> (False, refresh_logs reg masterKey env logs db))"

section \<open>A publish reaches the platform and its history\<close>

text \<open>The law of the cipher: with a valid key and nonce, sealing bytes yields bytes and opening undoes it.\<close>

definition aead_law :: "aead_seal \<Rightarrow> aead_open \<Rightarrow> bool" where
  "aead_law seal open' \<longleftrightarrow> (\<forall>k n m. aes_key_ok k \<longrightarrow> length n = 12 \<longrightarrow> (\<forall>b \<in> set m. b < 256) \<longrightarrow>
     open' k n (seal k n m) = Some m \<and> (\<forall>b \<in> set (seal k n m). b < 256))"

definition nonce_ok :: "bytes \<Rightarrow> bool" where
  "nonce_ok n \<longleftrightarrow> length n = 12 \<and> (\<forall>b \<in> set n. b < 256)"

lemma field_round_trip:
  assumes "aead_law seal open'" and "nonce_ok n" and "encryptField seal n k s = Some c"
  shows "decryptField open' k c = Some s"
proof (cases "s = '''' \<or> k = []")
  case True
  then show ?thesis using assms(3) by (auto simp: encryptField_def decryptField_def)
next
  case False
  then obtain x where x: "EncryptAPIKey seal n s k = Some x" "c = b64_encode x"
    using assms(3) by (auto simp: encryptField_def)
  have key: "aes_key_ok k" and x': "x = n @ seal k n (string_bytes s)"
    using x(1) by (auto simp: EncryptAPIKey_def split: if_split_asm)
  have n: "length n = 12" "\<forall>b \<in> set n. b < 256" using assms(2) by (simp_all add: nonce_ok_def)
  have law: "open' k n (seal k n (string_bytes s)) = Some (string_bytes s)" "\<forall>b \<in> set (seal k n (string_bytes s)). b < 256"
    using assms(1) key n(1) string_bytes_lt [of s] unfolding aead_law_def by blast+
  have "\<forall>b \<in> set x. b < 256" using n(2) law(2) by (auto simp: x')
  moreover have "x \<noteq> []" using n(1) by (auto simp: x')
  ultimately show ?thesis
    using False Encrypt_Decrypt [OF x(1) n(1), of open'] law(1) by (simp add: decryptField_def x(2) b64_round_trip)
qed

lemma find_row_update_key:
  "find_row (\<lambda>r. k r = v) t = Some r \<Longrightarrow> (\<And>r. k (f r) = k r) \<Longrightarrow> find_row (\<lambda>r. k r = v) (update_rows (\<lambda>r. k r = v) f t) = Some (f r)"
  by (induction t) auto

lemma handle_Publish_okD:
  assumes "handle_Publish svc e (Some u) (Some req) db = (JSON st l, jobs, pushes, db1)" and "sv_queue svc"
  obtains ct cc row where "encryptField (pbe_seal e) (pbe_nonce e 0) (sv_masterKey svc) (prq_Title req) = Some ct"
    and "encryptField (pbe_seal e) (pbe_nonce e 1) (sv_masterKey svc) (prq_Content req) = Some cc"
    and "jobs = [\<lparr>jb_UserID = pbe_show e u, jb_Platform = prq_Platform req, jb_PublishLogID = pbe_show e (pbe_newID e),
                  jb_Title = ct, jb_Content = cc, jb_Tags = prq_Tags req\<rparr>]"
    and "pb_logs db1 = pb_logs db @ [row]" and "find_row (\<lambda>r. pl_ID r = pbe_newID e) (pb_logs db1) = Some row"
    and "pl_ID row = pbe_newID e" "pl_UserID row = u" "pl_Title row = ct" "pl_Content row = cc" "pl_PlatformURL row = None"
    and "pl_Status row = ''pending''" "find_row (\<lambda>r. pl_ID r = pbe_newID e) (pb_logs db) = None"
    and "pl_ID l = pbe_newID e" and "st = 202"
  using assms
  by (auto simp: handle_Publish_def svc_Publish_def log_Create_def Let_def find_row_append
      split: option.split_asm if_split_asm prod.split_asm sum.split_asm)

lemma publish_HandleTask_calls:
  assumes "pbe_parse e (jb_PublishLogID job) = Some lid" and "pbe_parse e (jb_UserID job) = Some u"
    and "reg_Get (wk_registry wk) (jb_Platform job) = Inr ad"
    and "conn_GetByPlatform (pbe_faults e 1) u (jb_Platform job) (pb_conns db) = Some c" and "pc_EncryptedAuth c \<noteq> []"
    and "decryptField (pbe_open e) (wk_masterKey wk) (jb_Title job) = Some title"
    and "decryptField (pbe_open e) (wk_masterKey wk) (jb_Content job) = Some content"
    and params: "params = \<lparr>pp_Title = title, pp_Content = content, pp_Tags = jb_Tags job, pp_Images = [], pp_ScheduleAt = None\<rparr>"
    and "publish_HandleTask wk e (Some job) db = (retry, calls, pushes, db')"
  shows "calls = [(jb_Platform job, pc_EncryptedAuth c, params)]"
    and "retry \<longleftrightarrow> (\<exists>err. ad_Publish ad (pc_EncryptedAuth c) (wk_masterKey wk) params = Inl err)"
  using assms by (auto simp: publish_HandleTask_def Let_def split: sum.split_asm option.split_asm)

lemma publish_HandleTask_logs:
  "publish_HandleTask wk e task db = (retry, calls, pushes, db') \<Longrightarrow> pb_logs db' = pb_logs db"
  by (auto simp: publish_HandleTask_def log_update_refused Let_def split: option.split_asm sum.split_asm if_split_asm)

text \<open>While a log is pending its URL is NULL and cannot be scanned: the user's whole history answers 500 and
  the log itself 404.\<close>

lemma scan_logs_None: "r \<in> set rs \<Longrightarrow> scan_log r = None \<Longrightarrow> scan_logs rs = None"
  by (induction rs) (auto split: option.split)

lemma publish_pending_unreadable:
  assumes "handle_Publish svc e (Some u) (Some req) db = (JSON 202 l, jobs, pushes, db1)" and "sv_queue svc"
    and "pb_logs db2 = pb_logs db1"
  shows "handle_History svc' e' (Some u) db2 = HttpError 500 ''history_error'' ''Failed to get history''"
    and "lid \<noteq> '''' \<Longrightarrow> pbe_parse e' lid = Some (pl_ID l) \<Longrightarrow>
      handle_PublishGet svc' e' (Some u) lid db2 = HttpError 404 ''not_found'' ''Publish log not found''"
proof -
  obtain row where row: "row \<in> set (pb_logs db1)" "pl_UserID row = u" "scan_log row = None"
    "find_row (\<lambda>r. pl_ID r = pl_ID l) (pb_logs db1) = Some row"
    by (rule handle_Publish_okD [OF assms(1,2)]) (auto simp: scan_log_def dest: find_row_SomeD)
  then have "row \<in> set (order_by_desc pl_CreatedAt (filter (\<lambda>r. pl_UserID r = u) (pb_logs db2)))" using assms(3) by simp
  from scan_logs_None [OF this row(3)]
  show "handle_History svc' e' (Some u) db2 = HttpError 500 ''history_error'' ''Failed to get history''"
    by (simp add: handle_History_def GetHistory_def log_ListByUser_def)
  show "handle_PublishGet svc' e' (Some u) lid db2 = HttpError 404 ''not_found'' ''Publish log not found''"
    if "lid \<noteq> ''''" "pbe_parse e' lid = Some (pl_ID l)"
    using that row(3,4) assms(3) by (simp add: handle_PublishGet_def svc_GetByID_def log_GetByID_def)
qed

text \<open>C25: a publication reaches its platform and is lost to its user. With a cipher and a text form of identifiers that can be
  undone, a request answered 202 puts one job into the queue. Executed while the user is connected, the job calls the
  adapter once, with the user's credentials and exactly the title, content and tags of the request, and asks for a
  retry exactly when the adapter failed. But no outcome ever reaches the log, because the statements that update it have a
  parameter without a type: it stays pending, and while it does the user cannot read it (404) nor the history (500).\<close>

theorem publish_end_to_end:
  assumes "handle_Publish svc e (Some u) (Some req) db = (JSON 202 l, jobs, pushes, db1)" and "sv_queue svc"
    and "aead_law (pbe_seal e) (pbe_open e2)" and "nonce_ok (pbe_nonce e 0)" and "nonce_ok (pbe_nonce e 1)"
    and "\<And>x. pbe_parse e2 (pbe_show e x) = Some x" and "wk_masterKey wk = sv_masterKey svc"
    and "reg_Get (wk_registry wk) (prq_Platform req) = Inr ad" and "pb_logs db2 = pb_logs db1"
    and "conn_GetByPlatform (pbe_faults e2 1) u (prq_Platform req) (pb_conns db2) = Some c" and "pc_EncryptedAuth c \<noteq> []"
    and "params = \<lparr>pp_Title = prq_Title req, pp_Content = prq_Content req, pp_Tags = prq_Tags req, pp_Images = [], pp_ScheduleAt = None\<rparr>"
  shows "\<exists>job. jobs = [job] \<and> (case publish_HandleTask wk e2 (Some job) db2 of (retry, calls, pushes2, db3) \<Rightarrow>
    calls = [(prq_Platform req, pc_EncryptedAuth c, params)]
    \<and> (retry \<longleftrightarrow> (\<exists>err. ad_Publish ad (pc_EncryptedAuth c) (wk_masterKey wk) params = Inl err))
    \<and> (\<forall>r \<in> set (pb_logs db3). pl_ID r = pl_ID l \<longrightarrow> pl_Status r = ''pending'')
    \<and> (\<forall>svc' e3 lid. lid \<noteq> '''' \<and> pbe_parse e3 lid = Some (pl_ID l) \<longrightarrow>
         handle_PublishGet svc' e3 (Some u) lid db3 = HttpError 404 ''not_found'' ''Publish log not found''
         \<and> handle_History svc' e3 (Some u) db3 = HttpError 500 ''history_error'' ''Failed to get history''))"
proof -
  obtain ct cc row where enc: "encryptField (pbe_seal e) (pbe_nonce e 0) (sv_masterKey svc) (prq_Title req) = Some ct"
      "encryptField (pbe_seal e) (pbe_nonce e 1) (sv_masterKey svc) (prq_Content req) = Some cc"
    and jobs: "jobs = [\<lparr>jb_UserID = pbe_show e u, jb_Platform = prq_Platform req, jb_PublishLogID = pbe_show e (pbe_newID e),
                  jb_Title = ct, jb_Content = cc, jb_Tags = prq_Tags req\<rparr>]" (is "_ = [?job]")
    and row: "pb_logs db1 = pb_logs db @ [row]" "pl_Status row = ''pending''" "find_row (\<lambda>r. pl_ID r = pbe_newID e) (pb_logs db) = None"
      "pl_ID l = pbe_newID e"
    by (rule handle_Publish_okD [OF assms(1,2)]) blast
  have rows: "\<forall>r \<in> set (pb_logs db1). pl_ID r = pl_ID l \<longrightarrow> pl_Status r = ''pending''"
    using row by (auto simp: find_row_None_iff)
  have dec: "decryptField (pbe_open e2) (sv_masterKey svc) ct = Some (prq_Title req)"
    "decryptField (pbe_open e2) (sv_masterKey svc) cc = Some (prq_Content req)"
    using field_round_trip [OF assms(3,4) enc(1)] field_round_trip [OF assms(3,5) enc(2)] by simp_all
  obtain retry calls pushes2 db3 where h: "publish_HandleTask wk e2 (Some ?job) db2 = (retry, calls, pushes2, db3)"
    by (metis prod_cases4)
  note calls = publish_HandleTask_calls [where job = ?job and e = e2 and wk = wk and lid = "pbe_newID e" and u = u and ad = ad
      and c = c and db = db2 and title = "prq_Title req" and content = "prq_Content req" and params = params, OF _ _ _ _ _ _ _ _ h]
  have 1: "calls = [(prq_Platform req, pc_EncryptedAuth c, params)]"
    "retry \<longleftrightarrow> (\<exists>err. ad_Publish ad (pc_EncryptedAuth c) (wk_masterKey wk) params = Inl err)"
    using calls assms dec by simp_all
  have logs: "pb_logs db3 = pb_logs db1" using publish_HandleTask_logs [OF h] assms(9) by simp
  show ?thesis using 1 jobs h rows logs publish_pending_unreadable [OF assms(1,2) logs] by auto
qed

definition demo_publish_env :: PublishEnv where
  "demo_publish_env = \<lparr>pbe_seal = (\<lambda>k n m. m @ [0]), pbe_open = (\<lambda>k n c. Some (butlast c)), pbe_nonce = (\<lambda>i. replicate 12 i),
     pbe_show = (\<lambda>u. replicate (Suc u) (CHR ''u'')), pbe_parse = (\<lambda>s. if s = '''' then None else Some (length s - 1)),
     pbe_newID = 7, pbe_now = 50, pbe_enqueueErr = None, pbe_faults = no_faults\<rparr>"

definition demo_publish_svc :: publishService where
  "demo_publish_svc = \<lparr>sv_queue = True, sv_pushSvc = False, sv_masterKey = replicate 32 1, sv_validPlatforms = [''medium'']\<rparr>"

definition demo_publish_req :: PublishRequest where
  "demo_publish_req = \<lparr>prq_Platform = ''medium'', prq_ContentItemID = ''uu'', prq_Title = ''T'', prq_Content = ''Hello'', prq_Tags = [''a'']\<rparr>"

definition demo_worker :: PublishWorker where
  "demo_worker = \<lparr>wk_registry = [(''medium'', demo_adapter)], wk_pushSvc = False, wk_masterKey = replicate 32 1\<rparr>"

definition demo_publish_db :: PublishState where
  "demo_publish_db = \<lparr>pb_logs = [], pb_stats = [], pb_nextStat = 0, pb_conns = [demo_conn]\<rparr>"

lemma demo_publish_law: "aead_law (pbe_seal demo_publish_env) (pbe_open demo_publish_env)" "nonce_ok (pbe_nonce demo_publish_env 0)"
  "nonce_ok (pbe_nonce demo_publish_env 1)" "\<And>x. pbe_parse demo_publish_env (pbe_show demo_publish_env x) = Some x"
  by (simp_all add: aead_law_def nonce_ok_def demo_publish_env_def)

lemma demo_publish_accepted:
  "\<exists>l jobs pushes db1. handle_Publish demo_publish_svc demo_publish_env (Some 1) (Some demo_publish_req) demo_publish_db
     = (JSON 202 l, jobs, pushes, db1) \<and> pl_ID l = 7 \<and> pb_conns db1 = [demo_conn]"
  by (simp add: handle_Publish_def svc_Publish_def log_Create_def encryptField_def EncryptAPIKey_def aes_key_ok_def
      IsValidPlatform_def demo_publish_env_def demo_publish_svc_def demo_publish_req_def demo_publish_db_def Let_def)

theorem publish_end_to_end_witness:
  "\<exists>job db1. fst (snd (handle_Publish demo_publish_svc demo_publish_env (Some 1) (Some demo_publish_req) demo_publish_db)) = [job]
    \<and> (case publish_HandleTask demo_worker demo_publish_env (Some job) db1 of (retry, calls, pushes, db3) \<Rightarrow>
        \<not> retry \<and> map (\<lambda>(p, a, ps). (p, a, pp_Content ps)) calls = [(''medium'', [9], ''Hello'')]
        \<and> handle_PublishGet demo_publish_svc demo_publish_env (Some 1) ''uuuuuuuu'' db3 = HttpError 404 ''not_found'' ''Publish log not found'')"
proof -
  obtain l jobs pushes db1 where h: "handle_Publish demo_publish_svc demo_publish_env (Some 1) (Some demo_publish_req) demo_publish_db
     = (JSON 202 l, jobs, pushes, db1)" and l: "pl_ID l = 7" and c: "pb_conns db1 = [demo_conn]"
    using demo_publish_accepted by blast
  have conn: "conn_GetByPlatform (pbe_faults demo_publish_env 1) 1 (prq_Platform demo_publish_req) (pb_conns db1) = Some demo_conn"
    by (simp add: c conn_GetByPlatform_def demo_conn_def demo_publish_env_def demo_publish_req_def)
  have misc: "sv_queue demo_publish_svc" "wk_masterKey demo_worker = sv_masterKey demo_publish_svc"
    "reg_Get (wk_registry demo_worker) (prq_Platform demo_publish_req) = Inr demo_adapter" "pc_EncryptedAuth demo_conn \<noteq> []"
    by (simp_all add: demo_publish_svc_def demo_worker_def reg_Get_def demo_publish_req_def demo_conn_def)
  have ad: "ad_Publish demo_adapter a k ps = Inr (Some \<lparr>pr_PlatformURL = ''https://x/1'', pr_PlatformID = ''1''\<rparr>)" for a k ps
    by (simp add: demo_adapter_def)
  have env: "''uuuuuuuu'' \<noteq> ''''" "pbe_parse demo_publish_env ''uuuuuuuu'' = Some (pl_ID l)"
    by (simp_all add: demo_publish_env_def l)
  note main = publish_end_to_end [OF h misc(1) demo_publish_law(1-4) misc(2,3) refl conn misc(4) refl, unfolded ad]
  then obtain job where j: "jobs = [job]" by blast
  obtain retry calls pushes2 db3 where t: "publish_HandleTask demo_worker demo_publish_env (Some job) db1 = (retry, calls, pushes2, db3)"
    by (metis prod_cases4)
  have w: "map (\<lambda>(p, a, ps). (p, a, pp_Content ps)) calls = [(''medium'', [9], ''Hello'')] \<and> \<not> retry"
    "handle_PublishGet demo_publish_svc demo_publish_env (Some 1) ''uuuuuuuu'' db3 = HttpError 404 ''not_found'' ''Publish log not found''"
    using main j t env by (auto simp: demo_publish_req_def demo_conn_def)
  show ?thesis by (intro exI [of _ job] exI [of _ db1]) (use w h j t in auto)
qed

section \<open>Snapshots\<close>

definition stats_inv :: "PublishState \<Rightarrow> bool" where
  "stats_inv db \<longleftrightarrow> distinct (map st_ID (pb_stats db)) \<and> (\<forall>r \<in> set (pb_stats db). st_ID r < pb_nextStat db)
     \<and> (\<forall>p. count_rows (\<lambda>r. st_PublishID r = p) (pb_stats db) \<le> 30)"

lemma length_stats_newest: "length (stats_newest p t) = count_rows (\<lambda>r. st_PublishID r = p) t"
  by (simp add: stats_newest_def count_rows_def)

lemma filter_take_ids: "distinct (map k xs) \<Longrightarrow> filter (\<lambda>r. k r \<in> set (map k (take n xs))) xs = take n xs"
proof (induction xs arbitrary: n)
  case (Cons x xs)
  show ?case
  proof (cases n)
    case (Suc m)
    have "filter (\<lambda>r. k r = k x \<or> k r \<in> set (map k (take m xs))) xs = filter (\<lambda>r. k r \<in> set (map k (take m xs))) xs"
      using Cons.prems by (intro filter_cong) (auto simp: image_iff)
    then show ?thesis using Cons Suc by simp
  qed simp
qed simp

lemma distinct_stats_newest:
  assumes "distinct (map st_ID t)"
  shows "distinct (map st_ID (stats_newest p t))"
proof -
  have "distinct (map st_ID (filter (\<lambda>r. st_PublishID r = p) t))" using assms by (simp add: distinct_map_filter)
  then show ?thesis by (simp add: stats_newest_def order_by_desc_def distinct_map)
qed

text \<open>Trimming keeps exactly the newest snapshots of its publish, in order, and those of every other one.\<close>

lemma TrimPostStats_newest:
  assumes "distinct (map st_ID t)"
  shows "stats_newest q (snd (TrimPostStats False p n t)) = (if q = p then take n (stats_newest p t) else stats_newest q t)"
proof (cases "q = p")
  case True
  let ?P = "\<lambda>r. st_ID r \<in> set (map st_ID (take n (stats_newest p t)))"
  have "filter (\<lambda>r. st_PublishID r = p) (snd (TrimPostStats False p n t)) = filter ?P (filter (\<lambda>r. st_PublishID r = p) t)"
    by (auto simp: TrimPostStats_def delete_rows_def intro!: filter_cong)
  then have "stats_newest p (snd (TrimPostStats False p n t)) = filter ?P (stats_newest p t)"
    by (simp add: stats_newest_def [of p "snd _"] order_by_desc_def filter_sort [symmetric] stats_newest_def [of p t])
  then show ?thesis using True filter_take_ids [OF distinct_stats_newest [OF assms]] by simp
next
  case False
  then have "filter (\<lambda>r. st_PublishID r = q) (snd (TrimPostStats False p n t)) = filter (\<lambda>r. st_PublishID r = q) t"
    by (auto simp: TrimPostStats_def delete_rows_def intro!: filter_cong)
  then show ?thesis using False by (simp add: stats_newest_def)
qed

lemma refresh_log_cases:
  assumes "\<not> snd re 2"
  shows "refresh_log reg k re l db = db \<or> (\<exists>x. st_ID x = pb_nextStat db \<and> st_PublishID x = pl_ID l
    \<and> pb_nextStat (refresh_log reg k re l db) = Suc (pb_nextStat db)
    \<and> pb_stats (refresh_log reg k re l db) = snd (TrimPostStats False (pl_ID l) 30 (pb_stats db @ [x])))"
proof -
  define F where "F x = db\<lparr>pb_nextStat := Suc (pb_nextStat db),
      pb_stats := snd (TrimPostStats False (pl_ID l) 30 (pb_stats db @ [x]))\<rparr>" for x
  obtain now f where re: "re = (now, f)" "\<not> f 2" using assms by (cases re) auto
  define X where "X stats = \<lparr>st_ID = pb_nextStat db, st_PublishID = pl_ID l, st_Views = ps_Views stats,
      st_Likes = ps_Likes stats, st_Comments = ps_Comments stats, st_FetchedAt = now\<rparr>" for stats :: PostStats
  have "(let (ok, db1) = InsertPostStats (f 1) (pl_ID l) (ps_Views stats) (ps_Likes stats) (ps_Comments stats) now db
      in if \<not> ok then db1 else db1\<lparr>pb_stats := snd (TrimPostStats (f 2) (pl_ID l) 30 (pb_stats db1))\<rparr>) \<in> {db, F (X stats)}" for stats
    using re(2) by (simp add: InsertPostStats_def F_def X_def)
  then have "refresh_log reg k re l db \<in> insert db (range (\<lambda>stats. F (X stats)))"
    unfolding refresh_log_def re(1) by (auto simp: Let_def split: sum.split option.split)
  then consider "refresh_log reg k re l db = db" | stats where "refresh_log reg k re l db = F (X stats)" by blast
  then show ?thesis
  proof cases
    case (2 stats)
    then show ?thesis by (intro disjI2 exI [of _ "X stats"]) (simp add: F_def X_def)
  qed simp
qed

text \<open>The time of the latest snapshot of a publish, if it has one.\<close>

definition latest_at :: "uuid \<Rightarrow> PublishState \<Rightarrow> time option" where
  "latest_at p db = (case LatestPostStats False p (pb_stats db) of Some (Some s) \<Rightarrow> Some (sn_FetchedAt s) | _ \<Rightarrow> None)"

lemma latest_at_newest: "latest_at p db = (case stats_newest p (pb_stats db) of [] \<Rightarrow> None | r # _ \<Rightarrow> Some (st_FetchedAt r))"
  by (simp add: latest_at_def LatestPostStats_def split: list.split)

lemma newest_append_head:
  assumes "stats_newest p t = r # rs"
  shows "\<exists>r' rs'. stats_newest p (t @ [x]) = r' # rs' \<and> st_FetchedAt r \<le> st_FetchedAt r'"
proof -
  have set_t: "set (stats_newest p (t @ [x])) \<supseteq> set (stats_newest p t)" by (auto simp: stats_newest_def)
  then obtain r' rs' where n: "stats_newest p (t @ [x]) = r' # rs'" using assms by (cases "stats_newest p (t @ [x])") auto
  have "sorted (map (\<lambda>r. - st_FetchedAt r) (stats_newest p (t @ [x])))"
    by (simp add: stats_newest_def order_by_desc_def)
  moreover have "r \<in> set (stats_newest p (t @ [x]))" using assms set_t by auto
  ultimately have "st_FetchedAt r \<le> st_FetchedAt r'" using n by auto
  then show ?thesis using n by blast
qed

lemma refresh_log_step:
  assumes "stats_inv db" and "\<not> snd re 2"
  shows "stats_inv (refresh_log reg k re l db)"
    and "latest_at p db = Some a \<Longrightarrow> \<exists>b. latest_at p (refresh_log reg k re l db) = Some b \<and> a \<le> b"
proof -
  let ?db' = "refresh_log reg k re l db"
  consider "?db' = db" | x where "st_ID x = pb_nextStat db" "st_PublishID x = pl_ID l" "pb_nextStat ?db' = Suc (pb_nextStat db)"
    "pb_stats ?db' = snd (TrimPostStats False (pl_ID l) 30 (pb_stats db @ [x]))"
    using refresh_log_cases [OF assms(2)] by blast
  then have "stats_inv ?db' \<and> (latest_at p db = Some a \<longrightarrow> (\<exists>b. latest_at p ?db' = Some b \<and> a \<le> b))"
  proof cases
    case 2
    let ?t = "pb_stats db @ [x]"
    have dist: "distinct (map st_ID ?t)" using assms(1) 2(1) by (auto simp: stats_inv_def)
    have sub: "set (pb_stats ?db') \<subseteq> set ?t" "distinct (map st_ID (pb_stats ?db'))"
      using dist by (auto simp: 2(4) TrimPostStats_def delete_rows_def distinct_map_filter)
    have newest: "stats_newest q (pb_stats ?db') = (if q = pl_ID l then take 30 (stats_newest q ?t) else stats_newest q ?t)" for q
      unfolding 2(4) TrimPostStats_newest [OF dist] by simp
    have "count_rows (\<lambda>r. st_PublishID r = q) (pb_stats ?db') \<le> 30" for q
      using newest [of q] assms(1) 2(2) unfolding length_stats_newest [symmetric]
      by (auto simp: stats_inv_def length_stats_newest count_rows_def)
    then have "stats_inv ?db'" using sub 2(1,3) assms(1) by (fastforce simp: stats_inv_def)
    moreover have "\<exists>b. latest_at p ?db' = Some b \<and> a \<le> b" if la: "latest_at p db = Some a"
    proof -
      obtain r rs where r: "stats_newest p (pb_stats db) = r # rs" "a = st_FetchedAt r"
        using la by (auto simp: latest_at_newest split: list.split_asm)
      from newest_append_head [OF r(1), of x] show ?thesis
        using newest [of p] r(2) by (auto simp: latest_at_newest)
    qed
    ultimately show ?thesis by blast
  qed (use assms(1) in auto)
  then show "stats_inv ?db'" "latest_at p db = Some a \<Longrightarrow> \<exists>b. latest_at p ?db' = Some b \<and> a \<le> b" by auto
qed

text \<open>The refresh of statistics keeps at most 30 snapshots per publish, under unique ids, as long as its
  trims reach the table, and the latest snapshot of a publish is never lost to an older one.\<close>

theorem post_stats_bounded:
  assumes "stats_inv db" and "\<forall>l. \<not> snd (env l) 2"
  shows "stats_inv (snd (HandleRefreshPostStats reg k fault now env db))
    \<and> (\<forall>p a. latest_at p db = Some a \<longrightarrow> (\<exists>b. latest_at p (snd (HandleRefreshPostStats reg k fault now env db)) = Some b \<and> a \<le> b))"
proof -
  have "stats_inv (refresh_logs reg k env ls db)
    \<and> (\<forall>p a. latest_at p db = Some a \<longrightarrow> (\<exists>b. latest_at p (refresh_logs reg k env ls db) = Some b \<and> a \<le> b))" for ls
    using assms(1)
  proof (induction ls arbitrary: db)
    case (Cons l ls)
    have f: "\<not> snd (env l) 2" using assms(2) by blast
    note s = refresh_log_step [OF Cons.prems f, where reg = reg and k = k and l = l]
    show ?case using Cons.IH [OF s(1)] s(2) by simp (meson order_trans)
  qed auto
  then show ?thesis using assms(1) by (auto simp: HandleRefreshPostStats_def split: option.split)
qed

definition demo_stats_db :: PublishState where
  "demo_stats_db = \<lparr>pb_logs = [\<lparr>pl_ID = 7, pl_UserID = 1, pl_Platform = ''medium'', pl_PlatformConnID = None,
      pl_ContentItemID = None, pl_Title = '''', pl_Content = '''', pl_Status = ''published'', pl_PlatformURL = Some '''',
      pl_PlatformPostID = Some ''1'', pl_ErrorMessage = Some '''', pl_PublishedAt = None, pl_CreatedAt = 5, pl_Stats = None\<rparr>],
    pb_stats = map (\<lambda>i. \<lparr>st_ID = i, st_PublishID = 7, st_Views = 0, st_Likes = 0, st_Comments = 0, st_FetchedAt = int i\<rparr>) [0..<30],
    pb_nextStat = 30, pb_conns = [demo_conn]\<rparr>"

theorem post_stats_bounded_witness:
  "let db' = snd (HandleRefreshPostStats [(''medium'', demo_adapter)] [] False 10 (\<lambda>_. (99, no_faults)) demo_stats_db) in
     stats_inv db' \<and> pb_nextStat db' = 31"
proof -
  have inv: "stats_inv demo_stats_db"
    unfolding stats_inv_def count_rows_def
  proof (intro conjI allI)
    show "distinct (map st_ID (pb_stats demo_stats_db))" "\<forall>r \<in> set (pb_stats demo_stats_db). st_ID r < pb_nextStat demo_stats_db"
      by (auto simp: demo_stats_db_def comp_def)
    show "length (filter (\<lambda>r. st_PublishID r = p) (pb_stats demo_stats_db)) \<le> 30" for p
      using length_filter_le [of "\<lambda>r. st_PublishID r = p" "pb_stats demo_stats_db"] by (simp add: demo_stats_db_def)
  qed
  have "pb_nextStat (snd (HandleRefreshPostStats [(''medium'', demo_adapter)] [] False 10 (\<lambda>_. (99, no_faults)) demo_stats_db)) = 31"
    by (simp add: HandleRefreshPostStats_def ListRecentPublishedWithPostID_def refresh_log_def InsertPostStats_def demo_stats_db_def
        demo_adapter_def demo_conn_def reg_Get_def conn_GetByPlatform_def scan_log_def int4_ok_def)
  then show ?thesis using post_stats_bounded [OF inv, of "\<lambda>_. (99, no_faults)" "[(''medium'', demo_adapter)]" "[]" False 10] by (simp add: Let_def)
qed

end
