(* ===== verification/Notifications.thy ===== *)
theory Notifications
  imports AnyNote_Prelude Http "HOL-Library.List_Lexorder" "HOL-Library.Char_ord"
begin

text \<open>
  Notifications and devices: the tables \<^verbatim>\<open>notifications\<close> and \<^verbatim>\<open>devices\<close> and the column of preferences
  (\<^verbatim>\<open>repository/notification_repository.go\<close>, \<^verbatim>\<open>device_repository.go\<close>), the services
  (\<^verbatim>\<open>service/notification_service.go\<close>, \<^verbatim>\<open>device_service.go\<close>) and the handlers
  (\<^verbatim>\<open>handler/notification_handler.go\<close>, \<^verbatim>\<open>device_handler.go\<close>). Services and repositories pass identifiers
  as text; the tables hold UUIDs, and a text that does not parse makes the statement fail.
\<close>

section \<open>Notifications: repository\<close>

text \<open>The data of a notification is JSON text, \<open>None\<close> for the nil message.\<close>

record Notification =
  nt_ID :: uuid
  nt_UserID :: uuid
  nt_Type :: string
  nt_Title :: string
  nt_Body :: string
  nt_Data :: string
  nt_IsRead :: bool
  nt_CreatedAt :: time

text \<open>Preferences are a JSON object with boolean values, here its entries sorted by key, or JSON null.\<close>

type_synonym preferences = "(string \<times> bool) list option"

record notif_db =
  nd_users :: "(uuid \<times> preferences) list"
  nd_rows :: "Notification list"

text \<open>The CHECK constraint of the table.\<close>

definition notification_type_check :: "string list" where
  "notification_type_check = [''sync_conflict'', ''share_received'', ''reminder'', ''system'', ''payment'',
     ''publish_started'', ''publish_completed'', ''collab_invite'']"

definition notif_Create :: "bool \<Rightarrow> time \<Rightarrow> uuid \<Rightarrow> uuid option \<Rightarrow> string \<Rightarrow> string \<Rightarrow> string \<Rightarrow> string \<Rightarrow> notif_db \<Rightarrow> bool \<times> notif_db" where
  "notif_Create fault now newID userID nType title body d db =
     (case userID of
        None \<Rightarrow> (False, db)
      | Some u \<Rightarrow>
          if fault \<or> map_of (nd_users db) u = None \<or> nType \<notin> set notification_type_check
             \<or> find_row (\<lambda>n. nt_ID n = newID) (nd_rows db) \<noteq> None
          then (False, db)
          else (True, db\<lparr>nd_rows := nd_rows db @ [\<lparr>nt_ID = newID, nt_UserID = u, nt_Type = nType, nt_Title = title,
                           nt_Body = body, nt_Data = d, nt_IsRead = False, nt_CreatedAt = now\<rparr>]\<rparr>))"

definition notif_GetByUser :: "bool \<Rightarrow> uuid option \<Rightarrow> int \<Rightarrow> int \<Rightarrow> notif_db \<Rightarrow> Notification list option" where
  "notif_GetByUser fault userID limit offset db =
     (case userID of
        None \<Rightarrow> None
      | Some u \<Rightarrow>
          if fault then None
          else Some (take (nat limit) (drop (nat offset) (order_by_desc nt_CreatedAt (filter (\<lambda>n. nt_UserID n = u) (nd_rows db))))))"

definition notif_unread :: "uuid \<Rightarrow> Notification \<Rightarrow> bool" where
  "notif_unread u n \<longleftrightarrow> nt_UserID n = u \<and> \<not> nt_IsRead n"

definition notif_GetUnreadCount :: "bool \<Rightarrow> uuid option \<Rightarrow> notif_db \<Rightarrow> nat option" where
  "notif_GetUnreadCount fault userID db =
     (case userID of None \<Rightarrow> None | Some u \<Rightarrow> if fault then None else Some (count_rows (notif_unread u) (nd_rows db)))"

definition notif_MarkRead :: "bool \<Rightarrow> uuid option \<Rightarrow> uuid option \<Rightarrow> notif_db \<Rightarrow> bool \<times> notif_db" where
  "notif_MarkRead fault nid userID db =
     (case (nid, userID) of
        (Some i, Some u) \<Rightarrow>
          if fault then (False, db)
          else (count_rows (\<lambda>n. nt_ID n = i \<and> nt_UserID n = u) (nd_rows db) \<noteq> 0,
                db\<lparr>nd_rows := update_rows (\<lambda>n. nt_ID n = i \<and> nt_UserID n = u) (\<lambda>n. n\<lparr>nt_IsRead := True\<rparr>) (nd_rows db)\<rparr>)
      | _ \<Rightarrow> (False, db))"

definition notif_MarkAllRead :: "bool \<Rightarrow> uuid option \<Rightarrow> notif_db \<Rightarrow> bool \<times> notif_db" where
  "notif_MarkAllRead fault userID db =
     (case userID of
        None \<Rightarrow> (False, db)
      | Some u \<Rightarrow>
          if fault then (False, db)
          else (True, db\<lparr>nd_rows := update_rows (notif_unread u) (\<lambda>n. n\<lparr>nt_IsRead := True\<rparr>) (nd_rows db)\<rparr>))"

definition notif_Delete :: "bool \<Rightarrow> uuid option \<Rightarrow> uuid option \<Rightarrow> notif_db \<Rightarrow> bool \<times> notif_db" where
  "notif_Delete fault nid userID db =
     (case (nid, userID) of
        (Some i, Some u) \<Rightarrow>
          if fault then (False, db)
          else (count_rows (\<lambda>n. nt_ID n = i \<and> nt_UserID n = u) (nd_rows db) \<noteq> 0,
                db\<lparr>nd_rows := delete_rows (\<lambda>n. nt_ID n = i \<and> nt_UserID n = u) (nd_rows db)\<rparr>)
      | _ \<Rightarrow> (False, db))"

definition notif_GetPreferences :: "bool \<Rightarrow> uuid option \<Rightarrow> notif_db \<Rightarrow> preferences option" where
  "notif_GetPreferences fault userID db =
     (case userID of None \<Rightarrow> None | Some u \<Rightarrow> if fault then None else map_of (nd_users db) u)"

definition notif_UpdatePreferences :: "bool \<Rightarrow> uuid option \<Rightarrow> preferences \<Rightarrow> notif_db \<Rightarrow> bool \<times> notif_db" where
  "notif_UpdatePreferences fault userID prefs db =
     (case userID of
        None \<Rightarrow> (False, db)
      | Some u \<Rightarrow>
          if fault \<or> map_of (nd_users db) u = None then (False, db)
          else (True, db\<lparr>nd_users := AList.update u prefs (nd_users db)\<rparr>))"

section \<open>Notifications: service\<close>

record NotifEnv =
  ne_parse :: "string \<Rightarrow> uuid option"
  ne_show :: "uuid \<Rightarrow> string"
  ne_now :: time
  ne_newID :: uuid
  ne_faults :: faults

definition validNotificationTypes :: "string list" where
  "validNotificationTypes = [''sync_conflict'', ''share_received'', ''reminder'', ''system'', ''payment'',
     ''publish_started'', ''publish_completed'', ''collab_invite'']"

text \<open>\<open>None\<close> is the nil error.\<close>

definition CreateNotification :: "NotifEnv \<Rightarrow> string \<Rightarrow> string \<Rightarrow> string \<Rightarrow> string \<Rightarrow> string option \<Rightarrow> notif_db \<Rightarrow> string option \<times> notif_db" where
  "CreateNotification e userID nType title body d db =
     (if nType \<notin> set validNotificationTypes then (Some (''invalid notification type: '' @ nType), db)
      else let d' = (case d of None \<Rightarrow> ''{}'' | Some x \<Rightarrow> x);
               (ok, db') = notif_Create (ne_faults e 0) (ne_now e) (ne_newID e) (ne_parse e userID) nType title body d' db
           in (if ok then None else Some ''insert notification'', db'))"

definition svc_ListNotifications :: "NotifEnv \<Rightarrow> string \<Rightarrow> int \<Rightarrow> int \<Rightarrow> notif_db \<Rightarrow> Notification list option" where
  "svc_ListNotifications e userID limit offset db =
     (let l1 = (if limit \<le> 0 then 20 else limit);
          l2 = (if l1 > 100 then 100 else l1);
          o1 = (if offset < 0 then 0 else offset)
      in notif_GetByUser (ne_faults e 0) (ne_parse e userID) l2 o1 db)"

definition svc_MarkRead :: "NotifEnv \<Rightarrow> string \<Rightarrow> string \<Rightarrow> notif_db \<Rightarrow> service_error option \<times> notif_db" where
  "svc_MarkRead e nid userID db =
     (let (ok, db') = notif_MarkRead (ne_faults e 0) (ne_parse e nid) (ne_parse e userID) db
      in (if ok then None else Some ErrNotificationNotFound, db'))"

text \<open>The service unmarshals the preferences it is given and marshals them again; both steps keep a sorted
  object and null.\<close>

definition canonical_prefs :: "preferences \<Rightarrow> preferences" where
  "canonical_prefs p = map_option (\<lambda>al. sort_key fst (AList.clearjunk (rev al))) p"

definition svc_UpdatePreferences :: "NotifEnv \<Rightarrow> string \<Rightarrow> preferences option \<Rightarrow> notif_db \<Rightarrow> string option \<times> notif_db" where
  "svc_UpdatePreferences e userID prefs db =
     (case prefs of
        None \<Rightarrow> (Some ''invalid preferences: must be a JSON object with boolean values'', db)
      | Some p \<Rightarrow>
          let (ok, db') = notif_UpdatePreferences (ne_faults e 0) (ne_parse e userID) (canonical_prefs p) db
          in (if ok then None else Some ''update notification preferences'', db'))"

section \<open>Notifications: handlers\<close>

definition handle_ListNotifications :: "NotifEnv \<Rightarrow> uuid option \<Rightarrow> string \<Rightarrow> string \<Rightarrow> notif_db \<Rightarrow> (Notification list \<times> int \<times> int) response" where
  "handle_ListNotifications e user qlimit qoffset db =
     (case user of
        None \<Rightarrow> HttpError 401 ''unauthorized'' ''''
      | Some userID \<Rightarrow>
          (let limit = query_at_least 1 20 qlimit; offset = query_at_least 0 0 qoffset in
           case svc_ListNotifications e (ne_show e userID) limit offset db of
             None \<Rightarrow> HttpError 500 ''list_error'' ''Failed to list notifications''
           | Some ns \<Rightarrow> JSON 200 (ns, limit, offset)))"

definition handle_GetUnreadCount :: "NotifEnv \<Rightarrow> uuid option \<Rightarrow> notif_db \<Rightarrow> nat response" where
  "handle_GetUnreadCount e user db =
     (case user of
        None \<Rightarrow> HttpError 401 ''unauthorized'' ''''
      | Some userID \<Rightarrow>
          (case notif_GetUnreadCount (ne_faults e 0) (ne_parse e (ne_show e userID)) db of
             None \<Rightarrow> HttpError 500 ''count_error'' ''Failed to get unread count''
           | Some count \<Rightarrow> JSON 200 count))"

definition handle_MarkRead :: "NotifEnv \<Rightarrow> uuid option \<Rightarrow> string \<Rightarrow> notif_db \<Rightarrow> string response \<times> notif_db" where
  "handle_MarkRead e user notifID db =
     (case user of
        None \<Rightarrow> (HttpError 401 ''unauthorized'' '''', db)
      | Some userID \<Rightarrow>
          if notifID = '''' then (HttpError 400 ''missing_id'' ''Notification ID is required'', db)
          else (case svc_MarkRead e notifID (ne_show e userID) db of
                  (Some ErrNotificationNotFound, db') \<Rightarrow> (HttpError 404 ''not_found'' ''Notification not found'', db')
                | (Some err, db') \<Rightarrow> (HttpError 500 ''mark_read_error'' ''Failed to mark notification as read'', db')
                | (None, db') \<Rightarrow> (JSON 200 ''read'', db')))"

definition handle_MarkAllRead :: "NotifEnv \<Rightarrow> uuid option \<Rightarrow> notif_db \<Rightarrow> string response \<times> notif_db" where
  "handle_MarkAllRead e user db =
     (case user of
        None \<Rightarrow> (HttpError 401 ''unauthorized'' '''', db)
      | Some userID \<Rightarrow>
          (case notif_MarkAllRead (ne_faults e 0) (ne_parse e (ne_show e userID)) db of
             (False, db') \<Rightarrow> (HttpError 500 ''mark_all_read_error'' ''Failed to mark all notifications as read'', db')
           | (True, db') \<Rightarrow> (JSON 200 ''all_read'', db')))"

definition HandleGetPreferences :: "NotifEnv \<Rightarrow> uuid option \<Rightarrow> notif_db \<Rightarrow> preferences response" where
  "HandleGetPreferences e user db =
     (case user of
        None \<Rightarrow> HttpError 401 ''unauthorized'' ''''
      | Some userID \<Rightarrow>
          (case notif_GetPreferences (ne_faults e 0) (ne_parse e (ne_show e userID)) db of
             None \<Rightarrow> HttpError 500 ''preferences_error'' ''Failed to get notification preferences''
           | Some prefs \<Rightarrow> JSON 200 prefs))"

text \<open>The body is the list of entries in the order of the text, or null; \<open>None\<close> when it does not decode.\<close>

definition HandleUpdatePreferences :: "NotifEnv \<Rightarrow> uuid option \<Rightarrow> preferences option \<Rightarrow> notif_db \<Rightarrow> unit response \<times> notif_db" where
  "HandleUpdatePreferences e user body db =
     (case user of
        None \<Rightarrow> (HttpError 401 ''unauthorized'' '''', db)
      | Some userID \<Rightarrow>
          (case body of
             None \<Rightarrow> (HttpError 400 ''invalid_json'' ''Request body must be a JSON object with boolean values'', db)
           | Some prefs \<Rightarrow>
               (case svc_UpdatePreferences e (ne_show e userID) (Some (canonical_prefs prefs)) db of
                  (Some err, db') \<Rightarrow> (HttpError 500 ''preferences_error'' ''Failed to update notification preferences'', db')
                | (None, db') \<Rightarrow> (JSON 204 (), db'))))"

section \<open>Devices\<close>

record Device =
  dv_ID :: uuid
  dv_UserID :: uuid
  dv_DeviceID :: string
  dv_DeviceName :: string
  dv_Platform :: string
  dv_LastSeen :: time
  dv_CreatedAt :: time

text \<open>An upsert on the unique pair of user and device.\<close>

definition dev_RegisterDevice :: "bool \<Rightarrow> time \<Rightarrow> uuid \<Rightarrow> uuid \<Rightarrow> string \<Rightarrow> string \<Rightarrow> string \<Rightarrow> Device list \<Rightarrow> Device option \<times> Device list" where
  "dev_RegisterDevice fault now newID userID deviceID deviceName platform t =
     (let P = (\<lambda>d. dv_UserID d = userID \<and> dv_DeviceID d = deviceID);
          f = (\<lambda>d. d\<lparr>dv_DeviceName := deviceName, dv_Platform := platform, dv_LastSeen := now\<rparr>)
      in if fault then (None, t)
         else case find_row P t of
           Some d \<Rightarrow> (Some (f d), update_rows P f t)
         | None \<Rightarrow>
             if find_row (\<lambda>d. dv_ID d = newID) t \<noteq> None then (None, t)
             else let d = \<lparr>dv_ID = newID, dv_UserID = userID, dv_DeviceID = deviceID, dv_DeviceName = deviceName,
                           dv_Platform = platform, dv_LastSeen = now, dv_CreatedAt = now\<rparr>
                  in (Some d, t @ [d]))"

definition dev_ListDevices :: "bool \<Rightarrow> uuid \<Rightarrow> Device list \<Rightarrow> Device list option" where
  "dev_ListDevices fault userID t =
     (if fault then None else Some (order_by_desc dv_LastSeen (filter (\<lambda>d. dv_UserID d = userID) t)))"

definition dev_DeleteDevice :: "bool \<Rightarrow> uuid \<Rightarrow> string \<Rightarrow> Device list \<Rightarrow> bool \<times> Device list" where
  "dev_DeleteDevice fault userID deviceID t =
     (if fault then (False, t)
      else (count_rows (\<lambda>d. dv_UserID d = userID \<and> dv_DeviceID d = deviceID) t \<noteq> 0,
            delete_rows (\<lambda>d. dv_UserID d = userID \<and> dv_DeviceID d = deviceID) t))"

definition dev_UpdateLastSeen :: "bool \<Rightarrow> time \<Rightarrow> uuid \<Rightarrow> string \<Rightarrow> Device list \<Rightarrow> bool \<times> Device list" where
  "dev_UpdateLastSeen fault now userID deviceID t =
     (if fault then (False, t)
      else (True, update_rows (\<lambda>d. dv_UserID d = userID \<and> dv_DeviceID d = deviceID) (\<lambda>d. d\<lparr>dv_LastSeen := now\<rparr>) t))"

definition CleanStaleDevices :: "bool \<Rightarrow> time \<Rightarrow> int \<Rightarrow> Device list \<Rightarrow> nat option \<times> Device list" where
  "CleanStaleDevices fault now retentionDays t =
     (let P = (\<lambda>d. dv_LastSeen d < now - retentionDays * day)
      in if fault then (None, t) else (Some (count_rows P t), delete_rows P t))"

definition dev_DeleteByUser :: "bool \<Rightarrow> uuid \<Rightarrow> Device list \<Rightarrow> bool \<times> Device list" where
  "dev_DeleteByUser fault userID t = (if fault then (False, t) else (True, delete_rows (\<lambda>d. dv_UserID d = userID) t))"

record registerDeviceBody =
  rd_DeviceID :: string
  rd_DeviceName :: string
  rd_Platform :: string

definition handle_RegisterDevice :: "bool \<Rightarrow> time \<Rightarrow> uuid \<Rightarrow> uuid option \<Rightarrow> registerDeviceBody option \<Rightarrow> Device list \<Rightarrow> Device response \<times> Device list" where
  "handle_RegisterDevice fault now newID user body t =
     (case user of
        None \<Rightarrow> (HttpError 401 ''unauthorized'' '''', t)
      | Some userID \<Rightarrow>
          (case body of
             None \<Rightarrow> (HttpError 400 ''invalid_request'' ''Failed to parse request body'', t)
           | Some req \<Rightarrow>
               if rd_DeviceID req = '''' then (HttpError 400 ''validation_error'' ''device_id is required'', t)
               else if length (rd_DeviceID req) > 128
               then (HttpError 400 ''validation_error'' ''device_id must be at most 128 characters'', t)
               else if length (rd_DeviceName req) > 255
               then (HttpError 400 ''validation_error'' ''device_name must be at most 255 characters'', t)
               else if length (rd_Platform req) > 32
               then (HttpError 400 ''validation_error'' ''platform must be at most 32 characters'', t)
               else (case dev_RegisterDevice fault now newID userID (rd_DeviceID req) (rd_DeviceName req) (rd_Platform req) t of
                       (None, t') \<Rightarrow> (HttpError 500 ''register_error'' ''Failed to register device'', t')
                     | (Some d, t') \<Rightarrow> (JSON 200 d, t'))))"

definition handle_ListDevices :: "bool \<Rightarrow> uuid option \<Rightarrow> Device list \<Rightarrow> Device list response" where
  "handle_ListDevices fault user t =
     (case user of
        None \<Rightarrow> HttpError 401 ''unauthorized'' ''''
      | Some userID \<Rightarrow>
          (case dev_ListDevices fault userID t of
             None \<Rightarrow> HttpError 500 ''list_error'' ''Failed to list devices''
           | Some ds \<Rightarrow> JSON 200 ds))"

definition handle_DeleteDevice :: "bool \<Rightarrow> uuid option \<Rightarrow> string \<Rightarrow> Device list \<Rightarrow> string response \<times> Device list" where
  "handle_DeleteDevice fault user deviceID t =
     (case user of
        None \<Rightarrow> (HttpError 401 ''unauthorized'' '''', t)
      | Some userID \<Rightarrow>
          if deviceID = '''' then (HttpError 400 ''missing_device_id'' ''Device ID is required'', t)
          else (case dev_DeleteDevice fault userID deviceID t of
                  (False, t') \<Rightarrow> (HttpError 404 ''not_found'' ''Device not found'', t')
                | (True, t') \<Rightarrow> (JSON 200 ''deleted'', t')))"

section \<open>Notifications belong to their users and are counted\<close>

lemma notification_types_accepted: "set validNotificationTypes = set notification_type_check"
  by (simp add: validNotificationTypes_def notification_type_check_def)

datatype notif_op =
    NCreate NotifEnv string string string string "string option"
  | NMarkRead NotifEnv uuid string
  | NMarkAll NotifEnv uuid
  | NPrefs NotifEnv uuid "preferences option"

text \<open>The user whom the text passed to the repository denotes.\<close>

fun notif_owner :: "notif_op \<Rightarrow> uuid option" where
  "notif_owner (NCreate e userID nType title body d) = ne_parse e userID"
| "notif_owner (NMarkRead e u nid) = ne_parse e (ne_show e u)"
| "notif_owner (NMarkAll e u) = ne_parse e (ne_show e u)"
| "notif_owner (NPrefs e u prefs) = ne_parse e (ne_show e u)"

fun run_notif :: "notif_op \<Rightarrow> notif_db \<Rightarrow> notif_db" where
  "run_notif (NCreate e userID nType title body d) db = snd (CreateNotification e userID nType title body d db)"
| "run_notif (NMarkRead e u nid) db = snd (handle_MarkRead e (Some u) nid db)"
| "run_notif (NMarkAll e u) db = snd (handle_MarkAllRead e (Some u) db)"
| "run_notif (NPrefs e u prefs) db = snd (HandleUpdatePreferences e (Some u) prefs db)"

definition notif_inv :: "notif_db \<Rightarrow> bool" where
  "notif_inv db \<longleftrightarrow> distinct (map nt_ID (nd_rows db)) \<and> (\<forall>n \<in> set (nd_rows db). nt_Type n \<in> set notification_type_check)"

definition notif_view :: "uuid \<Rightarrow> notif_db \<Rightarrow> Notification list \<times> preferences option" where
  "notif_view u db = (filter (\<lambda>n. nt_UserID n = u) (nd_rows db), map_of (nd_users db) u)"

definition notif_step :: "uuid option \<Rightarrow> notif_db \<Rightarrow> notif_db \<Rightarrow> bool" where
  "notif_step who db db' \<longleftrightarrow> (notif_inv db \<longrightarrow> notif_inv db') \<and> (\<forall>u. who \<noteq> Some u \<longrightarrow> notif_view u db' = notif_view u db)"

lemma notif_step_refl [simp]: "notif_step who db db"
  by (simp add: notif_step_def)

lemma notif_Create_step: "notif_step who db (snd (notif_Create f now i who ty ti bo d db))"
  by (auto simp: notif_Create_def notif_step_def notif_inv_def notif_view_def find_row_None_iff split: option.split)

lemma notif_update_step:
  assumes "\<And>n. P n \<Longrightarrow> nt_UserID n = u"
  shows "notif_step (Some u) db (db\<lparr>nd_rows := update_rows P (\<lambda>n. n\<lparr>nt_IsRead := True\<rparr>) (nd_rows db)\<rparr>)"
proof -
  have "filter (\<lambda>n. nt_UserID n = v) (update_rows P (\<lambda>n. n\<lparr>nt_IsRead := True\<rparr>) (nd_rows db)) = filter (\<lambda>n. nt_UserID n = v) (nd_rows db)"
    if "u \<noteq> v" for v
    using assms that by (intro filter_update_rows_other) auto
  then show ?thesis by (auto simp: notif_step_def notif_inv_def notif_view_def map_update_rows set_update_rows)
qed

lemma notif_MarkRead_step: "notif_step who db (snd (notif_MarkRead f i who db))"
  by (auto simp: notif_MarkRead_def intro: notif_update_step split: option.split)

lemma notif_MarkAllRead_step: "notif_step who db (snd (notif_MarkAllRead f who db))"
  by (auto simp: notif_MarkAllRead_def notif_unread_def intro: notif_update_step split: option.split)

lemma notif_UpdatePreferences_step: "notif_step who db (snd (notif_UpdatePreferences f who p db))"
  by (auto simp: notif_UpdatePreferences_def notif_step_def notif_inv_def notif_view_def split: option.split)

lemma run_notif_step: "notif_step (notif_owner x) db (run_notif x db)"
proof (cases x)
  case (NCreate e userID ty ti bo d)
  then show ?thesis
    using notif_Create_step [of "ne_parse e userID" db] by (auto simp: CreateNotification_def Let_def split: prod.split) (metis snd_conv)+
next
  case (NMarkRead e u nid)
  then show ?thesis
    using notif_MarkRead_step [of "ne_parse e (ne_show e u)" db "ne_faults e 0" "ne_parse e nid"]
    by (auto simp: handle_MarkRead_def svc_MarkRead_def case_prod_unfold Let_def split: option.split service_error.split)
next
  case (NMarkAll e u)
  then show ?thesis
    using notif_MarkAllRead_step [of "ne_parse e (ne_show e u)" db "ne_faults e 0"]
    by (auto simp: handle_MarkAllRead_def case_prod_unfold Let_def split: bool.split)
next
  case (NPrefs e u prefs)
  then show ?thesis
    using notif_UpdatePreferences_step [of "ne_parse e (ne_show e u)" db "ne_faults e 0"]
    by (auto simp: HandleUpdatePreferences_def svc_UpdatePreferences_def case_prod_unfold Let_def split: option.split)
qed

interpretation nf: owned_ops run_notif notif_owner notif_inv notif_view
  using run_notif_step by unfold_locales (auto simp: notif_step_def)

lemma count_mark_read:
  assumes "distinct (map nt_ID t)"
  shows "count_rows (notif_unread u) (update_rows (\<lambda>n. nt_ID n = i \<and> nt_UserID n = u) (\<lambda>n. n\<lparr>nt_IsRead := True\<rparr>) t)
    + (if \<exists>n \<in> set t. nt_ID n = i \<and> notif_unread u n then 1 else 0) = count_rows (notif_unread u) t"
  using assms
proof (induction t)
  case (Cons n t)
  show ?case
  proof (cases "nt_ID n = i \<and> notif_unread u n")
    case True
    then have "\<forall>m \<in> set t. nt_ID m \<noteq> i" using Cons.prems by (auto simp: image_iff)
    then have "update_rows (\<lambda>n. nt_ID n = i \<and> nt_UserID n = u) (\<lambda>n. n\<lparr>nt_IsRead := True\<rparr>) t = t"
      by (intro update_rows_none) auto
    then show ?thesis using True by (simp add: notif_unread_def count_rows_def)
  next
    case False
    let ?P = "\<lambda>n. nt_ID n = i \<and> nt_UserID n = u" and ?f = "\<lambda>n. n\<lparr>nt_IsRead := True\<rparr>"
    have "notif_unread u (if ?P n then ?f n else n) = notif_unread u n" using False by (auto simp: notif_unread_def)
    moreover have "(\<exists>m \<in> set (n # t). nt_ID m = i \<and> notif_unread u m) \<longleftrightarrow> (\<exists>m \<in> set t. nt_ID m = i \<and> notif_unread u m)"
      using False by auto
    moreover have "distinct (map nt_ID t)" using Cons.prems by simp
    note Cons.IH [OF this]
    ultimately show ?thesis unfolding update_rows_Cons count_rows_Cons by simp
  qed
qed (simp add: count_rows_def)

lemma CreateNotification_okD:
  assumes "CreateNotification e userID nType title body d db = (None, db')" and "ne_parse e userID = Some u"
  shows "\<exists>n. nd_rows db' = nd_rows db @ [n] \<and> nt_UserID n = u \<and> \<not> nt_IsRead n"
proof -
  let ?d = "case d of None \<Rightarrow> ''{}'' | Some x \<Rightarrow> x"
  have "notif_Create (ne_faults e 0) (ne_now e) (ne_newID e) (Some u) nType title body ?d db = (True, db')"
    using assms unfolding CreateNotification_def Let_def by (simp split: if_split_asm prod.split_asm)
  then show ?thesis unfolding notif_Create_def by (simp split: if_split_asm) (metis (no_types, lifting) Notification.select_convs(2,7) notif_db.select_convs(2) notif_db.surjective notif_db.update_convs(2))
qed

lemma handle_MarkAllRead_okD:
  assumes "handle_MarkAllRead e (Some u) db = (JSON 200 r, db')" and "ne_parse e (ne_show e u) = Some v"
  shows "nd_rows db' = update_rows (notif_unread v) (\<lambda>n. n\<lparr>nt_IsRead := True\<rparr>) (nd_rows db)"
  using assms by (cases "ne_faults e 0") (auto simp: handle_MarkAllRead_def notif_MarkAllRead_def)

text \<open>C27: notifications are counted and kept per user. Where the text of a user's id denotes that user, the unread
  count that is reported grows by one with a created notification, shrinks by one when an unread one is
  marked, stays when a read one is marked, and is zero after marking all; and whatever is done for
  other users leaves a user's notifications and preferences as they are.\<close>

theorem notifications_counted:
  assumes "notif_inv db" and "\<And>u. ne_parse e (ne_show e u) = Some u"
  shows "(\<forall>db'. CreateNotification e (ne_show e u) nType title body d db = (None, db') \<longrightarrow>
      count_rows (notif_unread u) (nd_rows db') = Suc (count_rows (notif_unread u) (nd_rows db)))
    \<and> (\<forall>r db'. handle_MarkRead e (Some u) nid db = (JSON 200 r, db') \<longrightarrow>
      (\<exists>i. ne_parse e nid = Some i \<and> count_rows (notif_unread u) (nd_rows db')
        + (if \<exists>n \<in> set (nd_rows db). nt_ID n = i \<and> notif_unread u n then 1 else 0) = count_rows (notif_unread u) (nd_rows db)))
    \<and> (\<forall>r db'. handle_MarkAllRead e (Some u) db = (JSON 200 r, db') \<and> \<not> ne_faults e 0 \<longrightarrow>
      handle_GetUnreadCount e (Some u) db' = JSON 200 0)
    \<and> ((\<forall>x \<in> set xs. notif_owner x \<noteq> Some v) \<longrightarrow> notif_view v (fold run_notif xs db) = notif_view v db)"
proof (intro conjI allI impI)
  fix db' assume "CreateNotification e (ne_show e u) nType title body d db = (None, db')"
  from CreateNotification_okD [OF this assms(2)]
  show "count_rows (notif_unread u) (nd_rows db') = Suc (count_rows (notif_unread u) (nd_rows db))"
    by (auto simp: notif_unread_def)
next
  fix r db' assume m: "handle_MarkRead e (Some u) nid db = (JSON 200 r, db')"
  obtain i where "ne_parse e nid = Some i"
    "nd_rows db' = update_rows (\<lambda>n. nt_ID n = i \<and> nt_UserID n = u) (\<lambda>n. n\<lparr>nt_IsRead := True\<rparr>) (nd_rows db)"
    using m assms(2) by (auto simp: handle_MarkRead_def svc_MarkRead_def notif_MarkRead_def split: if_split_asm option.split_asm)
  then show "\<exists>i. ne_parse e nid = Some i \<and> count_rows (notif_unread u) (nd_rows db')
        + (if \<exists>n \<in> set (nd_rows db). nt_ID n = i \<and> notif_unread u n then 1 else 0) = count_rows (notif_unread u) (nd_rows db)"
    using count_mark_read [of "nd_rows db" u i] assms(1) by (simp add: notif_inv_def)
next
  fix r db' assume m: "handle_MarkAllRead e (Some u) db = (JSON 200 r, db') \<and> \<not> ne_faults e 0"
  have rows: "nd_rows db' = update_rows (notif_unread u) (\<lambda>n. n\<lparr>nt_IsRead := True\<rparr>) (nd_rows db)"
    using handle_MarkAllRead_okD [OF _ assms(2)] m by blast
  have "count_rows (notif_unread u) (nd_rows db') = 0"
    unfolding rows count_rows_zero_iff set_update_rows ball_simps(9) by (simp add: notif_unread_def)
  then show "handle_GetUnreadCount e (Some u) db' = JSON 200 0"
    using assms(2) m by (simp add: handle_GetUnreadCount_def notif_GetUnreadCount_def)
next
  assume "\<forall>x \<in> set xs. notif_owner x \<noteq> Some v"
  then show "notif_view v (fold run_notif xs db) = notif_view v db" using nf.run_view [OF assms(1)] by blast
qed

definition demo_notif_env :: NotifEnv where
  "demo_notif_env = \<lparr>ne_parse = (\<lambda>s. if s = '''' then None else Some (length s - 1)), ne_show = (\<lambda>u. replicate (Suc u) (CHR ''u'')),
     ne_now = 1, ne_newID = 8, ne_faults = no_faults\<rparr>"

definition demo_notif_db :: notif_db where
  "demo_notif_db = \<lparr>nd_users = [(1, Some [])], nd_rows = [\<lparr>nt_ID = 3, nt_UserID = 1, nt_Type = ''system'', nt_Title = '''',
     nt_Body = '''', nt_Data = ''{}'', nt_IsRead = False, nt_CreatedAt = 0\<rparr>]\<rparr>"

theorem notifications_counted_witness:
  "handle_GetUnreadCount demo_notif_env (Some 1) (snd (handle_MarkAllRead demo_notif_env (Some 1) demo_notif_db)) = JSON 200 0
   \<and> count_rows (notif_unread 1) (nd_rows demo_notif_db) = 1"
proof -
  have inv: "notif_inv demo_notif_db" by (simp add: notif_inv_def demo_notif_db_def notification_type_check_def)
  have law: "\<And>u. ne_parse demo_notif_env (ne_show demo_notif_env u) = Some u" by (simp add: demo_notif_env_def)
  obtain db' where "handle_MarkAllRead demo_notif_env (Some 1) demo_notif_db = (JSON 200 ''all_read'', db')"
    using law by (simp add: handle_MarkAllRead_def notif_MarkAllRead_def demo_notif_env_def)
  moreover have "\<not> ne_faults demo_notif_env 0" by (simp add: demo_notif_env_def)
  ultimately show ?thesis
    using notifications_counted [OF inv law, of 1] by (simp add: demo_notif_db_def notif_unread_def)
qed

section \<open>Devices belong to their users\<close>

definition dev_inv :: "Device list \<Rightarrow> bool" where
  "dev_inv t \<longleftrightarrow> distinct (map dv_ID t) \<and> distinct (map (\<lambda>d. (dv_UserID d, dv_DeviceID d)) t)"

datatype device_op = DevRegister bool time uuid uuid registerDeviceBody | DevDelete bool uuid string

fun device_owner :: "device_op \<Rightarrow> uuid option" where
  "device_owner (DevRegister fault now i u body) = Some u"
| "device_owner (DevDelete fault u d) = Some u"

fun run_device :: "device_op \<Rightarrow> Device list \<Rightarrow> Device list" where
  "run_device (DevRegister fault now i u body) t = snd (handle_RegisterDevice fault now i (Some u) (Some body) t)"
| "run_device (DevDelete fault u d) t = snd (handle_DeleteDevice fault (Some u) d t)"

lemma dev_Register_cases:
  "(\<exists>d. dev_RegisterDevice fault now i u did nm pl t =
      (Some d, update_rows (\<lambda>d. dv_UserID d = u \<and> dv_DeviceID d = did) (\<lambda>d. d\<lparr>dv_DeviceName := nm, dv_Platform := pl, dv_LastSeen := now\<rparr>) t)
      \<and> find_row (\<lambda>d. dv_UserID d = u \<and> dv_DeviceID d = did) t \<noteq> None)
   \<or> dev_RegisterDevice fault now i u did nm pl t = (None, t)
   \<or> (\<exists>d. dev_RegisterDevice fault now i u did nm pl t = (Some d, t @ [d]) \<and> dv_ID d = i \<and> dv_UserID d = u \<and> dv_DeviceID d = did
        \<and> find_row (\<lambda>d. dv_UserID d = u \<and> dv_DeviceID d = did) t = None \<and> find_row (\<lambda>d. dv_ID d = i) t = None)"
  by (auto simp: dev_RegisterDevice_def Let_def split: option.split)

lemma dev_Register_step:
  assumes "dev_inv t"
  shows "dev_inv (snd (dev_RegisterDevice fault now i u did nm pl t))"
    and "v \<noteq> u \<Longrightarrow> filter (\<lambda>d. dv_UserID d = v) (snd (dev_RegisterDevice fault now i u did nm pl t)) = filter (\<lambda>d. dv_UserID d = v) t"
  using dev_Register_cases [of fault now i u did nm pl t] assms
  by (auto simp: dev_inv_def map_update_rows find_row_None_iff intro!: filter_update_rows_other) metis+

lemma dev_Delete_step:
  assumes "dev_inv t"
  shows "dev_inv (snd (dev_DeleteDevice fault u did t))"
    and "v \<noteq> u \<Longrightarrow> filter (\<lambda>d. dv_UserID d = v) (snd (dev_DeleteDevice fault u did t)) = filter (\<lambda>d. dv_UserID d = v) t"
  using assms by (auto simp: dev_DeleteDevice_def dev_inv_def delete_rows_def distinct_map_filter intro!: filter_cong)

interpretation dv: owned_ops run_device device_owner dev_inv "\<lambda>u. filter (\<lambda>d. dv_UserID d = u)"
proof
  fix t x assume "dev_inv t"
  then show "dev_inv (run_device x t)"
    using dev_Register_step(1) dev_Delete_step(1)
    by (cases x) (auto simp: handle_RegisterDevice_def handle_DeleteDevice_def split: prod.split option.split bool.split, (metis snd_conv)+)
next
  fix t x u assume "dev_inv t" "device_owner x \<noteq> Some u"
  then show "filter (\<lambda>d. dv_UserID d = u) (run_device x t) = filter (\<lambda>d. dv_UserID d = u) t"
    using dev_Register_step(2) dev_Delete_step(2)
    by (cases x) (auto simp: handle_RegisterDevice_def handle_DeleteDevice_def split: prod.split option.split bool.split, (metis snd_conv)+)
qed

text \<open>However users register and delete their devices, a user has each device once, and sees only what the
  user's own operations did.\<close>

lemma devices_isolated:
  assumes "dev_inv t"
  shows "dev_inv (fold run_device xs t)
    \<and> ((\<forall>x \<in> set xs. device_owner x \<noteq> Some u) \<longrightarrow> handle_ListDevices False (Some u) (fold run_device xs t) = handle_ListDevices False (Some u) t)"
  using dv.run_inv [OF assms] dv.run_view [OF assms] by (simp add: handle_ListDevices_def dev_ListDevices_def)

lemma device_registered:
  assumes "dev_inv t" and "handle_RegisterDevice fault now i (Some u) (Some body) t = (JSON 200 d, t')"
  shows "filter (\<lambda>x. dv_UserID x = u \<and> dv_DeviceID x = rd_DeviceID body) t' = [d]
    \<and> dv_DeviceName d = rd_DeviceName body \<and> dv_Platform d = rd_Platform body \<and> dv_LastSeen d = now"
proof -
  let ?P = "\<lambda>x. dv_UserID x = u \<and> dv_DeviceID x = rd_DeviceID body"
    and ?f = "\<lambda>x. x\<lparr>dv_DeviceName := rd_DeviceName body, dv_Platform := rd_Platform body, dv_LastSeen := now\<rparr>"
  have r: "dev_RegisterDevice fault now i u (rd_DeviceID body) (rd_DeviceName body) (rd_Platform body) t = (Some d, t')"
    using assms(2) by (simp add: handle_RegisterDevice_def split: if_split_asm prod.split_asm option.split_asm)
  have dist: "distinct (map (\<lambda>d. (dv_UserID d, dv_DeviceID d)) t)" using assms(1) by (simp add: dev_inv_def)
  show ?thesis
  proof (cases "find_row ?P t")
    case (Some d0)
    then have "d = ?f d0" "t' = update_rows ?P ?f t" using r by (simp_all add: dev_RegisterDevice_def Let_def split: if_split_asm)
    moreover have "filter ?P (update_rows ?P ?f t) = [?f d0]" using Some dist
    proof (induction t)
      case (Cons x t)
      then show ?case
      proof (cases "?P x")
        case True
        then have "\<forall>y \<in> set t. \<not> ?P y" using Cons.prems(2) by (auto simp: image_iff)
        then have "filter ?P (update_rows ?P ?f t) = []" by (induction t) auto
        then show ?thesis using True Cons.prems(1) by simp
      qed auto
    qed simp
    ultimately show ?thesis by simp
  next
    case None
    then have "filter ?P t = []" by (auto simp: find_row_None_iff filter_empty_conv)
    then show ?thesis using r None by (auto simp: dev_RegisterDevice_def Let_def split: if_split_asm)
  qed
qed

end
