(* ===== verification/Comments.thy ===== *)
theory Comments
  imports Share Push "HOL-Library.Multiset"
begin

text \<open>
  Comments on shared notes: the table \<^verbatim>\<open>note_comments\<close> (\<^verbatim>\<open>repository/comment_repository.go\<close>), the service
  (\<^verbatim>\<open>service/comment_service.go\<close>) and the handlers (\<^verbatim>\<open>handler/comment_handler.go\<close>). The table refers to the
  shared notes of \<open>Share\<close>. A deleted comment stays in the table with the time of its deletion.
\<close>

record Comment =
  cm_ID :: uuid
  cm_SharedNoteID :: string
  cm_UserID :: uuid
  cm_EncryptedContent :: string
  cm_ParentID :: "uuid option"
  cm_CreatedAt :: time
  cm_UpdatedAt :: time
  cm_DeletedAt :: "time option"

record comment_db =
  cd_share :: share_db
  cd_comments :: "Comment list"

record CreateCommentRequest =
  cc_EncryptedContent :: string
  cc_ParentID :: string

record CommentEnv =
  ce_parse :: "string \<Rightarrow> uuid option"
  ce_show :: "uuid \<Rightarrow> string"
  ce_now :: time
  ce_newID :: uuid
  ce_errs :: dberrs

section \<open>Repository\<close>

text \<open>The new row must refer to a shared note, a user and, if it has a parent, a comment of the table.\<close>

definition comment_Create :: "CommentEnv \<Rightarrow> string \<Rightarrow> uuid \<Rightarrow> CreateCommentRequest \<Rightarrow> comment_db \<Rightarrow> Comment option \<times> comment_db" where
  "comment_Create e sharedNoteID userID req db =
     (case (if cc_ParentID req = '''' then Some None else map_option Some (ce_parse e (cc_ParentID req))) of
        None \<Rightarrow> (None, db)
      | Some parentID \<Rightarrow>
          if ce_errs e 0 \<noteq> None
             \<or> find_row (\<lambda>r. sn_ID r = sharedNoteID) (shared_notes (cd_share db)) = None
             \<or> userID \<notin> set (share_users (cd_share db))
             \<or> (case parentID of None \<Rightarrow> False | Some p \<Rightarrow> find_row (\<lambda>c. cm_ID c = p) (cd_comments db) = None)
             \<or> find_row (\<lambda>c. cm_ID c = ce_newID e) (cd_comments db) \<noteq> None
          then (None, db)
          else let c = \<lparr>cm_ID = ce_newID e, cm_SharedNoteID = sharedNoteID, cm_UserID = userID,
                        cm_EncryptedContent = cc_EncryptedContent req, cm_ParentID = parentID, cm_CreatedAt = ce_now e,
                        cm_UpdatedAt = ce_now e, cm_DeletedAt = None\<rparr>
               in (Some c, db\<lparr>cd_comments := cd_comments db @ [c]\<rparr>))"

definition comment_live :: "string \<Rightarrow> Comment \<Rightarrow> bool" where
  "comment_live sharedNoteID c \<longleftrightarrow> cm_SharedNoteID c = sharedNoteID \<and> cm_DeletedAt c = None"

definition ListBySharedNote :: "string option \<Rightarrow> string \<Rightarrow> int \<Rightarrow> int \<Rightarrow> comment_db \<Rightarrow> Comment list option" where
  "ListBySharedNote err sharedNoteID limit offset db =
     (if err \<noteq> None \<or> limit < 0 \<or> offset < 0 then None
      else Some (take (nat limit) (drop (nat offset) (order_by cm_CreatedAt (filter (comment_live sharedNoteID) (cd_comments db))))))"

definition CountBySharedNote :: "string option \<Rightarrow> string \<Rightarrow> comment_db \<Rightarrow> nat option" where
  "CountBySharedNote err sharedNoteID db =
     (if err \<noteq> None then None else Some (count_rows (comment_live sharedNoteID) (cd_comments db)))"

text \<open>The number of rows affected, \<open>None\<close> for an error.\<close>

definition comment_repo_Delete :: "string option \<Rightarrow> time \<Rightarrow> uuid \<Rightarrow> uuid \<Rightarrow> comment_db \<Rightarrow> nat option \<times> comment_db" where
  "comment_repo_Delete err now commentID userID db =
     (let P = (\<lambda>c. cm_ID c = commentID \<and> cm_UserID c = userID \<and> cm_DeletedAt c = None)
      in if err \<noteq> None then (None, db)
         else (Some (count_rows P (cd_comments db)),
               db\<lparr>cd_comments := update_rows P (\<lambda>c. c\<lparr>cm_DeletedAt := Some now, cm_UpdatedAt := now\<rparr>) (cd_comments db)\<rparr>))"

section \<open>Service\<close>

record commentService =
  cv_pushSvc :: bool
  cv_shareRepo :: bool

definition notifyNoteOwner :: "commentService \<Rightarrow> CommentEnv \<Rightarrow> string \<Rightarrow> uuid \<Rightarrow> string \<Rightarrow> comment_db \<Rightarrow> push_call list" where
  "notifyNoteOwner svc e sharedNoteID commenterID commentID db =
     (if \<not> cv_pushSvc svc \<or> \<not> cv_shareRepo svc then []
      else case share_repo_GetByID (ce_errs e 1) sharedNoteID (cd_share db) of
        Inl _ \<Rightarrow> []
      | Inr note' \<Rightarrow>
          (let ownerID = sn_CreatedBy note' in
           if commenterID = ownerID then []
           else [(ce_show e ownerID, \<lparr>ph_Title = ''New Comment'', ph_Body = ''Someone commented on your shared note'',
                   ph_Data = [(''type'', PStr ''new_comment''), (''shared_note_id'', PStr sharedNoteID), (''comment_id'', PStr commentID)],
                   ph_Priority = ''normal''\<rparr>)]))"

definition svc_CreateComment :: "commentService \<Rightarrow> CommentEnv \<Rightarrow> string \<Rightarrow> uuid \<Rightarrow> CreateCommentRequest \<Rightarrow> comment_db
    \<Rightarrow> Comment option \<times> push_call list \<times> comment_db" where
  "svc_CreateComment svc e sharedNoteID userID req db =
     (case comment_Create e sharedNoteID userID req db of
        (None, db') \<Rightarrow> (None, [], db')
      | (Some c, db') \<Rightarrow> (Some c, notifyNoteOwner svc e sharedNoteID userID (ce_show e (cm_ID c)) db', db'))"

definition svc_ListComments :: "CommentEnv \<Rightarrow> string \<Rightarrow> int \<Rightarrow> int \<Rightarrow> comment_db \<Rightarrow> (Comment list \<times> nat) option" where
  "svc_ListComments e sharedNoteID limit offset db =
     (case ListBySharedNote (ce_errs e 0) sharedNoteID limit offset db of
        None \<Rightarrow> None
      | Some comments \<Rightarrow>
          (case CountBySharedNote (ce_errs e 1) sharedNoteID db of
             None \<Rightarrow> None
           | Some cnt \<Rightarrow> Some (comments, cnt)))"

definition svc_DeleteComment :: "CommentEnv \<Rightarrow> uuid \<Rightarrow> uuid \<Rightarrow> comment_db \<Rightarrow> service_error option \<times> comment_db" where
  "svc_DeleteComment e commentID userID db =
     (case comment_repo_Delete (ce_errs e 0) (ce_now e) commentID userID db of
        (None, db') \<Rightarrow> (Some (OtherError ''delete comment''), db')
      | (Some rowsAffected, db') \<Rightarrow> (if rowsAffected = 0 then Some ErrNotCommentAuthor else None, db'))"

section \<open>Handlers\<close>

definition handle_CreateComment :: "commentService \<Rightarrow> CommentEnv \<Rightarrow> uuid option \<Rightarrow> string \<Rightarrow> CreateCommentRequest option \<Rightarrow> comment_db
    \<Rightarrow> Comment response \<times> push_call list \<times> comment_db" where
  "handle_CreateComment svc e user sharedNoteID body db =
     (case user of
        None \<Rightarrow> (HttpError 401 ''unauthorized'' '''', [], db)
      | Some userID \<Rightarrow>
          if sharedNoteID = '''' then (HttpError 400 ''missing_id'' ''Shared note ID is required'', [], db)
          else case body of
            None \<Rightarrow> (HttpError 400 ''invalid_request'' ''Failed to parse request body'', [], db)
          | Some req \<Rightarrow>
              if cc_EncryptedContent req = '''' then (HttpError 400 ''validation_error'' ''encrypted_content is required'', [], db)
              else if length (cc_EncryptedContent req) > 1048576
              then (HttpError 400 ''validation_error'' ''encrypted_content must be at most 1 MB'', [], db)
              else if cc_ParentID req \<noteq> '''' \<and> ce_parse e (cc_ParentID req) = None
              then (HttpError 400 ''validation_error'' ''parent_id must be a valid UUID'', [], db)
              else (case svc_CreateComment svc e sharedNoteID userID req db of
                      (None, pushes, db') \<Rightarrow> (HttpError 500 ''create_error'' ''Failed to create comment'', pushes, db')
                    | (Some c, pushes, db') \<Rightarrow> (JSON 201 c, pushes, db')))"

definition handle_ListComments :: "CommentEnv \<Rightarrow> string \<Rightarrow> string \<Rightarrow> string \<Rightarrow> comment_db \<Rightarrow> (Comment list \<times> nat) response" where
  "handle_ListComments e sharedNoteID qlimit qoffset db =
     (if sharedNoteID = '''' then HttpError 400 ''missing_id'' ''Shared note ID is required''
      else let l1 = query_at_least 1 50 qlimit;
               limit = (if l1 > 100 then 100 else l1);
               offset = query_at_least 0 0 qoffset
           in case svc_ListComments e sharedNoteID limit offset db of
                None \<Rightarrow> HttpError 500 ''internal_error'' ''Failed to list comments''
              | Some resp \<Rightarrow> JSON 200 resp)"

definition handle_DeleteComment :: "CommentEnv \<Rightarrow> uuid option \<Rightarrow> string \<Rightarrow> comment_db \<Rightarrow> unit response \<times> comment_db" where
  "handle_DeleteComment e user commentIDStr db =
     (case user of
        None \<Rightarrow> (HttpError 401 ''unauthorized'' '''', db)
      | Some userID \<Rightarrow>
          if commentIDStr = '''' then (HttpError 400 ''missing_id'' ''Comment ID is required'', db)
          else case ce_parse e commentIDStr of
            None \<Rightarrow> (HttpError 400 ''invalid_id'' ''Invalid comment ID format'', db)
          | Some commentID \<Rightarrow>
              (case svc_DeleteComment e commentID userID db of
                 (Some err, db') \<Rightarrow> (sentinel_or_500 ''delete_error'' ''Failed to delete comment'' err, db')
               | (None, db') \<Rightarrow> (JSON 204 (), db')))"

section \<open>The thread of a note\<close>

text \<open>What readers of a note see: its comments that are not deleted, oldest first.\<close>

definition comment_thread :: "string \<Rightarrow> comment_db \<Rightarrow> Comment list" where
  "comment_thread n db = order_by cm_CreatedAt (filter (comment_live n) (cd_comments db))"

definition comments_inv :: "comment_db \<Rightarrow> bool" where
  "comments_inv db \<longleftrightarrow> distinct (map cm_ID (cd_comments db))
     \<and> (\<forall>c \<in> set (cd_comments db). pred_option (\<lambda>p. \<exists>d \<in> set (cd_comments db). cm_ID d = p) (cm_ParentID c))"

lemma comments_inv_iff:
  "comments_inv db \<longleftrightarrow> distinct (map cm_ID (cd_comments db))
     \<and> (\<forall>c \<in> set (cd_comments db). set_option (cm_ParentID c) \<subseteq> set (map cm_ID (cd_comments db)))"
  by (fastforce simp: comments_inv_def option.pred_set)

lemma comment_Create_cases:
  "comment_Create e n u req db = (None, db) \<or> (\<exists>c. comment_Create e n u req db = (Some c, db\<lparr>cd_comments := cd_comments db @ [c]\<rparr>)
     \<and> cm_SharedNoteID c = n \<and> cm_UserID c = u \<and> cm_DeletedAt c = None \<and> cm_CreatedAt c = ce_now e
     \<and> cm_EncryptedContent c = cc_EncryptedContent req
     \<and> (\<forall>d \<in> set (cd_comments db). cm_ID d \<noteq> cm_ID c)
     \<and> pred_option (\<lambda>p. \<exists>d \<in> set (cd_comments db). cm_ID d = p) (cm_ParentID c))"
  by (auto simp: comment_Create_def Let_def find_row_None_iff split: option.split) 

lemma page_concat:
  "0 < l \<Longrightarrow> length xs \<le> n * l \<Longrightarrow> concat (map (\<lambda>k. take l (drop (k * l) xs)) [0..<n]) = xs"
proof (induction n arbitrary: xs)
  case (Suc n)
  have "map (\<lambda>k. take l (drop (k * l) xs)) [0..<Suc n] = take l xs # map (\<lambda>k. take l (drop (k * l) (drop l xs))) [0..<n]"
    by (simp add: upt_conv_Cons map_Suc_upt [symmetric] comp_def add.commute del: upt_Suc)
  then show ?case using Suc.IH [of "drop l xs"] Suc.prems by simp
qed simp

lemma filter_update_rows_out:
  "(\<And>r. P r \<Longrightarrow> \<not> Q (f r)) \<Longrightarrow> filter Q (update_rows P f t) = filter (\<lambda>r. Q r \<and> \<not> P r) t"
  by (induction t) auto

lemma comment_created:
  assumes "comments_inv db" and "handle_CreateComment svc e (Some u) n (Some req) db = (JSON 201 c, pushes, db')"
  shows "comments_inv db' \<and> cm_UserID c = u \<and> cm_EncryptedContent c = cc_EncryptedContent req
    \<and> mset (comment_thread n db') = add_mset c (mset (comment_thread n db))
    \<and> (\<forall>m. m \<noteq> n \<longrightarrow> comment_thread m db' = comment_thread m db)"
proof -
  have "comment_Create e n u req db = (Some c, db')"
    using assms(2) by (auto simp: handle_CreateComment_def svc_CreateComment_def split: if_split_asm option.split_asm prod.split_asm)
  then have c: "db' = db\<lparr>cd_comments := cd_comments db @ [c]\<rparr>" "cm_SharedNoteID c = n" "cm_UserID c = u" "cm_DeletedAt c = None"
    "cm_EncryptedContent c = cc_EncryptedContent req" "\<forall>d \<in> set (cd_comments db). cm_ID d \<noteq> cm_ID c"
    "pred_option (\<lambda>p. \<exists>d \<in> set (cd_comments db). cm_ID d = p) (cm_ParentID c)"
    using comment_Create_cases [of e n u req db] by auto
  have "comments_inv db'"
    using assms(1) c(6,7) unfolding comments_inv_def c(1) by (auto simp: option.pred_set image_iff)
  then show ?thesis using c by (auto simp: comment_thread_def comment_live_def order_by_def)
qed

lemma comment_deleted:
  assumes "comments_inv db" and "ce_errs e 0 = None" and "cid \<noteq> ''''" and "ce_parse e cid = Some i"
    and "handle_DeleteComment e (Some u) cid db = (r, db')"
  shows "comments_inv db' \<and> (if \<exists>c \<in> set (cd_comments db). cm_ID c = i \<and> cm_UserID c = u \<and> cm_DeletedAt c = None
      then r = JSON 204 () \<and> (\<forall>m. comment_thread m db' = filter (\<lambda>c. cm_ID c \<noteq> i) (comment_thread m db))
      else r = HttpError 403 ''forbidden'' ''Only the comment author can delete it'' \<and> db' = db)"
proof -
  let ?P = "\<lambda>c. cm_ID c = i \<and> cm_UserID c = u \<and> cm_DeletedAt c = None"
    and ?f = "\<lambda>c. c\<lparr>cm_DeletedAt := Some (ce_now e), cm_UpdatedAt := ce_now e\<rparr>"
  have db': "cd_comments db' = update_rows ?P ?f (cd_comments db)" "cd_share db' = cd_share db"
    and r: "r = (if count_rows ?P (cd_comments db) = 0 then HttpError 403 ''forbidden'' ''Only the comment author can delete it'' else JSON 204 ())"
    using assms(2-5)
    by (auto simp: handle_DeleteComment_def svc_DeleteComment_def comment_repo_Delete_def sentinel_or_500_def Let_def
      split: option.split_asm if_split_asm)
  have ids: "map cm_ID (cd_comments db') = map cm_ID (cd_comments db)" unfolding db' by (rule map_update_rows) simp
  have inv: "comments_inv db'"
    unfolding comments_inv_iff ids
    using assms(1) by (force simp: comments_inv_iff db' set_update_rows split: if_split_asm)
  show ?thesis
  proof (cases "\<exists>c \<in> set (cd_comments db). ?P c")
    case True
    then obtain c where c: "c \<in> set (cd_comments db)" "?P c" by blast
    have dist: "distinct (map cm_ID (cd_comments db))" using assms(1) by (simp add: comments_inv_def)
    have "filter (comment_live m) (cd_comments db') = filter (\<lambda>d. cm_ID d \<noteq> i) (filter (comment_live m) (cd_comments db))" for m
    proof -
      have "filter (comment_live m) (cd_comments db') = filter (\<lambda>d. comment_live m d \<and> \<not> ?P d) (cd_comments db)"
        unfolding db' by (rule filter_update_rows_out) (simp add: comment_live_def)
      also have "\<dots> = filter (\<lambda>d. comment_live m d \<and> cm_ID d \<noteq> i) (cd_comments db)"
        using unique_row [OF dist _ c(1)] c(2) by (intro filter_cong) (auto simp: comment_live_def)
      finally show ?thesis by (simp add: conj_commute)
    qed
    then have "comment_thread m db' = filter (\<lambda>d. cm_ID d \<noteq> i) (comment_thread m db)" for m
      by (simp add: comment_thread_def order_by_def filter_sort)
    moreover have "r = JSON 204 ()" using True r by (auto simp: count_rows_zero_iff)
    ultimately show ?thesis using True inv by simp
  next
    case False
    then have "cd_comments db' = cd_comments db" unfolding db' by (intro update_rows_none) blast
    then have "db' = db" using db'(2) by simp
    moreover have "r = HttpError 403 ''forbidden'' ''Only the comment author can delete it''"
      using False r by (auto simp: count_rows_zero_iff)
    ultimately show ?thesis using False inv by auto
  qed
qed

lemma comment_pages:
  assumes "0 < l"
  shows "ListBySharedNote None n (int l) (int (k * l)) db = Some (take l (drop (k * l) (comment_thread n db)))"
    and "CountBySharedNote None n db = Some (length (comment_thread n db))"
  by (simp_all add: ListBySharedNote_def CountBySharedNote_def comment_thread_def order_by_def count_rows_def nat_mult_distrib not_less)

text \<open>C26: the thread of a note. A comment that is accepted appears in the thread of its note, once, under its
  author, and in no other thread. Deleting takes exactly the comment out of the thread when the caller wrote
  it and it is still there, and otherwise answers 403 and changes nothing. The pages of any size, read one
  after the other, are the whole thread, and the total reported with each is its length.\<close>

theorem comments_thread:
  assumes "comments_inv db"
  shows "(\<forall>c pushes db'. handle_CreateComment svc e (Some u) n (Some req) db = (JSON 201 c, pushes, db') \<longrightarrow>
      comments_inv db' \<and> cm_UserID c = u \<and> mset (comment_thread n db') = add_mset c (mset (comment_thread n db))
      \<and> (\<forall>m. m \<noteq> n \<longrightarrow> comment_thread m db' = comment_thread m db))
    \<and> (\<forall>r db' i. handle_DeleteComment e (Some u) cid db = (r, db') \<and> ce_errs e 0 = None \<and> cid \<noteq> '''' \<and> ce_parse e cid = Some i \<longrightarrow>
      comments_inv db' \<and> (if \<exists>c \<in> set (cd_comments db). cm_ID c = i \<and> cm_UserID c = u \<and> cm_DeletedAt c = None
        then r = JSON 204 () \<and> (\<forall>m. comment_thread m db' = filter (\<lambda>c. cm_ID c \<noteq> i) (comment_thread m db))
        else r = HttpError 403 ''forbidden'' ''Only the comment author can delete it'' \<and> db' = db))
    \<and> (\<forall>l k. 0 < l \<and> length (comment_thread n db) \<le> k * l \<longrightarrow>
      concat (map (\<lambda>j. fst (the (svc_ListComments (e\<lparr>ce_errs := no_errs\<rparr>) n (int l) (int (j * l)) db))) [0..<k]) = comment_thread n db
      \<and> (\<forall>j. snd (the (svc_ListComments (e\<lparr>ce_errs := no_errs\<rparr>) n (int l) (int (j * l)) db)) = length (comment_thread n db)))"
proof (intro conjI allI impI)
  fix l k :: nat assume l: "0 < l \<and> length (comment_thread n db) \<le> k * l"
  then have page: "svc_ListComments (e\<lparr>ce_errs := no_errs\<rparr>) n (int l) (int (j * l)) db
      = Some (take l (drop (j * l) (comment_thread n db)), length (comment_thread n db))" for j
    using comment_pages(1) [of l n j db] comment_pages(2) [of l n db] by (simp add: svc_ListComments_def)
  show "concat (map (\<lambda>j. fst (the (svc_ListComments (e\<lparr>ce_errs := no_errs\<rparr>) n (int l) (int (j * l)) db))) [0..<k]) = comment_thread n db"
    unfolding page option.sel fst_conv using page_concat l by blast
  show "snd (the (svc_ListComments (e\<lparr>ce_errs := no_errs\<rparr>) n (int l) (int (j * l)) db)) = length (comment_thread n db)" for j
    unfolding page by simp
qed (use comment_created [OF assms] comment_deleted [OF assms] in blast)+

definition demo_comment :: "uuid \<Rightarrow> Comment" where
  "demo_comment i = \<lparr>cm_ID = i, cm_SharedNoteID = ''n'', cm_UserID = 1, cm_EncryptedContent = ''x'', cm_ParentID = None,
     cm_CreatedAt = 0, cm_UpdatedAt = 0, cm_DeletedAt = None\<rparr>"

definition demo_comment_db :: comment_db where
  "demo_comment_db = \<lparr>cd_share = \<lparr>shared_notes = [], note_reactions = [], share_users = [1]\<rparr>,
     cd_comments = [demo_comment 3, demo_comment 4]\<rparr>"

definition demo_comment_env :: CommentEnv where
  "demo_comment_env = \<lparr>ce_parse = (\<lambda>s. Some (length s)), ce_show = (\<lambda>u. ''u''), ce_now = 5, ce_newID = 9, ce_errs = no_errs\<rparr>"

theorem comments_thread_witness:
  "\<exists>db'. handle_DeleteComment demo_comment_env (Some 1) ''abc'' demo_comment_db = (JSON 204 (), db')
     \<and> comment_thread ''n'' db' = [demo_comment 4]"
proof -
  have inv: "comments_inv demo_comment_db" by (simp add: comments_inv_def demo_comment_db_def demo_comment_def)
  obtain r db' where h: "handle_DeleteComment demo_comment_env (Some 1) ''abc'' demo_comment_db = (r, db')" by fastforce
  have mem: "\<exists>c \<in> set (cd_comments demo_comment_db). cm_ID c = 3 \<and> cm_UserID c = 1 \<and> cm_DeletedAt c = None"
    by (simp add: demo_comment_db_def demo_comment_def)
  have env: "ce_errs demo_comment_env 0 = None" "ce_parse demo_comment_env ''abc'' = Some 3"
    by (simp_all add: demo_comment_env_def)
  have thread: "filter (\<lambda>c. cm_ID c \<noteq> 3) (comment_thread ''n'' demo_comment_db) = [demo_comment 4]"
    by (simp add: comment_thread_def order_by_def comment_live_def demo_comment_db_def demo_comment_def)
  show ?thesis
    using comments_thread [OF inv, THEN conjunct2, THEN conjunct1, rule_format, OF conjI [OF h conjI [OF env(1) conjI [OF _ env(2)]]]]
      mem thread h
    by auto
qed

end
