(* ===== verification/Json.thy ===== *)
theory Json
  imports Go_Strings
begin

text \<open>
  JSON values and the part of \<^verbatim>\<open>encoding/json\<close> that decodes them into Go values: members of an object are
  matched with the fields of a struct without regard to case, later members override earlier ones, a
  value of the wrong type leaves the field as it is, and an object in a map keeps the last of equal names.
  The parser from text to values is an argument of the definitions that use it.
\<close>

datatype json = JNull | JBool bool | JNumber string | JString string | JArray "json list" | JObject "(string \<times> json) list"

text \<open>Names are compared after folding: letters to lower case, and the two characters outside ASCII that
  fold to a letter, the long s and the Kelvin sign, in UTF-8.\<close>

definition lower_char :: "char \<Rightarrow> char" where
  "lower_char c = (if 65 \<le> (of_char c :: nat) \<and> (of_char c :: nat) \<le> 90 then char_of ((of_char c :: nat) + 32) else c)"

fun fold_name :: "string \<Rightarrow> string" where
  "fold_name [] = []"
| "fold_name (a # s) =
     (if a = CHR 0xC5 \<and> take 1 s = [CHR 0xBF] then CHR ''s'' # fold_name (drop 1 s)
      else if a = CHR 0xE2 \<and> take 2 s = [CHR 0x84, CHR 0xAA] then CHR ''k'' # fold_name (drop 2 s)
      else lower_char a # fold_name s)"

definition struct_field :: "string \<Rightarrow> (string \<times> json) list \<Rightarrow> json list" where
  "struct_field name m = map snd (filter (\<lambda>(k, _). fold_name k = fold_name name) m)"

definition decode_string :: "json \<Rightarrow> string \<Rightarrow> string" where
  "decode_string v old = (case v of JString s \<Rightarrow> s | _ \<Rightarrow> old)"

definition string_field :: "string \<Rightarrow> (string \<times> json) list \<Rightarrow> string \<Rightarrow> string" where
  "string_field name m old = fold decode_string (struct_field name m) old"

text \<open>A struct \<open>outer\<close> whose only field of interest is the string \<open>inner\<close> of a nested struct.\<close>

definition nested_string :: "string \<Rightarrow> string \<Rightarrow> json \<Rightarrow> string" where
  "nested_string outer inner v =
     (case v of
        JObject m \<Rightarrow> fold (\<lambda>w acc. case w of JObject m' \<Rightarrow> string_field inner m' acc | _ \<Rightarrow> acc) (struct_field outer m) ''''
      | _ \<Rightarrow> '''')"

definition map_value :: "string \<Rightarrow> (string \<times> json) list \<Rightarrow> json option" where
  "map_value name m = map_of (rev m) name"

text \<open>Decoding into a map fails for anything but an object and null; null gives the empty map.\<close>

definition decode_map :: "json option \<Rightarrow> (string \<times> json) list option" where
  "decode_map v = (case v of Some (JObject m) \<Rightarrow> Some m | Some JNull \<Rightarrow> Some [] | _ \<Rightarrow> None)"

lemma struct_field_none [simp]:
  "\<forall>(k, _) \<in> set m. fold_name k \<noteq> fold_name name \<Longrightarrow> struct_field name m = []"
  by (auto simp: struct_field_def filter_empty_conv)

lemma nested_string_none:
  "(\<And>m. v = JObject m \<Longrightarrow> struct_field outer m = []) \<Longrightarrow> nested_string outer inner v = ''''"
  by (cases v) (simp_all add: nested_string_def)

end
