(* ===== verification/Anthropic.thy ===== *)
theory Anthropic
  imports LLM_Provider Json
begin

text \<open>
  The provider for the Anthropic Messages API of \<^verbatim>\<open>internal/llm/anthropic_provider.go\<close>: its translation of
  messages, the retry loop of \<open>Chat\<close> and the stream reader of \<open>ChatStream\<close>. As in \<open>LLM_Provider\<close>, network,
  request building and the parsing of JSON and dates are arguments.
\<close>

section \<open>Requests\<close>

text \<open>A message of the request has the fields of a \<open>ChatMessage\<close>.\<close>

record anthropicRequest =
  ar_Model :: string
  ar_MaxTokens :: int
  ar_System :: string
  ar_Messages :: "ChatMessage list"
  ar_Stream :: bool

record anthropicResponse =
  ap_Model :: string
  ap_Content :: "string list"
  ap_InputTokens :: int
  ap_OutputTokens :: int

record AnthropicEnv =
  ae_lookup :: "string \<Rightarrow> ip list option"
  ae_marshal :: "anthropicRequest \<Rightarrow> string + string"
  ae_newRequest :: "string \<Rightarrow> string option"
  ae_send :: "nat \<Rightarrow> http_outcome"
  ae_done :: "nat \<Rightarrow> string option"
  ae_parseChat :: "string \<Rightarrow> string + anthropicResponse"
  ae_parseTime :: "string \<Rightarrow> bool"
  ae_json :: "string \<Rightarrow> json option"

fun join_lines :: "string list \<Rightarrow> string" where
  "join_lines [] = ''''"
| "join_lines [s] = s"
| "join_lines (s # ss) = s @ [CHR 0x0A] @ join_lines ss"

fun split_messages :: "ChatMessage list \<Rightarrow> string list \<times> ChatMessage list" where
  "split_messages [] = ([], [])"
| "split_messages (m # ms) =
     (let (systemParts, messages) = split_messages ms in
      if Role m = ''system'' then (Content m # systemParts, messages)
      else if Role m = ''user'' \<or> Role m = ''assistant'' then (systemParts, m # messages)
      else (systemParts, messages))"

definition toAnthropicMessages :: "ChatMessage list \<Rightarrow> string \<times> ChatMessage list" where
  "toAnthropicMessages msgs = (let (systemParts, messages) = split_messages msgs in (join_lines systemParts, messages))"

definition anthropic_request :: "bool \<Rightarrow> ChatRequest \<Rightarrow> anthropicRequest" where
  "anthropic_request stream req =
     (let (system, messages) = toAnthropicMessages (Messages req);
          maxTokens = (case MaxTokens req of Some n \<Rightarrow> if n > 0 then n else 4096 | None \<Rightarrow> 4096)
      in \<lparr>ar_Model = Model req, ar_MaxTokens = maxTokens, ar_System = system, ar_Messages = messages, ar_Stream = stream\<rparr>)"

definition messages_url :: "string \<Rightarrow> string" where
  "messages_url baseURL = trim_right_char (CHR ''/'') baseURL @ ''/v1/messages''"

section \<open>Chat\<close>

definition decode_anthropic :: "AnthropicEnv \<Rightarrow> string \<Rightarrow> chat_error + ChatResponse" where
  "decode_anthropic e body =
     (case ae_parseChat e body of
        Inl m \<Rightarrow> Inl (ParseResponse m)
      | Inr r \<Rightarrow> Inr \<lparr>resp_Content = (case ap_Content r of [] \<Rightarrow> '''' | c # _ \<Rightarrow> c), resp_Model = ap_Model r,
                    resp_Usage = \<lparr>PromptTokens = ap_InputTokens r, CompletionTokens = ap_OutputTokens r,
                                 TotalTokens = wrap64 (ap_InputTokens r + ap_OutputTokens r)\<rparr>\<rparr>)"

fun anthropic_loop :: "AnthropicEnv \<Rightarrow> string \<Rightarrow> nat \<Rightarrow> nat \<Rightarrow> duration \<Rightarrow> chat_error option
    \<Rightarrow> (chat_error + ChatResponse) \<times> nat \<times> duration list" where
  "anthropic_loop e url 0 attempt retryBaseDelay lastErr = (Inl (RetriesExhausted 3 lastErr), 0, [])"
| "anthropic_loop e url (Suc n) attempt retryBaseDelay lastErr =
     (let waits = (if attempt > 0 then [retryBackoff attempt retryBaseDelay] else []) in
      case (if attempt > 0 then ae_done e attempt else None) of
        Some err \<Rightarrow> (Inl (CtxEnded err), 0, waits)
      | None \<Rightarrow>
          (case ae_newRequest e url of
             Some m \<Rightarrow> (Inl (CreateRequest m), 0, waits)
           | None \<Rightarrow>
               (let (r, sent, ds) =
                  (case ae_send e attempt of
                     NetError m \<Rightarrow> anthropic_loop e url n (Suc attempt) retryBaseDelay (Some (SendRequest m))
                   | BodyError m \<Rightarrow> anthropic_loop e url n (Suc attempt) retryBaseDelay (Some (ReadBody m))
                   | HttpAnswer st body ra \<Rightarrow>
                       if st = 400 \<or> st = 401 \<or> st = 403 then (Inl (LLMStatus st), 0, [])
                       else if isRetriable st then
                         let after = parseRetryAfter (ae_parseTime e) ra in
                         anthropic_loop e url n (Suc attempt) (if st = 429 \<and> after > 0 then after else retryBaseDelay) (Some (LLMStatus st))
                       else if st \<noteq> 200 then (Inl (LLMStatus st), 0, [])
                       else (decode_anthropic e body, 0, []))
                in (r, Suc sent, waits @ ds))))"

definition anthropic_Chat :: "AnthropicEnv \<Rightarrow> string \<Rightarrow> string \<Rightarrow> ChatRequest
    \<Rightarrow> (chat_error + ChatResponse) \<times> nat \<times> duration list" where
  "anthropic_Chat e apiKey baseURL req =
     (case ValidateBaseURL (ae_lookup e) baseURL of
        Some err \<Rightarrow> (Inl (BadBaseURL err), 0, [])
      | None \<Rightarrow>
          (case ae_marshal e (anthropic_request False req) of
             Inl m \<Rightarrow> (Inl (MarshalRequest m), 0, [])
           | Inr body \<Rightarrow> anthropic_loop e (messages_url baseURL) 4 0 (1 * second) None))"

section \<open>Streaming\<close>

text \<open>The reader, with the lines of the scanner, the error with which it ends, and \<open>ended k\<close> as in
  \<open>read_stream\<close>. The text of an event of type \<^verbatim>\<open>content_block_delta\<close> is read from the member \<^verbatim>\<open>delta\<close> of the
  value of the member \<^verbatim>\<open>delta\<close>.\<close>

definition event_type :: "(string \<times> json) list \<Rightarrow> string" where
  "event_type evt = (case map_value ''type'' evt of Some raw \<Rightarrow> decode_string raw '''' | None \<Rightarrow> '''')"

definition delta_text :: "(string \<times> json) list \<Rightarrow> string" where
  "delta_text evt = (case map_value ''delta'' evt of Some raw \<Rightarrow> nested_string ''delta'' ''text'' raw | None \<Rightarrow> '''')"

fun anthropic_read :: "(string \<Rightarrow> json option) \<Rightarrow> (nat \<Rightarrow> bool) \<Rightarrow> nat \<Rightarrow> string list \<Rightarrow> string option \<Rightarrow> StreamChunk list" where
  "anthropic_read parse ended k [] err =
     (case err of None \<Rightarrow> []
      | Some m \<Rightarrow> if ended k then [] else [\<lparr>sc_Content = '''', sc_Done = False, sc_Error = m\<rparr>])"
| "anthropic_read parse ended k (line # ls) err =
     (if ended k then []
      else if \<not> has_prefix line ''data: '' then anthropic_read parse ended (Suc k) ls err
      else let data = TrimPrefix line ''data: '' in
      case decode_map (parse data) of
        None \<Rightarrow> anthropic_read parse ended (Suc k) ls err
      | Some evt \<Rightarrow>
          if event_type evt = ''content_block_delta'' then
            (if delta_text evt = '''' then [] else [\<lparr>sc_Content = delta_text evt, sc_Done = False, sc_Error = ''''\<rparr>])
            @ anthropic_read parse ended (Suc k) ls err
          else if event_type evt = ''message_stop'' then [\<lparr>sc_Content = '''', sc_Done = True, sc_Error = ''''\<rparr>]
          else if event_type evt = ''error'' then
            [\<lparr>sc_Content = '''', sc_Done = False, sc_Error = nested_string ''error'' ''message'' (JObject evt)\<rparr>]
          else anthropic_read parse ended (Suc k) ls err)"

definition anthropic_ChatStream :: "AnthropicEnv \<Rightarrow> StreamEnv \<Rightarrow> string \<Rightarrow> string \<Rightarrow> ChatRequest \<Rightarrow> chat_error + StreamChunk list" where
  "anthropic_ChatStream e se apiKey baseURL req =
     (case ValidateBaseURL (ae_lookup e) baseURL of
        Some err \<Rightarrow> Inl (BadBaseURL err)
      | None \<Rightarrow>
          (case ae_marshal e (anthropic_request True req) of
             Inl m \<Rightarrow> Inl (MarshalRequest m)
           | Inr body \<Rightarrow>
               (case ae_newRequest e (messages_url baseURL) of
                  Some m \<Rightarrow> Inl (CreateRequest m)
                | None \<Rightarrow>
                    (case se_send se body of
                       StreamNetError m \<Rightarrow> Inl (SendRequest m)
                     | StreamAnswer st bodyErr ls err \<Rightarrow>
                         if st \<noteq> 200 then (case bodyErr of Some m \<Rightarrow> Inl (ReadErrorBody m) | None \<Rightarrow> Inl (LLMStatus st))
                         else Inr (anthropic_read (ae_json e) (se_ended se) 0 ls err)))))"

definition AnthropicProvider :: "(chat_error \<Rightarrow> string) \<Rightarrow> AnthropicEnv \<Rightarrow> StreamEnv \<Rightarrow> Provider" where
  "AnthropicProvider show_err e se =
     \<lparr>prov_ChatStream = (\<lambda>k b r. map_sum show_err (\<lambda>x. x) (anthropic_ChatStream e se k b r)),
      prov_Chat = (\<lambda>k b r. map_sum show_err (\<lambda>x. x) (fst (anthropic_Chat e k b r)))\<rparr>"

section \<open>The translation of messages\<close>

lemma split_messages_eq:
  "split_messages ms = (map Content (filter (\<lambda>m. Role m = ''system'') ms), filter (\<lambda>m. Role m \<in> {''user'', ''assistant''}) ms)"
  by (induction ms) (auto simp: Let_def)

text \<open>No system prompt reaches the messages and only the two known roles do, in their order.\<close>

lemma toAnthropicMessages_roles:
  "toAnthropicMessages ms = (system, messages) \<Longrightarrow>
     messages = filter (\<lambda>m. Role m \<in> {''user'', ''assistant''}) ms
     \<and> system = join_lines (map Content (filter (\<lambda>m. Role m = ''system'') ms))"
  by (auto simp: toAnthropicMessages_def split_messages_eq)

section \<open>The retry loop is that of the compatible provider\<close>

text \<open>An environment in which the compatible provider behaves like this one.\<close>

definition as_compat :: "AnthropicEnv \<Rightarrow> string \<Rightarrow> ProviderEnv" where
  "as_compat e baseURL =
     \<lparr>pe_lookup = ae_lookup e, pe_marshal = (\<lambda>r. ae_marshal e (anthropic_request False r)),
      pe_newRequest = (\<lambda>_. ae_newRequest e (messages_url baseURL)), pe_send = ae_send e, pe_done = ae_done e,
      pe_parseChat = (\<lambda>b. map_sum (\<lambda>m. m)
        (\<lambda>r. \<lparr>oc_Model = ap_Model r, oc_Choices = [case ap_Content r of [] \<Rightarrow> '''' | c # _ \<Rightarrow> c],
             oc_Usage = \<lparr>PromptTokens = ap_InputTokens r, CompletionTokens = ap_OutputTokens r,
                        TotalTokens = wrap64 (ap_InputTokens r + ap_OutputTokens r)\<rparr>\<rparr>) (ae_parseChat e b)),
      pe_parseStream = (\<lambda>_. None), pe_parseTime = ae_parseTime e\<rparr>"

lemma as_compat_sel [simp]:
  "pe_lookup (as_compat e b) = ae_lookup e" "pe_send (as_compat e b) = ae_send e" "pe_done (as_compat e b) = ae_done e"
  "pe_newRequest (as_compat e b) u = ae_newRequest e (messages_url b)" "pe_parseTime (as_compat e b) = ae_parseTime e"
  "pe_marshal (as_compat e b) r = ae_marshal e (anthropic_request False r)"
  by (simp_all add: as_compat_def)

lemma decode_as_compat [simp]: "decode_chat (as_compat e b) body = decode_anthropic e body"
  by (cases "ae_parseChat e body") (simp_all add: decode_chat_def decode_anthropic_def as_compat_def)

lemma anthropic_loop_eq:
  "anthropic_loop e (messages_url b) n a base le = chat_loop (as_compat e b) u 3 n a base le"
proof (induction n arbitrary: a base le)
  case (Suc n)
  show ?case unfolding anthropic_loop.simps chat_loop.simps Suc.IH as_compat_sel decode_as_compat ..
qed simp

text \<open>C99: \<open>Chat\<close> behaves exactly as the \<open>Chat\<close> of the OpenAI-compatible provider with three retries and a base delay of
  one second, sending the translated request to \<^verbatim>\<open>/v1/messages\<close> and reading the first content block: same
  results and errors, same number of requests, same delays.\<close>

theorem anthropic_chat_like_compat:
  "anthropic_Chat e apiKey baseURL req
     = compat_Chat (as_compat e baseURL) apiKey baseURL (req\<lparr>MaxRetries := 3, RetryBaseDelay := 1 * second\<rparr>)"
proof -
  have "anthropic_request False (req\<lparr>MaxRetries := 3, RetryBaseDelay := 1 * second, Stream := False\<rparr>) = anthropic_request False req"
    by (simp add: anthropic_request_def)
  moreover have "nat (3 + 1) = (4::nat)" by simp
  ultimately show ?thesis
    unfolding anthropic_Chat_def compat_Chat_def Let_def as_compat_sel
    by (simp add: anthropic_loop_eq [of e baseURL _ _ _ _ "chat_url baseURL"] split: option.split sum.split)
qed

section \<open>The stream carries no text\<close>

text \<open>The events of the API: the member \<^verbatim>\<open>delta\<close> of an event has members such as \<^verbatim>\<open>type\<close> and \<^verbatim>\<open>text\<close>, but no
  member \<^verbatim>\<open>delta\<close> of its own.\<close>

definition api_event :: "(string \<times> json) list \<Rightarrow> bool" where
  "api_event evt = (case map_value ''delta'' evt of Some (JObject d) \<Rightarrow> (\<forall>(k, _) \<in> set d. fold_name k \<noteq> fold_name ''delta'') | _ \<Rightarrow> True)"

lemma api_event_silent: "api_event evt \<Longrightarrow> delta_text evt = ''''"
  by (auto simp: api_event_def delta_text_def split: option.splits intro!: nested_string_none)

lemma anthropic_read_silent:
  assumes "\<forall>line \<in> set ls. \<forall>evt. decode_map (parse (TrimPrefix line ''data: '')) = Some evt \<longrightarrow> api_event evt"
  shows "\<forall>c \<in> set (anthropic_read parse ended k ls err). sc_Content c = ''''"
  using assms
proof (induction ls arbitrary: k)
  case (Cons line ls)
  have IH: "\<forall>c \<in> set (anthropic_read parse ended (Suc k) ls err). sc_Content c = ''''" using Cons by simp
  show ?case
  proof (cases "decode_map (parse (TrimPrefix line ''data: ''))")
    case (Some evt)
    then have "delta_text evt = ''''" using Cons.prems api_event_silent by simp
    then show ?thesis using IH Some by (auto simp: Let_def)
  qed (use IH in \<open>auto simp: Let_def\<close>)
qed (auto split: option.split)

text \<open>C30: the reader of the stream decodes the value of \<^verbatim>\<open>delta\<close> as if it were the whole event and so looks for the text
  one level too deep. Whatever the model answers, no chunk of a stream of the API carries any of its text.\<close>

theorem anthropic_stream_silent:
  assumes "se_send se body = StreamAnswer 200 bodyErr ls err"
    and "ae_marshal e (anthropic_request True req) = Inr body"
    and "\<forall>line \<in> set ls. \<forall>evt. decode_map (ae_json e (TrimPrefix line ''data: '')) = Some evt \<longrightarrow> api_event evt"
    and "anthropic_ChatStream e se apiKey baseURL req = Inr chunks"
  shows "\<forall>c \<in> set chunks. sc_Content c = ''''"
  using anthropic_read_silent [OF assms(3), of "se_ended se" 0 err] assms(1,2,4)
  by (auto simp: anthropic_ChatStream_def split: option.split_asm)

text \<open>A stream with the text ``Hi'' and its end, and the JSON values of its two events.\<close>

definition demo_anthropic_json :: "string \<Rightarrow> json option" where
  "demo_anthropic_json s =
     (if s = ''d'' then Some (JObject [(''type'', JString ''content_block_delta''), (''index'', JNumber ''0''),
        (''delta'', JObject [(''type'', JString ''text_delta''), (''text'', JString ''Hi'')])])
      else if s = ''s'' then Some (JObject [(''type'', JString ''message_stop'')]) else None)"

definition demo_anthropic_env :: AnthropicEnv where
  "demo_anthropic_env =
     \<lparr>ae_lookup = (\<lambda>_. Some [[8, 8, 8, 8]]), ae_marshal = (\<lambda>_. Inr ''{}''), ae_newRequest = (\<lambda>_. None),
      ae_send = (\<lambda>_. NetError ''''), ae_done = (\<lambda>_. None), ae_parseChat = (\<lambda>_. Inl ''''), ae_parseTime = (\<lambda>_. False),
      ae_json = demo_anthropic_json\<rparr>"

definition demo_anthropic_stream :: StreamEnv where
  "demo_anthropic_stream = \<lparr>se_send = (\<lambda>_. StreamAnswer 200 None [''data: d'', ''data: s''] None), se_ended = (\<lambda>_. False)\<rparr>"

theorem anthropic_stream_silent_witness:
  "\<exists>chunks. anthropic_ChatStream demo_anthropic_env demo_anthropic_stream ''k'' ''https://api.x'' demo_chat_request = Inr chunks
     \<and> length chunks = 1 \<and> (\<forall>c \<in> set chunks. sc_Content c = '''')"
proof -
  have send: "se_send demo_anthropic_stream ''{}'' = StreamAnswer 200 None [''data: d'', ''data: s''] None"
    "ae_marshal demo_anthropic_env (anthropic_request True demo_chat_request) = Inr ''{}''"
    by (simp_all add: demo_anthropic_stream_def demo_anthropic_env_def)
  have "decode_map (ae_json demo_anthropic_env (TrimPrefix ''data: d'' ''data: '')) = Some [(''type'', JString ''content_block_delta''),
      (''index'', JNumber ''0''), (''delta'', JObject [(''type'', JString ''text_delta''), (''text'', JString ''Hi'')])]"
    "decode_map (ae_json demo_anthropic_env (TrimPrefix ''data: s'' ''data: '')) = Some [(''type'', JString ''message_stop'')]"
    by code_simp+
  moreover have "api_event [(''type'', JString ''content_block_delta''), (''index'', JNumber ''0''),
      (''delta'', JObject [(''type'', JString ''text_delta''), (''text'', JString ''Hi'')])]"
    "api_event [(''type'', JString ''message_stop'')]"
    by code_simp+
  ultimately have evs: "\<forall>line \<in> set [''data: d'', ''data: s'']. \<forall>evt.
      decode_map (ae_json demo_anthropic_env (TrimPrefix line ''data: '')) = Some evt \<longrightarrow> api_event evt"
    by simp
  have run: "anthropic_ChatStream demo_anthropic_env demo_anthropic_stream ''k'' ''https://api.x'' demo_chat_request
      = Inr [\<lparr>sc_Content = '''', sc_Done = True, sc_Error = ''''\<rparr>]"
    by code_simp
  show ?thesis using anthropic_stream_silent [OF send evs run] run by auto
qed

end
