(* ===== verification/Client_Address.thy ===== *)
theory Client_Address
  imports LLM_Config
begin

text \<open>
  The client address of a request: \<^verbatim>\<open>internal/handler/realip.go\<close>, with the functions of the packages \<^verbatim>\<open>net\<close> and
  \<^verbatim>\<open>net/netip\<close> it relies on. An address is its list of bytes, as in \<open>LLM_Config\<close>.
\<close>

unbundle bit_operations_syntax

section \<open>Addresses and networks\<close>

text \<open>A parsed address remembers whether it was written as IPv4 or as IPv6.\<close>

datatype addr = Addr4 ip | Addr6 ip

definition parse_octet :: "string \<Rightarrow> nat option" where
  "parse_octet s =
     (if s = '''' \<or> (length s > 1 \<and> hd s = CHR ''0'') then None
      else case digits_value 0 s of
             Some v \<Rightarrow> if v \<le> 255 then Some (nat v) else None
           | None \<Rightarrow> None)"

definition parseIPv4 :: "string \<Rightarrow> ip option" where
  "parseIPv4 s =
     (case split_char (CHR ''.'') s of
        [a, b, c, d] \<Rightarrow>
          (case (parse_octet a, parse_octet b, parse_octet c, parse_octet d) of
             (Some w, Some x, Some y, Some z) \<Rightarrow> Some [w, x, y, z]
           | _ \<Rightarrow> None)
      | _ \<Rightarrow> None)"

definition hex_number :: "string \<Rightarrow> nat" where
  "hex_number s = fold (\<lambda>c acc. acc * 16 + (case hex_value c of Some d \<Rightarrow> d | None \<Rightarrow> 0)) s 0"

text \<open>The groups of an IPv6 address from the rest of the text, with the bytes so far and the position of the
  ellipsis. The first argument is the number of groups that still fit.\<close>

fun ipv6_groups :: "nat \<Rightarrow> string \<Rightarrow> nat list \<Rightarrow> nat option \<Rightarrow> (nat list \<times> nat option \<times> string) option" where
  "ipv6_groups 0 s bs ellipsis = Some (bs, ellipsis, s)"
| "ipv6_groups (Suc n) s bs ellipsis =
     (let digits = takeWhile (\<lambda>c. hex_value c \<noteq> None) s; rest = drop (length digits) s in
      if digits = [] \<or> length digits > 4 then None
      else if take 1 rest = ''.'' then
        (if (ellipsis = None \<and> length bs \<noteq> 12) \<or> length bs + 4 > 16 then None
         else map_option (\<lambda>q. (bs @ q, ellipsis, [])) (parseIPv4 s))
      else
        (let v = hex_number digits; bs' = bs @ [v div 256, v mod 256] in
         if rest = [] then Some (bs', ellipsis, [])
         else if hd rest \<noteq> CHR '':'' \<or> length rest = 1 then None
         else if hd (tl rest) = CHR '':'' then
           (if ellipsis \<noteq> None then None
            else if tl (tl rest) = [] then Some (bs', Some (length bs'), [])
            else ipv6_groups n (tl (tl rest)) bs' (Some (length bs')))
         else ipv6_groups n (tl rest) bs' ellipsis))"

definition parseIPv6 :: "string \<Rightarrow> ip option" where
  "parseIPv6 s =
     (if CHR ''%'' \<in> set s then None
      else if s = ''::'' then Some (replicate 16 0)
      else case (if has_prefix s ''::'' then ipv6_groups 8 (drop 2 s) [] (Some 0) else ipv6_groups 8 s [] None) of
        None \<Rightarrow> None
      | Some (bs, ellipsis, rest) \<Rightarrow>
          if rest \<noteq> [] then None
          else if length bs < 16 then
            (case ellipsis of
               None \<Rightarrow> None
             | Some i \<Rightarrow> Some (take i bs @ replicate (16 - length bs) 0 @ drop i bs))
          else if ellipsis \<noteq> None then None
          else Some bs)"

text \<open>\<open>netip.ParseAddr\<close>, without the zones, which the callers here refuse.\<close>

definition ParseAddr :: "string \<Rightarrow> addr option" where
  "ParseAddr s =
     (case find (\<lambda>c. c = CHR ''.'' \<or> c = CHR '':'' \<or> c = CHR ''%'') s of
        Some c \<Rightarrow> if c = CHR ''.'' then map_option Addr4 (parseIPv4 s)
                  else if c = CHR '':'' then map_option Addr6 (parseIPv6 s)
                  else None
      | None \<Rightarrow> None)"

definition As16 :: "addr \<Rightarrow> ip" where
  "As16 a = (case a of Addr4 b \<Rightarrow> v4_mapped @ b | Addr6 b \<Rightarrow> b)"

definition ParseIP :: "string \<Rightarrow> ip option" where
  "ParseIP s = map_option As16 (ParseAddr s)"

text \<open>\<open>net.CIDRMask\<close> on bytes, and the network of a CIDR: its number and its mask.\<close>

fun cidr_mask :: "nat \<Rightarrow> nat \<Rightarrow> nat list" where
  "cidr_mask 0 n = []"
| "cidr_mask (Suc l) n = (if n \<ge> 8 then 255 # cidr_mask l (n - 8) else (256 - 2 ^ (8 - n)) # cidr_mask l 0)"

definition mask_bytes :: "nat list \<Rightarrow> nat list \<Rightarrow> nat list" where
  "mask_bytes m bs = map2 (AND) bs m"

definition parse_bits :: "string \<Rightarrow> nat option" where
  "parse_bits s =
     (if s = '''' then None
      else case digits_value 0 s of Some v \<Rightarrow> if v < 16777215 then Some (nat v) else None | None \<Rightarrow> None)"

record IPNet =
  net_IP :: ip
  net_Mask :: "nat list"

definition ParseCIDR :: "string \<Rightarrow> IPNet option" where
  "ParseCIDR s =
     (case str_IndexAny s {CHR ''/''} of
        None \<Rightarrow> None
      | Some i \<Rightarrow>
          (case (ParseAddr (take i s), parse_bits (drop (Suc i) s)) of
             (Some (Addr4 b), Some n) \<Rightarrow>
               if n \<le> 32 then Some \<lparr>net_IP = mask_bytes (cidr_mask 4 n) b, net_Mask = cidr_mask 4 n\<rparr> else None
           | (Some (Addr6 b), Some n) \<Rightarrow>
               if n \<le> 128 then Some \<lparr>net_IP = mask_bytes (cidr_mask 16 n) b, net_Mask = cidr_mask 16 n\<rparr> else None
           | _ \<Rightarrow> None))"

definition To4 :: "ip \<Rightarrow> ip option" where
  "To4 b = map_option (\<lambda>(w, x, y, z). [w, x, y, z]) (ip_To4 b)"

text \<open>\<open>IPNet.Contains\<close> for networks from \<open>ParseCIDR\<close>, whose number and mask have 4 or 16 bytes each.\<close>

definition IPNet_Contains :: "IPNet \<Rightarrow> ip \<Rightarrow> bool" where
  "IPNet_Contains n b =
     (let nn = (case To4 (net_IP n) of Some x \<Rightarrow> x | None \<Rightarrow> net_IP n);
          m = (if length (net_Mask n) = 16 \<and> length nn = 4 then drop 12 (net_Mask n) else net_Mask n);
          x = (case To4 b of Some x \<Rightarrow> x | None \<Rightarrow> b)
      in length x = length nn \<and> length m = length nn \<and> mask_bytes m nn = mask_bytes m x)"

definition SplitHostPort :: "string \<Rightarrow> (string \<times> string) option" where
  "SplitHostPort hp =
     (case str_LastIndexChar hp (CHR '':'') of
        None \<Rightarrow> None
      | Some i \<Rightarrow>
          let port = drop (Suc i) hp in
          if hd hp = CHR ''['' then
            (case str_IndexAny hp {CHR '']''} of
               None \<Rightarrow> None
             | Some end' \<Rightarrow>
                 if Suc end' \<noteq> i \<or> CHR ''['' \<in> set (drop 1 hp) \<or> CHR '']'' \<in> set (drop (Suc end') hp) then None
                 else Some (drop 1 (take end' hp), port))
          else if CHR '':'' \<in> set (take i hp) \<or> CHR ''['' \<in> set hp \<or> CHR '']'' \<in> set hp then None
          else Some (take i hp, port))"

section \<open>The middleware\<close>

text \<open>What the middleware sees of a request: the address of the peer and the first value of each header.\<close>

record http_request =
  hq_RemoteAddr :: string
  hq_Header :: "string \<Rightarrow> string"

fun parseTrustedProxies :: "string list \<Rightarrow> IPNet list option" where
  "parseTrustedProxies [] = Some []"
| "parseTrustedProxies (e0 # es) =
     (let e = TrimSpace e0 in
      if e = '''' then parseTrustedProxies es
      else case (if CHR ''/'' \<in> set e then Some e
                 else case ParseIP e of
                   None \<Rightarrow> None
                 | Some b \<Rightarrow> Some (e @ (if To4 b \<noteq> None then ''/32'' else ''/128''))) of
        None \<Rightarrow> None
      | Some e' \<Rightarrow>
          (case ParseCIDR e' of
             None \<Rightarrow> None
           | Some ipNet \<Rightarrow> map_option (\<lambda>nets. ipNet # nets) (parseTrustedProxies es)))"

definition peerIP :: "string \<Rightarrow> ip option" where
  "peerIP remoteAddr = ParseIP (case SplitHostPort remoteAddr of Some (h, p) \<Rightarrow> h | None \<Rightarrow> remoteAddr)"

definition peerTrusted :: "string \<Rightarrow> IPNet list \<Rightarrow> bool" where
  "peerTrusted remoteAddr nets =
     (case peerIP remoteAddr of None \<Rightarrow> False | Some b \<Rightarrow> list_ex (\<lambda>n. IPNet_Contains n b) nets)"

definition forwardedClientIP :: "http_request \<Rightarrow> string" where
  "forwardedClientIP r =
     (let usable = (\<lambda>s. s \<noteq> '''' \<and> ParseIP s \<noteq> None) in
      case find usable [TrimSpace (hq_Header r ''True-Client-IP''), TrimSpace (hq_Header r ''X-Real-IP'')] of
        Some s \<Rightarrow> s
      | None \<Rightarrow>
          (let xff = TrimSpace (hq_Header r ''X-Forwarded-For'');
               s = TrimSpace (case str_IndexAny xff {CHR '',''} of Some i \<Rightarrow> take i xff | None \<Rightarrow> xff)
           in if xff = '''' then '''' else if ParseIP s \<noteq> None then s else ''''))"

text \<open>The request the next handler sees; \<open>None\<close> when the list of proxies does not parse.\<close>

definition TrustedRealIP :: "string list \<Rightarrow> (http_request \<Rightarrow> http_request) option" where
  "TrustedRealIP trustedProxies =
     map_option (\<lambda>nets r.
       if nets \<noteq> [] \<and> peerTrusted (hq_RemoteAddr r) nets \<and> forwardedClientIP r \<noteq> ''''
       then r\<lparr>hq_RemoteAddr := forwardedClientIP r\<rparr> else r) (parseTrustedProxies trustedProxies)"

section \<open>Networks as prefixes\<close>

fun be_value :: "nat list \<Rightarrow> nat" where
  "be_value [] = 0"
| "be_value (b # bs) = b * 256 ^ length bs + be_value bs"

lemma be_value_lt: "\<forall>b \<in> set bs. b < 256 \<Longrightarrow> be_value bs < 256 ^ length bs"
proof (induction bs)
  case (Cons b bs)
  have "b * 256 ^ length bs + be_value bs < b * 256 ^ length bs + 256 ^ length bs" using Cons by simp
  also have "\<dots> = Suc b * 256 ^ length bs" by simp
  also have "\<dots> \<le> 256 * 256 ^ length bs" using Cons.prems by (intro mult_le_mono1) simp
  finally show ?case by simp
qed simp

lemma byte_mask:
  assumes "b < (256::nat)" and "k \<le> 8"
  shows "b AND (256 - 2 ^ (8 - k)) = b div 2 ^ (8 - k) * 2 ^ (8 - k)"
proof -
  have "(2::nat) ^ k * 2 ^ (8 - k) = 256" using assms(2) by (simp flip: power_add)
  then have m: "256 - 2 ^ (8 - k) = push_bit (8 - k) (mask k :: nat)"
    by (simp add: push_bit_eq_mult mask_eq_exp_minus_1 diff_mult_distrib)
  have "take_bit 8 b = b" using assms(1) by (simp add: take_bit_nat_eq_self)
  then have small: "bit b n \<Longrightarrow> n < 8" for n by (metis bit_take_bit_iff)
  have "b AND (256 - 2 ^ (8 - k)) = push_bit (8 - k) (drop_bit (8 - k) b)"
    unfolding m by (rule bit_eqI) (auto simp: bit_simps dest: small)
  then show ?thesis by (simp add: push_bit_eq_mult drop_bit_eq_div)
qed

lemma byte_and_255: "b < (256::nat) \<Longrightarrow> b AND 255 = b"
  using byte_mask [of b 8] by simp

lemma mask_bytes_simps [simp]:
  "mask_bytes [] bs = []" "mask_bytes m [] = []" "mask_bytes (k # m) (b # bs) = (b AND k) # mask_bytes m bs"
  by (simp_all add: mask_bytes_def)

lemma mask_bytes_idem: "mask_bytes m (mask_bytes m bs) = mask_bytes m bs"
  by (induction m bs rule: list_induct2') (simp_all add: and.assoc)

lemma length_cidr_mask [simp]: "length (cidr_mask l n) = l"
  by (induction l arbitrary: n) auto

lemma length_mask_bytes [simp]: "length (mask_bytes m bs) = min (length bs) (length m)"
  by (simp add: mask_bytes_def)

lemma mask_bytes_zero: "length bs = l \<Longrightarrow> mask_bytes (cidr_mask l 0) bs = replicate l 0"
  by (induction l arbitrary: bs) (auto simp: length_Suc_conv)

lemma mask_bytes_prefix:
  assumes "length bs = l" and "length cs = l" and "\<forall>b \<in> set bs. b < 256" and "\<forall>b \<in> set cs. b < 256" and "n \<le> 8 * l"
  shows "mask_bytes (cidr_mask l n) bs = mask_bytes (cidr_mask l n) cs
    \<longleftrightarrow> be_value bs div 2 ^ (8 * l - n) = be_value cs div 2 ^ (8 * l - n)"
  using assms
proof (induction l arbitrary: n bs cs)
  case (Suc l)
  obtain b bs' c cs' where e: "bs = b # bs'" "cs = c # cs'" using Suc.prems(1,2) by (meson length_Suc_conv)
  have len: "length bs' = l" "length cs' = l" and lt: "b < 256" "c < 256" "\<forall>b \<in> set bs'. b < 256" "\<forall>b \<in> set cs'. b < 256"
    using Suc.prems e by auto
  have v: "be_value bs' < 256 ^ l" "be_value cs' < 256 ^ l" using be_value_lt [OF lt(3)] be_value_lt [OF lt(4)] len by simp_all
  have p: "(256::nat) ^ l = 2 ^ (8 * l)" by (simp add: power_mult)
  show ?case
  proof (cases "n \<ge> 8")
    case True
    define j where "j = 8 * Suc l - n"
    have j: "j = 8 * l - (n - 8)" "j \<le> 8 * l" using True by (simp_all add: j_def)
    have q: "2 ^ (8 * l) = (2::nat) ^ (8 * l - j) * 2 ^ j" using j(2) by (simp flip: power_add)
    have div: "(d * 256 ^ l + u) div 2 ^ j = d * 2 ^ (8 * l - j) + u div 2 ^ j" for d u :: nat
      unfolding p q by (simp add: mult.assoc [symmetric])
    have u: "u div 2 ^ j < 2 ^ (8 * l - j)" if "u < 256 ^ l" for u :: nat
      using that unfolding p q by (simp add: less_mult_imp_div_less)
    have "be_value bs div 2 ^ j = be_value cs div 2 ^ j \<longleftrightarrow> b = c \<and> be_value bs' div 2 ^ j = be_value cs' div 2 ^ j"
      unfolding e be_value.simps len div by (rule digit_eq) (use u v in blast)+
    moreover have "mask_bytes (cidr_mask l (n - 8)) bs' = mask_bytes (cidr_mask l (n - 8)) cs'
        \<longleftrightarrow> be_value bs' div 2 ^ j = be_value cs' div 2 ^ j"
      unfolding j(1) by (rule Suc.IH) (use len lt Suc.prems(5) True in simp_all)
    ultimately show ?thesis
      unfolding j_def [symmetric] using True lt(1,2) by (simp add: e byte_and_255)
  next
    case False
    define k where "k = 8 - n"
    have k: "8 * Suc l - n = k + 8 * l" "n = 8 - k" "k \<le> 8" using False by (simp_all add: k_def)
    have div: "(d * 256 ^ l + u) div 2 ^ (k + 8 * l) = d div 2 ^ k" if "u < 256 ^ l" for d u :: nat
    proof -
      have "(2::nat) ^ (k + 8 * l) = 256 ^ l * 2 ^ k" by (simp add: p power_add)
      then have "(d * 256 ^ l + u) div 2 ^ (k + 8 * l) = (d * 256 ^ l + u) div 256 ^ l div 2 ^ k"
        by (simp only: div_mult2_eq)
      also have "(d * 256 ^ l + u) div 256 ^ l = d" using that by simp
      finally show ?thesis .
    qed
    have "(b AND (256 - 2 ^ k) = c AND (256 - 2 ^ k)) \<longleftrightarrow> b div 2 ^ k = c div 2 ^ k"
      using byte_mask [of b n] byte_mask [of c n] lt(1,2) False by (simp add: k_def)
    then show ?thesis
      using False len unfolding k(1) e be_value.simps len div [OF v(1)] div [OF v(2)]
      by (simp add: mask_bytes_zero [OF len(1)] mask_bytes_zero [OF len(2)] k_def)
  qed
qed simp

lemma parse_octet_lt: "parse_octet s = Some v \<Longrightarrow> v < 256"
  by (auto simp: parse_octet_def split: if_split_asm option.split_asm)

lemma digits_value_digits: "digits_value acc s = Some v \<Longrightarrow> c \<in> set s \<Longrightarrow> digit_value c \<noteq> None"
  by (induction acc s rule: digits_value.induct) (auto split: option.split_asm)

lemma parse_octet_digits: "parse_octet s = Some v \<Longrightarrow> c \<in> set s \<Longrightarrow> digit_value c \<noteq> None"
  by (auto simp: parse_octet_def dest: digits_value_digits split: if_split_asm option.split_asm)

lemma set_split_char: "set s \<subseteq> insert c (\<Union> (set ` set (split_char c s)))"
proof (induction s)
  case (Cons x s)
  then show ?case by (cases "split_char c s") auto
qed simp

lemma parseIPv4_SomeD:
  assumes "parseIPv4 s = Some b"
  shows "length b = 4" and "\<forall>x \<in> set b. x < 256" and "\<forall>c \<in> set s. c = CHR ''.'' \<or> digit_value c \<noteq> None" and "CHR ''.'' \<in> set s"
proof -
  obtain w x y z a1 a2 a3 a4 where p: "split_char (CHR ''.'') s = [a1, a2, a3, a4]" "b = [w, x, y, z]"
    "parse_octet a1 = Some w" "parse_octet a2 = Some x" "parse_octet a3 = Some y" "parse_octet a4 = Some z"
    using assms by (auto simp: parseIPv4_def split: list.split_asm option.split_asm)
  show "length b = 4" "\<forall>x \<in> set b. x < 256" using p parse_octet_lt by auto
  show "\<forall>c \<in> set s. c = CHR ''.'' \<or> digit_value c \<noteq> None"
  proof
    fix c assume "c \<in> set s"
    then have "c = CHR ''.'' \<or> c \<in> set a1 \<or> c \<in> set a2 \<or> c \<in> set a3 \<or> c \<in> set a4"
      using set_split_char [of s "CHR ''.''"] unfolding p(1) by auto
    then show "c = CHR ''.'' \<or> digit_value c \<noteq> None" using p(3-6) [THEN parse_octet_digits] by blast
  qed
  show "CHR ''.'' \<in> set s" using p(1) split_char_none [of "CHR ''.''" s] by force
qed

lemma digit_not [simp]:
  "digit_value (CHR '':'') = None" "digit_value (CHR ''%'') = None" "digit_value (CHR ''['') = None"
  "digit_value (CHR '']'') = None" "digit_value (CHR ''/'') = None"
  by (simp_all add: digit_value_def)

lemma digit_printable: "digit_value c \<noteq> None \<Longrightarrow> printable c"
  by (auto simp: digit_value_def printable_def Let_def split: if_split_asm)

lemma ParseAddr_v4: "parseIPv4 s = Some b \<Longrightarrow> ParseAddr s = Some (Addr4 b)"
proof -
  assume p: "parseIPv4 s = Some b"
  have "find (\<lambda>c. c = CHR ''.'' \<or> c = CHR '':'' \<or> c = CHR ''%'') s = Some (CHR ''.'')"
  proof (cases "find (\<lambda>c. c = CHR ''.'' \<or> c = CHR '':'' \<or> c = CHR ''%'') s")
    case None
    then show ?thesis using parseIPv4_SomeD(4) [OF p] by (auto simp: find_None_iff)
  next
    case (Some c)
    then obtain i where i: "i < length s" "c = s ! i" "c = CHR ''.'' \<or> c = CHR '':'' \<or> c = CHR ''%''"
      unfolding find_Some_iff by blast
    then have "c \<in> set s" by simp
    then have "c = CHR ''.''" using parseIPv4_SomeD(3) [OF p] i(3) by fastforce
    then show ?thesis using Some by simp
  qed
  then show ?thesis using p by (simp add: ParseAddr_def)
qed

lemma To4_mapped [simp]: "length b = 4 \<Longrightarrow> To4 (v4_mapped @ b) = Some b" "length b = 4 \<Longrightarrow> To4 b = Some b"
  by (auto simp: To4_def ip_To4_def v4_mapped_def length_Suc_conv eval_nat_numeral)

text \<open>An IPv4 network contains exactly the IPv4 addresses that share its prefix.\<close>

lemma IPNet_Contains_v4:
  assumes "length b = 4" and "length x = 4" and "\<forall>d \<in> set b. d < 256" and "\<forall>d \<in> set x. d < 256" and "n \<le> 32"
  shows "IPNet_Contains \<lparr>net_IP = mask_bytes (cidr_mask 4 n) b, net_Mask = cidr_mask 4 n\<rparr> (v4_mapped @ x)
    \<longleftrightarrow> in_cidr (be_value x) (be_value b, n)"
  using mask_bytes_prefix [OF assms(1,2,3,4), of n] assms
  by (auto simp: IPNet_Contains_def Let_def mask_bytes_idem in_cidr_def)

lemma be_value_v4: "be_value [w, x, y, z] = v4_value w x y z"
  by (simp add: v4_value_def)

lemma SplitHostPort_v4:
  assumes "parseIPv4 h = Some b" and "set port \<inter> {CHR '':'', CHR ''['', CHR '']''} = {}"
  shows "SplitHostPort (h @ CHR '':'' # port) = Some (h, port)"
proof -
  have h: "CHR '':'' \<notin> set h" "CHR ''['' \<notin> set h" "CHR '']'' \<notin> set h" "h \<noteq> []"
    using parseIPv4_SomeD(3,4) [OF assms(1)] by fastforce+
  have "str_IndexAny (rev port @ CHR '':'' # rev h) {CHR '':''} = Some (length port)"
    using assms(2) by (induction port rule: rev_induct) (auto simp: disjoint_iff)
  then have "str_LastIndexChar (h @ CHR '':'' # port) (CHR '':'') = Some (length h)"
    by (simp add: str_LastIndexChar_def)
  moreover have "hd (h @ CHR '':'' # port) \<noteq> CHR ''[''" using h by (cases h) auto
  ultimately show ?thesis using h assms(2) by (auto simp: SplitHostPort_def Let_def)
qed

lemma parse_bits_digits: "parse_bits m = Some n \<Longrightarrow> c \<in> set m \<Longrightarrow> digit_value c \<noteq> None"
  by (auto simp: parse_bits_def dest: digits_value_digits split: if_split_asm option.split_asm)

lemma parseTrustedProxies_v4:
  assumes "parseIPv4 a = Some b" and "parse_bits m = Some n" and "n \<le> 32"
  shows "parseTrustedProxies [a @ CHR ''/'' # m] = Some [\<lparr>net_IP = mask_bytes (cidr_mask 4 n) b, net_Mask = cidr_mask 4 n\<rparr>]"
proof -
  have pr: "\<forall>c \<in> set (a @ CHR ''/'' # m). printable c"
  proof
    fix c assume "c \<in> set (a @ CHR ''/'' # m)"
    then have "c = CHR ''.'' \<or> c = CHR ''/'' \<or> digit_value c \<noteq> None"
      using parseIPv4_SomeD(3) [OF assms(1)] parse_bits_digits [OF assms(2)] by (simp only: set_append list.set Un_iff insert_iff) blast
    then show "printable c" using digit_printable by (elim disjE) (simp_all add: printable_def)
  qed
  have "CHR ''/'' \<notin> set a" using parseIPv4_SomeD(3) [OF assms(1)] by fastforce
  then have "str_IndexAny (a @ CHR ''/'' # m) {CHR ''/''} = Some (length a)"
    by (induction a) auto
  then have "ParseCIDR (a @ CHR ''/'' # m) = Some \<lparr>net_IP = mask_bytes (cidr_mask 4 n) b, net_Mask = cidr_mask 4 n\<rparr>"
    using ParseAddr_v4 [OF assms(1)] assms(2,3) by (simp add: ParseCIDR_def)
  moreover have "CHR ''/'' \<in> set (a @ CHR ''/'' # m)" "a @ CHR ''/'' # m \<noteq> ''''" by simp_all
  ultimately show ?thesis unfolding parseTrustedProxies.simps TrimSpace_printable [OF pr] Let_def by (simp only: if_True if_False option.case) simp
qed

text \<open>C31: the proxies that are trusted. With one IPv4 network configured, the forwarded headers of a request replace
  its address exactly when the address of its peer shares the prefix of the network, as numbers, and the
  headers name an address at all. Every other request keeps the address of its socket.\<close>

theorem trusted_proxy_range:
  assumes "parseIPv4 a = Some [p, q, r, s]" and "parse_bits m = Some n" and "n \<le> 32"
    and "parseIPv4 h = Some [w, x, y, z]" and "set port \<inter> {CHR '':'', CHR ''['', CHR '']''} = {}"
    and "hq_RemoteAddr rq = h @ CHR '':'' # port"
  shows "\<exists>f. TrustedRealIP [a @ CHR ''/'' # m] = Some f \<and>
    f rq = (if in_cidr (v4_value w x y z) (v4_value p q r s, n) \<and> forwardedClientIP rq \<noteq> ''''
            then rq\<lparr>hq_RemoteAddr := forwardedClientIP rq\<rparr> else rq)"
proof -
  let ?net = "\<lparr>net_IP = mask_bytes (cidr_mask 4 n) [p, q, r, s], net_Mask = cidr_mask 4 n\<rparr>"
  have "peerIP (hq_RemoteAddr rq) = Some (v4_mapped @ [w, x, y, z])"
    unfolding assms(6) peerIP_def SplitHostPort_v4 [OF assms(4,5)]
    by (simp add: ParseIP_def ParseAddr_v4 [OF assms(4)] As16_def)
  then have "peerTrusted (hq_RemoteAddr rq) [?net] \<longleftrightarrow> in_cidr (v4_value w x y z) (v4_value p q r s, n)"
    using IPNet_Contains_v4 [OF parseIPv4_SomeD(1) [OF assms(1)] parseIPv4_SomeD(1) [OF assms(4)]
        parseIPv4_SomeD(2) [OF assms(1)] parseIPv4_SomeD(2) [OF assms(4)] assms(3)]
    unfolding be_value_v4 by (simp add: peerTrusted_def)
  then show ?thesis
    unfolding TrustedRealIP_def parseTrustedProxies_v4 [OF assms(1-3)] by simp
qed

definition demo_http_request :: http_request where
  "demo_http_request = \<lparr>hq_RemoteAddr = ''172.20.1.9:4711'',
     hq_Header = (\<lambda>k. if k = ''X-Real-IP'' then ''8.8.8.8'' else '''')\<rparr>"

theorem trusted_proxy_range_witness:
  "\<exists>f. TrustedRealIP [''172.16.0.0/12''] = Some f \<and> hq_RemoteAddr (f demo_http_request) = ''8.8.8.8''"
proof -
  have p: "parseIPv4 ''172.16.0.0'' = Some [172, 16, 0, 0]" "parse_bits ''12'' = Some 12" "(12::nat) \<le> 32"
    "parseIPv4 ''172.20.1.9'' = Some [172, 20, 1, 9]"
    by code_simp+
  have "TrimSpace ''8.8.8.8'' = ''8.8.8.8''" "TrimSpace '''' = ''''"
    by (rule TrimSpace_printable; simp add: printable_def)+
  moreover have "ParseIP ''8.8.8.8'' \<noteq> None" by code_simp
  ultimately have f: "forwardedClientIP demo_http_request = ''8.8.8.8''"
    by (simp add: forwardedClientIP_def demo_http_request_def Let_def)
  have "in_cidr (v4_value 172 20 1 9) (v4_value 172 16 0 0, 12)" by (simp add: in_cidr_def v4_value_def)
  then show ?thesis
    using trusted_proxy_range [OF p, of "''4711''" demo_http_request] f by (auto simp: demo_http_request_def)
qed

section \<open>Two ways to be wrong about the client\<close>

text \<open>A bare IPv4 address written as mapped into IPv6 gets the suffix of an IPv4 network, which then counts bits of the
  IPv6 address: the address itself is not trusted, the IPv6 loopback address and many others are.\<close>

lemma mapped_proxy_trusts_others:
  "\<exists>nets. parseTrustedProxies [''::ffff:1.2.3.4''] = Some nets
     \<and> \<not> peerTrusted ''1.2.3.4:80'' nets \<and> peerTrusted ''[::1]:80'' nets"
proof -
  have eight: "(8::nat) = Suc (Suc 6)" by simp
  have groups: "ipv6_groups 8 ''ffff:1.2.3.4'' [] (Some 0) = Some ([255, 255, 1, 2, 3, 4], Some 0, '''')"
    "ipv6_groups 8 ''1'' [] (Some 0) = Some ([0, 1], Some 0, '''')"
    unfolding eight ipv6_groups.simps by (simp_all add: hex_value_def hex_number_def parseIPv4_def parse_octet_def digit_value_def Let_def)
  have mask_bits: "parse_bits ''32'' = Some 32" "mask_bytes (cidr_mask 16 32) (v4_mapped @ [1, 2, 3, 4]) = replicate 16 0"
    by code_simp+
  have "TrimSpace ''::ffff:1.2.3.4'' = ''::ffff:1.2.3.4''" by (rule TrimSpace_printable) (simp add: printable_def)
  moreover have p: "ParseAddr ''::ffff:1.2.3.4'' = Some (Addr6 (v4_mapped @ [1, 2, 3, 4]))" "ParseAddr ''::1'' = Some (Addr6 (replicate 15 0 @ [1]))"
    using groups by (simp_all add: ParseAddr_def parseIPv6_def has_prefix_def v4_mapped_def eval_nat_numeral)
  moreover have "ParseCIDR ''::ffff:1.2.3.4/32'' = Some \<lparr>net_IP = replicate 16 0, net_Mask = cidr_mask 16 32\<rparr>"
    using p mask_bits by (simp add: ParseCIDR_def)
  ultimately have "parseTrustedProxies [''::ffff:1.2.3.4''] = Some [\<lparr>net_IP = replicate 16 0, net_Mask = cidr_mask 16 32\<rparr>]"
    by (simp add: Let_def ParseIP_def As16_def)
  moreover have hosts: "SplitHostPort ''1.2.3.4:80'' = Some (''1.2.3.4'', ''80'')" "SplitHostPort ''[::1]:80'' = Some (''::1'', ''80'')"
    "ParseAddr ''1.2.3.4'' = Some (Addr4 [1, 2, 3, 4])"
    by code_simp+
  moreover have "peerIP ''1.2.3.4:80'' = Some (v4_mapped @ [1, 2, 3, 4])" "peerIP ''[::1]:80'' = Some (replicate 15 0 @ [1])"
    using p hosts by (simp_all add: peerIP_def ParseIP_def As16_def)
  moreover have "\<not> IPNet_Contains \<lparr>net_IP = replicate 16 0, net_Mask = cidr_mask 16 32\<rparr> (v4_mapped @ [1, 2, 3, 4])"
    "IPNet_Contains \<lparr>net_IP = replicate 16 0, net_Mask = cidr_mask 16 32\<rparr> (replicate 15 0 @ [1])"
    by code_simp+
  ultimately show ?thesis by (simp add: peerTrusted_def)
qed

text \<open>Behind a proxy that appends the address it sees to the list, the entry that counts is the one the client sent.\<close>

lemma forwarded_entry_of_client:
  assumes "hq_Header r ''True-Client-IP'' = ''''" and "hq_Header r ''X-Real-IP'' = ''''"
    and "hq_Header r ''X-Forwarded-For'' = c @ CHR '','' # seen"
    and "\<forall>x \<in> set (c @ CHR '','' # seen). printable x" and "CHR '','' \<notin> set c" and "ParseIP c \<noteq> None"
  shows "forwardedClientIP r = c"
proof -
  have blank: "TrimSpace [] = []" by (simp add: TrimSpace_printable)
  have "str_IndexAny (c @ CHR '','' # seen) {CHR '',''} = Some (length c)" using assms(5) by (induction c) auto
  moreover have "TrimSpace (c @ CHR '','' # seen) = c @ CHR '','' # seen" using TrimSpace_printable [OF assms(4)] .
  moreover have "TrimSpace c = c" using assms(4) by (intro TrimSpace_printable) simp
  ultimately show ?thesis using assms(6) unfolding forwardedClientIP_def assms(1-3) blank by (auto simp: Let_def)
qed

end
