(* ===== verification/Router.thy ===== *)
theory Router
  imports Auth Rate_Limit Client_Address
begin

text \<open>
  The middleware of \<^verbatim>\<open>internal/handler\<close> and the table of routes of \<^verbatim>\<open>router.go\<close>: security headers, body limits,
  client address, authentication, rate limits, the recording of response statuses and the health checks.
  The middleware of the chi and cors packages (\<open>Lib\<close>) and the matching of a request with a route are
  third-party: the former is an argument, a theorem holds for every route. A request carries what the
  middleware has attached to it: the user of the context, the limits wrapped around the body and the
  headers set on the response.
\<close>

record web_request = http_request +
  hq_Host :: string
  hq_Path :: string
  hq_body :: string
  hq_limits :: "int list"
  hq_userID :: string
  hq_requestID :: string
  hq_headersOut :: "(string \<times> string) list"

section \<open>Headers and body\<close>

definition isLocalhost :: "string \<Rightarrow> bool" where
  "isLocalhost host \<longleftrightarrow>
     host = ''localhost'' \<or> host = ''127.0.0.1''
     \<or> has_prefix host ''localhost:'' \<or> has_prefix host ''127.0.0.1:''
     \<or> TrimPrefix (TrimSuffix host '']'') ''['' = ''::1''
     \<or> has_prefix host ''[::1]:''"

definition set_header :: "string \<Rightarrow> string \<Rightarrow> web_request \<Rightarrow> web_request" where
  "set_header k v r = r\<lparr>hq_headersOut := AList.update k v (hq_headersOut r)\<rparr>"

definition SecurityHeaders :: "web_request \<Rightarrow> web_request" where
  "SecurityHeaders r0 =
     (let r1 = set_header ''X-Content-Type-Options'' ''nosniff'' r0;
          r2 = set_header ''X-Frame-Options'' ''DENY'' r1;
          r3 = set_header ''Referrer-Policy'' ''strict-origin-when-cross-origin'' r2;
          r4 = set_header ''Permissions-Policy'' ''camera=(), microphone=(), geolocation=()'' r3;
          r5 = set_header ''Content-Security-Policy'' (''default-src '' @ [CHR 0x27] @ ''none'' @ [CHR 0x27]
                 @ ''; frame-ancestors '' @ [CHR 0x27] @ ''none'' @ [CHR 0x27]) r4
      in if isLocalhost (hq_Host r0) then r5
         else set_header ''Strict-Transport-Security'' ''max-age=63072000; includeSubDomains; preload'' r5)"

definition DefaultMaxBodyBytes :: int where "DefaultMaxBodyBytes = 10 * 1024 * 1024"
definition SyncPushMaxBodyBytes :: int where "SyncPushMaxBodyBytes = 50 * 1024 * 1024"

text \<open>A reader that fails after \<open>maxBytes\<close> bytes is put around the body, or around the reader already there: reading
  the whole body succeeds when none of them fails.\<close>

definition MaxBodySize :: "int \<Rightarrow> web_request \<Rightarrow> web_request" where
  "MaxBodySize maxBytes r = r\<lparr>hq_limits := maxBytes # hq_limits r\<rparr>"

definition read_body :: "web_request \<Rightarrow> string option" where
  "read_body r = (if list_all (\<lambda>n. int (length (hq_body r)) \<le> n) (hq_limits r) then Some (hq_body r) else None)"

section \<open>Rate limits\<close>

datatype key_func = IPKeyFunc | UserIDKeyFunc

definition rate_key :: "key_func \<Rightarrow> web_request \<Rightarrow> string" where
  "rate_key f r =
     (case f of
        IPKeyFunc \<Rightarrow> hq_RemoteAddr r
      | UserIDKeyFunc \<Rightarrow> if hq_userID r \<noteq> '''' then ''user:'' @ hq_userID r else ''ip:'' @ hq_RemoteAddr r)"

datatype limiter = authRateLimiter | syncRateLimiter | publishRateLimiter | discoverRateLimiter
  | aiRateLimiter | llmRateLimiter | webhookRateLimiter

definition rate_of :: "limiter \<Rightarrow> int" where
  "rate_of l = (case l of authRateLimiter \<Rightarrow> 20 | syncRateLimiter \<Rightarrow> 30 | publishRateLimiter \<Rightarrow> 10 | discoverRateLimiter \<Rightarrow> 60
     | aiRateLimiter \<Rightarrow> 20 | llmRateLimiter \<Rightarrow> 10 | webhookRateLimiter \<Rightarrow> 100)"

type_synonym limiters = "limiter \<Rightarrow> RateLimiter"

definition new_limiters :: limiters where
  "new_limiters l = NewRateLimiter (rate_of l) minute"

text \<open>\<open>strconv.Itoa\<close> for numbers that are not negative.\<close>

fun Itoa :: "nat \<Rightarrow> string" where
  "Itoa n = (if n < 10 then [char_of (48 + n)] else Itoa (n div 10) @ [char_of (48 + n mod 10)])"

declare Itoa.simps [simp del]

text \<open>A request with the map order the runtime picks and the clock reading of the limiter. The answer that refuses it
  comes with the headers of the response.\<close>

type_synonym answer = "unit response \<times> (string \<times> string) list"

definition RateLimitMiddleware :: "limiter \<Rightarrow> key_func \<Rightarrow> duration \<Rightarrow> string list \<times> time \<Rightarrow> web_request \<Rightarrow> limiters
    \<Rightarrow> (answer + web_request) \<times> limiters" where
  "RateLimitMiddleware l f window clk r ls =
     (let key = rate_key f r;
          (ok, lim) = Allow (fst clk) (snd clk) key (ls l);
          ls' = ls(l := lim)
      in if \<not> ok
         then (Inl (HttpError 429 ''rate_limit_exceeded'' ''Too many requests. Please try again later.'',
                    hq_headersOut (set_header ''Retry-After'' (Itoa (nat (window div second))) r)), ls')
         else (Inr r, ls'))"

section \<open>The recorded status\<close>

text \<open>The connection of \<^verbatim>\<open>net/http\<close> keeps the first final status; writing or flushing without one sends 200.\<close>

datatype write_op = WriteHeader nat | Write | Flush

definition conn_step :: "write_op \<Rightarrow> nat option \<Rightarrow> nat option" where
  "conn_step op sent =
     (case op of
        WriteHeader code \<Rightarrow> if sent \<noteq> None then sent else if 100 \<le> code \<and> code \<le> 199 \<and> code \<noteq> 101 then None else Some code
      | _ \<Rightarrow> if sent \<noteq> None then sent else Some 200)"

record instrumentedResponseWriter =
  rw_conn :: "nat option"
  rw_statusCode :: nat
  rw_wroteHeader :: bool

definition newInstrumentedResponseWriter :: instrumentedResponseWriter where
  "newInstrumentedResponseWriter = \<lparr>rw_conn = None, rw_statusCode = 200, rw_wroteHeader = False\<rparr>"

definition rw_step :: "write_op \<Rightarrow> instrumentedResponseWriter \<Rightarrow> instrumentedResponseWriter" where
  "rw_step op rw =
     (let rw' = (case op of
                   WriteHeader code \<Rightarrow> if \<not> rw_wroteHeader rw then rw\<lparr>rw_statusCode := code, rw_wroteHeader := True\<rparr> else rw
                 | _ \<Rightarrow> rw)
      in rw'\<lparr>rw_conn := conn_step op (rw_conn rw)\<rparr>)"

definition rw_run :: "write_op list \<Rightarrow> instrumentedResponseWriter" where
  "rw_run ops = fold rw_step ops newInstrumentedResponseWriter"

text \<open>What the request is counted under: method, route pattern or path, and the recorded status.\<close>

definition metrics_labels :: "string \<Rightarrow> string \<Rightarrow> string \<Rightarrow> instrumentedResponseWriter \<Rightarrow> string \<times> string \<times> string" where
  "metrics_labels meth path pattern rw = (meth, if pattern \<noteq> '''' then pattern else path, Itoa (rw_statusCode rw))"

datatype log_level = LevelInfo | LevelWarn | LevelError

definition skippedPaths :: "string list" where
  "skippedPaths = [''/health'', ''/ready'', ''/metrics'']"

definition logged_level :: "web_request \<Rightarrow> instrumentedResponseWriter \<Rightarrow> log_level option" where
  "logged_level r rw =
     (if List.member skippedPaths (hq_Path r) then None
      else Some (if rw_statusCode rw \<ge> 500 then LevelError else if rw_statusCode rw \<ge> 400 then LevelWarn else LevelInfo))"

definition RequestLogger :: "web_request \<Rightarrow> web_request" where
  "RequestLogger r =
     (if List.member skippedPaths (hq_Path r) \<or> hq_requestID r = '''' then r else set_header ''X-Request-ID'' (hq_requestID r) r)"

section \<open>Health\<close>

text \<open>A dependency that is configured answers a ping with an error or not; the database always is.\<close>

definition health_of :: "string option option \<Rightarrow> string" where
  "health_of ping = (case ping of None \<Rightarrow> ''not_configured'' | Some None \<Rightarrow> ''ok'' | Some (Some e) \<Rightarrow> ''unhealthy: '' @ e)"

definition ReadinessCheck :: "string option \<Rightarrow> string option option \<Rightarrow> string option option \<Rightarrow> nat \<times> string \<times> (string \<times> string) list" where
  "ReadinessCheck db redis minio =
     (let checks = [(''db'', health_of (Some db)), (''redis'', health_of redis), (''minio'', health_of minio)];
          allHealthy = (db = None \<and> (case redis of Some (Some _) \<Rightarrow> False | _ \<Rightarrow> True) \<and> (case minio of Some (Some _) \<Rightarrow> False | _ \<Rightarrow> True))
      in if allHealthy then (200, ''ok'', checks) else (503, ''degraded'', checks))"

section \<open>Routes\<close>

datatype lib_middleware = RequestID | Recoverer | Timeout | CORS

datatype middleware =
    SecurityHeadersMw | MaxBodySizeMw int | RealIPMw | MetricsMw | RequestLoggerMw | AuthMw
  | RateLimitMw limiter key_func | Lib lib_middleware

record route =
  rt_method :: string
  rt_pattern :: string
  rt_chain :: "middleware list"

definition router_use :: "middleware list" where
  "router_use = [SecurityHeadersMw, MaxBodySizeMw DefaultMaxBodyBytes, Lib RequestID, RealIPMw, Lib Recoverer, MetricsMw,
     RequestLoggerMw, Lib Timeout, Lib CORS]"

definition pub :: "string \<Rightarrow> string \<Rightarrow> middleware list \<Rightarrow> route" where
  "pub m p ms = \<lparr>rt_method = m, rt_pattern = p, rt_chain = router_use @ ms\<rparr>"

definition priv :: "string \<Rightarrow> string \<Rightarrow> middleware list \<Rightarrow> route" where
  "priv m p ms = \<lparr>rt_method = m, rt_pattern = ''/api/v1'' @ p, rt_chain = router_use @ AuthMw # ms\<rparr>"

definition ip_limit :: "limiter \<Rightarrow> middleware list" where "ip_limit l = [RateLimitMw l IPKeyFunc]"
definition user_limit :: "limiter \<Rightarrow> middleware list" where "user_limit l = [RateLimitMw l UserIDKeyFunc]"

definition public_routes :: "bool \<Rightarrow> route list" where
  "public_routes payment =
     [pub ''GET'' ''/health'' [], pub ''GET'' ''/ready'' [], pub ''*'' ''/metrics'' [],
      pub ''POST'' ''/api/v1/auth/register'' (ip_limit authRateLimiter), pub ''POST'' ''/api/v1/auth/login'' (ip_limit authRateLimiter),
      pub ''GET'' ''/api/v1/auth/salt'' (ip_limit authRateLimiter), pub ''POST'' ''/api/v1/auth/refresh'' (ip_limit authRateLimiter),
      pub ''GET'' ''/api/v1/auth/recovery-salt'' (ip_limit authRateLimiter),
      pub ''GET'' ''/api/v1/share/{id}'' [], pub ''GET'' ''/api/v1/share/discover'' (ip_limit discoverRateLimiter),
      pub ''GET'' ''/api/v1/profile/{username}'' []]
     @ (if payment then [pub ''POST'' ''/api/v1/payments/webhook'' (ip_limit webhookRateLimiter)] else [])"

definition private_routes :: "bool \<Rightarrow> bool \<Rightarrow> bool \<Rightarrow> route list" where
  "private_routes payment notif device =
     [priv ''GET'' ''/auth/me'' [], priv ''DELETE'' ''/auth/account'' [],
      priv ''GET'' ''/sync/pull'' (user_limit syncRateLimiter),
      priv ''POST'' ''/sync/push'' (MaxBodySizeMw SyncPushMaxBodyBytes # user_limit syncRateLimiter),
      priv ''GET'' ''/sync/status'' (user_limit syncRateLimiter), priv ''GET'' ''/sync/stats'' (user_limit syncRateLimiter),
      priv ''GET'' ''/sync/progress'' (user_limit syncRateLimiter),
      priv ''POST'' ''/sync/batch-delete'' (MaxBodySizeMw SyncPushMaxBodyBytes # user_limit syncRateLimiter),
      priv ''GET'' ''/tags'' (user_limit syncRateLimiter),
      priv ''POST'' ''/ai/proxy'' (user_limit aiRateLimiter), priv ''GET'' ''/ai/quota'' (user_limit aiRateLimiter),
      priv ''POST'' ''/ai/agent'' (user_limit aiRateLimiter),
      priv ''GET'' ''/llm/configs'' (user_limit llmRateLimiter), priv ''POST'' ''/llm/configs'' (user_limit llmRateLimiter),
      priv ''PUT'' ''/llm/configs/{id}'' (user_limit llmRateLimiter), priv ''DELETE'' ''/llm/configs/{id}'' (user_limit llmRateLimiter),
      priv ''POST'' ''/llm/configs/{id}/test'' (user_limit llmRateLimiter), priv ''GET'' ''/llm/providers'' (user_limit llmRateLimiter),
      priv ''POST'' ''/publish'' (user_limit publishRateLimiter), priv ''GET'' ''/publish/history'' (user_limit publishRateLimiter),
      priv ''GET'' ''/publish/{id}'' (user_limit publishRateLimiter),
      priv ''GET'' ''/platforms'' [], priv ''GET'' ''/platforms/catalog'' [], priv ''POST'' ''/platforms/{platform}/connect'' [],
      priv ''DELETE'' ''/platforms/{platform}/connect'' [], priv ''POST'' ''/platforms/{platform}/verify'' [],
      priv ''POST'' ''/share'' [], priv ''POST'' ''/share/{id}/react'' [],
      priv ''POST'' ''/devices/register'' [], priv ''POST'' ''/devices/unregister'' []]
     @ (if device then [priv ''POST'' ''/device-identity/register'' [], priv ''GET'' ''/device-identity'' [],
          priv ''DELETE'' ''/device-identity/{deviceID}'' []] else [])
     @ [priv ''GET'' ''/share/{id}/comments'' [], priv ''POST'' ''/share/{id}/comments'' [], priv ''DELETE'' ''/comments/{id}'' [],
        priv ''GET'' ''/plan'' [], priv ''POST'' ''/plan/upgrade'' [], priv ''PUT'' ''/profile'' [],
        priv ''POST'' ''/notes/links'' [], priv ''GET'' ''/notes/graph'' [], priv ''GET'' ''/notes/{noteId}/backlinks'' [],
        priv ''GET'' ''/notes/{noteId}/links'' [], priv ''DELETE'' ''/notes/links/{sourceId}/{targetId}'' [],
        priv ''PUT'' ''/search/embeddings'' (user_limit syncRateLimiter), priv ''GET'' ''/search/embeddings'' [],
        priv ''DELETE'' ''/search/embeddings/{noteId}'' [], priv ''POST'' ''/search/semantic'' (user_limit syncRateLimiter)]
     @ (if payment then [priv ''POST'' ''/payments/checkout'' [], priv ''GET'' ''/payments'' []] else [])
     @ (if notif then [priv ''GET'' ''/notifications/'' [], priv ''GET'' ''/notifications/unread-count'' [],
          priv ''POST'' ''/notifications/read-all'' [], priv ''GET'' ''/notifications/preferences'' [],
          priv ''PUT'' ''/notifications/preferences'' [], priv ''POST'' ''/notifications/{id}/read'' []] else [])"

text \<open>\<open>strconv.ParseBool\<close> accepts a few spellings of true, and \<open>yes\<close> is not one of them.\<close>

definition isTruthyEnv :: "string \<Rightarrow> bool" where
  "isTruthyEnv v = List.member [''1'', ''t'', ''T'', ''true'', ''TRUE'', ''True''] v"

definition registerPprofRoutes :: "(string \<Rightarrow> string) \<Rightarrow> route list" where
  "registerPprofRoutes getenv =
     (if \<not> isTruthyEnv (getenv ''PPROF_ENABLED'') \<and> \<not> isTruthyEnv (getenv ''DEBUG'') then []
      else map (\<lambda>p. priv ''*'' (''/debug/pprof/'' @ p) []) ['''', ''cmdline'', ''profile'', ''symbol'', ''trace''])"

definition all_routes :: "(string \<Rightarrow> string) \<Rightarrow> bool \<Rightarrow> bool \<Rightarrow> bool \<Rightarrow> route list" where
  "all_routes getenv payment notif device =
     public_routes payment @ private_routes payment notif device @ registerPprofRoutes getenv"

section \<open>A request on its way to the handler\<close>

text \<open>The configuration, the third-party middleware, and for each position of the chain the map order and clock
  reading a limiter there would see.\<close>

record router_env =
  re_lib :: AuthLib
  re_jwtSecret :: string
  re_realIP :: "http_request \<Rightarrow> http_request"
  re_libmw :: "lib_middleware \<Rightarrow> web_request \<Rightarrow> answer + web_request"
  re_clock :: "nat \<Rightarrow> string list \<times> time"

definition run_mw :: "router_env \<Rightarrow> nat \<Rightarrow> middleware \<Rightarrow> web_request \<Rightarrow> limiters \<Rightarrow> (answer + web_request) \<times> limiters" where
  "run_mw e k m r ls =
     (case m of
        SecurityHeadersMw \<Rightarrow> (Inr (SecurityHeaders r), ls)
      | MaxBodySizeMw n \<Rightarrow> (Inr (MaxBodySize n r), ls)
      | RealIPMw \<Rightarrow> (Inr (r\<lparr>hq_RemoteAddr := hq_RemoteAddr (re_realIP e (http_request.truncate r))\<rparr>), ls)
      | MetricsMw \<Rightarrow> (Inr r, ls)
      | RequestLoggerMw \<Rightarrow> (Inr (RequestLogger r), ls)
      | AuthMw \<Rightarrow>
          (case AuthMiddleware (re_lib e) (snd (re_clock e k)) (re_jwtSecret e) (hq_Header r ''Authorization'') of
             Inl err \<Rightarrow> (Inl (err, hq_headersOut r), ls)
           | Inr userID \<Rightarrow> (Inr (r\<lparr>hq_userID := userID\<rparr>), ls))
      | RateLimitMw l f \<Rightarrow> RateLimitMiddleware l f minute (re_clock e k) r ls
      | Lib lm \<Rightarrow> (re_libmw e lm r, ls))"

fun run_chain :: "router_env \<Rightarrow> nat \<Rightarrow> middleware list \<Rightarrow> web_request \<Rightarrow> limiters \<Rightarrow> (answer + web_request) \<times> limiters" where
  "run_chain e k [] r ls = (Inr r, ls)"
| "run_chain e k (m # ms) r ls =
     (case run_mw e k m r ls of
        (Inl a, ls') \<Rightarrow> (Inl a, ls')
      | (Inr r', ls') \<Rightarrow> run_chain e (Suc k) ms r' ls')"

text \<open>Requests one after the other, each with its route and environment: the answer of the middleware, or the request
  the handler gets.\<close>

type_synonym arrival = "route \<times> router_env \<times> web_request"

fun serve :: "limiters \<Rightarrow> arrival list \<Rightarrow> (answer + web_request) list \<times> limiters" where
  "serve ls [] = ([], ls)"
| "serve ls ((rt, e, r) # xs) =
     (let (a, ls') = run_chain e 0 (rt_chain rt) r ls; (as, ls'') = serve ls' xs in (a # as, ls''))"

section \<open>Chains\<close>

lemma run_chain_append:
  "run_chain e k (ms @ ns) r ls =
     (case run_chain e k ms r ls of
        (Inl a, ls') \<Rightarrow> (Inl a, ls')
      | (Inr r', ls') \<Rightarrow> run_chain e (k + length ms) ns r' ls')"
  by (induction ms arbitrary: k r ls) (auto split: prod.split sum.split)

fun quiet :: "middleware \<Rightarrow> bool" where
  "quiet (RateLimitMw l f) = False"
| "quiet _ = True"

lemma run_mw_quiet: "quiet m \<Longrightarrow> snd (run_mw e k m r ls) = ls"
  by (cases m) (auto simp: run_mw_def split: sum.split)

lemma run_chain_quiet: "\<forall>m \<in> set ms. quiet m \<Longrightarrow> run_chain e k ms r ls = (a, ls') \<Longrightarrow> ls' = ls"
proof (induction ms arbitrary: k r ls)
  case (Cons m ms)
  obtain b ls1 where b: "run_mw e k m r ls = (b, ls1)" by fastforce
  then have "ls1 = ls" using run_mw_quiet [of m e k r ls] Cons.prems(1) by simp
  then show ?case using Cons b by (cases b) auto
qed simp

text \<open>Of the chain of every route only the last middleware can be a rate limit; behind the authentication there are only
  limits.\<close>

fun late :: "middleware \<Rightarrow> bool" where
  "late (RateLimitMw l f) = True"
| "late (MaxBodySizeMw n) = True"
| "late _ = False"

lemma router_use_quiet: "\<forall>m \<in> set router_use. quiet m"
  by (simp add: router_use_def)

lemma public_chain:
  "rt \<in> set (public_routes p) \<Longrightarrow> \<exists>ms. rt_chain rt = router_use @ ms \<and> (ms = [] \<or> (\<exists>l f. ms = [RateLimitMw l f]))"
  by (auto simp: public_routes_def pub_def ip_limit_def split: if_split_asm)

lemma private_chain:
  assumes "rt \<in> set (private_routes p n d) \<union> set (registerPprofRoutes getenv)"
  shows "\<exists>ms. rt_chain rt = router_use @ AuthMw # ms
    \<and> (ms = [] \<or> (\<exists>l f. ms = [RateLimitMw l f] \<or> ms = [MaxBodySizeMw SyncPushMaxBodyBytes, RateLimitMw l f]))"
  using assms
  by (auto simp: private_routes_def registerPprofRoutes_def priv_def user_limit_def split: if_split_asm)

text \<open>The chain of a route: quiet middleware, then possibly one limit.\<close>

lemma route_chain:
  assumes "rt \<in> set (all_routes getenv p n d)"
  shows "\<exists>ms l f. (\<forall>m \<in> set ms. quiet m) \<and> (rt_chain rt = ms \<or> rt_chain rt = ms @ [RateLimitMw l f])"
proof -
  consider "rt \<in> set (public_routes p)" | "rt \<in> set (private_routes p n d) \<union> set (registerPprofRoutes getenv)"
    using assms by (auto simp: all_routes_def)
  then show ?thesis
  proof cases
    case 1
    then show ?thesis using public_chain router_use_quiet by fastforce
  next
    case 2
    then obtain ms l f where c: "rt_chain rt = router_use @ AuthMw # ms"
      "ms = [] \<or> ms = [RateLimitMw l f] \<or> ms = [MaxBodySizeMw SyncPushMaxBodyBytes, RateLimitMw l f]"
      using private_chain by blast
    have q: "\<forall>m \<in> set (router_use @ [AuthMw]). quiet m" "\<forall>m \<in> set (router_use @ [AuthMw, MaxBodySizeMw SyncPushMaxBodyBytes]). quiet m"
      using router_use_quiet by auto
    from c(2) show ?thesis
    proof (elim disjE)
      assume "ms = []"
      then show ?thesis using c(1) q(1) by auto
    next
      assume "ms = [RateLimitMw l f]"
      then have "rt_chain rt = (router_use @ [AuthMw]) @ [RateLimitMw l f]" using c(1) by simp
      then show ?thesis using q(1) by blast
    next
      assume "ms = [MaxBodySizeMw SyncPushMaxBodyBytes, RateLimitMw l f]"
      then have "rt_chain rt = (router_use @ [AuthMw, MaxBodySizeMw SyncPushMaxBodyBytes]) @ [RateLimitMw l f]" using c(1) by simp
      then show ?thesis using q(2) by blast
    qed
  qed
qed

section \<open>Every private route is authenticated\<close>

lemma RateLimit_request [simp]: "RateLimitMiddleware l f w clk r ls = (Inr r', ls') \<Longrightarrow> r' = r"
  by (auto simp: RateLimitMiddleware_def Let_def split: prod.split_asm if_split_asm)

lemma late_chain:
  assumes "\<forall>m \<in> set ms. late m" and "run_chain e k ms r ls = (Inr r', ls')"
  shows "hq_userID r' = hq_userID r \<and> hq_Header r' = hq_Header r \<and> set (hq_limits r) \<subseteq> set (hq_limits r')"
  using assms
proof (induction ms arbitrary: k r ls)
  case (Cons m ms)
  obtain r1 ls1 where m: "run_mw e k m r ls = (Inr r1, ls1)" and rest: "run_chain e (Suc k) ms r1 ls1 = (Inr r', ls')"
    using Cons.prems(2) by (auto split: prod.split_asm sum.split_asm)
  have "hq_userID r1 = hq_userID r \<and> hq_Header r1 = hq_Header r \<and> set (hq_limits r) \<subseteq> set (hq_limits r1)"
    using m Cons.prems(1) by (cases m) (auto simp: run_mw_def MaxBodySize_def dest: RateLimit_request)
  then show ?case using Cons.IH [OF _ rest] Cons.prems(1) by auto
qed simp

text \<open>C28: whoever reaches the handler of a route that is not public has shown an access token: the user that the handler
  reads from the context is the one the authentication got from the Authorization header. This holds for every
  route of the table, with or without payments, notifications, devices and profiling.\<close>

theorem routes_authenticated:
  assumes "rt \<in> set (all_routes getenv p n d)" and "rt \<notin> set (public_routes p)"
    and "run_chain e 0 (rt_chain rt) r ls = (Inr r', ls')"
  shows "\<exists>now. AuthMiddleware (re_lib e) now (re_jwtSecret e) (hq_Header r' ''Authorization'') = (Inr (hq_userID r') :: unit response + string)"
proof -
  have "rt \<in> set (private_routes p n d) \<union> set (registerPprofRoutes getenv)" using assms(1,2) by (auto simp: all_routes_def)
  then obtain ms l f where m: "rt_chain rt = router_use @ AuthMw # ms"
    "ms = [] \<or> ms = [RateLimitMw l f] \<or> ms = [MaxBodySizeMw SyncPushMaxBodyBytes, RateLimitMw l f]"
    using private_chain by blast
  have c: "rt_chain rt = router_use @ AuthMw # ms" "\<forall>m \<in> set ms. late m" using m by auto
  obtain r1 ls1 where "run_chain e (length router_use) (AuthMw # ms) r1 ls1 = (Inr r', ls')"
    using assms(3) unfolding c(1) run_chain_append by (auto split: prod.split_asm sum.split_asm)
  then obtain u where u: "AuthMiddleware (re_lib e) (snd (re_clock e (length router_use))) (re_jwtSecret e) (hq_Header r1 ''Authorization'') = (Inr u :: unit response + string)"
    and rest: "run_chain e (Suc (length router_use)) ms (r1\<lparr>hq_userID := u\<rparr>) ls1 = (Inr r', ls')"
    by (auto simp: run_mw_def split: sum.split_asm)
  show ?thesis using late_chain [OF c(2) rest] u by auto
qed

definition demo_router_env :: router_env where
  "demo_router_env =
     \<lparr>re_lib = pair_lib, re_jwtSecret = ''secret'', re_realIP = (\<lambda>r. r), re_libmw = (\<lambda>lm r. Inr r), re_clock = (\<lambda>k. ([], int k))\<rparr>"

definition demo_web_request :: web_request where
  "demo_web_request =
     \<lparr>hq_RemoteAddr = ''8.8.8.8:1'', hq_Header = (\<lambda>h. if h = ''Authorization'' then ''Bearer a'' else ''''), hq_Host = ''localhost'',
      hq_Path = ''/api/v1/platforms'', hq_body = '''', hq_limits = [], hq_userID = '''', hq_requestID = '''', hq_headersOut = []\<rparr>"

lemma demo_request_passes:
  "\<exists>r' ls'. run_chain demo_router_env 0 (rt_chain (priv ''GET'' ''/platforms'' [])) demo_web_request new_limiters = (Inr r', ls')"
proof -
  have "AuthMiddleware pair_lib now ''secret'' ''Bearer a'' = (Inr (the (cl_user_id (pair_claims ''access'' 5 None))) :: unit response + string)"
    if "now < 5 * second" for now
  proof -
    have "printable (CHR ''a'')" by code_simp
    then have "TrimSpace ''a'' = ''a''" by (simp add: TrimSpace_printable)
    moreover have "has_prefix (map to_lower ''Bearer a'') ''bearer ''" by code_simp
    moreover have "drop 7 ''Bearer a'' = ''a''" by simp
    ultimately show ?thesis using that
      by (simp add: AuthMiddleware_def pair_lib_def pair_claims_def str_or_empty_def)
  qed
  then show ?thesis
    by (simp add: priv_def router_use_def demo_router_env_def demo_web_request_def run_mw_def SecurityHeaders_def
        set_header_def MaxBodySize_def RequestLogger_def Let_def)
qed

theorem routes_authenticated_witness:
  "\<exists>r' now. run_chain demo_router_env 0 (rt_chain (priv ''GET'' ''/platforms'' [])) demo_web_request new_limiters = (Inr r', new_limiters)
     \<and> AuthMiddleware pair_lib now ''secret'' (hq_Header r' ''Authorization'') = (Inr (hq_userID r') :: unit response + string)"
proof -
  obtain r' ls' where run: "run_chain demo_router_env 0 (rt_chain (priv ''GET'' ''/platforms'' [])) demo_web_request new_limiters = (Inr r', ls')"
    using demo_request_passes by blast
  have "\<forall>m \<in> set (rt_chain (priv ''GET'' ''/platforms'' [])). quiet m" using router_use_quiet by (simp add: priv_def)
  then have "ls' = new_limiters" using run_chain_quiet run by blast
  moreover have "priv ''GET'' ''/platforms'' [] \<in> set (all_routes (\<lambda>_. '''') False False False)"
    by (simp add: all_routes_def private_routes_def)
  moreover have "priv ''GET'' ''/platforms'' [] \<notin> set (public_routes False)"
    by (simp add: public_routes_def pub_def priv_def)
  ultimately show ?thesis
    using routes_authenticated [OF _ _ run] run by (fastforce simp: demo_router_env_def)
qed

section \<open>What the rate limits bound\<close>

text \<open>The requests that passed the limit \<open>l\<close>, with the key and the time at which the limiter saw them.\<close>

fun let_through :: "limiter \<Rightarrow> arrival list \<Rightarrow> (answer + web_request) list \<Rightarrow> (string \<times> time) list" where
  "let_through l ((rt, e, r) # xs) (a # as) =
     (case (last (rt_chain rt), a) of
        (RateLimitMw l' f, Inr r') \<Rightarrow> if l' = l then [(rate_key f r', snd (re_clock e (length (rt_chain rt) - 1)))] else []
      | _ \<Rightarrow> []) @ let_through l xs as"
| "let_through l _ _ = []"

definition limit_time :: "arrival \<Rightarrow> time" where
  "limit_time x = (case x of (rt, e, r) \<Rightarrow> snd (re_clock e (length (rt_chain rt) - 1)))"

text \<open>One request makes at most one call to the limiter, and is let through when the call is admitted.\<close>

lemma serve_one:
  assumes "rt \<in> set (all_routes getenv p n d)" and "run_chain e 0 (rt_chain rt) r ls = (a, ls')"
  obtains "ls' l = ls l" and "let_through l [(rt, e, r)] [a] = []"
  | order key dec where "Allow order (limit_time (rt, e, r)) key (ls l) = (dec, ls' l)"
      and "let_through l [(rt, e, r)] [a] = (if dec then [(key, limit_time (rt, e, r))] else [])"
proof -
  obtain ms l1 f where q: "\<forall>m \<in> set ms. quiet m" and c: "rt_chain rt = ms \<or> rt_chain rt = ms @ [RateLimitMw l1 f]"
    using route_chain [OF assms(1)] by blast
  show thesis
  proof (cases "rt_chain rt = ms @ [RateLimitMw l1 f]")
    case False
    then have m: "rt_chain rt = ms" using c by blast
    have "ms \<noteq> [] \<Longrightarrow> quiet (last ms)" using q by simp
    moreover have "ms \<noteq> []"
      using assms(1) unfolding m [symmetric]
      by (auto simp: all_routes_def router_use_def dest!: public_chain private_chain [OF UnI1] private_chain [OF UnI2])
    ultimately have "let_through l [(rt, e, r)] [a] = []" unfolding m by (cases "last ms") (auto simp: m)
    then show thesis using that(1) run_chain_quiet [OF q] assms(2) unfolding m by metis
  next
    case True
    note ch = True
    obtain b ls1 where pre: "run_chain e 0 ms r ls = (b, ls1)" by fastforce
    have ls1: "ls1 = ls" using run_chain_quiet [OF q pre] .
    show thesis
    proof (cases b)
      case (Inl x)
      then have "a = Inl x" "ls' = ls" using assms(2) pre ls1 unfolding ch run_chain_append by simp_all
      then show thesis using that(1) by (cases "last (rt_chain rt)") simp_all
    next
      case (Inr r1)
      obtain dec lim where al: "Allow (fst (re_clock e (length ms))) (snd (re_clock e (length ms))) (rate_key f r1) (ls l1) = (dec, lim)"
        by fastforce
      have res: "ls' = ls(l1 := lim)" "a = Inr r1 \<longleftrightarrow> dec" "\<not> dec \<Longrightarrow> \<exists>x. a = Inl x"
        using assms(2) pre ls1 Inr al unfolding ch run_chain_append
        by (auto simp: run_mw_def RateLimitMiddleware_def Let_def split: if_split_asm)
      have t: "limit_time (rt, e, r) = snd (re_clock e (length ms))" by (simp add: limit_time_def ch)
      show thesis
      proof (cases "l1 = l")
        case True
        show thesis
          by (rule that(2) [of "fst (re_clock e (length ms))" "rate_key f r1" dec])
            (use al res True t in \<open>cases dec; auto simp: ch\<close>)+
      next
        case False
        show thesis by (rule that(1)) (use res False in \<open>auto simp: ch split: sum.split\<close>)
      qed
    qed
  qed
qed

lemma serve_calls:
  assumes "\<forall>(rt, e, r) \<in> set xs. rt \<in> set (all_routes getenv p n d)" and "sorted (map limit_time xs)"
  shows "\<exists>cs. sorted (map (\<lambda>(order, t, k). t) cs) \<and> set (map (\<lambda>(order, t, k). t) cs) \<subseteq> set (map limit_time xs)
    \<and> let_through l xs (fst (serve ls xs)) = allowed cs (fst (run_Allow (ls l) cs))"
  using assms
proof (induction xs arbitrary: ls)
  case (Cons x xs)
  obtain rt e r where x: "x = (rt, e, r)" by (cases x)
  obtain a ls1 where one: "run_chain e 0 (rt_chain rt) r ls = (a, ls1)" by fastforce
  obtain cs where cs: "sorted (map (\<lambda>(order, t, k). t) cs)" "set (map (\<lambda>(order, t, k). t) cs) \<subseteq> set (map limit_time xs)"
    "let_through l xs (fst (serve ls1 xs)) = allowed cs (fst (run_Allow (ls1 l) cs))"
    using Cons.IH [of ls1] Cons.prems by (auto simp del: set_map)
  have split: "let_through l (x # xs) (fst (serve ls (x # xs))) = let_through l [(rt, e, r)] [a] @ let_through l xs (fst (serve ls1 xs))"
    unfolding x using one by (simp add: Let_def split: prod.split)
  have rt: "rt \<in> set (all_routes getenv p n d)" using Cons.prems(1) x by simp
  show ?case
  proof (rule serve_one [OF rt one, of l])
    assume "ls1 l = ls l" "let_through l [(rt, e, r)] [a] = []"
    then show ?case unfolding split using cs by auto
  next
    fix order key dec
    assume call: "Allow order (limit_time (rt, e, r)) key (ls l) = (dec, ls1 l)"
      "let_through l [(rt, e, r)] [a] = (if dec then [(key, limit_time (rt, e, r))] else [])"
    let ?cs = "(order, limit_time x, key) # cs"
    have "sorted (map (\<lambda>(order, t, k). t) ?cs)" using cs(1,2) Cons.prems(2) by auto
    moreover have "set (map (\<lambda>(order, t, k). t) ?cs) \<subseteq> set (map limit_time (x # xs))" using cs(2) by auto
    moreover have "let_through l (x # xs) (fst (serve ls (x # xs))) = allowed ?cs (fst (run_Allow (ls l) ?cs))"
      unfolding split cs(3) call(2) using call(1) x by (simp add: Let_def split: prod.split)
    ultimately show ?case by blast
  qed
qed simp

text \<open>C29: the limits of the router hold for all routes together. In any sequence of requests to the routes of the table, in
  the order in which the limiters see them, at most as many requests with one key pass a limiter within a
  minute as the router configures for it, whichever of the limiter's routes they go to.\<close>

theorem route_limits_bound:
  assumes "\<forall>(rt, e, r) \<in> set xs. rt \<in> set (all_routes getenv p n d)" and "sorted (map limit_time xs)"
  shows "in_window minute key t (let_through l xs (fst (serve new_limiters xs))) \<le> nat (rate_of l)"
proof -
  obtain cs where cs: "sorted (map (\<lambda>(order, t, k). t) cs)"
    "let_through l xs (fst (serve new_limiters xs)) = allowed cs (fst (run_Allow (new_limiters l) cs))"
    using serve_calls [OF assms] by blast
  have ok: "limiter_ok (rate_of l) minute (new_limiters l)"
    unfolding new_limiters_def NewRateLimiter_def by (rule limiter_ok_new)
  show ?thesis
    unfolding cs(2) run_Allow_eq_run allowed_eq_passed in_window_eq_charged
    by (rule mem.run_bound [OF cs(1) trusted_limiter [OF ok]])
qed

theorem route_limits_bound_witness:
  "in_window minute ''user:u'' 5 (let_through syncRateLimiter
     (replicate 40 (priv ''GET'' ''/tags'' (user_limit syncRateLimiter), demo_router_env, demo_web_request))
     (fst (serve new_limiters
       (replicate 40 (priv ''GET'' ''/tags'' (user_limit syncRateLimiter), demo_router_env, demo_web_request))))) \<le> 30"
proof -
  have "\<forall>(rt, e, r) \<in> set (replicate 40 (priv ''GET'' ''/tags'' (user_limit syncRateLimiter), demo_router_env, demo_web_request)).
      rt \<in> set (all_routes (\<lambda>_. '''') False False False)"
    by (simp add: all_routes_def private_routes_def)
  moreover have "sorted (map limit_time (replicate 40 (priv ''GET'' ''/tags'' (user_limit syncRateLimiter), demo_router_env, demo_web_request)))"
    by (simp only: map_replicate sorted_replicate)
  ultimately show ?thesis
    using route_limits_bound [where l = syncRateLimiter and key = "''user:u''" and t = 5] by (simp only: rate_of_def limiter.case) simp
qed

section \<open>Limits by address count connections\<close>

lemma keys_evict_sample: "fst ` set (evict_sample ks st ws) \<subseteq> fst ` set ws"
proof (induction ks st ws rule: evict_sample.induct)
  case (2 k ks st ws)
  have del: "fst ` set (AList.delete k ws) \<subseteq> fst ` set ws" by (auto simp: AList.delete_eq)
  show ?case
  proof (cases "\<exists>ts. map_of ws k = Some ts \<and> isWindowExpired ts st")
    case True
    then obtain ts where "map_of ws k = Some ts" "isWindowExpired ts st" by blast
    then show ?thesis using "2.IH" del by simp
  next
    case False
    then have "evict_sample (k # ks) st ws = evict_sample ks st ws" by (simp split: option.split)
    moreover have "fst ` set (evict_sample ks st ws) \<subseteq> fst ` set ws"
      using "2.IH" False by (cases "map_of ws k") auto
    ultimately show ?thesis by simp
  qed
qed simp

lemma keys_evictLocked: "fst ` set (windows (evictLocked order now r)) \<subseteq> fst ` set (windows r)"
  using keys_evict_sample by (auto simp: evictLocked_def Let_def)

lemma Allow_fresh:
  assumes "key \<notin> fst ` set (windows r)" and "0 < limit r" and "Allow order now key r = (d, r')"
  shows "d \<and> limit r' = limit r \<and> fst ` set (windows r') \<subseteq> insert key (fst ` set (windows r))"
proof -
  let ?r1 = "r\<lparr>callCount := callCount r + 1\<rparr>"
  define r2 where "r2 = (if evictInterval ?r1 > 0 \<and> callCount ?r1 mod evictInterval ?r1 = 0 then evictLocked order now ?r1 else ?r1)"
  have r2: "fst ` set (windows r2) \<subseteq> fst ` set (windows r)" "limit r2 = limit r"
    using keys_evictLocked [of order now ?r1] by (auto simp: r2_def)
  then have none: "map_of (windows r2) key = None" using assms(1) by (auto simp: map_of_eq_None_iff)
  have "(d, r') = (True, r2\<lparr>windows := AList.update key [now] (windows r2)\<rparr>)"
    using assms(2,3) none r2(2) unfolding Allow_def Let_def r2_def [symmetric] by (auto split: if_split_asm)
  then show ?thesis using r2 by (auto simp: dom_update)
qed

lemma fresh_keys_pass:
  assumes "distinct (map (\<lambda>(order, t, k). k) cs)" and "(\<lambda>(order, t, k). k) ` set cs \<inter> fst ` set (windows r) = {}" and "0 < limit r"
  shows "fst (run_Allow r cs) = replicate (length cs) True"
  using assms
proof (induction cs arbitrary: r)
  case (Cons c cs)
  obtain order t k where c: "c = (order, t, k)" by (cases c)
  obtain d r' where a: "Allow order t k r = (d, r')" by fastforce
  have step: "d \<and> limit r' = limit r \<and> fst ` set (windows r') \<subseteq> insert k (fst ` set (windows r))"
    by (rule Allow_fresh [OF _ Cons.prems(3) a]) (use Cons.prems(2) c in auto)
  have "fst (run_Allow r' cs) = replicate (length cs) True"
  proof (rule Cons.IH)
    have "k \<notin> (\<lambda>(order, t, k). k) ` set cs" using Cons.prems(1) c by simp
    moreover have "(\<lambda>(order, t, k). k) ` set cs \<inter> fst ` set (windows r) = {}" using Cons.prems(2) by auto
    moreover have "fst ` set (windows r') \<subseteq> insert k (fst ` set (windows r))" using step by blast
    ultimately show "(\<lambda>(order, t, k). k) ` set cs \<inter> fst ` set (windows r') = {}" by blast
  qed (use Cons.prems c step in auto)
  then show ?case using step c a by (auto simp: Let_def case_prod_unfold)
qed simp

text \<open>The key of the limits on signing in, registering and refreshing is the whole address of the socket, port included, as long
  as no proxy is trusted. Requests on connections of their own are never refused, however many come from
  one host and however fast.\<close>

lemma ip_limit_per_connection:
  assumes "distinct (map (\<lambda>(clk, r). hq_RemoteAddr r) xs)"
  shows "fst (run_Allow (new_limiters authRateLimiter) (map (\<lambda>(clk, r). (fst clk, snd clk, rate_key IPKeyFunc r)) xs))
    = replicate (length xs) True"
proof -
  have "map (\<lambda>(order, t, k). k) (map (\<lambda>(clk, r). (fst clk, snd clk, rate_key IPKeyFunc r)) xs) = map (\<lambda>(clk, r). hq_RemoteAddr r) xs"
    by (simp add: rate_key_def comp_def case_prod_unfold)
  then have "fst (run_Allow (new_limiters authRateLimiter) (map (\<lambda>(clk, r). (fst clk, snd clk, rate_key IPKeyFunc r)) xs))
    = replicate (length (map (\<lambda>(clk, r). (fst clk, snd clk, rate_key IPKeyFunc r)) xs)) True"
    using assms by (intro fresh_keys_pass) (simp_all only: new_limiters_def NewRateLimiter_def newRateLimiterWithEvict_def rate_of_def limiter.case, simp_all add: new_limiters_def NewRateLimiter_def newRateLimiterWithEvict_def rate_of_def)
  then show ?thesis by simp
qed

section \<open>The larger body of a push is not available\<close>

definition keeps_limits :: "router_env \<Rightarrow> bool" where
  "keeps_limits e \<longleftrightarrow> (\<forall>lm r r'. re_libmw e lm r = Inr r' \<longrightarrow> set (hq_limits r) \<subseteq> set (hq_limits r'))"

lemma set_header_limits [simp]: "hq_limits (set_header k v r) = hq_limits r"
  by (simp add: set_header_def)

lemma run_mw_limits:
  "keeps_limits e \<Longrightarrow> run_mw e k m r ls = (Inr r', ls') \<Longrightarrow> set (hq_limits r) \<subseteq> set (hq_limits r')"
  by (cases m) (auto simp: run_mw_def keeps_limits_def MaxBodySize_def SecurityHeaders_def RequestLogger_def Let_def
      dest: RateLimit_request split: sum.split_asm if_split_asm)

lemma run_chain_limits:
  "keeps_limits e \<Longrightarrow> run_chain e k ms r ls = (Inr r', ls') \<Longrightarrow> set (hq_limits r) \<subseteq> set (hq_limits r')"
proof (induction ms arbitrary: k r ls)
  case (Cons m ms)
  then show ?case using run_mw_limits [OF Cons.prems(1)] by (fastforce split: prod.split_asm sum.split_asm)
qed simp

text \<open>Every request that reaches a handler through the chain of the router, those of \<^verbatim>\<open>/sync/push\<close> with its larger limit
  included, has a body of at most 10 MB: the inner reader cannot lift the limit of the outer one.\<close>

lemma body_limited:
  assumes "keeps_limits e" and "run_chain e 0 (router_use @ ms) r ls = (Inr r', ls')" and "read_body r' = Some b"
  shows "int (length b) \<le> DefaultMaxBodyBytes"
proof -
  have chain: "router_use @ ms = [SecurityHeadersMw, MaxBodySizeMw DefaultMaxBodyBytes] @ drop 2 router_use @ ms"
    by (simp add: router_use_def)
  define rest where "rest = drop 2 router_use @ ms"
  have "run_chain e 2 rest (MaxBodySize DefaultMaxBodyBytes (SecurityHeaders r)) ls = (Inr r', ls')"
    using assms(2) unfolding chain rest_def [symmetric] by (simp add: run_mw_def numeral_2_eq_2)
  then have "set (hq_limits (MaxBodySize DefaultMaxBodyBytes (SecurityHeaders r))) \<subseteq> set (hq_limits r')"
    by (rule run_chain_limits [OF assms(1)])
  then have "DefaultMaxBodyBytes \<in> set (hq_limits r')" by (simp add: MaxBodySize_def)
  then show ?thesis using assms(3) by (auto simp: read_body_def list_all_iff split: if_split_asm)
qed

section \<open>Recorded and sent statuses\<close>

lemma rw_conn_fold: "rw_conn (fold rw_step ops rw) = fold conn_step ops (rw_conn rw)"
  by (induction ops arbitrary: rw) (simp_all add: rw_step_def Let_def)

lemma conn_fold_Some: "fold conn_step ops (Some c) = Some c"
  by (induction ops) (simp_all add: conn_step_def split: write_op.split)

lemma rw_wrote_kept: "rw_wroteHeader rw \<Longrightarrow> rw_statusCode (fold rw_step ops rw) = rw_statusCode rw"
  by (induction ops arbitrary: rw) (simp_all add: rw_step_def Let_def split: write_op.split)

text \<open>A handler that sets a final status first, as all of them but the streaming ones do, is recorded with the status it
  sends. A handler that writes first and then sets a status sends 200 and is recorded with the other status; an
  informational status is recorded in place of the final one.\<close>

lemma status_recorded:
  assumes "200 \<le> code \<or> code = 101"
  shows "rw_statusCode (rw_run (WriteHeader code # ops)) = code \<and> rw_conn (rw_run (WriteHeader code # ops)) = Some code"
  using assms unfolding rw_run_def rw_conn_fold
  by (auto simp: rw_wrote_kept rw_step_def newInstrumentedResponseWriter_def conn_step_def conn_fold_Some)

lemma status_misrecorded:
  "rw_statusCode (rw_run [Write, WriteHeader 500]) = 500 \<and> rw_conn (rw_run [Write, WriteHeader 500]) = Some 200"
  "rw_statusCode (rw_run [WriteHeader 103, WriteHeader 200]) = 103 \<and> rw_conn (rw_run [WriteHeader 103, WriteHeader 200]) = Some 200"
  by (simp_all add: rw_run_def rw_step_def newInstrumentedResponseWriter_def conn_step_def)

lemma ready_iff:
  "fst (ReadinessCheck db redis minio) = 200 \<longleftrightarrow> db = None \<and> redis \<in> {None, Some None} \<and> minio \<in> {None, Some None}"
  by (auto simp: ReadinessCheck_def Let_def split: option.splits)

text \<open>The documented spelling \<open>yes\<close> does not enable profiling.\<close>

lemma pprof_yes: "getenv ''PPROF_ENABLED'' = ''yes'' \<Longrightarrow> getenv ''DEBUG'' = '''' \<Longrightarrow> registerPprofRoutes getenv = []"
  by (simp add: registerPprofRoutes_def isTruthyEnv_def)

end
