(* ===== verification/Config.thy ===== *)
theory Config
  imports LLM_Config
begin

text \<open>
  The configuration of the server: \<^verbatim>\<open>internal/config/config.go\<close> and \<^verbatim>\<open>internal/llm/config.go\<close>. The environment is a
  function from names to values, empty when unset; what the YAML file makes of a configuration is an
  argument. The key that encrypts stored credentials is derived here.
\<close>

definition splitCSV :: "string \<Rightarrow> string list" where
  "splitCSV s = filter (\<lambda>p. p \<noteq> '''') (map TrimSpace (split_char (CHR '','') s))"

record LogConfig =
  lg_Level :: string
  lg_Format :: string

record ServerConfig =
  sv_Port :: int
  sv_ReadTimeout :: duration
  sv_WriteTimeout :: duration
  sv_AllowOrigins :: "string list"
  sv_TrustedProxies :: "string list"

record DatabaseConfig =
  dc_URL :: string
  dc_MaxOpenConns :: int
  dc_MaxIdleConns :: int
  dc_ConnMaxLifetime :: duration

record MinIOConfig =
  mi_Endpoint :: string
  mi_AccessKey :: string
  mi_SecretKey :: string
  mi_Bucket :: string
  mi_UseSSL :: bool

record AuthConfig =
  ac_JWTSecret :: string
  ac_TokenExpiry :: duration
  ac_RefreshExpiry :: duration
  ac_MasterEncryptionKey :: string

record LLMProviderConfig =
  lp_Provider :: string
  lp_BaseURL :: string
  lp_APIKey :: string
  lp_Model :: string
  lp_MaxConcurrent :: int
  lp_Timeout :: duration

record StripeConfig =
  sc_SecretKey :: string
  sc_WebhookSecret :: string
  sc_ProPriceID :: string
  sc_LifetimePriceID :: string

record Config =
  cf_Server :: ServerConfig
  cf_Database :: DatabaseConfig
  cf_RedisURL :: string
  cf_MinIO :: MinIOConfig
  cf_Auth :: AuthConfig
  cf_LLMDefault :: LLMProviderConfig
  cf_LLMFallback :: LLMProviderConfig
  cf_ChromeWSURL :: string
  cf_Log :: LogConfig
  cf_FirebaseCredentials :: string
  cf_Stripe :: StripeConfig

definition BucketName :: "MinIOConfig \<Rightarrow> string" where
  "BucketName c = (if mi_Bucket c = '''' then ''anynote'' else mi_Bucket c)"

section \<open>Loading\<close>

definition default_config :: Config where
  "default_config =
     \<lparr>cf_Server = \<lparr>sv_Port = 8080, sv_ReadTimeout = 15 * second, sv_WriteTimeout = 120 * second, sv_AllowOrigins = [],
        sv_TrustedProxies = []\<rparr>,
      cf_Database = \<lparr>dc_URL = '''', dc_MaxOpenConns = 25, dc_MaxIdleConns = 5, dc_ConnMaxLifetime = 5 * minute\<rparr>,
      cf_RedisURL = '''',
      cf_MinIO = \<lparr>mi_Endpoint = '''', mi_AccessKey = '''', mi_SecretKey = '''', mi_Bucket = '''', mi_UseSSL = False\<rparr>,
      cf_Auth = \<lparr>ac_JWTSecret = '''', ac_TokenExpiry = 24 * hour, ac_RefreshExpiry = 30 * 24 * hour, ac_MasterEncryptionKey = ''''\<rparr>,
      cf_LLMDefault = \<lparr>lp_Provider = '''', lp_BaseURL = '''', lp_APIKey = '''', lp_Model = '''', lp_MaxConcurrent = 50,
        lp_Timeout = 120 * second\<rparr>,
      cf_LLMFallback = \<lparr>lp_Provider = '''', lp_BaseURL = '''', lp_APIKey = '''', lp_Model = '''', lp_MaxConcurrent = 25,
        lp_Timeout = 120 * second\<rparr>,
      cf_ChromeWSURL = '''', cf_Log = \<lparr>lg_Level = ''info'', lg_Format = ''json''\<rparr>, cf_FirebaseCredentials = '''',
      cf_Stripe = \<lparr>sc_SecretKey = '''', sc_WebhookSecret = '''', sc_ProPriceID = '''', sc_LifetimePriceID = ''''\<rparr>\<rparr>"

definition env_or :: "string \<Rightarrow> string \<Rightarrow> string" where
  "env_or v old = (if v \<noteq> '''' then v else old)"

definition env_list :: "string \<Rightarrow> string list \<Rightarrow> string list" where
  "env_list v old = (if v \<noteq> '''' then splitCSV v else old)"

text \<open>\<open>fmt.Sscanf\<close> with \<^verbatim>\<open>%d\<close>: blanks but no newline, a sign, digits; the rest of the text is ignored.\<close>

definition scan_int :: "string \<Rightarrow> int option" where
  "scan_int s0 =
     (let s = trim_left (length s0) (filter (\<lambda>w. w \<noteq> [CHR 0x0A]) space_encodings) s0;
          sign = (if s \<noteq> '''' \<and> (hd s = CHR ''-'' \<or> hd s = CHR ''+'') then 1 else 0 :: nat);
          tok = take sign s @ takeWhile (\<lambda>c. digit_value c \<noteq> None) (drop sign s)
      in Atoi tok)"

definition env_port :: "string \<Rightarrow> int \<Rightarrow> int" where
  "env_port v old = (if v \<noteq> '''' then case scan_int v of Some n \<Rightarrow> n | None \<Rightarrow> old else old)"

text \<open>The key of a provider brings its endpoint and model along when no endpoint is configured.\<close>

definition env_provider :: "string \<Rightarrow> string \<Rightarrow> string \<Rightarrow> string \<Rightarrow> LLMProviderConfig \<Rightarrow> LLMProviderConfig" where
  "env_provider v provider baseURL model p =
     (if v \<noteq> '''' then
        let p1 = p\<lparr>lp_APIKey := v\<rparr> in
        if lp_BaseURL p1 = '''' then p1\<lparr>lp_Provider := provider, lp_BaseURL := baseURL, lp_Model := model\<rparr> else p1
      else p)"

definition applyEnvOverrides :: "(string \<Rightarrow> string) \<Rightarrow> Config \<Rightarrow> Config" where
  "applyEnvOverrides getenv c =
     c\<lparr>cf_Database := (cf_Database c)\<lparr>dc_URL := env_or (getenv ''DATABASE_URL'') (dc_URL (cf_Database c))\<rparr>,
       cf_RedisURL := env_or (getenv ''REDIS_URL'') (cf_RedisURL c),
       cf_Auth := (cf_Auth c)\<lparr>
         ac_JWTSecret := env_or (getenv ''JWT_SECRET'') (ac_JWTSecret (cf_Auth c)),
         ac_MasterEncryptionKey := env_or (getenv ''MASTER_ENCRYPTION_KEY'') (ac_MasterEncryptionKey (cf_Auth c))\<rparr>,
       cf_LLMDefault := env_provider (getenv ''DEEPSEEK_API_KEY'') ''deepseek'' ''https://api.deepseek.com/v1'' ''deepseek-chat''
         (cf_LLMDefault c),
       cf_LLMFallback := env_provider (getenv ''QWEN_API_KEY'') ''qwen'' ''https://dashscope.aliyuncs.com/compatible-mode/v1''
         ''qwen-plus'' (cf_LLMFallback c),
       cf_ChromeWSURL := env_or (getenv ''CHROME_WS_URL'') (cf_ChromeWSURL c),
       cf_MinIO := (cf_MinIO c)\<lparr>
         mi_Endpoint := env_or (getenv ''MINIO_ENDPOINT'') (mi_Endpoint (cf_MinIO c)),
         mi_AccessKey := env_or (getenv ''MINIO_ACCESS_KEY'') (mi_AccessKey (cf_MinIO c)),
         mi_SecretKey := env_or (getenv ''MINIO_SECRET_KEY'') (mi_SecretKey (cf_MinIO c))\<rparr>,
       cf_Server := (cf_Server c)\<lparr>
         sv_Port := env_port (getenv ''PORT'') (sv_Port (cf_Server c)),
         sv_AllowOrigins := (if getenv ''CORS_ALLOWED_ORIGINS'' \<noteq> '''' then splitCSV (getenv ''CORS_ALLOWED_ORIGINS'')
           else env_list (getenv ''WS_ALLOWED_ORIGINS'') (sv_AllowOrigins (cf_Server c))),
         sv_TrustedProxies := env_list (getenv ''TRUSTED_PROXIES'') (sv_TrustedProxies (cf_Server c))\<rparr>,
       cf_Log := \<lparr>lg_Level = env_or (getenv ''LOG_LEVEL'') (lg_Level (cf_Log c)),
         lg_Format = env_or (getenv ''LOG_FORMAT'') (lg_Format (cf_Log c))\<rparr>,
       cf_FirebaseCredentials := env_or (getenv ''FIREBASE_CREDENTIALS_FILE'') (cf_FirebaseCredentials c),
       cf_Stripe := \<lparr>sc_SecretKey = env_or (getenv ''STRIPE_SECRET_KEY'') (sc_SecretKey (cf_Stripe c)),
         sc_WebhookSecret = env_or (getenv ''STRIPE_WEBHOOK_SECRET'') (sc_WebhookSecret (cf_Stripe c)),
         sc_ProPriceID = env_or (getenv ''STRIPE_PRO_PRICE_ID'') (sc_ProPriceID (cf_Stripe c)),
         sc_LifetimePriceID = env_or (getenv ''STRIPE_LIFETIME_PRICE_ID'') (sc_LifetimePriceID (cf_Stripe c))\<rparr>\<rparr>"

text \<open>The file is missing, cannot be read, or holds a text that changes the configuration or does not parse.\<close>

datatype config_file = FileMissing | FileUnreadable string | FileData "Config \<Rightarrow> string + Config"

definition Load :: "config_file \<Rightarrow> (string \<Rightarrow> string) \<Rightarrow> string + Config" where
  "Load file getenv =
     map_sum (\<lambda>m. m) (applyEnvOverrides getenv)
       (case file of
          FileMissing \<Rightarrow> Inr default_config
        | FileUnreadable m \<Rightarrow> Inl m
        | FileData yaml \<Rightarrow> yaml default_config)"

definition LogLevel :: "Config \<Rightarrow> string" where
  "LogLevel c = (if lg_Level (cf_Log c) = '''' then ''info'' else lg_Level (cf_Log c))"

definition LogFormat :: "Config \<Rightarrow> string" where
  "LogFormat c = (if lg_Format (cf_Log c) = '''' then ''json'' else lg_Format (cf_Log c))"

section \<open>Validation\<close>

datatype config_error = JWTMissing | JWTShort nat | KeyMissing | KeyHexLength nat | KeyRawLength nat | DatabaseMissing

definition validateMasterKey :: "string \<Rightarrow> config_error option" where
  "validateMasterKey key =
     (case hex_decode key of
        Some decoded \<Rightarrow> if length decoded \<ge> 32 then None else Some (KeyHexLength (length decoded))
      | None \<Rightarrow> if length key < 32 then Some (KeyRawLength (length key)) else None)"

definition Validate :: "Config \<Rightarrow> config_error option" where
  "Validate c =
     (let a = cf_Auth c in
      if ac_JWTSecret a = '''' then Some JWTMissing
      else if length (ac_JWTSecret a) < 32 then Some (JWTShort (length (ac_JWTSecret a)))
      else if ac_MasterEncryptionKey a = '''' then Some KeyMissing
      else case validateMasterKey (ac_MasterEncryptionKey a) of
        Some err \<Rightarrow> Some err
      | None \<Rightarrow> if dc_URL (cf_Database c) = '''' then Some DatabaseMissing else None)"

definition MasterKeyBytes :: "AuthConfig \<Rightarrow> config_error + bytes" where
  "MasterKeyBytes a =
     (let raw = ac_MasterEncryptionKey a;
          b = string_bytes raw;
          rest = (if length b \<noteq> 32 then Inl (KeyRawLength (length b)) else Inr b)
      in case hex_decode raw of
           Some decoded \<Rightarrow>
             if length decoded \<ge> 32 then
               (if length decoded \<noteq> 32 then Inl (KeyHexLength (length decoded)) else Inr decoded)
             else rest
         | None \<Rightarrow> rest)"

datatype config_warning = WarnRedisURL | WarnFirebase | WarnLLMDefault | WarnLLMFallback | WarnPort | WarnCORS

definition Warn :: "(string \<Rightarrow> bool) \<Rightarrow> Config \<Rightarrow> config_warning list" where
  "Warn exists_file c =
     (let http = (\<lambda>u. has_prefix u ''http://'' \<or> has_prefix u ''https://''); redis = cf_RedisURL c in
      (if redis \<noteq> '''' \<and> \<not> has_prefix redis ''redis://'' \<and> \<not> has_prefix redis ''rediss://'' then [WarnRedisURL] else [])
      @ (if cf_FirebaseCredentials c \<noteq> '''' \<and> \<not> exists_file (cf_FirebaseCredentials c) then [WarnFirebase] else [])
      @ (if lp_BaseURL (cf_LLMDefault c) \<noteq> '''' \<and> \<not> http (lp_BaseURL (cf_LLMDefault c)) then [WarnLLMDefault] else [])
      @ (if lp_BaseURL (cf_LLMFallback c) \<noteq> '''' \<and> \<not> http (lp_BaseURL (cf_LLMFallback c)) then [WarnLLMFallback] else [])
      @ (if sv_Port (cf_Server c) \<le> 0 \<or> sv_Port (cf_Server c) > 65535 then [WarnPort] else [])
      @ (if sv_AllowOrigins (cf_Server c) = [] then [WarnCORS] else []))"

section \<open>The shared LLM\<close>

text \<open>\<open>0.7\<close> as a \<open>float32\<close>.\<close>

definition gateway_config :: "LLMProviderConfig \<Rightarrow> GatewayConfig" where
  "gateway_config p =
     \<lparr>cfg_Provider = lp_Provider p, cfg_BaseURL = lp_BaseURL p, cfg_APIKey = lp_APIKey p, cfg_Model = lp_Model p,
      cfg_MaxTokens = 4096, cfg_Temperature = 0x3F333333, cfg_Timeout = lp_Timeout p, cfg_MaxRetries = 3,
      cfg_RetryBaseDelay = 1 * second\<rparr>"

definition LoadDefaultConfig :: "Config \<Rightarrow> GatewayConfig" where
  "LoadDefaultConfig c = gateway_config (cf_LLMDefault c)"

definition LoadFallbackConfig :: "Config \<Rightarrow> GatewayConfig" where
  "LoadFallbackConfig c = gateway_config (cf_LLMFallback c)"

section \<open>Properties\<close>

text \<open>Applying the environment again changes nothing, and what the environment sets wins over the file.\<close>

lemma env_idem [simp]:
  "env_or v (env_or v x) = env_or v x" "env_list v (env_list v xs) = env_list v xs" "env_port v (env_port v n) = env_port v n"
  "baseURL \<noteq> '''' \<Longrightarrow> env_provider v pr baseURL m (env_provider v pr baseURL m p) = env_provider v pr baseURL m p"
  by (simp_all add: env_or_def env_list_def env_port_def env_provider_def Let_def split: option.split)

lemma applyEnvOverrides_idem:
  "applyEnvOverrides getenv (applyEnvOverrides getenv c) = applyEnvOverrides getenv c"
  by (simp add: applyEnvOverrides_def)

lemma Load_environment_wins:
  assumes "Load file getenv = Inr c" and "getenv ''JWT_SECRET'' \<noteq> ''''" and "getenv ''MASTER_ENCRYPTION_KEY'' \<noteq> ''''"
  shows "ac_JWTSecret (cf_Auth c) = getenv ''JWT_SECRET'' \<and> ac_MasterEncryptionKey (cf_Auth c) = getenv ''MASTER_ENCRYPTION_KEY''"
proof -
  obtain c0 where "c = applyEnvOverrides getenv c0"
    using assms(1) unfolding Load_def by (auto simp: map_sum_def split: sum.split_asm)
  then show ?thesis using assms(2,3) by (simp add: applyEnvOverrides_def env_or_def)
qed

lemma splitCSV_clean: "s \<in> set (splitCSV v) \<Longrightarrow> s \<noteq> ''''"
  by (auto simp: splitCSV_def)

text \<open>C32: the master key. Whatever \<^verbatim>\<open>MasterKeyBytes\<close> returns is a key of 32 bytes, with which every credential can be
  encrypted. A configuration that passes \<^verbatim>\<open>Validate\<close> has such a key exactly when its text is 64
  hexadecimal digits or 32 bytes that are not hexadecimal; any longer text passes the validation and is
  refused afterwards. Hexadecimal text of a key of 32 bytes gives back that key.\<close>

theorem master_key_valid:
  shows "(\<forall>a k. MasterKeyBytes a = Inr k \<longrightarrow> length k = 32 \<and> (\<forall>b \<in> set k. b < 256) \<and> EncryptAPIKey seal nonce p k \<noteq> None)
    \<and> (\<forall>c. Validate c = None \<longrightarrow> (let key = ac_MasterEncryptionKey (cf_Auth c) in
        (\<exists>k. MasterKeyBytes (cf_Auth c) = Inr k) \<longleftrightarrow>
          (length key = 64 \<and> hex_decode key \<noteq> None) \<or> (length key = 32 \<and> hex_decode key = None)))
    \<and> (\<forall>a k. length k = 32 \<and> (\<forall>b \<in> set k. b < 256) \<and> ac_MasterEncryptionKey a = hex_encode k \<longrightarrow> MasterKeyBytes a = Inr k)"
proof (intro conjI allI impI)
  fix a :: AuthConfig and k assume m: "MasterKeyBytes a = Inr k"
  show len: "length k = 32"
    using m by (auto simp: MasterKeyBytes_def Let_def split: option.split_asm if_split_asm)
  show "\<forall>b \<in> set k. b < 256"
    using m hex_decode_bytes [of "ac_MasterEncryptionKey a"] string_bytes_lt
    by (fastforce simp: MasterKeyBytes_def Let_def split: option.split_asm if_split_asm)
  show "EncryptAPIKey seal nonce p k \<noteq> None" using len by (simp add: EncryptAPIKey_def aes_key_ok_def)
next
  fix c :: Config assume v: "Validate c = None"
  define key where "key = ac_MasterEncryptionKey (cf_Auth c)"
  have ok: "validateMasterKey key = None"
    using v by (simp add: Validate_def Let_def key_def split: if_split_asm option.split_asm)
  have "(\<exists>k. MasterKeyBytes (cf_Auth c) = Inr k) \<longleftrightarrow> (length key = 64 \<and> hex_decode key \<noteq> None) \<or> (length key = 32 \<and> hex_decode key = None)"
  proof (cases "hex_decode key")
    case None
    then show ?thesis by (simp add: MasterKeyBytes_def Let_def flip: key_def) (simp add: string_bytes_def)
  next
    case (Some d)
    then show ?thesis using ok hex_decode_bytes [OF Some]
      by (auto simp: MasterKeyBytes_def validateMasterKey_def Let_def simp flip: key_def split: if_split_asm)
  qed
  then show "let key = ac_MasterEncryptionKey (cf_Auth c) in (\<exists>k. MasterKeyBytes (cf_Auth c) = Inr k) \<longleftrightarrow>
      (length key = 64 \<and> hex_decode key \<noteq> None) \<or> (length key = 32 \<and> hex_decode key = None)"
    by (simp add: Let_def key_def)
next
  fix a :: AuthConfig and k assume "length k = 32 \<and> (\<forall>b \<in> set k. b < 256) \<and> ac_MasterEncryptionKey a = hex_encode k"
  then show "MasterKeyBytes a = Inr k" by (simp add: MasterKeyBytes_def hex_round_trip Let_def)
qed

definition demo_config :: "string \<Rightarrow> Config" where
  "demo_config key = default_config\<lparr>cf_Database := (cf_Database default_config)\<lparr>dc_URL := ''db''\<rparr>,
     cf_Auth := (cf_Auth default_config)\<lparr>ac_JWTSecret := replicate 32 (CHR ''x''), ac_MasterEncryptionKey := key\<rparr>\<rparr>"

lemma hex_decode_zs: "0 < n \<Longrightarrow> hex_decode (replicate n (CHR ''z'')) = None"
proof (cases n)
  case (Suc m)
  then show ?thesis by (cases m) (simp_all add: hex_value_def)
qed simp

text \<open>Forty characters pass the validation and give no key; so does the start of the server fail later. A key of 32 hexadecimal
  digits, which would be taken as 32 bytes, does not pass.\<close>

theorem master_key_valid_witness:
  "Validate (demo_config (replicate 40 (CHR ''z''))) = None
   \<and> \<not> (\<exists>k. MasterKeyBytes (cf_Auth (demo_config (replicate 40 (CHR ''z'')))) = Inr k)"
proof -
  have h: "hex_decode (replicate 40 (CHR ''z'')) = None" by (rule hex_decode_zs) simp
  have v: "Validate (demo_config (replicate 40 (CHR ''z''))) = None"
    using h by (simp add: Validate_def demo_config_def default_config_def validateMasterKey_def Let_def)
  have "ac_MasterEncryptionKey (cf_Auth (demo_config (replicate 40 (CHR ''z'')))) = replicate 40 (CHR ''z'')"
    by (simp add: demo_config_def)
  then show ?thesis
    using master_key_valid [THEN conjunct2, THEN conjunct1, rule_format, OF v] v h by (simp add: Let_def)
qed

lemma hex_key_refused:
  "MasterKeyBytes (cf_Auth (demo_config (replicate 32 (CHR ''0'')))) = Inr (replicate 32 48)
   \<and> Validate (demo_config (replicate 32 (CHR ''0''))) = Some (KeyHexLength 16)"
proof -
  have "replicate 32 (CHR ''0'') = hex_encode (replicate 16 0)" by code_simp
  then have "hex_decode (replicate 32 (CHR ''0'')) = Some (replicate 16 0)" using hex_round_trip [of "replicate 16 0"] by simp
  then show ?thesis
    by (simp add: MasterKeyBytes_def Validate_def demo_config_def default_config_def validateMasterKey_def string_bytes_def Let_def)
qed

end
