(* ===== verification/Note_Graph.thy ===== *)
theory Note_Graph
  imports AnyNote_Prelude Http
begin

text \<open>
  Links between notes: the table \<^verbatim>\<open>note_links\<close> (\<^verbatim>\<open>repository/note_link_repository.go\<close>) and the handlers
  (\<^verbatim>\<open>handler/note_link_handler.go\<close>). The service in between (\<^verbatim>\<open>service/note_link_service.go\<close>) only forwards.
\<close>

record NoteLink =
  nl_ID :: uuid
  nl_UserID :: uuid
  nl_SourceID :: uuid
  nl_TargetID :: uuid
  nl_LinkType :: string
  nl_CreatedAt :: time

record NoteLinkItem =
  li_SourceID :: uuid
  li_TargetID :: uuid
  li_LinkType :: string

record link_db =
  ld_users :: "uuid list"
  ld_links :: "NoteLink list"

text \<open>A value for a column \<^verbatim>\<open>VARCHAR(n)\<close>: characters beyond the \<open>n\<close>-th are an error, unless all of them are spaces, which
  are dropped. The text is UTF-8; bytes 128 to 191 continue a character.\<close>

definition utf8_start :: "char \<Rightarrow> bool" where
  "utf8_start c \<longleftrightarrow> \<not> (128 \<le> (of_char c :: nat) \<and> (of_char c :: nat) < 192)"

fun take_chars :: "nat \<Rightarrow> string \<Rightarrow> string" where
  "take_chars n [] = []"
| "take_chars n (c # s) =
     (if utf8_start c then case n of 0 \<Rightarrow> [] | Suc m \<Rightarrow> c # take_chars m s
      else c # take_chars n s)"

definition varchar :: "nat \<Rightarrow> string \<Rightarrow> string option" where
  "varchar n s =
     (let t = take_chars n s in if set (drop (length t) s) \<subseteq> {CHR '' ''} then Some t else None)"

section \<open>Repository\<close>

definition link_key :: "NoteLink \<Rightarrow> uuid \<times> uuid \<times> uuid \<times> string" where
  "link_key l = (nl_UserID l, nl_SourceID l, nl_TargetID l, nl_LinkType l)"

text \<open>One statement of the batch: \<open>None\<close> for an error, otherwise the new row, if there is no such link yet.\<close>

definition insert_link :: "time \<Rightarrow> uuid \<Rightarrow> uuid \<Rightarrow> NoteLinkItem \<Rightarrow> link_db \<Rightarrow> (NoteLink option \<times> link_db) option" where
  "insert_link now newID userID l db =
     (case varchar 50 (li_LinkType l) of
        None \<Rightarrow> None
      | Some ty \<Rightarrow>
          (let nl = \<lparr>nl_ID = newID, nl_UserID = userID, nl_SourceID = li_SourceID l, nl_TargetID = li_TargetID l,
                     nl_LinkType = ty, nl_CreatedAt = now\<rparr>
           in if find_row (\<lambda>r. link_key r = link_key nl) (ld_links db) \<noteq> None then Some (None, db)
              else if userID \<notin> set (ld_users db) \<or> find_row (\<lambda>r. nl_ID r = newID) (ld_links db) \<noteq> None then None
              else Some (Some nl, db\<lparr>ld_links := ld_links db @ [nl]\<rparr>)))"

fun insert_links :: "time \<Rightarrow> (nat \<Rightarrow> uuid) \<Rightarrow> nat \<Rightarrow> uuid \<Rightarrow> NoteLinkItem list \<Rightarrow> link_db \<Rightarrow> (NoteLink list \<times> link_db) option" where
  "insert_links now newID i userID [] db = Some ([], db)"
| "insert_links now newID i userID (l # ls) db =
     (case insert_link now (newID i) userID l db of
        None \<Rightarrow> None
      | Some (nl, db') \<Rightarrow>
          map_option (\<lambda>(nls, db''). (case nl of None \<Rightarrow> nls | Some x \<Rightarrow> x # nls, db'')) (insert_links now newID (Suc i) userID ls db'))"

text \<open>The batch is one implicit transaction: an error takes back all of it.\<close>

definition CreateLinks :: "bool \<Rightarrow> time \<Rightarrow> (nat \<Rightarrow> uuid) \<Rightarrow> uuid \<Rightarrow> NoteLinkItem list \<Rightarrow> link_db \<Rightarrow> NoteLink list option \<times> link_db" where
  "CreateLinks fault now newID userID links db =
     (if links = [] then (Some [], db)
      else if fault then (None, db)
      else case insert_links now newID 0 userID links db of
        None \<Rightarrow> (None, db)
      | Some (nls, db') \<Rightarrow> (Some nls, db'))"

definition GetBacklinks :: "bool \<Rightarrow> uuid \<Rightarrow> uuid \<Rightarrow> link_db \<Rightarrow> NoteLink list option" where
  "GetBacklinks fault userID noteID db =
     (if fault then None
      else Some (order_by_desc nl_CreatedAt (filter (\<lambda>l. nl_UserID l = userID \<and> nl_TargetID l = noteID) (ld_links db))))"

definition GetOutboundLinks :: "bool \<Rightarrow> uuid \<Rightarrow> uuid \<Rightarrow> link_db \<Rightarrow> NoteLink list option" where
  "GetOutboundLinks fault userID noteID db =
     (if fault then None
      else Some (order_by_desc nl_CreatedAt (filter (\<lambda>l. nl_UserID l = userID \<and> nl_SourceID l = noteID) (ld_links db))))"

text \<open>A slice that no row was appended to is nil, and null in JSON. The nodes come in an order the database chooses, the
  argument \<open>arrange\<close>.\<close>

definition nil_if_empty :: "'a list \<Rightarrow> 'a list option" where
  "nil_if_empty xs = (if xs = [] then None else Some xs)"

record NoteGraphResponse =
  gr_Nodes :: "uuid list option"
  gr_Edges :: "NoteLink list option"

definition GetGraph :: "faults \<Rightarrow> (uuid list \<Rightarrow> uuid list) \<Rightarrow> uuid \<Rightarrow> link_db \<Rightarrow> NoteGraphResponse option" where
  "GetGraph f arrange userID db =
     (if f 0 \<or> f 1 then None
      else let mine = filter (\<lambda>l. nl_UserID l = userID) (ld_links db) in
        Some \<lparr>gr_Nodes = nil_if_empty (arrange (remdups (map nl_SourceID mine @ map nl_TargetID mine))),
              gr_Edges = nil_if_empty (order_by_desc nl_CreatedAt mine)\<rparr>)"

definition DeleteLink :: "bool \<Rightarrow> uuid \<Rightarrow> uuid \<Rightarrow> uuid \<Rightarrow> link_db \<Rightarrow> bool \<times> link_db" where
  "DeleteLink fault userID sourceID targetID db =
     (let P = (\<lambda>l. nl_UserID l = userID \<and> nl_SourceID l = sourceID \<and> nl_TargetID l = targetID)
      in if fault then (False, db)
         else (count_rows P (ld_links db) \<noteq> 0, db\<lparr>ld_links := delete_rows P (ld_links db)\<rparr>))"

section \<open>Handlers\<close>

definition handle_CreateLinks :: "bool \<Rightarrow> time \<Rightarrow> (nat \<Rightarrow> uuid) \<Rightarrow> uuid option \<Rightarrow> NoteLinkItem list option \<Rightarrow> link_db
    \<Rightarrow> NoteLink list response \<times> link_db" where
  "handle_CreateLinks fault now newID user body db =
     (case user of
        None \<Rightarrow> (HttpError 401 ''unauthorized'' '''', db)
      | Some userID \<Rightarrow>
          (case body of
             None \<Rightarrow> (HttpError 400 ''invalid_request'' ''Failed to parse request body'', db)
           | Some links \<Rightarrow>
               if links = [] then (HttpError 400 ''validation_error'' ''At least one link is required'', db)
               else if length links > 100 then (HttpError 400 ''validation_error'' ''Too many links (max 100)'', db)
               else case CreateLinks fault now newID userID links db of
                 (None, db') \<Rightarrow> (HttpError 500 ''create_links_error'' ''Failed to create links'', db')
               | (Some nls, db') \<Rightarrow> (JSON 200 nls, db')))"

definition handle_GetBacklinks :: "bool \<Rightarrow> (string \<Rightarrow> uuid option) \<Rightarrow> uuid option \<Rightarrow> string \<Rightarrow> link_db \<Rightarrow> NoteLink list response" where
  "handle_GetBacklinks fault parse user noteIDStr db =
     (case user of
        None \<Rightarrow> HttpError 401 ''unauthorized'' ''''
      | Some userID \<Rightarrow>
          (case parse noteIDStr of
             None \<Rightarrow> HttpError 400 ''invalid_note_id'' ''Invalid note ID''
           | Some noteID \<Rightarrow>
               (case GetBacklinks fault userID noteID db of
                  None \<Rightarrow> HttpError 500 ''backlinks_error'' ''Failed to get backlinks''
                | Some links \<Rightarrow> JSON 200 links)))"

definition handle_GetOutboundLinks :: "bool \<Rightarrow> (string \<Rightarrow> uuid option) \<Rightarrow> uuid option \<Rightarrow> string \<Rightarrow> link_db \<Rightarrow> NoteLink list response" where
  "handle_GetOutboundLinks fault parse user noteIDStr db =
     (case user of
        None \<Rightarrow> HttpError 401 ''unauthorized'' ''''
      | Some userID \<Rightarrow>
          (case parse noteIDStr of
             None \<Rightarrow> HttpError 400 ''invalid_note_id'' ''Invalid note ID''
           | Some noteID \<Rightarrow>
               (case GetOutboundLinks fault userID noteID db of
                  None \<Rightarrow> HttpError 500 ''links_error'' ''Failed to get links''
                | Some links \<Rightarrow> JSON 200 links)))"

definition handle_GetGraph :: "faults \<Rightarrow> (uuid list \<Rightarrow> uuid list) \<Rightarrow> uuid option \<Rightarrow> link_db \<Rightarrow> NoteGraphResponse response" where
  "handle_GetGraph f arrange user db =
     (case user of
        None \<Rightarrow> HttpError 401 ''unauthorized'' ''''
      | Some userID \<Rightarrow>
          (case GetGraph f arrange userID db of
             None \<Rightarrow> HttpError 500 ''graph_error'' ''Failed to get graph''
           | Some graph \<Rightarrow> JSON 200 graph))"

definition handle_DeleteLink :: "bool \<Rightarrow> (string \<Rightarrow> uuid option) \<Rightarrow> uuid option \<Rightarrow> string \<Rightarrow> string \<Rightarrow> link_db \<Rightarrow> unit response \<times> link_db" where
  "handle_DeleteLink fault parse user sourceStr targetStr db =
     (case user of
        None \<Rightarrow> (HttpError 401 ''unauthorized'' '''', db)
      | Some userID \<Rightarrow>
          (case parse sourceStr of
             None \<Rightarrow> (HttpError 400 ''invalid_source_id'' ''Invalid source ID'', db)
           | Some sourceID \<Rightarrow>
               (case parse targetStr of
                  None \<Rightarrow> (HttpError 400 ''invalid_target_id'' ''Invalid target ID'', db)
                | Some targetID \<Rightarrow>
                    (case DeleteLink fault userID sourceID targetID db of
                       (False, db') \<Rightarrow> (HttpError 404 ''delete_error'' ''Link not found'', db')
                     | (True, db') \<Rightarrow> (JSON 200 (), db')))))"

section \<open>The graph\<close>

definition links_inv :: "link_db \<Rightarrow> bool" where
  "links_inv db \<longleftrightarrow> distinct (map nl_ID (ld_links db)) \<and> distinct (map link_key (ld_links db))"

text \<open>The edge of an item and the edges of a user in a table.\<close>

definition item_edge :: "NoteLinkItem \<Rightarrow> uuid \<times> uuid \<times> string" where
  "item_edge l = (li_SourceID l, li_TargetID l, the (varchar 50 (li_LinkType l)))"

definition edges :: "uuid \<Rightarrow> link_db \<Rightarrow> (uuid \<times> uuid \<times> string) set" where
  "edges u db = {(nl_SourceID l, nl_TargetID l, nl_LinkType l) | l. l \<in> set (ld_links db) \<and> nl_UserID l = u}"

lemma edges_append [simp]:
  "edges u (db\<lparr>ld_links := ld_links db @ [nl]\<rparr>) =
     (if nl_UserID nl = u then insert (nl_SourceID nl, nl_TargetID nl, nl_LinkType nl) (edges u db) else edges u db)"
  by (auto simp: edges_def)

lemma insert_link_cases:
  assumes "insert_link now i u l db = Some (nl, db')" and "links_inv db"
  shows "links_inv db' \<and> edges u db' = insert (item_edge l) (edges u db)
    \<and> ((nl = None \<and> db' = db) \<or> (\<exists>x. nl = Some x \<and> db' = db\<lparr>ld_links := ld_links db @ [x]\<rparr> \<and> nl_UserID x = u
          \<and> (nl_SourceID x, nl_TargetID x, nl_LinkType x) = item_edge l \<and> item_edge l \<notin> edges u db))"
proof -
  obtain ty where ty: "varchar 50 (li_LinkType l) = Some ty" using assms(1) by (auto simp: insert_link_def split: option.split_asm)
  define x where "x = \<lparr>nl_ID = i, nl_UserID = u, nl_SourceID = li_SourceID l, nl_TargetID = li_TargetID l, nl_LinkType = ty, nl_CreatedAt = now\<rparr>"
  have e: "item_edge l = (li_SourceID l, li_TargetID l, ty)" by (simp add: item_edge_def ty)
  have key: "link_key r = link_key x \<longleftrightarrow> nl_UserID r = u \<and> (nl_SourceID r, nl_TargetID r, nl_LinkType r) = item_edge l" for r
    by (auto simp: link_key_def x_def e)
  show ?thesis
  proof (cases "find_row (\<lambda>r. link_key r = link_key x) (ld_links db)")
    case None
    then have "find_row (\<lambda>r. nl_ID r = i) (ld_links db) = None" "nl = Some x" "db' = db\<lparr>ld_links := ld_links db @ [x]\<rparr>"
      using assms(1) by (auto simp: insert_link_def ty Let_def simp flip: x_def split: if_split_asm)
    moreover have "\<forall>r \<in> set (ld_links db). link_key r \<noteq> link_key x" using None by (simp add: find_row_None_iff)
    moreover from this have "item_edge l \<notin> edges u db" unfolding key by (auto simp: edges_def)
    ultimately show ?thesis using assms(2)
      by (auto simp: links_inv_def find_row_None_iff x_def e image_iff)
  next
    case (Some r)
    then have "nl = None" "db' = db" using assms(1) by (auto simp: insert_link_def ty Let_def simp flip: x_def)
    moreover have "item_edge l \<in> edges u db"
      using find_row_SomeD [OF Some] unfolding key edges_def by (auto intro!: exI [of _ r])
    ultimately show ?thesis using assms(2) by (auto simp: insert_absorb)
  qed
qed

lemma insert_links_edges:
  assumes "insert_links now newID i u ls db = Some (nls, db')" and "links_inv db"
  shows "links_inv db' \<and> edges u db' = item_edge ` set ls \<union> edges u db \<and> ld_links db' = ld_links db @ nls
    \<and> (\<forall>x \<in> set nls. nl_UserID x = u) \<and> (\<forall>l \<in> set ls. varchar 50 (li_LinkType l) \<noteq> None)"
  using assms
proof (induction ls arbitrary: i db nls)
  case (Cons l ls)
  obtain nl db1 nls1 where one: "insert_link now (newID i) u l db = Some (nl, db1)"
    and rest: "insert_links now newID (Suc i) u ls db1 = Some (nls1, db')"
    and nls: "nls = (case nl of None \<Rightarrow> nls1 | Some x \<Rightarrow> x # nls1)"
    using Cons.prems(1) by (auto split: option.split_asm prod.split_asm)
  note c = insert_link_cases [OF one Cons.prems(2)]
  note IH = Cons.IH [OF rest conjunct1 [OF c]]
  have ty: "varchar 50 (li_LinkType l) \<noteq> None" using one by (auto simp: insert_link_def split: option.split_asm)
  consider "nl = None" "db1 = db" | x where "nl = Some x" "db1 = db\<lparr>ld_links := ld_links db @ [x]\<rparr>" "nl_UserID x = u"
      "(nl_SourceID x, nl_TargetID x, nl_LinkType x) = item_edge l" "item_edge l \<notin> edges u db"
    using c by blast
  then show ?case
  proof cases
    case 1
    then have "item_edge l \<in> edges u db" using c by (metis insertI1)
    then show ?thesis using 1 c IH nls ty by (simp add: insert_absorb)
  next
    case 2
    then have "ld_links db' = ld_links db @ nls" using IH nls by simp
    then show ?thesis using 2 c IH nls ty by simp
  qed
qed auto

lemma insert_links_known:
  "\<forall>l \<in> set ls. varchar 50 (li_LinkType l) \<noteq> None \<and> item_edge l \<in> edges u db \<Longrightarrow> insert_links now newID i u ls db = Some ([], db)"
proof (induction ls arbitrary: i)
  case (Cons l ls)
  obtain ty where ty: "varchar 50 (li_LinkType l) = Some ty" using Cons.prems by auto
  obtain r where r: "r \<in> set (ld_links db)" "nl_UserID r = u" "(nl_SourceID r, nl_TargetID r, nl_LinkType r) = (li_SourceID l, li_TargetID l, ty)"
    using Cons.prems ty by (auto simp: edges_def item_edge_def)
  have "insert_link now (newID i) u l db = Some (None, db)"
    using r by (auto simp: insert_link_def ty Let_def find_row_None_iff link_key_def)
  then show ?case using Cons by simp
qed simp

lemma CreateLinks_again:
  assumes "insert_links now newID 0 u ls db = Some (nls, db')" and "links_inv db" and "ls \<noteq> []" and "length ls \<le> 100"
  shows "handle_CreateLinks False now' newID' (Some u) (Some ls) db' = (JSON 200 [], db')"
proof -
  have "\<forall>l \<in> set ls. varchar 50 (li_LinkType l) \<noteq> None \<and> item_edge l \<in> edges u db'"
    using insert_links_edges [OF assms(1,2)] by blast
  then show ?thesis using insert_links_known [of ls u db' now' newID' 0] assms(3,4)
    by (simp add: handle_CreateLinks_def CreateLinks_def)
qed

lemma edges_other:
  "ld_links db' = ld_links db @ nls \<Longrightarrow> \<forall>x \<in> set nls. nl_UserID x = u \<Longrightarrow> v \<noteq> u \<Longrightarrow> edges v db' = edges v db"
  by (auto simp: edges_def)

lemma handle_CreateLinks_okD:
  assumes "handle_CreateLinks fault now newID (Some u) (Some ls) db = (JSON 200 nls, db')"
  shows "insert_links now newID 0 u ls db = Some (nls, db') \<and> ls \<noteq> [] \<and> length ls \<le> 100"
  using assms by (auto simp: handle_CreateLinks_def CreateLinks_def split: if_split_asm option.split_asm prod.split_asm)

text \<open>C33: the graph of a user. Creating links adds exactly the edges of the request, once each, answers with the new ones
  and does nothing the second time; if it fails nothing is stored. A link is in the outbound links of its source
  exactly when it is in the backlinks of its target, and the graph has exactly the user's links as edges and
  their ends as nodes. Deleting removes all edges between two notes in one direction and no other.\<close>

theorem note_graph_consistent:
  assumes "links_inv db"
  shows "(\<forall>fault now newID ls nls db'. handle_CreateLinks fault now newID (Some u) (Some ls) db = (JSON 200 nls, db') \<longrightarrow>
      links_inv db' \<and> edges u db' = item_edge ` set ls \<union> edges u db
      \<and> ld_links db' = ld_links db @ nls \<and> (\<forall>v. v \<noteq> u \<longrightarrow> edges v db' = edges v db)
      \<and> (\<forall>now' newID'. handle_CreateLinks False now' newID' (Some u) (Some ls) db' = (JSON 200 [], db')))
    \<and> (\<forall>fault now newID ls c m n db'. handle_CreateLinks fault now newID (Some u) (Some ls) db = (HttpError c m n, db') \<longrightarrow> db' = db)
    \<and> (\<forall>l. l \<in> set (the (GetOutboundLinks False u (nl_SourceID l) db)) \<longleftrightarrow> l \<in> set (the (GetBacklinks False u (nl_TargetID l) db)))
    \<and> (\<forall>arrange g. (\<forall>xs. set (arrange xs) = set xs) \<and> GetGraph no_faults arrange u db = Some g \<longrightarrow>
      (\<lambda>l. (nl_SourceID l, nl_TargetID l, nl_LinkType l)) ` set (case gr_Edges g of None \<Rightarrow> [] | Some xs \<Rightarrow> xs) = edges u db
      \<and> set (case gr_Nodes g of None \<Rightarrow> [] | Some xs \<Rightarrow> xs) = {n. \<exists>a t. (n, a, t) \<in> edges u db \<or> (a, n, t) \<in> edges u db})
    \<and> (\<forall>parse s t a b db'. parse s = Some a \<and> parse t = Some b \<and> handle_DeleteLink False parse (Some u) s t db = (JSON 200 (), db') \<longrightarrow>
      links_inv db' \<and> edges u db' = {(x, y, ty). (x, y, ty) \<in> edges u db \<and> (x, y) \<noteq> (a, b)} \<and> (\<forall>v. v \<noteq> u \<longrightarrow> edges v db' = edges v db))"
  (is "?create \<and> ?failed \<and> ?dual \<and> ?graph \<and> ?delete")
proof (intro conjI)
  show ?create
  proof (intro allI impI)
    fix fault now newID ls nls db'
    assume "handle_CreateLinks fault now newID (Some u) (Some ls) db = (JSON 200 nls, db')"
    then have ok: "insert_links now newID 0 u ls db = Some (nls, db')" "ls \<noteq> []" "length ls \<le> 100"
      using handle_CreateLinks_okD by blast+
    note edge = insert_links_edges [OF ok(1) assms]
    show "links_inv db' \<and> edges u db' = item_edge ` set ls \<union> edges u db \<and> ld_links db' = ld_links db @ nls
      \<and> (\<forall>v. v \<noteq> u \<longrightarrow> edges v db' = edges v db)
      \<and> (\<forall>now' newID'. handle_CreateLinks False now' newID' (Some u) (Some ls) db' = (JSON 200 [], db'))"
      by (intro conjI allI impI edges_other [where u = u and nls = nls] CreateLinks_again [OF ok(1) assms ok(2,3)]) (simp_all add: edge)
  qed
  show ?failed
    by (auto simp: handle_CreateLinks_def CreateLinks_def split: if_split_asm option.split_asm prod.split_asm)
  show ?dual by (auto simp: GetOutboundLinks_def GetBacklinks_def)
  show ?graph
  proof (intro allI impI)
    fix arrange :: "uuid list \<Rightarrow> uuid list" and g
    assume "(\<forall>xs. set (arrange xs) = set xs) \<and> GetGraph no_faults arrange u db = Some g"
    then have a: "\<forall>xs. set (arrange xs) = set xs" and g: "g = \<lparr>gr_Nodes = nil_if_empty (arrange (remdups
        (map nl_SourceID (filter (\<lambda>l. nl_UserID l = u) (ld_links db)) @ map nl_TargetID (filter (\<lambda>l. nl_UserID l = u) (ld_links db))))),
        gr_Edges = nil_if_empty (order_by_desc nl_CreatedAt (filter (\<lambda>l. nl_UserID l = u) (ld_links db)))\<rparr>"
      by (simp_all add: GetGraph_def Let_def)
    have n: "set (case nil_if_empty xs of None \<Rightarrow> [] | Some ys \<Rightarrow> ys) = set xs" for xs :: "'x list"
      by (simp add: nil_if_empty_def)
    show "(\<lambda>l. (nl_SourceID l, nl_TargetID l, nl_LinkType l)) ` set (case gr_Edges g of None \<Rightarrow> [] | Some xs \<Rightarrow> xs) = edges u db
      \<and> set (case gr_Nodes g of None \<Rightarrow> [] | Some xs \<Rightarrow> xs) = {n. \<exists>a t. (n, a, t) \<in> edges u db \<or> (a, n, t) \<in> edges u db}"
      unfolding g NoteGraphResponse.simps n using a by (auto simp: edges_def)
  qed
  show ?delete
  proof (intro allI impI)
    fix parse s t a b db'
    assume "parse s = Some a \<and> parse t = Some b \<and> handle_DeleteLink False parse (Some u) s t db = (JSON 200 (), db')"
    then have "db' = db\<lparr>ld_links := delete_rows (\<lambda>l. nl_UserID l = u \<and> nl_SourceID l = a \<and> nl_TargetID l = b) (ld_links db)\<rparr>"
      by (auto simp: handle_DeleteLink_def DeleteLink_def Let_def split: bool.split_asm)
    then show "links_inv db' \<and> edges u db' = {(x, y, ty). (x, y, ty) \<in> edges u db \<and> (x, y) \<noteq> (a, b)} \<and> (\<forall>v. v \<noteq> u \<longrightarrow> edges v db' = edges v db)"
      using assms by (auto simp: edges_def links_inv_def distinct_map_delete_rows)
  qed
qed

definition demo_links :: link_db where
  "demo_links = \<lparr>ld_users = [1], ld_links = [\<lparr>nl_ID = 5, nl_UserID = 1, nl_SourceID = 10, nl_TargetID = 11,
     nl_LinkType = ''reference'', nl_CreatedAt = 0\<rparr>]\<rparr>"

theorem note_graph_consistent_witness:
  "\<exists>nls db'. handle_CreateLinks False 7 (\<lambda>i. 20 + i) (Some 1) (Some [\<lparr>li_SourceID = 10, li_TargetID = 12, li_LinkType = ''x''\<rparr>]) demo_links
      = (JSON 200 nls, db') \<and> length nls = 1 \<and> edges 1 db' = insert (10, 12, ''x'') (edges 1 demo_links)"
proof -
  let ?item = "\<lparr>li_SourceID = 10, li_TargetID = 12, li_LinkType = ''x''\<rparr>"
  have inv: "links_inv demo_links" by (simp add: links_inv_def demo_links_def)
  have ty: "varchar 50 ''x'' = Some ''x''" by (simp add: varchar_def utf8_start_def Let_def numeral_eq_Suc)
  obtain nls db' where run: "handle_CreateLinks False 7 (\<lambda>i. 20 + i) (Some 1) (Some [?item]) demo_links = (JSON 200 nls, db')" "length nls = 1"
    by (simp add: handle_CreateLinks_def CreateLinks_def insert_link_def ty Let_def find_row_def link_key_def demo_links_def)
  then show ?thesis
    using note_graph_consistent [OF inv, of 1, THEN conjunct1, rule_format, OF run(1)] by (auto simp: item_edge_def ty)
qed

text \<open>The graph of a user without links has no lists at all.\<close>

lemma empty_graph_null:
  "GetGraph no_faults (\<lambda>xs. xs) u \<lparr>ld_users = [u], ld_links = []\<rparr> = Some \<lparr>gr_Nodes = None, gr_Edges = None\<rparr>"
  by (simp add: GetGraph_def nil_if_empty_def order_by_desc_def)

section \<open>Isolation of users\<close>

datatype link_op =
    LinkCreate bool time "nat \<Rightarrow> uuid" uuid "NoteLinkItem list option"
  | LinkDelete bool "string \<Rightarrow> uuid option" uuid string string

fun link_owner :: "link_op \<Rightarrow> uuid option" where
  "link_owner (LinkCreate fault now newID u body) = Some u"
| "link_owner (LinkDelete fault parse u s t) = Some u"

fun run_link :: "link_op \<Rightarrow> link_db \<Rightarrow> link_db" where
  "run_link (LinkCreate fault now newID u body) db = snd (handle_CreateLinks fault now newID (Some u) body db)"
| "run_link (LinkDelete fault parse u s t) db = snd (handle_DeleteLink fault parse (Some u) s t db)"

definition user_links :: "uuid \<Rightarrow> link_db \<Rightarrow> NoteLink list" where
  "user_links u db = filter (\<lambda>l. nl_UserID l = u) (ld_links db)"

lemma CreateLinks_step:
  assumes "links_inv db"
  shows "links_inv (snd (CreateLinks fault now newID u ls db))"
    and "v \<noteq> u \<Longrightarrow> user_links v (snd (CreateLinks fault now newID u ls db)) = user_links v db"
proof -
  have "links_inv (snd (CreateLinks fault now newID u ls db))
    \<and> (v \<noteq> u \<longrightarrow> user_links v (snd (CreateLinks fault now newID u ls db)) = user_links v db)"
  proof (cases "ls = [] \<or> fault \<or> insert_links now newID 0 u ls db = None")
    case True
    then have "snd (CreateLinks fault now newID u ls db) = db" by (auto simp: CreateLinks_def)
    then show ?thesis using assms by simp
  next
    case False
    then obtain nls db' where ok: "insert_links now newID 0 u ls db = Some (nls, db')" by auto
    have "snd (CreateLinks fault now newID u ls db) = db'" using False ok by (simp add: CreateLinks_def)
    then show ?thesis using insert_links_edges [OF ok assms] by (simp add: user_links_def filter_empty_conv)
  qed
  then show "links_inv (snd (CreateLinks fault now newID u ls db))"
    and "v \<noteq> u \<Longrightarrow> user_links v (snd (CreateLinks fault now newID u ls db)) = user_links v db" by blast+
qed

lemma DeleteLink_step:
  assumes "links_inv db"
  shows "links_inv (snd (DeleteLink fault u s t db))"
    and "v \<noteq> u \<Longrightarrow> user_links v (snd (DeleteLink fault u s t db)) = user_links v db"
  using assms
  by (auto simp: DeleteLink_def Let_def user_links_def links_inv_def distinct_map_delete_rows intro: filter_delete_rows_other)

interpretation nl: owned_ops run_link link_owner links_inv user_links
proof
  fix s x assume "links_inv s"
  then show "links_inv (run_link x s)"
    using CreateLinks_step(1) DeleteLink_step(1)
    by (cases x) (auto simp: handle_CreateLinks_def handle_DeleteLink_def split: prod.split option.split bool.split, (metis snd_conv)+)
next
  fix s x u assume "links_inv s" "link_owner x \<noteq> Some u"
  then show "user_links u (run_link x s) = user_links u s"
    using CreateLinks_step(2) DeleteLink_step(2)
    by (cases x) (auto simp: handle_CreateLinks_def handle_DeleteLink_def split: prod.split option.split bool.split, (metis snd_conv)+)
qed

lemma links_isolated:
  assumes "links_inv db" and "\<forall>x \<in> set xs. link_owner x \<noteq> Some u"
  shows "GetGraph f arrange u (fold run_link xs db) = GetGraph f arrange u db"
  using nl.run_view [OF assms] by (simp add: GetGraph_def user_links_def)

end
