(* ===== verification/Profiles.thy ===== *)
theory Profiles
  imports Note_Graph
begin

text \<open>
  Public profiles: the profile columns of the table \<^verbatim>\<open>users\<close> (\<^verbatim>\<open>repository/profile_repository.go\<close>), the service
  (\<^verbatim>\<open>service/profile_service.go\<close>) and the handlers (\<^verbatim>\<open>handler/profile_handler.go\<close>). A column without a value is
  \<open>None\<close>.
\<close>

record profile_row =
  pu_ID :: uuid
  pu_Username :: string
  pu_DisplayName :: "string option"
  pu_Bio :: "string option"
  pu_Plan :: "string option"
  pu_PublicEnabled :: "bool option"
  pu_UpdatedAt :: time

record PublicProfile =
  pp_Username :: string
  pp_DisplayName :: string
  pp_Bio :: string
  pp_Plan :: string
  pp_PublicEnabled :: bool

definition coalesce :: "'a option \<Rightarrow> 'a \<Rightarrow> 'a" where
  "coalesce x d = (case x of None \<Rightarrow> d | Some y \<Rightarrow> y)"

definition profile_of :: "profile_row \<Rightarrow> PublicProfile" where
  "profile_of r = \<lparr>pp_Username = pu_Username r, pp_DisplayName = coalesce (pu_DisplayName r) '''', pp_Bio = coalesce (pu_Bio r) '''',
     pp_Plan = coalesce (pu_Plan r) ''free'', pp_PublicEnabled = coalesce (pu_PublicEnabled r) False\<rparr>"

section \<open>Repository and service\<close>

definition repo_GetPublicProfile :: "bool \<Rightarrow> string \<Rightarrow> profile_row list \<Rightarrow> PublicProfile option" where
  "repo_GetPublicProfile fault username t =
     (if fault then None
      else map_option profile_of (find_row (\<lambda>r. pu_Username r = username \<and> coalesce (pu_PublicEnabled r) False = True) t))"

text \<open>The columns hold 100 and 500 characters.\<close>

definition repo_UpdateProfile :: "bool \<Rightarrow> time \<Rightarrow> uuid \<Rightarrow> string \<Rightarrow> string \<Rightarrow> bool \<Rightarrow> profile_row list \<Rightarrow> bool \<times> profile_row list" where
  "repo_UpdateProfile fault now userID displayName bio publicEnabled t =
     (if fault then (False, t)
      else if count_rows (\<lambda>r. pu_ID r = userID) t = 0 then (True, t)
      else case (varchar 100 displayName, varchar 500 bio) of
        (Some d, Some b) \<Rightarrow>
          (True, update_rows (\<lambda>r. pu_ID r = userID)
             (\<lambda>r. r\<lparr>pu_DisplayName := Some d, pu_Bio := Some b, pu_PublicEnabled := Some publicEnabled, pu_UpdatedAt := now\<rparr>) t)
      | _ \<Rightarrow> (False, t))"

definition repo_GetProfileByUserID :: "bool \<Rightarrow> uuid \<Rightarrow> profile_row list \<Rightarrow> PublicProfile option" where
  "repo_GetProfileByUserID fault userID t = (if fault then None else map_option profile_of (find_row (\<lambda>r. pu_ID r = userID) t))"

section \<open>Handlers\<close>

record UpdateProfileRequest =
  ur_DisplayName :: string
  ur_Bio :: string
  ur_PublicEnabled :: "bool option"

definition handle_GetPublicProfile :: "bool \<Rightarrow> string \<Rightarrow> profile_row list \<Rightarrow> PublicProfile response" where
  "handle_GetPublicProfile fault username t =
     (if username = '''' then HttpError 400 ''invalid_request'' ''Username is required''
      else case repo_GetPublicProfile fault username t of
        None \<Rightarrow> HttpError 404 ''not_found'' ''Profile not found''
      | Some p \<Rightarrow> JSON 200 p)"

text \<open>The second value of the answer is \<open>None\<close> when the profile cannot be read back and only the status is sent.\<close>

definition handle_UpdateProfile :: "faults \<Rightarrow> time \<Rightarrow> uuid option \<Rightarrow> UpdateProfileRequest option \<Rightarrow> profile_row list
    \<Rightarrow> PublicProfile option response \<times> profile_row list" where
  "handle_UpdateProfile f now user body t =
     (case user of
        None \<Rightarrow> (HttpError 401 ''unauthorized'' '''', t)
      | Some userID \<Rightarrow>
          (case body of
             None \<Rightarrow> (HttpError 400 ''invalid_request'' ''Failed to parse request body'', t)
           | Some req \<Rightarrow>
               if length (ur_DisplayName req) > 100
               then (HttpError 400 ''validation_error'' ''Display name must be 100 characters or less'', t)
               else if length (ur_Bio req) > 500
               then (HttpError 400 ''validation_error'' ''Bio must be 500 characters or less'', t)
               else let publicEnabled = (case ur_PublicEnabled req of None \<Rightarrow> False | Some b \<Rightarrow> b) in
                 (case repo_UpdateProfile (f 0) now userID (ur_DisplayName req) (ur_Bio req) publicEnabled t of
                    (False, t') \<Rightarrow> (HttpError 500 ''profile_error'' ''Failed to update profile'', t')
                  | (True, t') \<Rightarrow> (JSON 200 (repo_GetProfileByUserID (f 1) userID t'), t'))))"

section \<open>Visibility\<close>

definition profiles_inv :: "profile_row list \<Rightarrow> bool" where
  "profiles_inv t \<longleftrightarrow> distinct (map pu_ID t) \<and> distinct (map pu_Username t)"

text \<open>A text of at most \<open>n\<close> bytes has at most \<open>n\<close> characters and is stored as it is.\<close>

lemma take_chars_all: "length s \<le> n \<Longrightarrow> take_chars n s = s"
  by (induction n s rule: take_chars.induct) (auto split: nat.split)

lemma varchar_short: "length s \<le> n \<Longrightarrow> varchar n s = Some s"
  by (simp add: varchar_def take_chars_all)

lemma handle_UpdateProfile_okD:
  assumes "handle_UpdateProfile f now (Some u) (Some req) t = (JSON 200 p, t')" and "\<exists>r \<in> set t. pu_ID r = u"
  shows "t' = update_rows (\<lambda>r. pu_ID r = u) (\<lambda>r. r\<lparr>pu_DisplayName := Some (ur_DisplayName req), pu_Bio := Some (ur_Bio req),
      pu_PublicEnabled := Some (ur_PublicEnabled req = Some True), pu_UpdatedAt := now\<rparr>) t"
proof -
  have "(case ur_PublicEnabled req of None \<Rightarrow> False | Some b \<Rightarrow> b) = (ur_PublicEnabled req = Some True)"
    by (cases "ur_PublicEnabled req") auto
  moreover have "count_rows (\<lambda>r. pu_ID r = u) t \<noteq> 0" using assms(2) by (auto simp: count_rows_zero_iff)
  ultimately show ?thesis
    using assms(1)
    by (auto simp: handle_UpdateProfile_def repo_UpdateProfile_def varchar_short Let_def split: if_split_asm bool.split_asm)
qed

text \<open>An update as a request with the faults and the clock it meets, and the last request of a user that was answered with
  success in a sequence of them.\<close>

type_synonym profile_op = "faults \<times> time \<times> uuid option \<times> UpdateProfileRequest option"

definition profile_step :: "profile_op \<Rightarrow> profile_row list \<Rightarrow> profile_row list" where
  "profile_step op t = (case op of (f, now, user, body) \<Rightarrow> snd (handle_UpdateProfile f now user body t))"

definition answered_ok :: "uuid \<Rightarrow> profile_op \<Rightarrow> profile_row list \<Rightarrow> UpdateProfileRequest option" where
  "answered_ok u op t =
     (case op of (f, now, user, body) \<Rightarrow>
        if user = Some u then (case fst (handle_UpdateProfile f now user body t) of JSON status p \<Rightarrow> body | _ \<Rightarrow> None) else None)"

fun last_ok :: "uuid \<Rightarrow> profile_op list \<Rightarrow> profile_row list \<Rightarrow> UpdateProfileRequest option" where
  "last_ok u [] t = None"
| "last_ok u (op # ops) t = (case last_ok u ops (profile_step op t) of Some req \<Rightarrow> Some req | None \<Rightarrow> answered_ok u op t)"

text \<open>The row of a user after the last request that succeeded.\<close>

definition follows :: "profile_row \<Rightarrow> UpdateProfileRequest option \<Rightarrow> profile_row \<Rightarrow> bool" where
  "follows r wish r' \<longleftrightarrow> pu_ID r' = pu_ID r \<and> pu_Username r' = pu_Username r \<and> pu_Plan r' = pu_Plan r
     \<and> (case wish of
          None \<Rightarrow> pu_DisplayName r' = pu_DisplayName r \<and> pu_Bio r' = pu_Bio r \<and> pu_PublicEnabled r' = pu_PublicEnabled r
        | Some req \<Rightarrow> pu_DisplayName r' = Some (ur_DisplayName req) \<and> pu_Bio r' = Some (ur_Bio req)
            \<and> pu_PublicEnabled r' = Some (ur_PublicEnabled req = Some True))"

lemma follows_trans:
  "follows r w r1 \<Longrightarrow> follows r1 w' r2 \<Longrightarrow> follows r (case w' of Some req \<Rightarrow> Some req | None \<Rightarrow> w) r2"
  by (auto simp: follows_def split: option.split_asm)

lemma handle_UpdateProfile_cases:
  "snd (handle_UpdateProfile f now user body t) = t \<and> (\<forall>s p. fst (handle_UpdateProfile f now user body t) \<noteq> JSON s p)
   \<or> (\<exists>u req p. user = Some u \<and> body = Some req \<and> fst (handle_UpdateProfile f now user body t) = JSON 200 p)"
  by (cases user; cases body) (auto simp: handle_UpdateProfile_def repo_UpdateProfile_def Let_def split: option.split)

lemma profile_step_follows:
  assumes "r \<in> set t"
  shows "\<exists>r' \<in> set (profile_step op t). follows r (answered_ok (pu_ID r) op t) r'"
proof -
  obtain f now user body where op: "op = (f, now, user, body)" by (cases op) auto
  have same: "follows r None r" by (simp add: follows_def)
  from handle_UpdateProfile_cases [of f now user body t] show ?thesis
  proof (elim disjE exE conjE)
    assume "snd (handle_UpdateProfile f now user body t) = t" and "\<forall>s p. fst (handle_UpdateProfile f now user body t) \<noteq> JSON s p"
    then have "profile_step op t = t" "answered_ok (pu_ID r) op t = None"
      by (auto simp: op profile_step_def answered_ok_def split: response.split)
    then show ?thesis using same assms by auto
  next
    fix u req p
    assume ok: "user = Some u" "body = Some req" "fst (handle_UpdateProfile f now user body t) = JSON 200 p"
    then have eq: "handle_UpdateProfile f now (Some u) (Some req) t = (JSON 200 p, profile_step op t)"
      by (simp add: op profile_step_def prod_eq_iff)
    let ?g = "\<lambda>r. r\<lparr>pu_DisplayName := Some (ur_DisplayName req), pu_Bio := Some (ur_Bio req),
      pu_PublicEnabled := Some (ur_PublicEnabled req = Some True), pu_UpdatedAt := now\<rparr>"
    show ?thesis
    proof (cases "\<exists>x \<in> set t. pu_ID x = u")
      case True
      then have t': "profile_step op t = update_rows (\<lambda>r. pu_ID r = u) ?g t" by (rule handle_UpdateProfile_okD [OF eq])
      have "follows r (answered_ok (pu_ID r) op t) (if pu_ID r = u then ?g r else r)"
        using ok by (simp add: op answered_ok_def follows_def)
      moreover have "(if pu_ID r = u then ?g r else r) \<in> set (profile_step op t)" using assms unfolding t' set_update_rows by blast
      ultimately show ?thesis by blast
    next
      case False
      then have "count_rows (\<lambda>r. pu_ID r = u) t = 0" by (simp add: count_rows_zero_iff)
      then have "profile_step op t = t"
        using eq by (auto simp: handle_UpdateProfile_def repo_UpdateProfile_def Let_def split: if_split_asm)
      moreover have "answered_ok (pu_ID r) op t = None" using False assms ok(1) by (auto simp: op answered_ok_def)
      ultimately show ?thesis using same assms by auto
    qed
  qed
qed

lemma profile_step_keys:
  "map pu_ID (profile_step op t) = map pu_ID t \<and> map pu_Username (profile_step op t) = map pu_Username t"
proof -
  obtain f now user body where op: "op = (f, now, user, body)" by (cases op) auto
  have "map pu_ID (snd (repo_UpdateProfile x now u d b e t)) = map pu_ID t
      \<and> map pu_Username (snd (repo_UpdateProfile x now u d b e t)) = map pu_Username t" for x u d b e
    by (simp add: repo_UpdateProfile_def map_update_rows split: option.split)
  then show ?thesis unfolding op profile_step_def handle_UpdateProfile_def
    by (auto simp: Let_def case_prod_unfold split: option.split bool.split)
qed

lemma profiles_run:
  assumes "r \<in> set t"
  shows "\<exists>r' \<in> set (fold profile_step ops t). follows r (last_ok (pu_ID r) ops t) r'"
  using assms
proof (induction ops arbitrary: r t)
  case (Cons op ops)
  obtain r1 where r1: "r1 \<in> set (profile_step op t)" "follows r (answered_ok (pu_ID r) op t) r1"
    using profile_step_follows [OF Cons.prems] by blast
  obtain r2 where "r2 \<in> set (fold profile_step ops (profile_step op t))" "follows r1 (last_ok (pu_ID r1) ops (profile_step op t)) r2"
    using Cons.IH [OF r1(1)] by blast
  then show ?case using follows_trans [OF r1(2)] r1(2) by (auto simp: follows_def [of r])
qed (auto simp: follows_def)

lemma profiles_run_keys:
  "map pu_ID (fold profile_step ops t) = map pu_ID t \<and> map pu_Username (fold profile_step ops t) = map pu_Username t"
  by (induction ops arbitrary: t) (simp_all add: profile_step_keys)

text \<open>What the owner wants others to see: the profile with the submitted name and text when the last update that succeeded asked
  for a public profile, nothing when it did not, and the initial profile before any update.\<close>

definition wanted_profile :: "profile_row \<Rightarrow> UpdateProfileRequest option \<Rightarrow> PublicProfile option" where
  "wanted_profile r wish =
     (case wish of
        None \<Rightarrow> if pu_PublicEnabled r = Some True then Some (profile_of r) else None
      | Some req \<Rightarrow> if ur_PublicEnabled req = Some True
          then Some \<lparr>pp_Username = pu_Username r, pp_DisplayName = ur_DisplayName req, pp_Bio = ur_Bio req,
                     pp_Plan = coalesce (pu_Plan r) ''free'', pp_PublicEnabled = True\<rparr>
          else None)"

lemma follows_wanted:
  "follows r wish r' \<Longrightarrow> (if coalesce (pu_PublicEnabled r') False = True then Some (profile_of r') else None) = wanted_profile r wish"
  by (auto simp: follows_def wanted_profile_def profile_of_def coalesce_def split: option.split option.split_asm)

lemma public_profile_row:
  assumes "distinct (map pu_Username t)" and "r \<in> set t"
  shows "repo_GetPublicProfile False (pu_Username r) t = (if coalesce (pu_PublicEnabled r) False = True then Some (profile_of r) else None)"
proof -
  have one: "s = r" if "s \<in> set t" "pu_Username s = pu_Username r" for s using unique_row [of pu_Username t s r] assms that by blast
  show ?thesis
  proof (cases "find_row (\<lambda>s. pu_Username s = pu_Username r \<and> coalesce (pu_PublicEnabled s) False = True) t")
    case None
    then show ?thesis using assms(2) by (auto simp: repo_GetPublicProfile_def find_row_None_iff)
  next
    case (Some s)
    then show ?thesis using find_row_SomeD [OF Some] one [of s] by (simp add: repo_GetPublicProfile_def)
  qed
qed

text \<open>C34: others see a profile exactly while its owner wants it. After any sequence of updates, by whatever users and with
  whatever failures, a request for a user name is answered with the profile its owner wants to show at that moment, and with
  not found when the owner wants none (also when the last update did not say), when the name is unknown, or when the query fails.\<close>

theorem profile_visibility:
  assumes "profiles_inv t" and "name \<noteq> ''''"
  shows "handle_GetPublicProfile fault name (fold profile_step ops t) =
    (case find_row (\<lambda>r. pu_Username r = name) t of
       None \<Rightarrow> HttpError 404 ''not_found'' ''Profile not found''
     | Some r \<Rightarrow>
         (case wanted_profile r (last_ok (pu_ID r) ops t) of
            Some p \<Rightarrow> if fault then HttpError 404 ''not_found'' ''Profile not found'' else JSON 200 p
          | None \<Rightarrow> HttpError 404 ''not_found'' ''Profile not found''))"
proof (cases "find_row (\<lambda>r. pu_Username r = name) t")
  case None
  have names: "set (map pu_Username (fold profile_step ops t)) = set (map pu_Username t)" by (simp add: profiles_run_keys)
  have "name \<notin> set (map pu_Username t)" using None by (auto simp: find_row_None_iff)
  then have "name \<notin> pu_Username ` set (fold profile_step ops t)" using names by simp
  then have "repo_GetPublicProfile fault name (fold profile_step ops t) = None"
    by (auto simp: repo_GetPublicProfile_def find_row_None_iff)
  then show ?thesis using None assms(2) by (simp add: handle_GetPublicProfile_def)
next
  case (Some r)
  then have r: "r \<in> set t" "pu_Username r = name" using find_row_SomeD [OF Some] by simp_all
  obtain r' where r': "r' \<in> set (fold profile_step ops t)" "follows r (last_ok (pu_ID r) ops t) r'"
    using profiles_run [OF r(1)] by blast
  have "distinct (map pu_Username (fold profile_step ops t))" using assms(1) by (simp add: profiles_inv_def profiles_run_keys)
  from public_profile_row [OF this r'(1)]
  have "repo_GetPublicProfile False name (fold profile_step ops t) = wanted_profile r (last_ok (pu_ID r) ops t)"
    using follows_wanted [OF r'(2)] r'(2) r(2) by (simp add: follows_def)
  then show ?thesis using Some assms(2)
    by (cases fault) (auto simp: handle_GetPublicProfile_def repo_GetPublicProfile_def split: option.split)
qed

definition demo_profiles :: "profile_row list" where
  "demo_profiles = [\<lparr>pu_ID = 1, pu_Username = ''ann'', pu_DisplayName = None, pu_Bio = None, pu_Plan = None, pu_PublicEnabled = None,
     pu_UpdatedAt = 0\<rparr>]"

theorem profile_visibility_witness:
  "map (\<lambda>ops. handle_GetPublicProfile False ''ann'' (fold profile_step ops demo_profiles))
     [[], [(no_faults, 5, Some 1, Some \<lparr>ur_DisplayName = ''Ann'', ur_Bio = ''hi'', ur_PublicEnabled = Some True\<rparr>)],
      [(no_faults, 5, Some 1, Some \<lparr>ur_DisplayName = ''Ann'', ur_Bio = ''hi'', ur_PublicEnabled = Some True\<rparr>),
       (no_faults, 6, Some 1, Some \<lparr>ur_DisplayName = ''Ann'', ur_Bio = ''hi'', ur_PublicEnabled = None\<rparr>)]]
   = [HttpError 404 ''not_found'' ''Profile not found'',
      JSON 200 \<lparr>pp_Username = ''ann'', pp_DisplayName = ''Ann'', pp_Bio = ''hi'', pp_Plan = ''free'', pp_PublicEnabled = True\<rparr>,
      HttpError 404 ''not_found'' ''Profile not found'']"
proof -
  have inv: "profiles_inv demo_profiles" by (simp add: profiles_inv_def demo_profiles_def)
  show ?thesis
    by (simp add: profile_visibility [OF inv] del: fold.simps)
      (simp add: demo_profiles_def wanted_profile_def answered_ok_def profile_step_def handle_UpdateProfile_def repo_UpdateProfile_def
        varchar_short coalesce_def)
qed

text \<open>The limits count bytes: a name of 40 characters of three bytes each is refused as longer than 100 characters.\<close>

lemma limit_counts_bytes:
  "fst (handle_UpdateProfile f now (Some u) (Some \<lparr>ur_DisplayName = concat (replicate 40 [CHR 0xE4, CHR 0xB8, CHR 0xAD]), ur_Bio = '''',
     ur_PublicEnabled = None\<rparr>) t) = HttpError 400 ''validation_error'' ''Display name must be 100 characters or less''"
proof -
  have "length (concat (replicate 40 [CHR 0xE4, CHR 0xB8, CHR 0xAD])) = 120" by (simp add: length_concat sum_list_replicate)
  then show ?thesis by (simp add: handle_UpdateProfile_def)
qed

end
