(* ===== verification/Semantic_Search.thy ===== *)
theory Semantic_Search
  imports AnyNote_Prelude Http
begin

text \<open>
  Semantic search over vectors that clients compute: \<^verbatim>\<open>repository/note_embedding_repository.go\<close>,
  \<^verbatim>\<open>service/semantic_search_service.go\<close> and \<^verbatim>\<open>handler/semantic_search_handler.go\<close>. A \<open>float64\<close> is finite or
  not; how a finite one is printed is an argument. The extension pgvector is the other argument: it
  reads the text of a vector and measures the distance of two. Distances are ordered as PostgreSQL orders
  \<open>float8\<close>, with NaN last, here by an integer rank.
\<close>

datatype 'f float64 = NaN | Inf bool | Finite 'f

record ('f, 'v) VectorEnv =
  ve_format :: "'f \<Rightarrow> string"
  ve_parse :: "string \<Rightarrow> 'v option"
  ve_distance :: "'v \<Rightarrow> 'v \<Rightarrow> int"

record 'v embedding_row =
  em_UserID :: uuid
  em_NoteID :: uuid
  em_Lang :: string
  em_Dim :: nat
  em_Embedding :: 'v
  em_UpdatedAt :: time

record NoteEmbedding =
  ne_NoteID :: uuid
  ne_Lang :: string
  ne_Dim :: nat
  ne_UpdatedAt :: time

record SemanticSearchHit =
  sh_NoteID :: uuid
  sh_Lang :: string
  sh_Distance :: int

section \<open>Repository\<close>

fun join_commas :: "string list \<Rightarrow> string" where
  "join_commas [] = ''''"
| "join_commas [s] = s"
| "join_commas (s # ss) = s @ '','' @ join_commas ss"

definition is_finite :: "'f float64 \<Rightarrow> bool" where
  "is_finite x = (case x of Finite y \<Rightarrow> True | _ \<Rightarrow> False)"

definition format_float :: "('f \<Rightarrow> string) \<Rightarrow> 'f float64 \<Rightarrow> string" where
  "format_float fmt x = (case x of Finite y \<Rightarrow> fmt y | NaN \<Rightarrow> ''NaN'' | Inf neg \<Rightarrow> (if neg then ''-Inf'' else ''+Inf''))"

definition vectorLiteral :: "('f \<Rightarrow> string) \<Rightarrow> 'f float64 list \<Rightarrow> string option" where
  "vectorLiteral fmt v =
     (if v = [] then None
      else if list_ex (\<lambda>x. \<not> is_finite x) v then None
      else Some (''['' @ join_commas (map (format_float fmt) v) @ '']''))"

text \<open>The literal is an error of the query when pgvector does not accept it. A user without a row in \<^verbatim>\<open>users\<close> cannot have
  vectors.\<close>

definition emb_Upsert :: "('f, 'v) VectorEnv \<Rightarrow> bool \<Rightarrow> uuid list \<Rightarrow> time \<Rightarrow> uuid \<Rightarrow> uuid \<Rightarrow> string \<Rightarrow> 'f float64 list
    \<Rightarrow> 'v embedding_row list \<Rightarrow> bool \<times> 'v embedding_row list" where
  "emb_Upsert e fault users now userID noteID lang v t =
     (case Option.bind (vectorLiteral (ve_format e) v) (ve_parse e) of
        None \<Rightarrow> (False, t)
      | Some x \<Rightarrow>
          (let P = (\<lambda>r. em_UserID r = userID \<and> em_NoteID r = noteID)
           in if fault \<or> userID \<notin> set users then (False, t)
              else if find_row P t \<noteq> None
              then (True, update_rows P (\<lambda>r. r\<lparr>em_Lang := lang, em_Dim := length v, em_Embedding := x, em_UpdatedAt := now\<rparr>) t)
              else (True, t @ [\<lparr>em_UserID = userID, em_NoteID = noteID, em_Lang = lang, em_Dim = length v, em_Embedding = x,
                                em_UpdatedAt = now\<rparr>])))"

definition emb_Delete :: "bool \<Rightarrow> uuid \<Rightarrow> uuid \<Rightarrow> 'v embedding_row list \<Rightarrow> bool \<times> 'v embedding_row list" where
  "emb_Delete fault userID noteID t =
     (if fault then (False, t) else (True, delete_rows (\<lambda>r. em_UserID r = userID \<and> em_NoteID r = noteID) t))"

definition emb_Search :: "('f, 'v) VectorEnv \<Rightarrow> bool \<Rightarrow> uuid \<Rightarrow> 'f float64 list \<Rightarrow> int \<Rightarrow> 'v embedding_row list
    \<Rightarrow> SemanticSearchHit list option" where
  "emb_Search e fault userID query limit t =
     (case Option.bind (vectorLiteral (ve_format e) query) (ve_parse e) of
        None \<Rightarrow> None
      | Some q \<Rightarrow>
          if fault \<or> limit < 0 then None
          else Some (take (nat limit) (order_by sh_Distance
            (map (\<lambda>r. \<lparr>sh_NoteID = em_NoteID r, sh_Lang = em_Lang r, sh_Distance = ve_distance e (em_Embedding r) q\<rparr>)
              (filter (\<lambda>r. em_UserID r = userID \<and> em_Dim r = length query) t)))))"

definition ListForUser :: "bool \<Rightarrow> uuid \<Rightarrow> 'v embedding_row list \<Rightarrow> NoteEmbedding list option" where
  "ListForUser fault userID t =
     (if fault then None
      else Some (map (\<lambda>r. \<lparr>ne_NoteID = em_NoteID r, ne_Lang = em_Lang r, ne_Dim = em_Dim r, ne_UpdatedAt = em_UpdatedAt r\<rparr>)
        (filter (\<lambda>r. em_UserID r = userID) t)))"

datatype updated_at = EmbeddingNotFound | QueryFailed | UpdatedAt time

definition GetUpdatedAt :: "bool \<Rightarrow> uuid \<Rightarrow> uuid \<Rightarrow> 'v embedding_row list \<Rightarrow> updated_at" where
  "GetUpdatedAt fault userID noteID t =
     (if fault then QueryFailed
      else case find_row (\<lambda>r. em_UserID r = userID \<and> em_NoteID r = noteID) t of
        None \<Rightarrow> EmbeddingNotFound
      | Some r \<Rightarrow> UpdatedAt (em_UpdatedAt r))"

section \<open>Service\<close>

definition MaxEmbeddingDim :: nat where "MaxEmbeddingDim = 4096"
definition MinEmbeddingDim :: nat where "MinEmbeddingDim = 1"
definition DefaultSearchK :: int where "DefaultSearchK = 20"
definition MaxSearchK :: int where "MaxSearchK = 50"

definition validateEmbedding :: "'f float64 list \<Rightarrow> bool" where
  "validateEmbedding v \<longleftrightarrow>
     (if length v < MinEmbeddingDim \<or> length v > MaxEmbeddingDim then False else list_all is_finite v)"

datatype search_error = ErrInvalidEmbedding | StoreFailed

definition UpsertEmbedding :: "('f, 'v) VectorEnv \<Rightarrow> bool \<Rightarrow> uuid list \<Rightarrow> time \<Rightarrow> uuid \<Rightarrow> uuid \<Rightarrow> string \<Rightarrow> 'f float64 list
    \<Rightarrow> 'v embedding_row list \<Rightarrow> search_error option \<times> 'v embedding_row list" where
  "UpsertEmbedding e fault users now userID noteID lang v t =
     (if \<not> validateEmbedding v then (Some ErrInvalidEmbedding, t)
      else case emb_Upsert e fault users now userID noteID lang v t of
        (True, t') \<Rightarrow> (None, t')
      | (False, t') \<Rightarrow> (Some StoreFailed, t'))"

definition svc_Search :: "('f, 'v) VectorEnv \<Rightarrow> bool \<Rightarrow> uuid \<Rightarrow> 'f float64 list \<Rightarrow> int \<Rightarrow> 'v embedding_row list
    \<Rightarrow> search_error + SemanticSearchHit list" where
  "svc_Search e fault userID query limit0 t =
     (if \<not> validateEmbedding query then Inl ErrInvalidEmbedding
      else let limit1 = (if limit0 \<le> 0 then DefaultSearchK else limit0);
               limit = (if limit1 > MaxSearchK then MaxSearchK else limit1)
           in case emb_Search e fault userID query limit t of None \<Rightarrow> Inl StoreFailed | Some hits \<Rightarrow> Inr hits)"

section \<open>Handlers\<close>

record 'f UpsertEmbeddingRequest =
  ue_NoteID :: uuid
  ue_Lang :: string
  ue_Embedding :: "'f float64 list"

text \<open>The identifier \<open>0\<close> stands for \<open>uuid.Nil\<close>.\<close>

definition handle_UpsertEmbedding :: "('f, 'v) VectorEnv \<Rightarrow> bool \<Rightarrow> uuid list \<Rightarrow> time \<Rightarrow> uuid option \<Rightarrow> 'f UpsertEmbeddingRequest option
    \<Rightarrow> 'v embedding_row list \<Rightarrow> unit response \<times> 'v embedding_row list" where
  "handle_UpsertEmbedding e fault users now user body t =
     (case user of
        None \<Rightarrow> (HttpError 401 ''unauthorized'' '''', t)
      | Some userID \<Rightarrow>
          (case body of
             None \<Rightarrow> (HttpError 400 ''invalid_request'' ''Failed to parse request body'', t)
           | Some req \<Rightarrow>
               if ue_NoteID req = 0 then (HttpError 400 ''validation_error'' ''note_id is required'', t)
               else case UpsertEmbedding e fault users now userID (ue_NoteID req) (ue_Lang req) (ue_Embedding req) t of
                 (Some ErrInvalidEmbedding, t') \<Rightarrow> (HttpError 400 ''validation_error'' ''embedding must be 1..4096 finite floats'', t')
               | (Some StoreFailed, t') \<Rightarrow> (HttpError 500 ''embedding_upsert_error'' ''Failed to store embedding'', t')
               | (None, t') \<Rightarrow> (JSON 200 (), t')))"

definition handle_DeleteEmbedding :: "bool \<Rightarrow> (string \<Rightarrow> uuid option) \<Rightarrow> uuid option \<Rightarrow> string \<Rightarrow> 'v embedding_row list
    \<Rightarrow> unit response \<times> 'v embedding_row list" where
  "handle_DeleteEmbedding fault parse user noteIDStr t =
     (case user of
        None \<Rightarrow> (HttpError 401 ''unauthorized'' '''', t)
      | Some userID \<Rightarrow>
          (case parse noteIDStr of
             None \<Rightarrow> (HttpError 400 ''validation_error'' ''invalid note id'', t)
           | Some noteID \<Rightarrow>
               (case emb_Delete fault userID noteID t of
                  (False, t') \<Rightarrow> (HttpError 500 ''embedding_delete_error'' ''Failed to delete embedding'', t')
                | (True, t') \<Rightarrow> (JSON 200 (), t'))))"

definition handle_Search :: "('f, 'v) VectorEnv \<Rightarrow> bool \<Rightarrow> uuid option \<Rightarrow> ('f float64 list \<times> int) option \<Rightarrow> 'v embedding_row list
    \<Rightarrow> SemanticSearchHit list response" where
  "handle_Search e fault user body t =
     (case user of
        None \<Rightarrow> HttpError 401 ''unauthorized'' ''''
      | Some userID \<Rightarrow>
          (case body of
             None \<Rightarrow> HttpError 400 ''invalid_request'' ''Failed to parse request body''
           | Some (query, limit) \<Rightarrow>
               (case svc_Search e fault userID query limit t of
                  Inl ErrInvalidEmbedding \<Rightarrow> HttpError 400 ''validation_error'' ''query_vector must be 1..4096 finite floats''
                | Inl StoreFailed \<Rightarrow> HttpError 500 ''semantic_search_error'' ''Failed to search''
                | Inr hits \<Rightarrow> JSON 200 hits)))"

definition handle_ListEmbeddings :: "bool \<Rightarrow> uuid option \<Rightarrow> 'v embedding_row list \<Rightarrow> NoteEmbedding list response" where
  "handle_ListEmbeddings fault user t =
     (case user of
        None \<Rightarrow> HttpError 401 ''unauthorized'' ''''
      | Some userID \<Rightarrow>
          (case ListForUser fault userID t of
             None \<Rightarrow> HttpError 500 ''embedding_list_error'' ''Failed to list embeddings''
           | Some xs \<Rightarrow> JSON 200 xs))"

section \<open>Nearest notes\<close>

definition emb_key :: "'v embedding_row \<Rightarrow> uuid \<times> uuid" where
  "emb_key r = (em_UserID r, em_NoteID r)"

definition emb_inv :: "'v embedding_row list \<Rightarrow> bool" where
  "emb_inv t \<longleftrightarrow> distinct (map emb_key t) \<and> (\<forall>r \<in> set t. 1 \<le> em_Dim r \<and> em_Dim r \<le> MaxEmbeddingDim)"

lemma sorted_take_drop: "sorted xs \<Longrightarrow> x \<in> set (take n xs) \<Longrightarrow> y \<in> set (drop n xs) \<Longrightarrow> x \<le> y"
  by (metis append_take_drop_id sorted_append)

text \<open>The vectors that a validation accepts always have a literal, so only the database can refuse them.\<close>

lemma validateEmbedding_literal: "validateEmbedding v \<Longrightarrow> vectorLiteral fmt v \<noteq> None"
  by (auto simp: validateEmbedding_def vectorLiteral_def MinEmbeddingDim_def list_all_iff list_ex_iff split: if_split_asm)

lemma UpsertEmbedding_okD:
  fixes e :: "('f, 'v) VectorEnv" and t :: "'v embedding_row list"
  assumes "UpsertEmbedding e fault users now u n lang v t = (None, t')" and "emb_inv t"
  shows "emb_inv t' \<and> (\<exists>x. Option.bind (vectorLiteral (ve_format e) v) (ve_parse e) = Some x
      \<and> filter (\<lambda>r. emb_key r = (u, n)) t' = [\<lparr>em_UserID = u, em_NoteID = n, em_Lang = lang, em_Dim = length v, em_Embedding = x, em_UpdatedAt = now\<rparr>])
    \<and> filter (\<lambda>r. emb_key r \<noteq> (u, n)) t' = filter (\<lambda>r. emb_key r \<noteq> (u, n)) t"
proof -
  let ?P = "\<lambda>r. em_UserID r = u \<and> em_NoteID r = n"
  obtain x where x: "Option.bind (vectorLiteral (ve_format e) v) (ve_parse e) = Some x" and val: "validateEmbedding v"
    using assms(1) by (auto simp: UpsertEmbedding_def emb_Upsert_def split: if_split_asm option.split_asm prod.split_asm bool.split_asm)
  define new where "new = \<lparr>em_UserID = u, em_NoteID = n, em_Lang = lang, em_Dim = length v, em_Embedding = x, em_UpdatedAt = now\<rparr>"
  define g where "g = (\<lambda>r. r\<lparr>em_Lang := lang, em_Dim := length v, em_Embedding := x, em_UpdatedAt := now\<rparr> :: 'v embedding_row)"
  have dim: "1 \<le> length v" "length v \<le> MaxEmbeddingDim"
    using val by (auto simp: validateEmbedding_def MinEmbeddingDim_def Suc_le_eq split: if_split_asm)
  have key: "emb_key r = (u, n) \<longleftrightarrow> ?P r" for r :: "'v embedding_row" by (simp add: emb_key_def)
  have gk: "emb_key (g r) = emb_key r" for r by (simp add: g_def emb_key_def)
  have gP: "?P r \<Longrightarrow> g r = new" for r by (cases r) (simp add: g_def new_def)
  have t': "t' = (if find_row ?P t \<noteq> None then update_rows ?P g t else t @ [new])"
    using assms(1) x unfolding g_def new_def
    by (auto simp: UpsertEmbedding_def emb_Upsert_def Let_def split: if_split_asm prod.split_asm bool.split_asm)
  have inv: "emb_inv t'"
    using assms(2) dim unfolding emb_inv_def t'
    by (auto simp: map_update_rows gk set_update_rows find_row_None_iff emb_key_def g_def new_def)
  have mem: "new \<in> set t'"
  proof (cases "find_row ?P t")
    case (Some r)
    then show ?thesis using find_row_SomeD [OF Some] update_rows_member [of r t ?P g] gP by (auto simp: t')
  qed (simp add: t')
  have "filter (\<lambda>r. emb_key r = (u, n)) t' = [new]"
  proof -
    have "distinct (map emb_key t')" using inv by (simp add: emb_inv_def)
    moreover have "emb_key new = (u, n)" by (simp add: new_def emb_key_def)
    ultimately show ?thesis using mem
    proof (induction t')
      case (Cons a t')
      then show ?case by (cases "a = new") (auto simp: filter_empty_conv image_iff)
    qed simp
  qed
  moreover have "filter (\<lambda>r. emb_key r \<noteq> (u, n)) t' = filter (\<lambda>r. emb_key r \<noteq> (u, n)) t"
  proof (cases "find_row ?P t")
    case (Some r)
    have "filter (\<lambda>r. emb_key r \<noteq> (u, n)) (update_rows ?P g t) = filter (\<lambda>r. emb_key r \<noteq> (u, n)) t"
      by (rule filter_update_rows_other) (simp add: gk key)
    then show ?thesis using Some by (simp add: t')
  qed (simp add: t' new_def emb_key_def)
  ultimately show ?thesis using inv x by (auto simp: new_def)
qed

text \<open>C35: semantic search. A stored vector replaces the one of the same note and no other row; the table keeps one row per note
  and only dimensions within the limits. A search answers at most 50 notes, all of them notes of the
  caller with vectors of the dimension of the query, nearest first, and none of the caller's other notes of
  that dimension is nearer than one that is returned.\<close>

theorem semantic_search_nearest:
  fixes e :: "('f, 'v) VectorEnv" and t :: "'v embedding_row list"
  assumes "emb_inv t"
  shows "(\<forall>fault users now req t'. handle_UpsertEmbedding e fault users now (Some u) (Some req) t = (JSON 200 (), t') \<longrightarrow>
      emb_inv t' \<and> length (filter (\<lambda>r. emb_key r = (u, ue_NoteID req)) t') = 1
      \<and> (\<forall>r \<in> set t'. emb_key r = (u, ue_NoteID req) \<longrightarrow> em_Lang r = ue_Lang req \<and> em_Dim r = length (ue_Embedding req) \<and> em_UpdatedAt r = now)
      \<and> filter (\<lambda>r. emb_key r \<noteq> (u, ue_NoteID req)) t' = filter (\<lambda>r. emb_key r \<noteq> (u, ue_NoteID req)) t)
    \<and> (\<forall>fault query limit hits. handle_Search e fault (Some u) (Some (query, limit)) t = JSON 200 hits \<longrightarrow>
      length hits \<le> 50 \<and> sorted (map sh_Distance hits)
      \<and> (\<exists>q. Option.bind (vectorLiteral (ve_format e) query) (ve_parse e) = Some q
         \<and> (\<forall>h \<in> set hits. \<exists>r \<in> set t. em_UserID r = u \<and> em_Dim r = length query \<and> sh_NoteID h = em_NoteID r
              \<and> sh_Distance h = ve_distance e (em_Embedding r) q)
         \<and> (\<forall>r \<in> set t. em_UserID r = u \<and> em_Dim r = length query \<longrightarrow>
              em_NoteID r \<in> sh_NoteID ` set hits \<or> (\<forall>h \<in> set hits. sh_Distance h \<le> ve_distance e (em_Embedding r) q))))"
proof (intro conjI)
  show "\<forall>fault users now req t'. handle_UpsertEmbedding e fault users now (Some u) (Some req) t = (JSON 200 (), t') \<longrightarrow>
      emb_inv t' \<and> length (filter (\<lambda>r. emb_key r = (u, ue_NoteID req)) t') = 1
      \<and> (\<forall>r \<in> set t'. emb_key r = (u, ue_NoteID req) \<longrightarrow> em_Lang r = ue_Lang req \<and> em_Dim r = length (ue_Embedding req) \<and> em_UpdatedAt r = now)
      \<and> filter (\<lambda>r. emb_key r \<noteq> (u, ue_NoteID req)) t' = filter (\<lambda>r. emb_key r \<noteq> (u, ue_NoteID req)) t"
  proof (intro allI impI)
    fix fault users now t' and req :: "'f UpsertEmbeddingRequest"
    assume "handle_UpsertEmbedding e fault users now (Some u) (Some req) t = (JSON 200 (), t')"
    then have "UpsertEmbedding e fault users now u (ue_NoteID req) (ue_Lang req) (ue_Embedding req) t = (None, t')"
      by (auto simp: handle_UpsertEmbedding_def split: if_split_asm prod.split_asm option.split_asm search_error.split_asm)
    from UpsertEmbedding_okD [OF this assms] obtain x where
      inv: "emb_inv t'" and one: "filter (\<lambda>r. emb_key r = (u, ue_NoteID req)) t' = [\<lparr>em_UserID = u, em_NoteID = ue_NoteID req,
        em_Lang = ue_Lang req, em_Dim = length (ue_Embedding req), em_Embedding = x, em_UpdatedAt = now\<rparr>]"
      and rest: "filter (\<lambda>r. emb_key r \<noteq> (u, ue_NoteID req)) t' = filter (\<lambda>r. emb_key r \<noteq> (u, ue_NoteID req)) t" by blast
    have row: "em_Lang r = ue_Lang req \<and> em_Dim r = length (ue_Embedding req) \<and> em_UpdatedAt r = now"
      if "r \<in> set t'" "emb_key r = (u, ue_NoteID req)" for r
    proof -
      have "r \<in> set (filter (\<lambda>r. emb_key r = (u, ue_NoteID req)) t')" using that by simp
      then show ?thesis unfolding one by simp
    qed
    show "emb_inv t' \<and> length (filter (\<lambda>r. emb_key r = (u, ue_NoteID req)) t') = 1
      \<and> (\<forall>r \<in> set t'. emb_key r = (u, ue_NoteID req) \<longrightarrow> em_Lang r = ue_Lang req \<and> em_Dim r = length (ue_Embedding req) \<and> em_UpdatedAt r = now)
      \<and> filter (\<lambda>r. emb_key r \<noteq> (u, ue_NoteID req)) t' = filter (\<lambda>r. emb_key r \<noteq> (u, ue_NoteID req)) t"
      using inv rest row by (simp add: one)
  qed
next
  show "\<forall>fault query limit hits. handle_Search e fault (Some u) (Some (query, limit)) t = JSON 200 hits \<longrightarrow>
      length hits \<le> 50 \<and> sorted (map sh_Distance hits)
      \<and> (\<exists>q. Option.bind (vectorLiteral (ve_format e) query) (ve_parse e) = Some q
         \<and> (\<forall>h \<in> set hits. \<exists>r \<in> set t. em_UserID r = u \<and> em_Dim r = length query \<and> sh_NoteID h = em_NoteID r
              \<and> sh_Distance h = ve_distance e (em_Embedding r) q)
         \<and> (\<forall>r \<in> set t. em_UserID r = u \<and> em_Dim r = length query \<longrightarrow>
              em_NoteID r \<in> sh_NoteID ` set hits \<or> (\<forall>h \<in> set hits. sh_Distance h \<le> ve_distance e (em_Embedding r) q)))"
  proof (intro allI impI)
    fix fault query limit hits
    assume run: "handle_Search e fault (Some u) (Some (query, limit)) t = JSON 200 hits"
    define l where "l = (if (if limit \<le> 0 then DefaultSearchK else limit) > MaxSearchK then MaxSearchK else if limit \<le> 0 then DefaultSearchK else limit)"
    have l: "nat l \<le> 50" by (auto simp: l_def MaxSearchK_def DefaultSearchK_def nat_le_iff)
    from run have "emb_Search e fault u query l t = Some hits"
      by (auto simp: handle_Search_def svc_Search_def Let_def l_def split: if_split_asm sum.split_asm search_error.split_asm option.split_asm)
    then obtain q where q: "Option.bind (vectorLiteral (ve_format e) query) (ve_parse e) = Some q"
      and hits: "hits = take (nat l) (order_by sh_Distance (map (\<lambda>r. \<lparr>sh_NoteID = em_NoteID r, sh_Lang = em_Lang r, sh_Distance = ve_distance e (em_Embedding r) q\<rparr>)
              (filter (\<lambda>r. em_UserID r = u \<and> em_Dim r = length query) t)))"
      by (auto simp: emb_Search_def split: option.split_asm if_split_asm)
    define hit where "hit r = \<lparr>sh_NoteID = em_NoteID r, sh_Lang = em_Lang r, sh_Distance = ve_distance e (em_Embedding r) q\<rparr>" for r :: "'v embedding_row"
    define cand where "cand = order_by sh_Distance (map hit (filter (\<lambda>r. em_UserID r = u \<and> em_Dim r = length query) t))"
    have h: "hits = take (nat l) cand" unfolding hits cand_def hit_def ..
    have sorted: "sorted (map sh_Distance cand)" by (simp add: cand_def)
    have set: "set cand = hit ` {r \<in> set t. em_UserID r = u \<and> em_Dim r = length query}" by (auto simp: cand_def)
    have 1: "length hits \<le> 50" using l by (simp add: h)
    have 2: "sorted (map sh_Distance hits)" using sorted by (simp add: h take_map [symmetric] sorted_wrt_take)
    have 3: "\<exists>r \<in> set t. em_UserID r = u \<and> em_Dim r = length query \<and> sh_NoteID x = em_NoteID r \<and> sh_Distance x = ve_distance e (em_Embedding r) q"
      if "x \<in> set hits" for x
      using in_set_takeD [of x "nat l" cand] that set by (auto simp: h hit_def)
    have 4: "em_NoteID r \<in> sh_NoteID ` set hits \<or> (\<forall>x \<in> set hits. sh_Distance x \<le> ve_distance e (em_Embedding r) q)"
      if "r \<in> set t" "em_UserID r = u" "em_Dim r = length query" for r
    proof -
      have "hit r \<in> set (take (nat l) cand) \<or> hit r \<in> set (drop (nat l) cand)"
        using that set by (metis (mono_tags, lifting) Un_iff append_take_drop_id image_eqI mem_Collect_eq set_append)
      then show ?thesis
      proof
        assume "hit r \<in> set (take (nat l) cand)"
        then show ?thesis by (auto simp: h hit_def image_iff intro!: bexI [of _ "hit r"])
      next
        assume d: "hit r \<in> set (drop (nat l) cand)"
        have "sh_Distance x \<le> sh_Distance (hit r)" if "x \<in> set hits" for x
          by (rule sorted_take_drop [OF sorted, of _ "nat l"]) (use that d in \<open>auto simp: h take_map drop_map\<close>)
        then show ?thesis by (simp add: hit_def)
      qed
    qed
    show "length hits \<le> 50 \<and> sorted (map sh_Distance hits)
      \<and> (\<exists>q. Option.bind (vectorLiteral (ve_format e) query) (ve_parse e) = Some q
         \<and> (\<forall>h \<in> set hits. \<exists>r \<in> set t. em_UserID r = u \<and> em_Dim r = length query \<and> sh_NoteID h = em_NoteID r
              \<and> sh_Distance h = ve_distance e (em_Embedding r) q)
         \<and> (\<forall>r \<in> set t. em_UserID r = u \<and> em_Dim r = length query \<longrightarrow>
              em_NoteID r \<in> sh_NoteID ` set hits \<or> (\<forall>h \<in> set hits. sh_Distance h \<le> ve_distance e (em_Embedding r) q)))"
      using 1 2 q 3 4 by blast
  qed
qed

text \<open>Vectors of one number, printed in unary and read back, with the difference as distance.\<close>

definition demo_vectors :: "(nat, nat) VectorEnv" where
  "demo_vectors = \<lparr>ve_format = (\<lambda>n. replicate n (CHR ''1'')), ve_parse = (\<lambda>s. Some (length s - 2)),
     ve_distance = (\<lambda>a b. \<bar>int a - int b\<bar>)\<rparr>"

definition demo_embeddings :: "nat embedding_row list" where
  "demo_embeddings = [\<lparr>em_UserID = 1, em_NoteID = 7, em_Lang = '''', em_Dim = 1, em_Embedding = 3, em_UpdatedAt = 0\<rparr>,
     \<lparr>em_UserID = 1, em_NoteID = 8, em_Lang = '''', em_Dim = 1, em_Embedding = 9, em_UpdatedAt = 0\<rparr>,
     \<lparr>em_UserID = 2, em_NoteID = 9, em_Lang = '''', em_Dim = 1, em_Embedding = 4, em_UpdatedAt = 0\<rparr>]"

theorem semantic_search_nearest_witness:
  "\<exists>hits. handle_Search demo_vectors False (Some 1) (Some ([Finite 4], 1)) demo_embeddings = JSON 200 hits
     \<and> map sh_NoteID hits = [7] \<and> length hits \<le> 50 \<and> sorted (map sh_Distance hits)"
proof -
  have inv: "emb_inv demo_embeddings" by (simp add: emb_inv_def demo_embeddings_def emb_key_def MaxEmbeddingDim_def)
  have run: "handle_Search demo_vectors False (Some 1) (Some ([Finite 4], 1)) demo_embeddings
      = JSON 200 [\<lparr>sh_NoteID = 7, sh_Lang = '''', sh_Distance = 1\<rparr>]"
    by (simp add: handle_Search_def svc_Search_def emb_Search_def validateEmbedding_def MinEmbeddingDim_def MaxEmbeddingDim_def
        MaxSearchK_def vectorLiteral_def is_finite_def format_float_def demo_vectors_def demo_embeddings_def order_by_def)
  show ?thesis
    using semantic_search_nearest [OF inv, THEN conjunct2, rule_format, OF run] run by auto
qed

section \<open>Isolation of users\<close>

datatype 'f emb_op =
    EmbUpsert bool "uuid list" time uuid "'f UpsertEmbeddingRequest option"
  | EmbDelete bool "string \<Rightarrow> uuid option" uuid string

fun emb_owner :: "'f emb_op \<Rightarrow> uuid option" where
  "emb_owner (EmbUpsert fault users now u body) = Some u"
| "emb_owner (EmbDelete fault parse u s) = Some u"

fun run_emb :: "('f, 'v) VectorEnv \<Rightarrow> 'f emb_op \<Rightarrow> 'v embedding_row list \<Rightarrow> 'v embedding_row list" where
  "run_emb e (EmbUpsert fault users now u body) t = snd (handle_UpsertEmbedding e fault users now (Some u) body t)"
| "run_emb e (EmbDelete fault parse u s) t = snd (handle_DeleteEmbedding fault parse (Some u) s t)"

lemma handle_Upsert_cases:
  fixes e :: "('f, 'v) VectorEnv" and body :: "'f UpsertEmbeddingRequest option" and t :: "'v embedding_row list"
  assumes "emb_inv t"
  obtains "snd (handle_UpsertEmbedding e fault users now (Some u) body t) = t"
  | req :: "'f UpsertEmbeddingRequest" where "UpsertEmbedding e fault users now u (ue_NoteID req) (ue_Lang req) (ue_Embedding req) t
      = (None, snd (handle_UpsertEmbedding e fault users now (Some u) body t))"
proof (cases body)
  case None
  then show ?thesis using that(1) by (simp add: handle_UpsertEmbedding_def)
next
  case (Some req)
  obtain err t' where r: "UpsertEmbedding e fault users now u (ue_NoteID req) (ue_Lang req) (ue_Embedding req) t = (err, t')" by fastforce
  show ?thesis
  proof (cases "err = None \<and> ue_NoteID req \<noteq> 0")
    case True
    then show ?thesis using that(2) [of req] r Some by (simp add: handle_UpsertEmbedding_def)
  next
    case False
    have "err \<noteq> None \<Longrightarrow> t' = t"
      using r by (auto simp: UpsertEmbedding_def emb_Upsert_def Let_def split: if_split_asm option.split_asm prod.split_asm bool.split_asm)
    then have "snd (handle_UpsertEmbedding e fault users now (Some u) body t) = t"
      using False Some r by (auto simp: handle_UpsertEmbedding_def split: option.split search_error.split)
    then show ?thesis using that(1) by blast
  qed
qed

lemma filter_owner:
  "filter (\<lambda>r. emb_key r \<noteq> (u, n)) t' = filter (\<lambda>r. emb_key r \<noteq> (u, n)) t \<Longrightarrow> v \<noteq> u \<Longrightarrow>
   filter (\<lambda>r. em_UserID r = v) t' = filter (\<lambda>r. em_UserID r = v) t"
proof -
  assume a: "filter (\<lambda>r. emb_key r \<noteq> (u, n)) t' = filter (\<lambda>r. emb_key r \<noteq> (u, n)) t" "v \<noteq> u"
  have "filter (\<lambda>r. em_UserID r = v) s = filter (\<lambda>r. em_UserID r = v) (filter (\<lambda>r. emb_key r \<noteq> (u, n)) s)" for s :: "'a embedding_row list"
    using a(2) by (auto simp: emb_key_def intro: filter_cong)
  then show ?thesis using a(1) by metis
qed

lemma handle_Upsert_step:
  fixes e :: "('b, 'c) VectorEnv" and body :: "'b UpsertEmbeddingRequest option" and t :: "'c embedding_row list"
  assumes "emb_inv t"
  shows "emb_inv (snd (handle_UpsertEmbedding e fault users now (Some u) body t))
    \<and> (v \<noteq> u \<longrightarrow> filter (\<lambda>r. em_UserID r = v) (snd (handle_UpsertEmbedding e fault users now (Some u) body t)) = filter (\<lambda>r. em_UserID r = v) t)"
proof (rule handle_Upsert_cases [OF assms, of e fault users now u body])
  fix req :: "'b UpsertEmbeddingRequest"
  assume "UpsertEmbedding e fault users now u (ue_NoteID req) (ue_Lang req) (ue_Embedding req) t
      = (None, snd (handle_UpsertEmbedding e fault users now (Some u) body t))"
  from UpsertEmbedding_okD [OF this assms] filter_owner [of u "ue_NoteID req"] show ?thesis by blast
qed (use assms in simp)

lemma handle_DeleteEmbedding_step:
  assumes "emb_inv t"
  shows "emb_inv (snd (handle_DeleteEmbedding fault parse (Some u) s t))
    \<and> (v \<noteq> u \<longrightarrow> filter (\<lambda>r. em_UserID r = v) (snd (handle_DeleteEmbedding fault parse (Some u) s t)) = filter (\<lambda>r. em_UserID r = v) t)"
  using assms
  by (auto simp: handle_DeleteEmbedding_def emb_Delete_def emb_inv_def distinct_map_delete_rows
      intro: filter_delete_rows_other split: option.split)

interpretation em: owned_ops "run_emb e" emb_owner emb_inv "\<lambda>u. filter (\<lambda>r. em_UserID r = u)" for e :: "('f, 'v) VectorEnv"
proof
  fix s :: "'v embedding_row list" and x :: "'f emb_op" assume "emb_inv s"
  then show "emb_inv (run_emb e x s)"
    using handle_Upsert_step [THEN conjunct1] handle_DeleteEmbedding_step [THEN conjunct1] by (cases x) (simp_all only: run_emb.simps)
next
  fix s :: "'v embedding_row list" and x :: "'f emb_op" and u assume "emb_inv s" "emb_owner x \<noteq> Some u"
  then show "filter (\<lambda>r. em_UserID r = u) (run_emb e x s) = filter (\<lambda>r. em_UserID r = u) s"
    by (cases x) (auto intro!: handle_Upsert_step [THEN conjunct2, rule_format] handle_DeleteEmbedding_step [THEN conjunct2, rule_format])
qed

lemma embeddings_isolated:
  assumes "emb_inv t" and "\<forall>x \<in> set xs. emb_owner x \<noteq> Some u"
  shows "handle_ListEmbeddings fault (Some u) (fold (run_emb e) xs t) = handle_ListEmbeddings fault (Some u) t"
  using em.run_view [OF assms, of e] by (simp add: handle_ListEmbeddings_def ListForUser_def)

end
