(* ===== verification/Adapters.thy ===== *)
theory Adapters
  imports Platform LLM_Config Json
begin

text \<open>
  What the publishing adapters share: the environment of a call with its HTTP client
  (\<^verbatim>\<open>platform/httpclient/client.go\<close>), the decryption of stored credentials (\<^verbatim>\<open>platform/common/helpers.go\<close>),
  and the decoding of JSON into structs, with errors. The network, the encoder and the parser of JSON, and
  the clock are arguments; an adapter returns the requests it has sent.
\<close>

section \<open>Numbers\<close>

fun nat_digits :: "nat \<Rightarrow> string" where
  "nat_digits n = (if n < 10 then [char_of (48 + n)] else nat_digits (n div 10) @ [char_of (48 + n mod 10)])"

declare nat_digits.simps [simp del]

definition show_int :: "int \<Rightarrow> string" where
  "show_int n = (if n < 0 then CHR ''-'' # nat_digits (nat (- n)) else nat_digits (nat n))"

lemma digits_value_snoc:
  "digits_value acc (s @ [c]) = (case digits_value acc s of None \<Rightarrow> None | Some v \<Rightarrow> map_option (\<lambda>d. v * 10 + d) (digit_value c))"
  by (induction acc s rule: digits_value.induct) (auto split: option.split)

lemma digit_value_char [simp]: "n < 10 \<Longrightarrow> digit_value (char_of (48 + n)) = Some (int n)"
  by (simp add: digit_value_def)

lemma digits_value_nat_digits [simp]: "digits_value 0 (nat_digits n) = Some (int n)"
proof (induction n rule: nat_digits.induct)
  case (1 n)
  show ?case
  proof (cases "n < 10")
    case False
    then show ?thesis using 1
      by (simp add: nat_digits.simps [of n] digits_value_snoc) (metis mult.commute of_nat_add of_nat_mult of_nat_numeral mod_mult_div_eq add.commute)
  qed (simp add: nat_digits.simps)
qed

lemma nat_digits_head: "\<exists>c s. nat_digits n = c # s \<and> digit_value c \<noteq> None"
proof (induction n rule: nat_digits.induct)
  case (1 n)
  then show ?case by (cases "n < 10") (auto simp: nat_digits.simps [of n])
qed

text \<open>What \<^verbatim>\<open>%d\<close> prints, \<open>strconv.Atoi\<close> reads.\<close>

lemma Atoi_show_int:
  assumes "- (2 ^ 63) \<le> n" and "n < 2 ^ 63"
  shows "Atoi (show_int n) = Some n"
proof (cases "n < 0")
  case True
  obtain c s where "nat_digits (nat (- n)) = c # s" using nat_digits_head by blast
  then show ?thesis using True assms digits_value_nat_digits [of "nat (- n)"] by (simp add: show_int_def Atoi_def Let_def)
next
  case False
  obtain c s where cs: "nat_digits (nat n) = c # s" "digit_value c \<noteq> None" using nat_digits_head by blast
  then have "c \<noteq> CHR ''-''" "c \<noteq> CHR ''+''" by (auto simp: digit_value_def)
  then show ?thesis using False cs assms digits_value_nat_digits [of "nat n"] by (simp add: show_int_def Atoi_def Let_def)
qed

definition UnixMilli :: "time \<Rightarrow> int" where
  "UnixMilli t = t div 1000000"

definition Unix :: "time \<Rightarrow> int" where
  "Unix t = t div second"

section \<open>Requests\<close>

record http_request =
  rq_Method :: string
  rq_URL :: string
  rq_Headers :: "(string \<times> string) list"
  rq_Body :: string

text \<open>No answer, or a status with the bytes of the body that can be read and the error that ends them.\<close>

datatype http_reply = NoReply string | Reply nat string "string option"

text \<open>\<open>io.ReadAll\<close> on an \<open>io.LimitReader\<close>.\<close>

definition read_limited :: "nat \<Rightarrow> string \<Rightarrow> string option \<Rightarrow> string + string" where
  "read_limited n body err =
     (if n \<le> length body then Inr (take n body) else case err of None \<Rightarrow> Inr body | Some m \<Rightarrow> Inl m)"

text \<open>The name of a header: letters after the start and after a hyphen in upper case, the others in lower case, unless
  the name has a byte that does not belong there.\<close>

definition header_char :: "char \<Rightarrow> bool" where
  "header_char c \<longleftrightarrow> (let n = of_char c :: nat in 48 \<le> n \<and> n \<le> 57 \<or> 65 \<le> n \<and> n \<le> 90 \<or> 97 \<le> n \<and> n \<le> 122
     \<or> n \<in> {33, 35, 36, 37, 38, 39, 42, 43, 45, 46, 94, 95, 96, 124, 126})"

definition upper_char :: "char \<Rightarrow> char" where
  "upper_char c = (if 97 \<le> (of_char c :: nat) \<and> (of_char c :: nat) \<le> 122 then char_of ((of_char c :: nat) - 32) else c)"

fun canonical_from :: "bool \<Rightarrow> string \<Rightarrow> string" where
  "canonical_from upper [] = []"
| "canonical_from upper (c # s) = (if upper then upper_char c else lower_char c) # canonical_from (c = CHR ''-'') s"

definition CanonicalHeaderKey :: "string \<Rightarrow> string" where
  "CanonicalHeaderKey s = (if list_all header_char s then canonical_from True s else s)"

definition header_set :: "string \<Rightarrow> string \<Rightarrow> (string \<times> string) list \<Rightarrow> (string \<times> string) list" where
  "header_set k v h = AList.update (CanonicalHeaderKey k) v h"

definition basic_auth :: "string \<Rightarrow> string \<Rightarrow> string" where
  "basic_auth username password = ''Basic '' @ b64_encode (string_bytes (username @ '':'' @ password))"

section \<open>The environment of a call\<close>

text \<open>\<open>av_parse\<close> is the parser of \<open>json.Unmarshal\<close>, \<open>av_decode\<close> that of a decoder, which stops after the first value;
  \<open>av_newRequest\<close> gives the error of a request that cannot be built; \<open>av_send i\<close> answers the \<open>i\<close>-th request of the call and
  \<open>av_clock i\<close> is its \<open>i\<close>-th reading of the clock. An empty list of tags may be nil, which is null in JSON. A map of headers
  is ranged over in the order \<open>av_order\<close>.\<close>

record AdapterEnv =
  av_seal :: aead_seal
  av_open :: aead_open
  av_nonce :: bytes
  av_clock :: "nat \<Rightarrow> time"
  av_rfc3339 :: "time \<Rightarrow> string"
  av_encode :: "json \<Rightarrow> string"
  av_parse :: "string \<Rightarrow> json option"
  av_decode :: "string \<Rightarrow> json option"
  av_newRequest :: "string \<Rightarrow> string \<Rightarrow> string option"
  av_send :: "nat \<Rightarrow> http_request \<Rightarrow> http_reply"
  av_nilTags :: bool
  av_order :: "(string \<times> string) list \<Rightarrow> (string \<times> string) list"

definition encode_auth :: "AdapterEnv \<Rightarrow> json \<Rightarrow> bytes \<Rightarrow> bytes option" where
  "encode_auth e authData masterKey = EncryptAPIKey (av_seal e) (av_nonce e) (av_encode e authData) masterKey"

definition DecryptAuth :: "AdapterEnv \<Rightarrow> bytes \<Rightarrow> bytes \<Rightarrow> (json \<Rightarrow> 'a option) \<Rightarrow> string + 'a" where
  "DecryptAuth e encryptedAuth masterKey decode =
     (case DecryptAPIKey (av_open e) encryptedAuth masterKey of
        None \<Rightarrow> Inl ''decrypt auth data''
      | Some plain \<Rightarrow>
          (case Option.bind (av_parse e plain) decode of
             None \<Rightarrow> Inl ''unmarshal auth data''
           | Some target \<Rightarrow> Inr target))"

definition tags_json :: "AdapterEnv \<Rightarrow> string list \<Rightarrow> json" where
  "tags_json e tags = (if tags = [] \<and> av_nilTags e then JNull else JArray (map JString tags))"

section \<open>Decoding structs\<close>

text \<open>A member of the wrong type makes the decoding fail; null leaves a field as it is.\<close>

definition str_member :: "string \<Rightarrow> (string \<times> json) list \<Rightarrow> string option" where
  "str_member name m =
     (if list_all (\<lambda>v. case v of JString s \<Rightarrow> True | JNull \<Rightarrow> True | _ \<Rightarrow> False) (struct_field name m)
      then Some (string_field name m '''') else None)"

definition bool_member :: "string \<Rightarrow> (string \<times> json) list \<Rightarrow> bool option" where
  "bool_member name m =
     (if list_all (\<lambda>v. case v of JBool b \<Rightarrow> True | JNull \<Rightarrow> True | _ \<Rightarrow> False) (struct_field name m)
      then Some (fold (\<lambda>v old. case v of JBool b \<Rightarrow> b | _ \<Rightarrow> old) (struct_field name m) False) else None)"

definition int_member :: "string \<Rightarrow> (string \<times> json) list \<Rightarrow> int option" where
  "int_member name m =
     (if list_all (\<lambda>v. case v of JNumber s \<Rightarrow> Atoi s \<noteq> None | JNull \<Rightarrow> True | _ \<Rightarrow> False) (struct_field name m)
      then Some (fold (\<lambda>v old. case v of JNumber s \<Rightarrow> (case Atoi s of Some n \<Rightarrow> n | None \<Rightarrow> old) | _ \<Rightarrow> old) (struct_field name m) 0)
      else None)"

definition members :: "json \<Rightarrow> (string \<times> json) list option" where
  "members v = (case v of JObject m \<Rightarrow> Some m | JNull \<Rightarrow> Some [] | _ \<Rightarrow> None)"

text \<open>A nested struct: all members of that name are decoded into it, one after the other.\<close>

definition struct_member :: "string \<Rightarrow> (string \<times> json) list \<Rightarrow> (string \<times> json) list option" where
  "struct_member name m =
     (if list_all (\<lambda>v. members v \<noteq> None) (struct_field name m)
      then Some (concat (map (\<lambda>v. the (members v)) (struct_field name m))) else None)"

text \<open>A map of strings; null makes it nil again.\<close>

definition decode_strings :: "(string \<times> json) list \<Rightarrow> (string \<times> string) list \<Rightarrow> (string \<times> string) list" where
  "decode_strings m h = fold (\<lambda>(k, v). AList.update k (decode_string v '''')) m h"

definition map_member :: "string \<Rightarrow> (string \<times> json) list \<Rightarrow> (string \<times> string) list option" where
  "map_member name m =
     (if list_all (\<lambda>v. case v of JObject o' \<Rightarrow> list_all (\<lambda>(k, x). case x of JString s \<Rightarrow> True | JNull \<Rightarrow> True | _ \<Rightarrow> False) o'
                      | JNull \<Rightarrow> True | _ \<Rightarrow> False) (struct_field name m)
      then Some (fold (\<lambda>v h. case v of JObject o' \<Rightarrow> decode_strings o' h | _ \<Rightarrow> []) (struct_field name m) []) else None)"

lemmas json_member_defs = str_member_def bool_member_def int_member_def struct_member_def map_member_def members_def
  struct_field_def string_field_def decode_string_def decode_strings_def

lemma struct_field_Cons [simp]:
  "struct_field n ((k, v) # m) = (if fold_name k = fold_name n then v # struct_field n m else struct_field n m)"
  by (simp add: struct_field_def)

lemma struct_field_Nil [simp]: "struct_field n [] = []"
  by (simp add: struct_field_def)

lemma int_member_show [simp]:
  "- (2 ^ 63) \<le> n \<Longrightarrow> n < 2 ^ 63 \<Longrightarrow> struct_field k m = [JNumber (show_int n)] \<Longrightarrow> int_member k m = Some n"
  by (simp add: int_member_def Atoi_show_int)

text \<open>What makes stored credentials come back: the nonce has its length, what was sealed opens, what was encoded parses.\<close>

definition auth_law :: "AdapterEnv \<Rightarrow> AdapterEnv \<Rightarrow> bytes \<Rightarrow> json \<Rightarrow> bool" where
  "auth_law e e' k v \<longleftrightarrow> length (av_nonce e) = 12
     \<and> av_open e' k (av_nonce e) (av_seal e k (av_nonce e) (string_bytes (av_encode e v))) = Some (string_bytes (av_encode e v))
     \<and> av_parse e' (av_encode e v) = Some v"

text \<open>The contract of the credentials of an adapter: a value that is \<open>ok\<close> decodes from its JSON.\<close>

locale stored_auth =
  fixes to_json :: "'a \<Rightarrow> json"
    and of_json :: "json \<Rightarrow> 'a option"
    and ok :: "'a \<Rightarrow> bool"
  assumes decode_encode: "ok a \<Longrightarrow> of_json (to_json a) = Some a"
begin

lemma restore:
  assumes "encode_auth e (to_json a) k = Some c" and "auth_law e e' k (to_json a)" and "ok a"
  shows "DecryptAuth e' c k of_json = Inr a"
  using Encrypt_Decrypt [of "av_seal e" "av_nonce e" _ k c "av_open e'"] assms decode_encode
  by (simp add: encode_auth_def DecryptAuth_def auth_law_def)

lemma restore_key: "encode_auth e (to_json a) k = Some c \<Longrightarrow> aes_key_ok k"
  by (simp add: encode_auth_def EncryptAPIKey_def split: if_split_asm)

end

end
