(* ===== verification/Http_Adapters.thy ===== *)
theory Http_Adapters
  imports Adapters
begin

text \<open>
  The adapters that publish over HTTP: generic webhooks (\<^verbatim>\<open>platform/webhook/adapter.go\<close>), WordPress
  (\<^verbatim>\<open>platform/wordpress/adapter.go\<close>) and Medium (\<^verbatim>\<open>platform/medium/adapter.go\<close>). Each operation returns its result and
  the requests it has sent.
\<close>

definition cred :: "(string \<times> string) list \<Rightarrow> string \<Rightarrow> string" where
  "cred m k = (case map_of m k of None \<Rightarrow> '''' | Some v \<Rightarrow> v)"

definition input_field :: "string \<Rightarrow> string \<Rightarrow> string \<Rightarrow> string \<Rightarrow> bool \<Rightarrow> json" where
  "input_field name label type placeholder required =
     JObject [(''name'', JString name), (''label'', JString label), (''type'', JString type),
       (''placeholder'', JString placeholder), (''required'', JBool required)]"

definition credential_input :: "string \<Rightarrow> json list \<Rightarrow> json" where
  "credential_input message inputs =
     JObject [(''auth_type'', JString ''credentials_input''), (''message'', JString message), (''fields'', JArray inputs)]"

section \<open>Webhook\<close>

record webhookAuthData =
  wa_URL :: string
  wa_Secret :: string
  wa_Headers :: "(string \<times> string) list"

definition webhook_auth_json :: "webhookAuthData \<Rightarrow> json" where
  "webhook_auth_json a =
     JObject ([(''url'', JString (wa_URL a))]
       @ (if wa_Secret a = '''' then [] else [(''secret'', JString (wa_Secret a))])
       @ (if wa_Headers a = [] then [] else [(''headers'', JObject (map (\<lambda>(k, v). (k, JString v)) (wa_Headers a)))]))"

definition decode_webhook_auth :: "json \<Rightarrow> webhookAuthData option" where
  "decode_webhook_auth v =
     Option.bind (members v) (\<lambda>m. Option.bind (str_member ''url'' m) (\<lambda>url. Option.bind (str_member ''secret'' m) (\<lambda>secret.
       Option.bind (map_member ''headers'' m) (\<lambda>headers. Some \<lparr>wa_URL = url, wa_Secret = secret, wa_Headers = headers\<rparr>))))"

definition webhook_headers :: "string \<Rightarrow> (string \<times> string) list" where
  "webhook_headers secret =
     (let h = header_set ''User-Agent'' ''AnyNote-Webhook/1.0'' (header_set ''Content-Type'' ''application/json'' [])
      in if secret \<noteq> '''' then header_set ''X-Webhook-Secret'' secret h else h)"

definition webhook_StartAuth :: "AdapterEnv \<Rightarrow> AuthSession \<times> bytes" where
  "webhook_StartAuth e =
     (\<lparr>ses_CDPContext = CtxNil, ses_AuthRef = ''webhook-'' @ show_int (UnixMilli (av_clock e 0))\<rparr>,
      string_bytes (av_encode e (credential_input ''Enter your webhook endpoint URL''
        [input_field ''url'' ''Webhook URL'' ''url'' ''https://example.com/webhook'' True,
         input_field ''secret'' ''Secret (optional)'' ''password'' ''Shared secret for HMAC or Bearer token'' False])))"

definition webhook_PollAuth :: "AdapterEnv \<Rightarrow> AuthSession \<Rightarrow> bytes \<Rightarrow> (string + bytes option) \<times> http_request list" where
  "webhook_PollAuth e session masterKey =
     (case ses_CDPContext session of
        CtxNil \<Rightarrow> (Inr None, [])
      | CtxCredentials credMap \<Rightarrow>
          (let webhookURL = cred credMap ''url''; secret = cred credMap ''secret'' in
           if webhookURL = '''' then (Inl ''webhook URL is required'', [])
           else case av_newRequest e ''POST'' webhookURL of
             Some err \<Rightarrow> (Inl (''create test request: '' @ err), [])
           | None \<Rightarrow>
               (let req = \<lparr>rq_Method = ''POST'', rq_URL = webhookURL, rq_Headers = webhook_headers secret,
                           rq_Body = av_encode e (JObject [(''message'', JString ''AnyNote webhook verification''), (''test'', JBool True)])\<rparr>
                in case av_send e 0 req of
                     NoReply err \<Rightarrow> (Inl (''webhook endpoint unreachable: '' @ err), [req])
                   | Reply status body _ \<Rightarrow>
                       if status < 200 \<or> status \<ge> 300
                       then (Inl (''webhook endpoint returned status '' @ nat_digits status @ '': '' @ take 1024 body), [req])
                       else case encode_auth e (webhook_auth_json \<lparr>wa_URL = webhookURL, wa_Secret = secret, wa_Headers = []\<rparr>) masterKey of
                         None \<Rightarrow> (Inl ''encrypt auth data'', [req])
                       | Some encrypted \<Rightarrow> (Inr (Some encrypted), [req])))
      | _ \<Rightarrow> (Inl ''invalid session: expected credential map'', []))"

definition webhookPayload :: "AdapterEnv \<Rightarrow> PublishParams \<Rightarrow> json" where
  "webhookPayload e params =
     JObject [(''title'', JString (pp_Title params)), (''content'', JString (pp_Content params)),
       (''tags'', tags_json e (pp_Tags params)), (''platform'', JString ''webhook''),
       (''published_at'', JString (av_rfc3339 e (av_clock e 0)))]"

definition webhook_Publish :: "AdapterEnv \<Rightarrow> bytes \<Rightarrow> bytes \<Rightarrow> PublishParams \<Rightarrow> (string + PublishResult) \<times> http_request list" where
  "webhook_Publish e encryptedAuth masterKey params =
     (case DecryptAuth e encryptedAuth masterKey decode_webhook_auth of
        Inl err \<Rightarrow> (Inl err, [])
      | Inr authData \<Rightarrow>
          (case av_newRequest e ''POST'' (wa_URL authData) of
             Some err \<Rightarrow> (Inl (''create webhook request: '' @ err), [])
           | None \<Rightarrow>
               (let req = \<lparr>rq_Method = ''POST'', rq_URL = wa_URL authData,
                           rq_Headers = fold (\<lambda>(k, v). header_set k v) (av_order e (wa_Headers authData)) (webhook_headers (wa_Secret authData)),
                           rq_Body = av_encode e (webhookPayload e params)\<rparr>
                in case av_send e 0 req of
                     NoReply err \<Rightarrow> (Inl (''webhook request failed: '' @ err), [req])
                   | Reply status body _ \<Rightarrow>
                       if status < 200 \<or> status \<ge> 300
                       then (Inl (''webhook returned status '' @ nat_digits status @ '': '' @ take 1024 body), [req])
                       else (Inr \<lparr>pr_PlatformURL = wa_URL authData,
                                  pr_PlatformID = ''webhook-'' @ show_int (UnixMilli (av_clock e 1))\<rparr>, [req]))))"

definition webhook_Adapter :: "AdapterEnv \<Rightarrow> Adapter" where
  "webhook_Adapter e =
     \<lparr>ad_StartAuth = (\<lambda>k. Inr (webhook_StartAuth e)),
      ad_PollAuth = (\<lambda>session k. fst (webhook_PollAuth e session k)),
      ad_Publish = (\<lambda>auth k params. map_sum (\<lambda>m. m) Some (fst (webhook_Publish e auth k params))),
      ad_CheckStatus = (\<lambda>auth k platformID. (''live'', None)),
      ad_RevokeAuth = (\<lambda>auth k. None),
      ad_FetchStats = None\<rparr>"

section \<open>WordPress\<close>

record wpAuthData =
  wd_SiteURL :: string
  wd_Username :: string
  wd_AppPassword :: string

definition wp_auth_json :: "wpAuthData \<Rightarrow> json" where
  "wp_auth_json a = JObject [(''site_url'', JString (wd_SiteURL a)), (''username'', JString (wd_Username a)), (''app_password'', JString (wd_AppPassword a))]"

definition decode_wp_auth :: "json \<Rightarrow> wpAuthData option" where
  "decode_wp_auth v =
     Option.bind (members v) (\<lambda>m. Option.bind (str_member ''site_url'' m) (\<lambda>site. Option.bind (str_member ''username'' m) (\<lambda>user.
       Option.bind (str_member ''app_password'' m) (\<lambda>pw. Some \<lparr>wd_SiteURL = site, wd_Username = user, wd_AppPassword = pw\<rparr>))))"

definition wp_StartAuth :: "AdapterEnv \<Rightarrow> AuthSession \<times> bytes" where
  "wp_StartAuth e =
     (\<lparr>ses_CDPContext = CtxNil, ses_AuthRef = ''wp-'' @ show_int (UnixMilli (av_clock e 0))\<rparr>,
      string_bytes (av_encode e (credential_input ''Enter your WordPress site credentials''
        [input_field ''site_url'' ''Site URL'' ''url'' ''https://example.com'' True,
         input_field ''username'' ''Username'' ''text'' ''admin'' True,
         input_field ''app_password'' ''Application Password'' ''password'' ''xxxx xxxx xxxx xxxx xxxx xxxx'' True])))"

text \<open>A request with the credentials as basic authentication.\<close>

definition wp_request :: "string \<Rightarrow> string \<Rightarrow> wpAuthData \<Rightarrow> (string \<times> string) list \<Rightarrow> string \<Rightarrow> http_request" where
  "wp_request method' url a headers body =
     \<lparr>rq_Method = method', rq_URL = url,
      rq_Headers = fold (\<lambda>(k, v). header_set k v) headers (header_set ''Authorization'' (basic_auth (wd_Username a) (wd_AppPassword a)) []),
      rq_Body = body\<rparr>"

definition wp_PollAuth :: "AdapterEnv \<Rightarrow> AuthSession \<Rightarrow> bytes \<Rightarrow> (string + bytes option) \<times> http_request list" where
  "wp_PollAuth e session masterKey =
     (case ses_CDPContext session of
        CtxNil \<Rightarrow> (Inr None, [])
      | CtxCredentials credMap \<Rightarrow>
          (let authData = \<lparr>wd_SiteURL = trim_right_char (CHR ''/'') (cred credMap ''site_url''),
                           wd_Username = cred credMap ''username'', wd_AppPassword = cred credMap ''app_password''\<rparr> in
           if wd_SiteURL authData = '''' \<or> wd_Username authData = '''' \<or> wd_AppPassword authData = ''''
           then (Inl ''missing required credential fields'', [])
           else let meURL = wd_SiteURL authData @ ''/wp-json/wp/v2/users/me'' in
             (case av_newRequest e ''GET'' meURL of
                Some err \<Rightarrow> (Inl (''create validation request: '' @ err), [])
              | None \<Rightarrow>
                  (let req = wp_request ''GET'' meURL authData [(''Accept'', ''application/json'')] ''''
                   in case av_send e 0 req of
                        NoReply err \<Rightarrow> (Inl (''validate credentials: '' @ err), [req])
                      | Reply status body bodyErr \<Rightarrow>
                          if status \<noteq> 200 then
                            (case read_limited 1048576 body bodyErr of
                               Inl err \<Rightarrow> (Inl (''reading credentials validation error response body: '' @ err), [req])
                             | Inr b \<Rightarrow> (Inl (''invalid credentials (status '' @ nat_digits status @ ''): '' @ b), [req]))
                          else case encode_auth e (wp_auth_json authData) masterKey of
                            None \<Rightarrow> (Inl ''encrypt auth data'', [req])
                          | Some encrypted \<Rightarrow> (Inr (Some encrypted), [req]))))
      | _ \<Rightarrow> (Inl ''invalid session: expected credential map'', []))"

text \<open>The members of a map are encoded in the order of their names.\<close>

definition wp_post_body :: "PublishParams \<Rightarrow> json" where
  "wp_post_body params =
     JObject ([(''content'', JString (pp_Content params)), (''status'', JString ''publish'')]
       @ (if pp_Tags params \<noteq> [] then [(''tags'', JArray (map JString (pp_Tags params)))] else [])
       @ [(''title'', JString (pp_Title params))])"

definition decode_wp_post :: "json \<Rightarrow> (int \<times> string) option" where
  "decode_wp_post v =
     Option.bind (members v) (\<lambda>m. Option.bind (int_member ''id'' m) (\<lambda>n. Option.bind (str_member ''link'' m) (\<lambda>link.
       Option.bind (str_member ''status'' m) (\<lambda>_. Some (n, link)))))"

definition wp_Publish :: "AdapterEnv \<Rightarrow> bytes \<Rightarrow> bytes \<Rightarrow> PublishParams \<Rightarrow> (string + PublishResult) \<times> http_request list" where
  "wp_Publish e encryptedAuth masterKey params =
     (case DecryptAuth e encryptedAuth masterKey decode_wp_auth of
        Inl err \<Rightarrow> (Inl err, [])
      | Inr authData \<Rightarrow>
          (let postURL = wd_SiteURL authData @ ''/wp-json/wp/v2/posts'' in
           case av_newRequest e ''POST'' postURL of
             Some err \<Rightarrow> (Inl (''create post request: '' @ err), [])
           | None \<Rightarrow>
               (let req = wp_request ''POST'' postURL authData [(''Content-Type'', ''application/json''), (''Accept'', ''application/json'')]
                            (av_encode e (wp_post_body params))
                in case av_send e 0 req of
                     NoReply err \<Rightarrow> (Inl (''publish request: '' @ err), [req])
                   | Reply status body bodyErr \<Rightarrow>
                       if status \<noteq> 201 then
                         (case read_limited 1048576 body bodyErr of
                            Inl err \<Rightarrow> (Inl (''reading publish error response body: '' @ err), [req])
                          | Inr b \<Rightarrow> (Inl (''publish failed (status '' @ nat_digits status @ ''): '' @ b), [req]))
                       else case Option.bind (av_decode e body) decode_wp_post of
                         None \<Rightarrow> (Inl ''decode publish response'', [req])
                       | Some (n, link) \<Rightarrow> (Inr \<lparr>pr_PlatformURL = link, pr_PlatformID = show_int n\<rparr>, [req]))))"

definition wp_status :: "string \<Rightarrow> string" where
  "wp_status s = (if s = ''publish'' then ''live'' else if s = ''draft'' \<or> s = ''pending'' then ''live''
     else if s = ''trash'' then ''removed'' else ''unknown'')"

definition wp_CheckStatus :: "AdapterEnv \<Rightarrow> bytes \<Rightarrow> bytes \<Rightarrow> string \<Rightarrow> (string \<times> string option) \<times> http_request list" where
  "wp_CheckStatus e encryptedAuth masterKey platformID =
     (case DecryptAuth e encryptedAuth masterKey decode_wp_auth of
        Inl err \<Rightarrow> ((''unknown'', Some err), [])
      | Inr authData \<Rightarrow>
          (let postURL = wd_SiteURL authData @ ''/wp-json/wp/v2/posts/'' @ platformID in
           case av_newRequest e ''GET'' postURL of
             Some err \<Rightarrow> ((''unknown'', Some (''create status request: '' @ err)), [])
           | None \<Rightarrow>
               (let req = wp_request ''GET'' postURL authData [(''Accept'', ''application/json'')] ''''
                in case av_send e 0 req of
                     NoReply err \<Rightarrow> ((''unknown'', Some (''status request: '' @ err)), [req])
                   | Reply status body _ \<Rightarrow>
                       if status = 200 then
                         (case Option.bind (av_decode e body) (\<lambda>v. Option.bind (members v) (str_member ''status'')) of
                            None \<Rightarrow> ((''unknown'', Some ''decode status response''), [req])
                          | Some s \<Rightarrow> ((wp_status s, None), [req]))
                       else if status = 404 then ((''removed'', None), [req])
                       else ((''unknown'', None), [req]))))"

text \<open>The list of application passwords; null stands for an element without a name.\<close>

fun decode_passwords :: "json list \<Rightarrow> (string \<times> string) list option" where
  "decode_passwords [] = Some []"
| "decode_passwords (v # vs) =
     Option.bind (members v) (\<lambda>m. Option.bind (str_member ''uuid'' m) (\<lambda>u. Option.bind (str_member ''name'' m) (\<lambda>n.
       map_option (\<lambda>rest. (u, n) # rest) (decode_passwords vs))))"

definition decode_password_list :: "json \<Rightarrow> (string \<times> string) list option" where
  "decode_password_list v = (case v of JArray vs \<Rightarrow> decode_passwords vs | JNull \<Rightarrow> Some [] | _ \<Rightarrow> None)"

definition anynote_password :: "string \<Rightarrow> bool" where
  "anynote_password name \<longleftrightarrow> str_Contains (map lower_char name) ''anynote''"

fun delete_passwords :: "AdapterEnv \<Rightarrow> wpAuthData \<Rightarrow> (string \<times> string) list \<Rightarrow> http_request list" where
  "delete_passwords e a [] = []"
| "delete_passwords e a ((u, name) # aps) =
     (if \<not> anynote_password name then delete_passwords e a aps
      else let deleteURL = wd_SiteURL a @ ''/wp-json/wp/v2/users/me/application-passwords/'' @ u in
        case av_newRequest e ''DELETE'' deleteURL of
          Some _ \<Rightarrow> delete_passwords e a aps
        | None \<Rightarrow> wp_request ''DELETE'' deleteURL a [] '''' # delete_passwords e a aps)"

definition wp_RevokeAuth :: "AdapterEnv \<Rightarrow> bytes \<Rightarrow> bytes \<Rightarrow> string option \<times> http_request list" where
  "wp_RevokeAuth e encryptedAuth masterKey =
     (case DecryptAuth e encryptedAuth masterKey decode_wp_auth of
        Inl err \<Rightarrow> (Some err, [])
      | Inr authData \<Rightarrow>
          (let listURL = wd_SiteURL authData @ ''/wp-json/wp/v2/users/me/application-passwords'' in
           case av_newRequest e ''GET'' listURL of
             Some err \<Rightarrow> (Some (''create list app passwords request: '' @ err), [])
           | None \<Rightarrow>
               (let req = wp_request ''GET'' listURL authData [(''Accept'', ''application/json'')] ''''
                in case av_send e 0 req of
                     NoReply _ \<Rightarrow> (None, [req])
                   | Reply status body _ \<Rightarrow>
                       if status \<noteq> 200 then (None, [req])
                       else case Option.bind (av_decode e body) decode_password_list of
                         None \<Rightarrow> (None, [req])
                       | Some appPasswords \<Rightarrow> (None, req # delete_passwords e authData appPasswords))))"

definition wordpress_Adapter :: "AdapterEnv \<Rightarrow> Adapter" where
  "wordpress_Adapter e =
     \<lparr>ad_StartAuth = (\<lambda>k. Inr (wp_StartAuth e)),
      ad_PollAuth = (\<lambda>session k. fst (wp_PollAuth e session k)),
      ad_Publish = (\<lambda>auth k params. map_sum (\<lambda>m. m) Some (fst (wp_Publish e auth k params))),
      ad_CheckStatus = (\<lambda>auth k platformID. fst (wp_CheckStatus e auth k platformID)),
      ad_RevokeAuth = (\<lambda>auth k. fst (wp_RevokeAuth e auth k)),
      ad_FetchStats = None\<rparr>"

section \<open>Medium\<close>

record mediumAuthData =
  md_AccessToken :: string
  md_RefreshToken :: string
  md_ExpiresAt :: int
  md_TokenType :: string
  md_UserID :: string

definition medium_auth_json :: "mediumAuthData \<Rightarrow> json" where
  "medium_auth_json a =
     JObject ([(''access_token'', JString (md_AccessToken a))]
       @ (if md_RefreshToken a = '''' then [] else [(''refresh_token'', JString (md_RefreshToken a))])
       @ [(''expires_at'', JNumber (show_int (md_ExpiresAt a))), (''token_type'', JString (md_TokenType a))]
       @ (if md_UserID a = '''' then [] else [(''user_id'', JString (md_UserID a))]))"

definition decode_medium_auth :: "json \<Rightarrow> mediumAuthData option" where
  "decode_medium_auth v =
     Option.bind (members v) (\<lambda>m. Option.bind (str_member ''access_token'' m) (\<lambda>at. Option.bind (str_member ''refresh_token'' m) (\<lambda>rt.
       Option.bind (int_member ''expires_at'' m) (\<lambda>ex. Option.bind (str_member ''token_type'' m) (\<lambda>tt. Option.bind (str_member ''user_id'' m) (\<lambda>u.
         Some \<lparr>md_AccessToken = at, md_RefreshToken = rt, md_ExpiresAt = ex, md_TokenType = tt, md_UserID = u\<rparr>))))))"

record MediumClient =
  mc_clientID :: string
  mc_clientSecret :: string
  mc_redirectURI :: string

definition mediumAPIBase :: string where
  "mediumAPIBase = ''https://api.medium.com/v1''"

definition mediumTokenURL :: string where
  "mediumTokenURL = ''https://medium.com/m/oauth2/token''"

definition medium_StartAuth :: "MediumClient \<Rightarrow> AdapterEnv \<Rightarrow> AuthSession \<times> bytes" where
  "medium_StartAuth a e =
     (let state = ''medium-'' @ show_int (UnixMilli (av_clock e 0));
          authURL = ''https://medium.com/m/oauth2/authorize?client_id='' @ mc_clientID a @ ''&response_type=code&redirect_uri=''
            @ mc_redirectURI a @ ''&scope=basicProfile,publishPost&state='' @ state
      in (\<lparr>ses_CDPContext = CtxOAuth \<lparr>os_State = state, os_Code = '''', os_Completed = False\<rparr>, ses_AuthRef = state\<rparr>,
          string_bytes (av_encode e (JObject [(''auth_type'', JString ''oauth2_redirect''), (''auth_url'', JString authURL),
            (''state'', JString state)]))))"

definition token_request :: "string \<Rightarrow> http_request" where
  "token_request body =
     \<lparr>rq_Method = ''POST'', rq_URL = mediumTokenURL,
      rq_Headers = header_set ''Accept'' ''application/json'' (header_set ''Content-Type'' ''application/x-www-form-urlencoded'' []),
      rq_Body = body\<rparr>"

text \<open>The \<open>i\<close>-th request of a call, with the texts of its errors: it cannot be built, gets no answer, or the answer is not the
  expected one.\<close>

definition exchange :: "AdapterEnv \<Rightarrow> nat \<Rightarrow> http_request \<Rightarrow> string \<Rightarrow> string \<Rightarrow> nat \<Rightarrow> string \<Rightarrow> string
    \<Rightarrow> (string + string) \<times> http_request list" where
  "exchange e i req createErr sendErr expected readErr statusErr =
     (case av_newRequest e (rq_Method req) (rq_URL req) of
        Some err \<Rightarrow> (Inl (createErr @ '': '' @ err), [])
      | None \<Rightarrow>
          (case av_send e i req of
             NoReply err \<Rightarrow> (Inl (sendErr @ '': '' @ err), [req])
           | Reply status body bodyErr \<Rightarrow>
               if status \<noteq> expected then
                 (case read_limited 1048576 body bodyErr of
                    Inl err \<Rightarrow> (Inl (readErr @ '': '' @ err), [req])
                  | Inr b \<Rightarrow> (Inl (statusErr @ '' (status '' @ nat_digits status @ ''): '' @ b), [req]))
               else (Inr body, [req])))"

definition fetchUserID :: "AdapterEnv \<Rightarrow> nat \<Rightarrow> string \<Rightarrow> (string + string) \<times> http_request list" where
  "fetchUserID e i accessToken =
     (let (r, sent) = exchange e i
            \<lparr>rq_Method = ''GET'', rq_URL = mediumAPIBase @ ''/me'',
             rq_Headers = header_set ''Accept'' ''application/json'' (header_set ''Authorization'' (''Bearer '' @ accessToken) []), rq_Body = ''''\<rparr>
            ''create me request'' ''fetch me'' 200 ''reading user info error response body'' ''fetch me failed''
      in (case r of
            Inl err \<Rightarrow> Inl err
          | Inr body \<Rightarrow>
              (case Option.bind (av_decode e body) (\<lambda>v. Option.bind (members v) (\<lambda>m. Option.bind (struct_member ''data'' m) (str_member ''id''))) of
                 None \<Rightarrow> Inl ''decode me response''
               | Some uid \<Rightarrow> Inr uid), sent))"

definition refreshAccessToken :: "MediumClient \<Rightarrow> AdapterEnv \<Rightarrow> string \<Rightarrow> (string + string) \<times> http_request list" where
  "refreshAccessToken a e refreshToken =
     (let (r, sent) = exchange e 0
            (token_request (''grant_type=refresh_token&refresh_token='' @ refreshToken @ ''&client_id='' @ mc_clientID a
               @ ''&client_secret='' @ mc_clientSecret a))
            ''create refresh request'' ''refresh token request'' 200 ''reading refresh token error response body'' ''refresh token failed''
      in (case r of
            Inl err \<Rightarrow> Inl err
          | Inr body \<Rightarrow>
              (case Option.bind (av_decode e body) (\<lambda>v. Option.bind (members v) (\<lambda>m. Option.bind (str_member ''access_token'' m)
                      (\<lambda>t. Option.bind (int_member ''expires_in'' m) (\<lambda>_. Some t)))) of
                 None \<Rightarrow> Inl ''decode refresh response''
               | Some t \<Rightarrow> Inr t), sent))"

definition decode_token :: "json \<Rightarrow> (string \<times> string \<times> int \<times> string) option" where
  "decode_token v =
     Option.bind (members v) (\<lambda>m. Option.bind (str_member ''access_token'' m) (\<lambda>at. Option.bind (str_member ''refresh_token'' m) (\<lambda>rt.
       Option.bind (int_member ''expires_in'' m) (\<lambda>ex. Option.bind (str_member ''token_type'' m) (\<lambda>tt. Some (at, rt, ex, tt))))))"

text \<open>The product of the lifetime and a second is a 64-bit duration.\<close>

definition medium_PollAuth :: "MediumClient \<Rightarrow> AdapterEnv \<Rightarrow> AuthSession \<Rightarrow> bytes \<Rightarrow> (string + bytes option) \<times> http_request list" where
  "medium_PollAuth a e session masterKey =
     (case ses_CDPContext session of
        CtxOAuth st \<Rightarrow>
          if os_Code st = '''' then (Inr None, [])
          else
            (let (r, sent) = exchange e 0
                   (token_request (''grant_type=authorization_code&code='' @ os_Code st @ ''&client_id='' @ mc_clientID a
                      @ ''&client_secret='' @ mc_clientSecret a @ ''&redirect_uri='' @ mc_redirectURI a))
                   ''create token request'' ''exchange token'' 200 ''reading token error response body'' ''token exchange failed''
             in case r of
                  Inl err \<Rightarrow> (Inl err, sent)
                | Inr body \<Rightarrow>
                    (case Option.bind (av_decode e body) decode_token of
                       None \<Rightarrow> (Inl ''decode token response'', sent)
                     | Some (at, rt, ex, tt) \<Rightarrow>
                         (let (u, sent') = fetchUserID e 1 at in
                          case u of
                            Inl err \<Rightarrow> (Inl (''fetch user ID: '' @ err), sent @ sent')
                          | Inr userID \<Rightarrow>
                              (let authData = \<lparr>md_AccessToken = at, md_RefreshToken = rt,
                                     md_ExpiresAt = Unix (av_clock e 0 + wrap64 (ex * second)), md_TokenType = tt, md_UserID = userID\<rparr>
                               in case encode_auth e (medium_auth_json authData) masterKey of
                                    None \<Rightarrow> (Inl ''encrypt auth data'', sent @ sent')
                                  | Some encrypted \<Rightarrow> (Inr (Some encrypted), sent @ sent')))))
      | _ \<Rightarrow> (Inl ''invalid session: wrong context type'', []))"

definition medium_body :: "PublishParams \<Rightarrow> json" where
  "medium_body params =
     JObject ([(''content'', JString (pp_Content params)), (''contentFormat'', JString ''markdown''), (''publishStatus'', JString ''public'')]
       @ (if pp_Tags params \<noteq> [] then [(''tags'', JArray (map JString (pp_Tags params)))] else [])
       @ [(''title'', JString (pp_Title params))])"

definition decode_medium_post :: "json \<Rightarrow> PublishResult option" where
  "decode_medium_post v =
     Option.bind (members v) (\<lambda>m. Option.bind (struct_member ''data'' m) (\<lambda>d. Option.bind (str_member ''id'' d) (\<lambda>i.
       Option.bind (str_member ''title'' d) (\<lambda>_. Option.bind (str_member ''url'' d) (\<lambda>u. Option.bind (str_member ''authorId'' d) (\<lambda>_.
         Some \<lparr>pr_PlatformURL = u, pr_PlatformID = i\<rparr>))))))"

text \<open>The access token to use, with the requests to get it: the stored one, unless it has expired.\<close>

definition current_token :: "MediumClient \<Rightarrow> AdapterEnv \<Rightarrow> mediumAuthData \<Rightarrow> (string + string) \<times> http_request list" where
  "current_token a e authData =
     (if md_ExpiresAt authData > 0 \<and> Unix (av_clock e 0) > md_ExpiresAt authData then
        if md_RefreshToken authData = '''' then (Inl ''access token expired and no refresh token available'', [])
        else (let (r, sent) = refreshAccessToken a e (md_RefreshToken authData)
              in (case r of Inl err \<Rightarrow> Inl (''refresh access token: '' @ err) | Inr t \<Rightarrow> Inr t, sent))
      else (Inr (md_AccessToken authData), []))"

definition medium_Publish :: "MediumClient \<Rightarrow> AdapterEnv \<Rightarrow> bytes \<Rightarrow> bytes \<Rightarrow> PublishParams \<Rightarrow> (string + PublishResult) \<times> http_request list" where
  "medium_Publish a e encryptedAuth masterKey params =
     (case DecryptAuth e encryptedAuth masterKey decode_medium_auth of
        Inl err \<Rightarrow> (Inl err, [])
      | Inr authData \<Rightarrow>
          (let (tok, sent) = current_token a e authData in
           case tok of
             Inl err \<Rightarrow> (Inl err, sent)
           | Inr accessToken \<Rightarrow>
               (let (r, sent') = exchange e (length sent)
                      \<lparr>rq_Method = ''POST'', rq_URL = mediumAPIBase @ ''/me/posts'',
                       rq_Headers = header_set ''Authorization'' (''Bearer '' @ accessToken) (header_set ''Content-Type'' ''application/json'' []),
                       rq_Body = av_encode e (medium_body params)\<rparr>
                      ''create publish request'' ''publish request'' 201 ''reading publish error response body'' ''publish failed''
                in (case r of
                      Inl err \<Rightarrow> Inl err
                    | Inr body \<Rightarrow>
                        (case Option.bind (av_decode e body) decode_medium_post of
                           None \<Rightarrow> Inl ''decode publish response''
                         | Some result \<Rightarrow> Inr result), sent @ sent'))))"

definition medium_CheckStatus :: "AdapterEnv \<Rightarrow> bytes \<Rightarrow> bytes \<Rightarrow> string \<times> string option" where
  "medium_CheckStatus e encryptedAuth masterKey =
     (case DecryptAuth e encryptedAuth masterKey decode_medium_auth of
        Inl err \<Rightarrow> (''unknown'', Some err)
      | Inr _ \<Rightarrow> (''live'', None))"

definition medium_Adapter :: "MediumClient \<Rightarrow> AdapterEnv \<Rightarrow> Adapter" where
  "medium_Adapter a e =
     \<lparr>ad_StartAuth = (\<lambda>k. Inr (medium_StartAuth a e)),
      ad_PollAuth = (\<lambda>session k. fst (medium_PollAuth a e session k)),
      ad_Publish = (\<lambda>auth k params. map_sum (\<lambda>m. m) Some (fst (medium_Publish a e auth k params))),
      ad_CheckStatus = (\<lambda>auth k platformID. medium_CheckStatus e auth k),
      ad_RevokeAuth = (\<lambda>auth k. None),
      ad_FetchStats = None\<rparr>"

section \<open>Credentials come back\<close>

interpretation wh: stored_auth webhook_auth_json decode_webhook_auth "\<lambda>a. wa_Headers a = []"
  by unfold_locales
    (auto simp: webhook_auth_json_def decode_webhook_auth_def members_def str_member_def map_member_def string_field_def decode_string_def lower_char_def)

interpretation wp: stored_auth wp_auth_json decode_wp_auth "\<lambda>a. True"
  by unfold_locales
    (simp add: wp_auth_json_def decode_wp_auth_def members_def str_member_def string_field_def decode_string_def lower_char_def)

interpretation md: stored_auth medium_auth_json decode_medium_auth "\<lambda>a. - (2 ^ 63) \<le> md_ExpiresAt a \<and> md_ExpiresAt a < 2 ^ 63"
  by unfold_locales
    (auto simp: medium_auth_json_def decode_medium_auth_def members_def str_member_def string_field_def decode_string_def lower_char_def)

section \<open>Publishing with the credentials a user has entered\<close>

lemma webhook_headers_secret:
  "map_of (webhook_headers s) ''X-Webhook-Secret'' = (if s = '''' then None else Some s)"
proof -
  have k: "CanonicalHeaderKey ''User-Agent'' = ''User-Agent''" "CanonicalHeaderKey ''Content-Type'' = ''Content-Type''"
    "CanonicalHeaderKey ''X-Webhook-Secret'' = ''X-Webhook-Secret''" by code_simp+
  show ?thesis by (simp add: webhook_headers_def header_set_def k Let_def update_conv')
qed

text \<open>C38: a webhook gets what its owner has set up. When the poll accepts an address and a secret, it has tested them with one
  request, and every later publication with the stored credentials sends exactly one request, to that
  address, with that secret and the title, the content and the tags of the post; it succeeds exactly when the
  endpoint answers with a status of success, and gives the address as the place of the post.\<close>

theorem webhook_round_trip:
  assumes "webhook_PollAuth e \<lparr>ses_CDPContext = CtxCredentials m, ses_AuthRef = ref\<rparr> k = (Inr (Some auth), tested)"
    and "auth_law e e' k (webhook_auth_json \<lparr>wa_URL = cred m ''url'', wa_Secret = cred m ''secret'', wa_Headers = []\<rparr>)"
    and "av_newRequest e' ''POST'' (cred m ''url'') = None" and "av_order e' [] = []"
  shows "\<exists>probe req. tested = [probe] \<and> snd (webhook_Publish e' auth k params) = [req]
    \<and> rq_Method req = ''POST'' \<and> rq_URL req = cred m ''url'' \<and> cred m ''url'' \<noteq> '''' \<and> rq_URL probe = rq_URL req
    \<and> map_of (rq_Headers req) ''X-Webhook-Secret'' = (if cred m ''secret'' = '''' then None else Some (cred m ''secret''))
    \<and> rq_Headers probe = rq_Headers req
    \<and> rq_Body req = av_encode e' (JObject [(''title'', JString (pp_Title params)), (''content'', JString (pp_Content params)),
        (''tags'', tags_json e' (pp_Tags params)), (''platform'', JString ''webhook''), (''published_at'', JString (av_rfc3339 e' (av_clock e' 0)))])
    \<and> (case fst (webhook_Publish e' auth k params) of
         Inr result \<Rightarrow> (\<exists>status b x. av_send e' 0 req = Reply status b x \<and> 200 \<le> status \<and> status < 300) \<and> pr_PlatformURL result = cred m ''url''
       | Inl err \<Rightarrow> \<forall>status b x. av_send e' 0 req = Reply status b x \<longrightarrow> status < 200 \<or> 300 \<le> status)"
proof -
  define a where "a = \<lparr>wa_URL = cred m ''url'', wa_Secret = cred m ''secret'', wa_Headers = []\<rparr>"
  define probe where "probe = \<lparr>rq_Method = ''POST'', rq_URL = cred m ''url'', rq_Headers = webhook_headers (cred m ''secret''),
      rq_Body = av_encode e (JObject [(''message'', JString ''AnyNote webhook verification''), (''test'', JBool True)])\<rparr>"
  have enc: "encode_auth e (webhook_auth_json a) k = Some auth" and url: "cred m ''url'' \<noteq> ''''" and tested: "tested = [probe]"
    using assms(1) unfolding a_def probe_def
    by (auto simp: webhook_PollAuth_def Let_def split: if_split_asm option.split_asm http_reply.split_asm)
  have "DecryptAuth e' auth k decode_webhook_auth = Inr a"
    by (rule wh.restore [OF enc]) (use assms(2) in \<open>simp_all add: a_def\<close>)
  then show ?thesis
    using tested url assms(3,4) webhook_headers_secret [of "cred m ''secret''"]
    by (auto simp: webhook_Publish_def a_def probe_def webhookPayload_def Let_def split: http_reply.split)
qed

definition demo_adapter_env :: AdapterEnv where
  "demo_adapter_env =
     \<lparr>av_seal = (\<lambda>k n p. p), av_open = (\<lambda>k n c. Some c), av_nonce = replicate 12 0, av_clock = (\<lambda>_. 0), av_rfc3339 = (\<lambda>_. ''T''),
      av_encode = (\<lambda>_. ''x''), av_parse = (\<lambda>_. Some (webhook_auth_json \<lparr>wa_URL = ''https://w'', wa_Secret = ''s'', wa_Headers = []\<rparr>)),
      av_decode = (\<lambda>_. None), av_newRequest = (\<lambda>_ _. None), av_send = (\<lambda>_ _. Reply 204 '''' None), av_nilTags = True,
      av_order = (\<lambda>h. h)\<rparr>"

definition demo_params :: PublishParams where
  "demo_params = \<lparr>pp_Title = ''t'', pp_Content = ''c'', pp_Tags = [], pp_Images = [], pp_ScheduleAt = None\<rparr>"

theorem webhook_round_trip_witness:
  "\<exists>req. snd (webhook_Publish demo_adapter_env (replicate 12 0 @ string_bytes ''x'') (replicate 32 1) demo_params) = [req]
     \<and> rq_URL req = ''https://w'' \<and> map_of (rq_Headers req) ''X-Webhook-Secret'' = Some ''s''"
proof -
  have poll: "webhook_PollAuth demo_adapter_env
      \<lparr>ses_CDPContext = CtxCredentials [(''url'', ''https://w''), (''secret'', ''s'')], ses_AuthRef = ''r''\<rparr> (replicate 32 1)
      = (Inr (Some (replicate 12 0 @ string_bytes ''x'')), [\<lparr>rq_Method = ''POST'', rq_URL = ''https://w'', rq_Headers = webhook_headers ''s'', rq_Body = ''x''\<rparr>])"
    by (simp add: webhook_PollAuth_def cred_def demo_adapter_env_def encode_auth_def EncryptAPIKey_def aes_key_ok_def Let_def)
  from webhook_round_trip [OF poll, of demo_adapter_env demo_params] show ?thesis
    by (simp add: auth_law_def cred_def demo_adapter_env_def) blast
qed

text \<open>C39: a WordPress site. When the poll accepts a site, a user and an application password, the credentials were checked against
  that site; a publication posts the title and the content to it, authenticated as that user, and the id it
  returns is the one under which a later check of the status looks for the post, with the same
  credentials. The site is used without the slashes at its end.\<close>

theorem wordpress_round_trip:
  assumes "wp_PollAuth e \<lparr>ses_CDPContext = CtxCredentials m, ses_AuthRef = ref\<rparr> k = (Inr (Some auth), tested)"
    and "a = \<lparr>wd_SiteURL = trim_right_char (CHR ''/'') (cred m ''site_url''), wd_Username = cred m ''username'', wd_AppPassword = cred m ''app_password''\<rparr>"
    and "auth_law e e1 k (wp_auth_json a)" and "auth_law e e2 k (wp_auth_json a)"
    and "wp_Publish e1 auth k params = (Inr result, sent)"
    and "av_newRequest e2 ''GET'' (wd_SiteURL a @ ''/wp-json/wp/v2/posts/'' @ pr_PlatformID result) = None"
  shows "\<exists>n link. pr_PlatformID result = show_int n \<and> pr_PlatformURL result = link
    \<and> rq_URL (hd tested) = wd_SiteURL a @ ''/wp-json/wp/v2/users/me''
    \<and> map rq_URL sent = [wd_SiteURL a @ ''/wp-json/wp/v2/posts''] \<and> map rq_Body sent = [av_encode e1 (wp_post_body params)]
    \<and> map rq_URL (snd (wp_CheckStatus e2 auth k (pr_PlatformID result))) = [wd_SiteURL a @ ''/wp-json/wp/v2/posts/'' @ show_int n]
    \<and> (\<forall>req \<in> set (tested @ sent @ snd (wp_CheckStatus e2 auth k (pr_PlatformID result))).
         map_of (rq_Headers req) ''Authorization'' = Some (basic_auth (wd_Username a) (wd_AppPassword a)))"
proof -
  have h: "CanonicalHeaderKey ''Authorization'' = ''Authorization''" "CanonicalHeaderKey ''Accept'' = ''Accept''"
    "CanonicalHeaderKey ''Content-Type'' = ''Content-Type''" by code_simp+
  have auth: "map_of (rq_Headers (wp_request mt url a hs b)) ''Authorization'' = Some (basic_auth (wd_Username a) (wd_AppPassword a))"
    if "set (map fst hs) \<subseteq> {''Accept'', ''Content-Type''}" for mt url hs b
  proof -
    have "map_of (fold (\<lambda>(k, v). header_set k v) hs h0) ''Authorization'' = map_of h0 ''Authorization''" for h0
      using that by (induction hs arbitrary: h0) (auto simp: header_set_def h update_conv')
    then show ?thesis by (simp add: wp_request_def header_set_def h)
  qed
  have enc: "encode_auth e (wp_auth_json a) k = Some auth"
    and tested: "tested = [wp_request ''GET'' (wd_SiteURL a @ ''/wp-json/wp/v2/users/me'') a [(''Accept'', ''application/json'')] '''']"
    using assms(1) unfolding assms(2) by (auto simp: wp_PollAuth_def Let_def split: if_split_asm option.split_asm http_reply.split_asm sum.split_asm)
  have dec: "DecryptAuth e1 auth k decode_wp_auth = Inr a" "DecryptAuth e2 auth k decode_wp_auth = Inr a"
    by (rule wp.restore [OF enc assms(3)], simp, rule wp.restore [OF enc assms(4)], simp)
  obtain n where n: "pr_PlatformID result = show_int n"
    and sent: "sent = [wp_request ''POST'' (wd_SiteURL a @ ''/wp-json/wp/v2/posts'') a
        [(''Content-Type'', ''application/json''), (''Accept'', ''application/json'')] (av_encode e1 (wp_post_body params))]"
    using assms(5) dec(1) by (auto simp: wp_Publish_def Let_def split: if_split_asm option.split_asm http_reply.split_asm sum.split_asm)
  have check: "snd (wp_CheckStatus e2 auth k (pr_PlatformID result))
      = [wp_request ''GET'' (wd_SiteURL a @ ''/wp-json/wp/v2/posts/'' @ pr_PlatformID result) a [(''Accept'', ''application/json'')] '''']"
    using assms(6) dec(2) by (simp add: wp_CheckStatus_def Let_def split: http_reply.split option.split)
  have url: "rq_URL (wp_request mt u a hs b) = u" "rq_Body (wp_request mt u a hs b) = b" for mt u hs b
    by (simp_all add: wp_request_def)
  show ?thesis
    by (intro exI [of _ n] exI [of _ "pr_PlatformURL result"]) (simp add: check [unfolded n] sent tested n url auth)
qed

definition demo_wp_env :: AdapterEnv where
  "demo_wp_env = demo_adapter_env\<lparr>
     av_parse := (\<lambda>_. Some (wp_auth_json \<lparr>wd_SiteURL = ''https://b'', wd_Username = ''u'', wd_AppPassword = ''p''\<rparr>)),
     av_decode := (\<lambda>_. Some (JObject [(''id'', JNumber ''42''), (''link'', JString ''https://b/42'')])),
     av_send := (\<lambda>_ req. Reply (if rq_Method req = ''POST'' then 201 else 200) '''' None)\<rparr>"

theorem wordpress_round_trip_witness:
  "\<exists>n. map rq_URL (snd (wp_CheckStatus demo_wp_env (replicate 12 0 @ string_bytes ''x'') (replicate 32 7) ''42''))
     = [''https://b/wp-json/wp/v2/posts/'' @ show_int n]"
proof -
  let ?s = "\<lparr>ses_CDPContext = CtxCredentials [(''site_url'', ''https://b/''), (''username'', ''u''), (''app_password'', ''p'')], ses_AuthRef = ''r''\<rparr>"
  let ?a = "\<lparr>wd_SiteURL = ''https://b'', wd_Username = ''u'', wd_AppPassword = ''p''\<rparr>"
  have site: "trim_right_char (CHR ''/'') ''https://b/'' = ''https://b''" by code_simp
  have poll: "wp_PollAuth demo_wp_env ?s (replicate 32 7)
      = (Inr (Some (replicate 12 0 @ string_bytes ''x'')), [wp_request ''GET'' ''https://b/wp-json/wp/v2/users/me'' ?a [(''Accept'', ''application/json'')] ''''])"
    by (simp add: wp_PollAuth_def cred_def site demo_wp_env_def demo_adapter_env_def encode_auth_def EncryptAPIKey_def aes_key_ok_def wp_request_def Let_def)
  have law: "auth_law demo_wp_env demo_wp_env (replicate 32 7) (wp_auth_json ?a)"
    by (simp add: auth_law_def demo_wp_env_def demo_adapter_env_def)
  have enc: "encode_auth demo_wp_env (wp_auth_json ?a) (replicate 32 7) = Some (replicate 12 0 @ string_bytes ''x'')"
    by (simp add: demo_wp_env_def demo_adapter_env_def encode_auth_def EncryptAPIKey_def aes_key_ok_def)
  have a42: "Atoi ''42'' = Some 42" "show_int 42 = ''42''" by code_simp+
  have decode: "decode_wp_post (JObject [(''id'', JNumber ''42''), (''link'', JString ''https://b/42'')]) = Some (42, ''https://b/42'')"
    by (simp add: decode_wp_post_def members_def int_member_def str_member_def string_field_def decode_string_def lower_char_def a42)
  obtain sent where pub: "wp_Publish demo_wp_env (replicate 12 0 @ string_bytes ''x'') (replicate 32 7) demo_params
      = (Inr \<lparr>pr_PlatformURL = ''https://b/42'', pr_PlatformID = ''42''\<rparr>, sent)"
    by (simp add: wp_Publish_def wp.restore [OF enc law] decode a42 Let_def)
      (simp add: demo_wp_env_def demo_adapter_env_def decode a42 wp_request_def)
  show ?thesis
    using wordpress_round_trip [OF poll _ law law pub] by (auto simp: cred_def site demo_wp_env_def demo_adapter_env_def)
qed

text \<open>Disconnecting a site lists its application passwords and deletes every one whose name contains \<^verbatim>\<open>anynote\<close>, whether it is
  the stored one or that of another account or device.\<close>

lemma wp_revoke_deletes:
  assumes "DecryptAuth e auth k decode_wp_auth = Inr a" and "\<forall>mt u. av_newRequest e mt u = None"
    and "av_send e 0 (wp_request ''GET'' (wd_SiteURL a @ ''/wp-json/wp/v2/users/me/application-passwords'') a [(''Accept'', ''application/json'')] '''')
       = Reply 200 body x" and "Option.bind (av_decode e body) decode_password_list = Some aps"
  shows "map (\<lambda>r. (rq_Method r, rq_URL r)) (tl (snd (wp_RevokeAuth e auth k)))
    = map (\<lambda>(u, _). (''DELETE'', wd_SiteURL a @ ''/wp-json/wp/v2/users/me/application-passwords/'' @ u)) (filter (\<lambda>(_, name). anynote_password name) aps)"
proof -
  have "map (\<lambda>r. (rq_Method r, rq_URL r)) (delete_passwords e a aps)
      = map (\<lambda>(u, _). (''DELETE'', wd_SiteURL a @ ''/wp-json/wp/v2/users/me/application-passwords/'' @ u)) (filter (\<lambda>(_, name). anynote_password name) aps)"
    using assms(2) by (induction e a aps rule: delete_passwords.induct) (auto simp: wp_request_def Let_def)
  then show ?thesis using assms by (simp add: wp_RevokeAuth_def Let_def)
qed

text \<open>Unlike the base URL of an LLM, the address of a webhook is not restricted: the server also posts to addresses of its own
  network, here the one under which clouds serve the credentials of the machine.\<close>

lemma webhook_internal_address:
  "rq_URL (hd (snd (webhook_PollAuth demo_adapter_env \<lparr>ses_CDPContext = CtxCredentials [(''url'', ''http://169.254.169.254/'')], ses_AuthRef = ''r''\<rparr> k)))
     = ''http://169.254.169.254/'' \<and> \<not> isPublicIP [169, 254, 169, 254]"
proof -
  have "\<not> isPublicIP [169, 254, 169, 254]" by code_simp
  then show ?thesis
    by (simp add: webhook_PollAuth_def cred_def demo_adapter_env_def encode_auth_def EncryptAPIKey_def Let_def)
qed

end
