(* ===== verification/Browser_Adapters.thy ===== *)
theory Browser_Adapters
  imports Adapters
begin

text \<open>
  The adapters that drive a browser: Zhihu, WeChat and Xiaohongshu (\<^verbatim>\<open>platform/zhihu/adapter.go\<close>,
  \<^verbatim>\<open>platform/wechat/adapter.go\<close>, \<^verbatim>\<open>platform/xiaohongshu/adapter.go\<close>) with their helpers (\<^verbatim>\<open>chromedputil/util.go\<close>). The
  browser is an argument that answers each run of a batch of actions; the operations return the batches they have
  run. CSS selectors and scripts are named by what they select or compute; their texts, which only the page interprets,
  are not part of the model.
\<close>

section \<open>The browser\<close>

datatype selector = QrImage | TitleInput | ContentInput | TopicInput | FileInput | SubmitButton

datatype script = LoginCheck | ExtractQR | BodyText | PostLink | InitialState | LikeText | CollectText | CommentText

datatype action = EmulateViewport nat nat | PageNavigate string | Navigate string | Sleep duration | WaitVisible selector
  | SendKeys selector string | Click selector | SetCookie string string string string bool bool | GetCookies | Location | Evaluate script

text \<open>A cookie of the browser; its expiry is the whole part of the number the browser gives.\<close>

record network_cookie =
  nc_Name :: string
  nc_Value :: string
  nc_Domain :: string
  nc_Path :: string
  nc_Expires :: int
  nc_HTTPOnly :: bool
  nc_Secure :: bool
  nc_SameSite :: string

text \<open>The values a batch delivers: the location, a truth value, bytes, cookies, and the texts of its scripts in their order.\<close>

record RunOut =
  ro_URL :: string
  ro_Flag :: bool
  ro_Bytes :: bytes
  ro_Cookies :: "network_cookie list"
  ro_Texts :: "string list"

definition no_out :: RunOut where
  "no_out = \<lparr>ro_URL = '''', ro_Flag = False, ro_Bytes = [], ro_Cookies = [], ro_Texts = []\<rparr>"

record BrowserEnv =
  be_env :: AdapterEnv
  be_tab :: nat
  be_run :: "nat \<Rightarrow> action list \<Rightarrow> string + RunOut"

text \<open>A step runs a batch; an error ends the operation with a message or is ignored. The result has the values of the last batch
  that succeeded, and the number of the next batch.\<close>

datatype browser_step = Must string "action list" | Try "action list"

fun run_steps :: "BrowserEnv \<Rightarrow> nat \<Rightarrow> RunOut \<Rightarrow> browser_step list \<Rightarrow> (string + RunOut) \<times> nat \<times> action list list" where
  "run_steps e i out [] = (Inr out, i, [])"
| "run_steps e i out (Must m as # ss) =
     (case be_run e i as of
        Inl err \<Rightarrow> (Inl (m @ '': '' @ err), Suc i, [as])
      | Inr out' \<Rightarrow> (let (r, j, log) = run_steps e (Suc i) out' ss in (r, j, as # log)))"
| "run_steps e i out (Try as # ss) =
     (let (r, j, log) = run_steps e (Suc i) (case be_run e i as of Inl _ \<Rightarrow> out | Inr out' \<Rightarrow> out') ss in (r, j, as # log))"

section \<open>Cookies\<close>

record HTTPCookie =
  hc_Name :: string
  hc_Value :: string
  hc_Domain :: string
  hc_Path :: string
  hc_Expires :: int
  hc_HTTPOnly :: bool
  hc_Secure :: bool
  hc_SameSite :: string

type_synonym CookieJar = "HTTPCookie list"

definition SameSiteString :: "string \<Rightarrow> string" where
  "SameSiteString ss = (if ss = ''Strict'' then ''strict'' else if ss = ''Lax'' then ''lax'' else if ss = ''None'' then ''none'' else '''')"

definition CookieActions :: "CookieJar \<Rightarrow> action list" where
  "CookieActions jar = map (\<lambda>c. SetCookie (hc_Name c) (hc_Value c) (hc_Domain c) (hc_Path c) (hc_HTTPOnly c) (hc_Secure c)) jar"

definition cookie_of :: "network_cookie \<Rightarrow> HTTPCookie" where
  "cookie_of c = \<lparr>hc_Name = nc_Name c, hc_Value = nc_Value c, hc_Domain = nc_Domain c, hc_Path = nc_Path c, hc_Expires = nc_Expires c,
     hc_HTTPOnly = nc_HTTPOnly c, hc_Secure = nc_Secure c, hc_SameSite = SameSiteString (nc_SameSite c)\<rparr>"

definition cookie_json :: "HTTPCookie \<Rightarrow> json" where
  "cookie_json c = JObject [(''name'', JString (hc_Name c)), (''value'', JString (hc_Value c)), (''domain'', JString (hc_Domain c)),
     (''path'', JString (hc_Path c)), (''expires'', JNumber (show_int (hc_Expires c))), (''http_only'', JBool (hc_HTTPOnly c)),
     (''secure'', JBool (hc_Secure c)), (''same_site'', JString (hc_SameSite c))]"

definition jar_json :: "CookieJar \<Rightarrow> json" where
  "jar_json jar = JObject [(''cookies'', JArray (map cookie_json jar))]"

definition decode_cookie :: "json \<Rightarrow> HTTPCookie option" where
  "decode_cookie v =
     Option.bind (members v) (\<lambda>m. Option.bind (str_member ''name'' m) (\<lambda>n. Option.bind (str_member ''value'' m) (\<lambda>x.
     Option.bind (str_member ''domain'' m) (\<lambda>d. Option.bind (str_member ''path'' m) (\<lambda>p. Option.bind (int_member ''expires'' m) (\<lambda>ex.
     Option.bind (bool_member ''http_only'' m) (\<lambda>h. Option.bind (bool_member ''secure'' m) (\<lambda>s. Option.bind (str_member ''same_site'' m) (\<lambda>ss.
       Some \<lparr>hc_Name = n, hc_Value = x, hc_Domain = d, hc_Path = p, hc_Expires = ex, hc_HTTPOnly = h, hc_Secure = s, hc_SameSite = ss\<rparr>)))))))))"

fun decode_cookies :: "json list \<Rightarrow> CookieJar option" where
  "decode_cookies [] = Some []"
| "decode_cookies (v # vs) = Option.bind (decode_cookie v) (\<lambda>c. map_option (\<lambda>cs. c # cs) (decode_cookies vs))"

text \<open>Of several members of that name the final one counts, but all must decode.\<close>

definition decode_jar :: "json \<Rightarrow> CookieJar option" where
  "decode_jar v =
     Option.bind (members v) (\<lambda>m.
       let vs = map (\<lambda>x. case x of JArray xs \<Rightarrow> decode_cookies xs | JNull \<Rightarrow> Some [] | _ \<Rightarrow> None) (struct_field ''cookies'' m)
       in if None \<in> set vs then None else if vs = [] then Some [] else last vs)"

definition DecryptCookieJar :: "AdapterEnv \<Rightarrow> bytes \<Rightarrow> bytes \<Rightarrow> string + CookieJar" where
  "DecryptCookieJar e encryptedAuth masterKey = DecryptAuth e encryptedAuth masterKey decode_jar"

section \<open>Signing in\<close>

definition browser_StartAuth :: "BrowserEnv \<Rightarrow> string \<Rightarrow> action \<Rightarrow> (string + AuthSession \<times> bytes) \<times> action list list" where
  "browser_StartAuth e pre open' =
     (let (r, _, log) = run_steps e 0 no_out
            [Must ''set viewport'' [EmulateViewport 1280 800],
             Must ''navigate to login page'' [open', Sleep (3 * second), WaitVisible QrImage],
             Must ''extract QR code image'' [Evaluate ExtractQR]]
      in (case r of
            Inl err \<Rightarrow> Inl err
          | Inr out \<Rightarrow> Inr (\<lparr>ses_CDPContext = CtxBrowser (be_tab e), ses_AuthRef = pre @ show_int (UnixMilli (av_clock (be_env e) 0))\<rparr>,
                           ro_Bytes out), log))"

definition browser_PollAuth :: "BrowserEnv \<Rightarrow> (string \<Rightarrow> bool) \<Rightarrow> (string \<Rightarrow> bool) \<Rightarrow> string \<Rightarrow> AuthSession \<Rightarrow> bytes
    \<Rightarrow> (string + bytes option) \<times> action list list" where
  "browser_PollAuth e waiting own name session masterKey =
     (case ses_CDPContext session of
        CtxBrowser tab \<Rightarrow>
          (case be_run e 0 [Location, Evaluate LoginCheck] of
             Inl err \<Rightarrow> (Inl (''poll login status: '' @ err), [[Location, Evaluate LoginCheck]])
           | Inr out \<Rightarrow>
               if \<not> ro_Flag out \<and> waiting (ro_URL out) then (Inr None, [[Location, Evaluate LoginCheck]])
               else
                 (let log = [[Location, Evaluate LoginCheck], [Sleep (2 * second)], [GetCookies]] in
                  case be_run e 2 [GetCookies] of
                    Inl err \<Rightarrow> (Inl (''get cookies: '' @ err), log)
                  | Inr out' \<Rightarrow>
                      (let jar = map cookie_of (filter (\<lambda>c. own (nc_Domain c)) (ro_Cookies out')) in
                       if jar = [] then (Inl (''no '' @ name @ '' cookies found after login''), log)
                       else case encode_auth (be_env e) (jar_json jar) masterKey of
                         None \<Rightarrow> (Inl ''encrypt cookies'', log)
                       | Some encrypted \<Rightarrow> (Inr (Some encrypted), log))))
      | _ \<Rightarrow> (Inl ''invalid session: wrong context type'', []))"

section \<open>Publishing\<close>

definition actionDelay :: duration where
  "actionDelay = 1500 * 1000000"

definition open_page :: "string \<Rightarrow> string \<Rightarrow> CookieJar \<Rightarrow> browser_step list" where
  "open_page message url jar =
     [Must message [EmulateViewport 1280 800, PageNavigate url, Sleep (2 * second)],
      Must ''set cookies'' (CookieActions jar)]"

definition open_editor :: "string \<Rightarrow> string \<Rightarrow> browser_step list" where
  "open_editor form url =
     [Must (form @ '' form not loaded (session may have expired)'') [Navigate url, Sleep (3 * second), WaitVisible TitleInput]]"

text \<open>Only images with a file are uploaded.\<close>

definition image_steps :: "PublishParams \<Rightarrow> browser_step list" where
  "image_steps params =
     concat (map (\<lambda>(url, filePath). if filePath = '''' then []
               else [Must (''upload image '' @ filePath) [SendKeys FileInput filePath, Sleep actionDelay], Try [Sleep (2 * second)]])
       (pp_Images params))"

definition text_steps :: "PublishParams \<Rightarrow> browser_step list" where
  "text_steps params =
     Must ''fill title'' [SendKeys TitleInput (pp_Title params), Sleep actionDelay]
     # (if pp_Content params \<noteq> ''''
        then [Must ''fill content'' [Click ContentInput, Sleep (500 * 1000000), SendKeys ContentInput (pp_Content params), Sleep actionDelay]]
        else [])"

definition type_tags :: "selector \<Rightarrow> string \<Rightarrow> browser_step list" where
  "type_tags sel tagText = [Try [Click sel, Sleep (300 * 1000000), SendKeys sel tagText, Sleep actionDelay]]"

definition tag_lines :: "string list \<Rightarrow> string" where
  "tag_lines tags = [CHR 0x0A, CHR 0x0A] @ concat (map (\<lambda>t. ''#'' @ t @ '' '') tags)"

definition submit_steps :: "string \<Rightarrow> string \<Rightarrow> browser_step list" where
  "submit_steps click wait = [Must click [Sleep actionDelay, Click SubmitButton], Must wait [Sleep (3 * second)]]"

text \<open>The id of the post, or one made of the time.\<close>

definition published :: "BrowserEnv \<Rightarrow> string \<Rightarrow> (string \<Rightarrow> string) \<Rightarrow> string \<Rightarrow> PublishResult" where
  "published e pre extract url =
     \<lparr>pr_PlatformURL = url,
      pr_PlatformID = (if extract url = '''' then pre @ show_int (UnixMilli (av_clock (be_env e) 0)) else extract url)\<rparr>"

definition location_of :: "string + RunOut \<Rightarrow> string" where
  "location_of r = (case r of Inl _ \<Rightarrow> '''' | Inr out \<Rightarrow> ro_URL out)"

text \<open>The end of a publication: the steps, and the batch that looks for the address of the post.\<close>

definition finish_publish :: "BrowserEnv \<Rightarrow> nat \<Rightarrow> browser_step list \<Rightarrow> action list \<Rightarrow> (string + RunOut \<Rightarrow> string) \<Rightarrow> string
    \<Rightarrow> (string \<Rightarrow> string) \<Rightarrow> (string + PublishResult) \<times> action list list" where
  "finish_publish e i steps look url_of pre extract =
     (let (r, j, log) = run_steps e i no_out steps in
      case r of
        Inl err \<Rightarrow> (Inl err, log)
      | Inr _ \<Rightarrow> (Inr (published e pre extract (url_of (be_run e j look))), log @ [look]))"

text \<open>Whether a published post is still there, by the text of its page.\<close>

definition page_status :: "string list \<Rightarrow> string list \<Rightarrow> string \<Rightarrow> string option" where
  "page_status removed live content =
     (if list_ex (str_Contains content) removed then Some ''removed''
      else if list_ex (str_Contains content) live then Some ''live'' else None)"

definition page_text :: "RunOut \<Rightarrow> string" where
  "page_text out = (case ro_Texts out of [] \<Rightarrow> '''' | t # _ \<Rightarrow> t)"

definition load_page :: "BrowserEnv \<Rightarrow> string \<Rightarrow> string \<Rightarrow> CookieJar \<Rightarrow> (string + string) \<times> nat \<times> action list list" where
  "load_page e message url jar =
     (let (r, j, log) = run_steps e 0 no_out
            (open_page message url jar @ [Must ''check page'' [Navigate url, Sleep (3 * second), Evaluate BodyText]])
      in (case r of Inl err \<Rightarrow> Inl err | Inr out \<Rightarrow> Inr (page_text out), j, log))"




section \<open>Zhihu\<close>

definition zhihu_waiting :: "string \<Rightarrow> bool" where
  "zhihu_waiting url \<longleftrightarrow> str_Contains url ''signin''"

definition zhihu_StartAuth :: "BrowserEnv \<Rightarrow> (string + AuthSession \<times> bytes) \<times> action list list" where
  "zhihu_StartAuth e = browser_StartAuth e ''zhihu-'' (Navigate ''https://www.zhihu.com/signin'')"

definition zhihu_PollAuth :: "BrowserEnv \<Rightarrow> AuthSession \<Rightarrow> bytes \<Rightarrow> (string + bytes option) \<times> action list list" where
  "zhihu_PollAuth e = browser_PollAuth e zhihu_waiting (\<lambda>d. str_Contains d ''zhihu.com'') ''Zhihu''"

definition zhihu_extractArticleID :: "string \<Rightarrow> string" where
  "zhihu_extractArticleID rawURL =
     (if rawURL = '''' then ''''
      else case str_Index rawURL ''/p/'' of
        None \<Rightarrow> ''''
      | Some idx \<Rightarrow>
          (let rest = drop (idx + 3) rawURL
           in case str_IndexAny rest (set ''?#/'') of Some n \<Rightarrow> take n rest | None \<Rightarrow> rest))"

text \<open>Each topic is a batch of its own; the tags are typed into the text when no batch has succeeded.\<close>

definition topic_actions :: "string \<Rightarrow> action list" where
  "topic_actions t = [SendKeys TopicInput t, Sleep (800 * 1000000), SendKeys TopicInput [CHR 0x0D], Sleep (500 * 1000000)]"

fun fill_topics :: "BrowserEnv \<Rightarrow> nat \<Rightarrow> string list \<Rightarrow> bool \<times> nat \<times> action list list" where
  "fill_topics e i [] = (False, i, [])"
| "fill_topics e i (t # ts) =
     (let (filled, j, log) = fill_topics e (Suc i) ts
      in ((case be_run e i (topic_actions t) of Inl _ \<Rightarrow> filled | Inr _ \<Rightarrow> True), j, topic_actions t # log))"

definition zhihu_Publish :: "BrowserEnv \<Rightarrow> bytes \<Rightarrow> bytes \<Rightarrow> PublishParams \<Rightarrow> (string + PublishResult) \<times> action list list" where
  "zhihu_Publish e encryptedAuth masterKey params =
     (case DecryptCookieJar (be_env e) encryptedAuth masterKey of
        Inl err \<Rightarrow> (Inl err, [])
      | Inr jar \<Rightarrow>
          (let writeURL = ''https://www.zhihu.com/writer'';
               (r, i, log) = run_steps e 0 no_out
                 (open_page ''navigate to write page'' writeURL jar @ open_editor ''editor'' writeURL @ text_steps params)
           in case r of
                Inl err \<Rightarrow> (Inl err, log)
              | Inr _ \<Rightarrow>
                  (let (filled, j, log1) = fill_topics e i (pp_Tags params);
                       fallback = (if pp_Tags params \<noteq> [] \<and> \<not> filled then type_tags ContentInput (tag_lines (pp_Tags params)) else []);
                       (res, log2) = finish_publish e j (fallback @ submit_steps ''click publish button'' ''wait for publish result'')
                         [Location] location_of ''pending-'' zhihu_extractArticleID
                   in (res, log @ log1 @ log2))))"

definition zhihu_CheckStatus :: "BrowserEnv \<Rightarrow> bytes \<Rightarrow> bytes \<Rightarrow> string \<Rightarrow> (string \<times> string option) \<times> action list list" where
  "zhihu_CheckStatus e encryptedAuth masterKey platformID =
     (case DecryptCookieJar (be_env e) encryptedAuth masterKey of
        Inl err \<Rightarrow> ((''unknown'', Some err), [])
      | Inr jar \<Rightarrow>
          (let postURL = (if has_prefix platformID ''http'' then platformID else ''https://www.zhihu.com/p/'' @ platformID);
               (r, _, log) = load_page e ''navigate to article'' postURL jar
           in (case r of
                 Inl err \<Rightarrow> (''unknown'', Some err)
               | Inr content \<Rightarrow>
                   (case page_status
                      [bytes_string [228, 189, 160, 228, 188, 188, 228, 185, 142, 230, 157, 165, 229, 136, 176, 228, 186, 134, 230, 178, 161, 230, 156, 137, 231, 159, 165, 232, 175, 134, 229, 173, 152, 229, 156, 168, 231, 154, 132, 232, 141, 146, 229, 142, 159],
      bytes_string [232, 175, 165, 229, 134, 133, 229, 174, 185, 229, 183, 178, 232, 162, 171, 229, 136, 160, 233, 153, 164],
      bytes_string [229, 134, 133, 229, 174, 185, 232, 191, 157, 232, 167, 132],
      ''reviewing'',
      ''has been deleted'']
                      [bytes_string [232, 181, 158, 229, 144, 140],
      bytes_string [232, 175, 132, 232, 174, 186],
      bytes_string [230, 148, 182, 232, 151, 143],
      ''Upvote''] content of
                      Some s \<Rightarrow> (s, None)
                    | None \<Rightarrow> (''unknown'', None)), log)))"

definition zhihu_Adapter :: "BrowserEnv \<Rightarrow> Adapter" where
  "zhihu_Adapter e =
     \<lparr>ad_StartAuth = (\<lambda>k. fst (zhihu_StartAuth e)),
      ad_PollAuth = (\<lambda>session k. fst (zhihu_PollAuth e session k)),
      ad_Publish = (\<lambda>auth k params. map_sum (\<lambda>m. m) Some (fst (zhihu_Publish e auth k params))),
      ad_CheckStatus = (\<lambda>auth k platformID. fst (zhihu_CheckStatus e auth k platformID)),
      ad_RevokeAuth = (\<lambda>auth k. None),
      ad_FetchStats = None\<rparr>"

section \<open>WeChat\<close>

definition wechat_waiting :: "string \<Rightarrow> bool" where
  "wechat_waiting url \<longleftrightarrow> str_Contains url ''login'' \<or> url = ''https://mp.weixin.qq.com/'' \<or> has_suffix url ''/''"

definition wechat_StartAuth :: "BrowserEnv \<Rightarrow> (string + AuthSession \<times> bytes) \<times> action list list" where
  "wechat_StartAuth e = browser_StartAuth e ''wechat-'' (PageNavigate ''https://mp.weixin.qq.com/'')"

definition wechat_PollAuth :: "BrowserEnv \<Rightarrow> AuthSession \<Rightarrow> bytes \<Rightarrow> (string + bytes option) \<times> action list list" where
  "wechat_PollAuth e = browser_PollAuth e wechat_waiting (\<lambda>d. str_Contains d ''weixin.qq.com'' \<or> str_Contains d ''wx.qq.com'') ''WeChat''"

text \<open>The text after the first occurrence of a mark, up to one of some characters.\<close>

definition after_mark :: "string \<Rightarrow> string \<Rightarrow> string \<Rightarrow> string option" where
  "after_mark rawURL mark ends =
     map_option (\<lambda>idx. let rest = drop (idx + length mark) rawURL
       in case str_IndexAny rest (set ends) of Some n \<Rightarrow> take n rest | None \<Rightarrow> rest) (str_Index rawURL mark)"

definition wechat_extractArticleID :: "string \<Rightarrow> string" where
  "wechat_extractArticleID rawURL =
     (if rawURL = '''' then ''''
      else case after_mark rawURL ''appmsgid='' ''&#'' of Some x \<Rightarrow> x
      | None \<Rightarrow>
      (case after_mark rawURL ''/s/'' ''?#'' of Some x \<Rightarrow> x
      | None \<Rightarrow>
      (case after_mark rawURL ''mid='' ''&#'' of Some x \<Rightarrow> x | None \<Rightarrow> '''')))"

definition wechat_publishURL :: string where
  "wechat_publishURL = ''https://mp.weixin.qq.com/cgi-bin/appmsg?t=media/appmsg_edit&action=edit&type=77''"

definition wechat_Publish :: "BrowserEnv \<Rightarrow> bytes \<Rightarrow> bytes \<Rightarrow> PublishParams \<Rightarrow> (string + PublishResult) \<times> action list list" where
  "wechat_Publish e encryptedAuth masterKey params =
     (case DecryptCookieJar (be_env e) encryptedAuth masterKey of
        Inl err \<Rightarrow> (Inl err, [])
      | Inr jar \<Rightarrow>
          finish_publish e 0
            (open_page ''navigate to publish page'' wechat_publishURL jar @ open_editor ''publish'' wechat_publishURL
             @ image_steps params @ text_steps params
             @ (if pp_Tags params \<noteq> [] then type_tags ContentInput (tag_lines (pp_Tags params)) else [])
             @ submit_steps ''click save draft button'' ''wait for save result'')
            [Location] location_of ''draft-'' wechat_extractArticleID)"

definition wechat_CheckStatus :: "BrowserEnv \<Rightarrow> bytes \<Rightarrow> bytes \<Rightarrow> string \<Rightarrow> (string \<times> string option) \<times> action list list" where
  "wechat_CheckStatus e encryptedAuth masterKey platformID =
     (case DecryptCookieJar (be_env e) encryptedAuth masterKey of
        Inl err \<Rightarrow> ((''unknown'', Some err), [])
      | Inr jar \<Rightarrow>
          (let checkURL = (if has_prefix platformID ''http'' then platformID else wechat_publishURL @ ''&appmsgid='' @ platformID);
               (r, j, log) = load_page e ''navigate to article'' checkURL jar
           in case r of
                Inl err \<Rightarrow> ((''unknown'', Some err), log)
              | Inr content \<Rightarrow>
                  (case page_status
                     [bytes_string [232, 175, 165, 229, 134, 133, 229, 174, 185, 229, 183, 178, 232, 162, 171, 229, 143, 145, 229, 184, 131, 232, 128, 133, 229, 136, 160, 233, 153, 164],
      bytes_string [229, 134, 133, 229, 174, 185, 228, 184, 141, 229, 173, 152, 229, 156, 168],
      bytes_string [230, 173, 164, 229, 134, 133, 229, 174, 185, 229, 155, 160, 232, 191, 157, 232, 167, 132, 230, 151, 160, 230, 179, 149, 230, 159, 165, 231, 156, 139],
      ''has been deleted'',
      ''content unavailable'']
                     [bytes_string [228, 191, 157, 229, 173, 152],
      bytes_string [229, 143, 145, 229, 184, 131],
      bytes_string [231, 190, 164, 229, 143, 145]] content of
                     Some s \<Rightarrow> ((s, None), log)
                   | None \<Rightarrow>
                       (let currentURL = location_of (be_run e j [Location]) in
                        ((''unknown'', if str_Contains currentURL ''login'' \<or> str_Contains content (bytes_string [232, 175, 183, 231, 153, 187, 229, 189, 149])
                                     then Some ''session expired'' else None), log @ [[Location]])))))"

definition wechat_Adapter :: "BrowserEnv \<Rightarrow> Adapter" where
  "wechat_Adapter e =
     \<lparr>ad_StartAuth = (\<lambda>k. fst (wechat_StartAuth e)),
      ad_PollAuth = (\<lambda>session k. fst (wechat_PollAuth e session k)),
      ad_Publish = (\<lambda>auth k params. map_sum (\<lambda>m. m) Some (fst (wechat_Publish e auth k params))),
      ad_CheckStatus = (\<lambda>auth k platformID. fst (wechat_CheckStatus e auth k platformID)),
      ad_RevokeAuth = (\<lambda>auth k. None),
      ad_FetchStats = None\<rparr>"

section \<open>Xiaohongshu\<close>

definition xhs_StartAuth :: "BrowserEnv \<Rightarrow> (string + AuthSession \<times> bytes) \<times> action list list" where
  "xhs_StartAuth e = browser_StartAuth e ''xhs-'' (Navigate ''https://creator.xiaohongshu.com/login'')"

definition xhs_PollAuth :: "BrowserEnv \<Rightarrow> AuthSession \<Rightarrow> bytes \<Rightarrow> (string + bytes option) \<times> action list list" where
  "xhs_PollAuth e = browser_PollAuth e (\<lambda>url. str_Contains url ''login'')
     (\<lambda>d. str_Contains d ''xiaohongshu.com'' \<or> str_Contains d ''xhscdn.com'') ''XHS''"

text \<open>The loop over the parts of the address, from the back.\<close>

fun note_id_in :: "string list \<Rightarrow> string" where
  "note_id_in [] = ''''"
| "note_id_in (part # parts) =
     (let p = TrimSpace part in
      if p \<noteq> '''' \<and> p \<noteq> ''explore'' \<and> p \<noteq> ''discovery'' \<and> p \<noteq> ''item'' \<and> \<not> str_Contains p ''.'' then
        let q = (case str_Index p ''?'' of Some n \<Rightarrow> take n p | None \<Rightarrow> p)
        in if length q \<ge> 10 then q else note_id_in parts
      else note_id_in parts)"

definition xhs_extractNoteID :: "string \<Rightarrow> string" where
  "xhs_extractNoteID rawURL = (if rawURL = '''' then '''' else note_id_in (rev (split_char (CHR ''/'') rawURL)))"

definition xhs_publishURL :: string where
  "xhs_publishURL = ''https://creator.xiaohongshu.com/publish/publish''"

definition resolvePostURL :: "string \<Rightarrow> string" where
  "resolvePostURL platformPostID =
     (if has_prefix platformPostID ''http'' then platformPostID else ''https://www.xiaohongshu.com/explore/'' @ platformPostID)"

definition xhs_Publish :: "BrowserEnv \<Rightarrow> bytes \<Rightarrow> bytes \<Rightarrow> PublishParams \<Rightarrow> (string + PublishResult) \<times> action list list" where
  "xhs_Publish e encryptedAuth masterKey params =
     (case DecryptCookieJar (be_env e) encryptedAuth masterKey of
        Inl err \<Rightarrow> (Inl err, [])
      | Inr jar \<Rightarrow>
          finish_publish e 0
            (open_page ''navigate to publish page'' xhs_publishURL jar @ open_editor ''publish'' xhs_publishURL
             @ image_steps params @ text_steps params
             @ (if pp_Tags params \<noteq> [] then type_tags ContentInput (concat (map (\<lambda>t. '' #'' @ t) (pp_Tags params))) else [])
             @ submit_steps ''click publish button'' ''wait for publish result'')
            [Evaluate PostLink] (\<lambda>r. case r of Inl _ \<Rightarrow> '''' | Inr out \<Rightarrow> page_text out) ''pending-'' xhs_extractNoteID)"

definition xhs_CheckStatus :: "BrowserEnv \<Rightarrow> bytes \<Rightarrow> bytes \<Rightarrow> string \<Rightarrow> (string \<times> string option) \<times> action list list" where
  "xhs_CheckStatus e encryptedAuth masterKey platformID =
     (case DecryptCookieJar (be_env e) encryptedAuth masterKey of
        Inl err \<Rightarrow> ((''unknown'', Some err), [])
      | Inr jar \<Rightarrow>
          (let (r, _, log) = load_page e ''navigate to post'' (resolvePostURL platformID) jar
           in (case r of
                 Inl err \<Rightarrow> (''unknown'', Some err)
               | Inr content \<Rightarrow>
                   (case page_status
                      [bytes_string [232, 175, 165, 231, 172, 148, 232, 174, 176, 229, 183, 178, 232, 162, 171, 229, 136, 160, 233, 153, 164],
      bytes_string [231, 172, 148, 232, 174, 176, 228, 184, 141, 229, 173, 152, 229, 156, 168],
      ''has been deleted'']
                      [bytes_string [231, 172, 148, 232, 174, 176],
      bytes_string [232, 175, 132, 232, 174, 186],
      bytes_string [231, 130, 185, 232, 181, 158]] content of
                      Some s \<Rightarrow> (s, None)
                    | None \<Rightarrow> (''unknown'', None)), log)))"

section \<open>What a publication does in the browser\<close>

lemma decode_cookie_json [simp]:
  "- (2 ^ 63) \<le> hc_Expires c \<Longrightarrow> hc_Expires c < 2 ^ 63 \<Longrightarrow> decode_cookie (cookie_json c) = Some c"
  by (simp add: decode_cookie_def cookie_json_def members_def str_member_def bool_member_def string_field_def decode_string_def lower_char_def)

lemma decode_cookies_json:
  "\<forall>c \<in> set jar. - (2 ^ 63) \<le> hc_Expires c \<and> hc_Expires c < 2 ^ 63 \<Longrightarrow> decode_cookies (map cookie_json jar) = Some jar"
  by (induction jar) auto

interpretation cj: stored_auth jar_json decode_jar "\<lambda>jar. \<forall>c \<in> set jar. - (2 ^ 63) \<le> hc_Expires c \<and> hc_Expires c < 2 ^ 63"
  by unfold_locales (simp add: jar_json_def decode_jar_def members_def decode_cookies_json lower_char_def)

fun batch :: "browser_step \<Rightarrow> action list" where
  "batch (Must m as) = as"
| "batch (Try as) = as"

text \<open>What has run is the beginning of the steps, and all of them when they succeed.\<close>

lemma run_steps_begin:
  "run_steps e i out ss = (r, j, log) \<Longrightarrow> \<exists>rest. map batch ss = log @ rest \<and> (\<forall>x. r = Inr x \<longrightarrow> rest = [])"
proof (induction e i out ss arbitrary: r j log rule: run_steps.induct)
  case (2 e i out m as ss)
  then show ?case by (fastforce simp: Let_def split: sum.split_asm prod.split_asm)
next
  case (3 e i out as ss)
  then show ?case by (fastforce simp: Let_def split: prod.split_asm)
qed simp

text \<open>The text typed into an element, and the cookies set, by a sequence of batches.\<close>

fun keys_of :: "selector \<Rightarrow> action \<Rightarrow> string" where
  "keys_of sel (SendKeys s t) = (if s = sel then t else '''')"
| "keys_of sel a = ''''"

definition typed :: "selector \<Rightarrow> action list list \<Rightarrow> string" where
  "typed sel log = concat (map (keys_of sel) (concat log))"

fun sets_cookie :: "action \<Rightarrow> bool" where
  "sets_cookie (SetCookie n v d p h s) = True"
| "sets_cookie a = False"

definition cookies_set :: "action list list \<Rightarrow> action list" where
  "cookies_set log = filter sets_cookie (concat log)"

lemma typed_simps [simp]:
  "typed sel [] = ''''" "typed sel (as # log) = concat (map (keys_of sel) as) @ typed sel log" "typed sel (l1 @ l2) = typed sel l1 @ typed sel l2"
  by (simp_all add: typed_def)

lemma cookies_set_simps [simp]:
  "cookies_set [] = []" "cookies_set (as # log) = filter sets_cookie as @ cookies_set log" "cookies_set (l1 @ l2) = cookies_set l1 @ cookies_set l2"
  by (simp_all add: cookies_set_def)

lemma CookieActions_keys [simp]: "concat (map (keys_of sel) (CookieActions jar)) = ''''"
  by (simp add: CookieActions_def comp_def)

lemma CookieActions_set [simp]: "filter sets_cookie (CookieActions jar) = CookieActions jar" "Click sel \<notin> set (CookieActions jar)"
  by (auto simp: CookieActions_def filter_id_conv)

lemma image_steps_log:
  "typed sel (map batch (image_steps p)) = (if sel = FileInput then concat (map snd (pp_Images p)) else '''')
   \<and> cookies_set (map batch (image_steps p)) = [] \<and> (\<forall>as \<in> set (map batch (image_steps p)). Click SubmitButton \<notin> set as)"
proof -
  have "typed sel (map batch (concat (map (\<lambda>(url, filePath). if filePath = '''' then []
               else [Must (''upload image '' @ filePath) [SendKeys FileInput filePath, Sleep actionDelay], Try [Sleep (2 * second)]]) is)))
      = (if sel = FileInput then concat (map snd is) else '''')
    \<and> cookies_set (map batch (concat (map (\<lambda>(url, filePath). if filePath = '''' then []
               else [Must (''upload image '' @ filePath) [SendKeys FileInput filePath, Sleep actionDelay], Try [Sleep (2 * second)]]) is))) = []" for "is"
    by (induction "is") auto
  then show ?thesis by (auto simp: image_steps_def split: if_split_asm)
qed

lemma topic_log:
  "sel \<noteq> TopicInput \<Longrightarrow> typed sel (map topic_actions ts) = ''''"
  "cookies_set (map topic_actions ts) = []" "\<forall>as \<in> set (map topic_actions ts). Click SubmitButton \<notin> set as"
  by (induction ts) (auto simp: topic_actions_def)

lemma fill_topics_log: "fill_topics e i ts = (filled, j, log) \<Longrightarrow> log = map topic_actions ts"
  by (induction e i ts arbitrary: filled j log rule: fill_topics.induct) (auto split: prod.split_asm)

lemma finish_publish_begin:
  assumes "finish_publish e i ss look url pre ex = (res, log)"
  shows "\<exists>rest. map batch ss @ [look] = log @ rest \<and> (\<forall>r. res = Inr r \<longrightarrow> rest = [])"
proof -
  obtain r j log' where s: "run_steps e i no_out ss = (r, j, log')" by (metis prod_cases3)
  from run_steps_begin [OF s] obtain rest where "map batch ss = log' @ rest" "\<forall>x. r = Inr x \<longrightarrow> rest = []" by blast
  then show ?thesis using assms s by (cases r) (auto simp: finish_publish_def)
qed

text \<open>The complete script of a post: the cookies of the jar are set before anything else and nothing but them, the title and
  the content are typed into their fields, the content perhaps followed by the text of the tags, and the button is clicked
  once, after all of this.\<close>

definition posted :: "string \<Rightarrow> PublishParams \<Rightarrow> CookieJar \<Rightarrow> action list list \<Rightarrow> bool" where
  "posted tagText params jar log \<longleftrightarrow>
     (\<exists>scr look. log = scr @ [[Sleep actionDelay, Click SubmitButton], [Sleep (3 * second)], look]
       \<and> (\<forall>as \<in> set scr. Click SubmitButton \<notin> set as)
       \<and> scr ! 1 = CookieActions jar \<and> cookies_set log = CookieActions jar
       \<and> typed TitleInput scr = pp_Title params
       \<and> typed ContentInput scr \<in> {pp_Content params, pp_Content params @ tagText})"

text \<open>What an operation has run is the beginning of such a script, and all of it when the operation succeeds.\<close>

definition posting :: "string \<Rightarrow> PublishParams \<Rightarrow> CookieJar \<Rightarrow> bool \<Rightarrow> action list list \<Rightarrow> bool" where
  "posting tagText params jar ok log \<longleftrightarrow> (\<exists>rest. posted tagText params jar (log @ rest) \<and> (ok \<longrightarrow> rest = []))"

lemma posted_script:
  assumes "\<forall>as \<in> set scr. Click SubmitButton \<notin> set as" and "cookies_set scr = []" and "typed TitleInput scr = ''''"
    and "typed ContentInput scr \<in> {'''', tagText}" and "look = [Location] \<or> look = [Evaluate PostLink]"
    and "steps = open_page m url jar @ open_editor form url @ images @ text_steps params"
    and "images = [] \<or> images = image_steps params"
  shows "posted tagText params jar (map batch steps @ scr @ map batch (submit_steps c w) @ [look])"
proof -
  have im: "typed TitleInput (map batch images) = ''''" "typed ContentInput (map batch images) = ''''"
    "cookies_set (map batch images) = []" "\<forall>as \<in> set (map batch images). Click SubmitButton \<notin> set as"
    using assms(7) image_steps_log [of _ params] by auto
  let ?scr = "map batch steps @ scr"
  have "map batch steps @ scr @ map batch (submit_steps c w) @ [look] = ?scr @ [[Sleep actionDelay, Click SubmitButton], [Sleep (3 * second)], look]"
    by (simp add: submit_steps_def)
  moreover have "\<forall>as \<in> set ?scr. Click SubmitButton \<notin> set as"
    using assms(1) im(4) by (auto simp: assms(6) open_page_def open_editor_def text_steps_def)
  moreover have "?scr ! 1 = CookieActions jar" by (simp add: assms(6) open_page_def)
  moreover have "cookies_set (?scr @ [[Sleep actionDelay, Click SubmitButton], [Sleep (3 * second)], look]) = CookieActions jar"
    using assms(2,5) im(3) by (auto simp: assms(6) open_page_def open_editor_def text_steps_def)
  moreover have "typed TitleInput ?scr = pp_Title params"
    using assms(3) im(1) by (simp add: assms(6) open_page_def open_editor_def text_steps_def)
  moreover have "typed ContentInput ?scr = pp_Content params @ typed ContentInput scr"
    using im(2) by (simp add: assms(6) open_page_def open_editor_def text_steps_def)
  ultimately show ?thesis using assms(4) unfolding posted_def by (intro exI [of _ ?scr] exI [of _ look] conjI) auto
qed

lemma type_tags_log:
  "typed s (map batch (type_tags sel t)) = (if s = sel then t else '''')" "cookies_set (map batch (type_tags sel t)) = []"
  "sel \<noteq> SubmitButton \<Longrightarrow> \<forall>as \<in> set (map batch (type_tags sel t)). Click SubmitButton \<notin> set as"
  by (auto simp: type_tags_def)

lemma posting_with_tags:
  assumes "finish_publish e 0 (open_page m url jar @ open_editor form url @ image_steps params @ text_steps params
        @ (if pp_Tags params \<noteq> [] then type_tags ContentInput t else []) @ submit_steps c w) look url_of pre ex = (res, log)"
    and "look = [Location] \<or> look = [Evaluate PostLink]"
  shows "posting t params jar (\<exists>r. res = Inr r) log"
proof -
  let ?tags = "if pp_Tags params \<noteq> [] then type_tags ContentInput t else []"
  let ?open = "open_page m url jar @ open_editor form url @ image_steps params @ text_steps params"
  have "posted t params jar (map batch ?open @ map batch ?tags @ map batch (submit_steps c w) @ [look])"
  proof (rule posted_script [where images = "image_steps params"])
    show "\<forall>as \<in> set (map batch ?tags). Click SubmitButton \<notin> set as" using type_tags_log(3) [of ContentInput t] by auto
    show "cookies_set (map batch ?tags) = []" using type_tags_log(2) by simp
    show "typed TitleInput (map batch ?tags) = ''''" using type_tags_log(1) by simp
    show "typed ContentInput (map batch ?tags) \<in> {'''', t}" using type_tags_log(1) by simp
  qed (use assms(2) in simp_all)
  moreover obtain rest where "map batch (open_page m url jar @ open_editor form url @ image_steps params @ text_steps params
      @ ?tags @ submit_steps c w) @ [look] = log @ rest" and rest: "\<forall>r. res = Inr r \<longrightarrow> rest = []"
    using finish_publish_begin [OF assms(1)] by blast
  then have "map batch ?open @ map batch ?tags @ map batch (submit_steps c w) @ [look] = log @ rest"
    by (simp only: map_append append_assoc)
  ultimately have "posted t params jar (log @ rest)" by (simp only:)
  then show ?thesis unfolding posting_def using rest by blast
qed

text \<open>The tags of Xiaohongshu are typed into the content area too, found by a selector with one alternative less.\<close>

definition hash_tags :: "string list \<Rightarrow> string" where
  "hash_tags tags = concat (map (\<lambda>t. '' #'' @ t) tags)"

lemma wechat_Publish_posting:
  assumes "wechat_Publish e auth k params = (res, log)" and "DecryptCookieJar (be_env e) auth k = Inr jar"
  shows "posting (tag_lines (pp_Tags params)) params jar (\<exists>r. res = Inr r) log"
proof (rule posting_with_tags)
  show "finish_publish e 0 (open_page ''navigate to publish page'' wechat_publishURL jar @ open_editor ''publish'' wechat_publishURL
      @ image_steps params @ text_steps params @ (if pp_Tags params \<noteq> [] then type_tags ContentInput (tag_lines (pp_Tags params)) else [])
      @ submit_steps ''click save draft button'' ''wait for save result'') [Location] location_of ''draft-'' wechat_extractArticleID = (res, log)"
    using assms unfolding wechat_Publish_def by simp
qed simp

lemma xhs_Publish_posting:
  assumes "xhs_Publish e auth k params = (res, log)" and "DecryptCookieJar (be_env e) auth k = Inr jar"
  shows "posting (hash_tags (pp_Tags params)) params jar (\<exists>r. res = Inr r) log"
proof (rule posting_with_tags)
  show "finish_publish e 0 (open_page ''navigate to publish page'' xhs_publishURL jar @ open_editor ''publish'' xhs_publishURL
      @ image_steps params @ text_steps params @ (if pp_Tags params \<noteq> [] then type_tags ContentInput (hash_tags (pp_Tags params)) else [])
      @ submit_steps ''click publish button'' ''wait for publish result'') [Evaluate PostLink]
      (\<lambda>r. case r of Inl _ \<Rightarrow> '''' | Inr out \<Rightarrow> page_text out) ''pending-'' xhs_extractNoteID = (res, log)"
    using assms unfolding xhs_Publish_def hash_tags_def by simp
qed simp

lemma zhihu_script:
  assumes "fb = [] \<or> fb = type_tags ContentInput (tag_lines (pp_Tags params))"
  shows "posted (tag_lines (pp_Tags params)) params jar
    (map batch (open_page m url jar @ open_editor form url @ text_steps params)
       @ (map topic_actions (pp_Tags params) @ map batch fb) @ map batch (submit_steps c w) @ [[Location]])"
proof (rule posted_script [where images = "[]"])
  show "\<forall>as \<in> set (map topic_actions (pp_Tags params) @ map batch fb). Click SubmitButton \<notin> set as"
    using topic_log(3) type_tags_log(3) [of ContentInput] assms by auto
  show "cookies_set (map topic_actions (pp_Tags params) @ map batch fb) = []" using topic_log(2) type_tags_log(2) assms by auto
  show "typed TitleInput (map topic_actions (pp_Tags params) @ map batch fb) = ''''" using topic_log(1) type_tags_log(1) assms by auto
  show "typed ContentInput (map topic_actions (pp_Tags params) @ map batch fb) \<in> {'''', tag_lines (pp_Tags params)}"
    using topic_log(1) type_tags_log(1) assms by auto
qed simp_all

lemma zhihu_Publish_posting:
  assumes "zhihu_Publish e auth k params = (res, log)" and "DecryptCookieJar (be_env e) auth k = Inr jar"
  shows "posting (tag_lines (pp_Tags params)) params jar (\<exists>r. res = Inr r) log"
proof -
  let ?open = "open_page ''navigate to write page'' ''https://www.zhihu.com/writer'' jar @ open_editor ''editor'' ''https://www.zhihu.com/writer'' @ text_steps params"
  let ?submit = "submit_steps ''click publish button'' ''wait for publish result''"
  obtain r0 i log0 where s: "run_steps e 0 no_out ?open = (r0, i, log0)" by (metis prod_cases3)
  obtain rest0 where rest0: "map batch ?open = log0 @ rest0" "\<forall>x. r0 = Inr x \<longrightarrow> rest0 = []" using run_steps_begin [OF s] by blast
  show ?thesis
  proof (cases r0)
    case (Inl err)
    then have "log = log0" "res = Inl err" using assms s by (simp_all add: zhihu_Publish_def)
    moreover have "posted (tag_lines (pp_Tags params)) params jar
        (map batch ?open @ (map topic_actions (pp_Tags params) @ map batch []) @ map batch ?submit @ [[Location]])"
      by (rule zhihu_script) simp
    ultimately show ?thesis unfolding posting_def rest0(1) append_assoc by blast
  next
    case (Inr out)
    obtain filled j log1 where f: "fill_topics e i (pp_Tags params) = (filled, j, log1)" by (metis prod_cases3)
    let ?fb = "if pp_Tags params \<noteq> [] \<and> \<not> filled then type_tags ContentInput (tag_lines (pp_Tags params)) else []"
    obtain log2 where l2: "finish_publish e j (?fb @ ?submit) [Location] location_of ''pending-'' zhihu_extractArticleID = (res, log2)"
      and log: "log = log0 @ log1 @ log2"
      using assms s f Inr by (auto simp: zhihu_Publish_def Let_def split: prod.split_asm)
    obtain rest where rest: "map batch (?fb @ ?submit) @ [[Location]] = log2 @ rest" "\<forall>r. res = Inr r \<longrightarrow> rest = []"
      using finish_publish_begin [OF l2] by blast
    have log0: "log0 = map batch ?open" using rest0 Inr by simp
    have "log @ rest = map batch ?open @ (map topic_actions (pp_Tags params) @ map batch ?fb) @ map batch ?submit @ [[Location]]"
      using rest(1) [symmetric] by (simp add: log log0 fill_topics_log [OF f])
    moreover have "posted (tag_lines (pp_Tags params)) params jar
        (map batch ?open @ (map topic_actions (pp_Tags params) @ map batch ?fb) @ map batch ?submit @ [[Location]])"
      by (rule zhihu_script) simp
    ultimately have "posted (tag_lines (pp_Tags params)) params jar (log @ rest) \<and> ((\<exists>r. res = Inr r) \<longrightarrow> rest = [])"
      using rest(2) by auto
    then show ?thesis unfolding posting_def by blast
  qed
qed

text \<open>C37: publishing through the browser as the user who has signed in. The credentials a sign-in stores are the cookies of the
  site's domains that the browser had, and no others. Whatever the browser answers to each batch, what a later publication with
  them asks of the browser is a beginning of this script, and all of it when it succeeds: it sets exactly these
  cookies, types the title and the content once into their fields, the content perhaps followed by the tags, and then clicks the
  button, once.\<close>

theorem browser_publishes_once:
  assumes "(poll, publish, tagText, domains) \<in> {(zhihu_PollAuth, zhihu_Publish, tag_lines, [''zhihu.com'']),
      (wechat_PollAuth, wechat_Publish, tag_lines, [''weixin.qq.com'', ''wx.qq.com'']),
      (xhs_PollAuth, xhs_Publish, hash_tags, [''xiaohongshu.com'', ''xhscdn.com''])}"
    and "poll e session k = (Inr (Some auth), acts)" and "be_run e 2 [GetCookies] = Inr out"
    and "jar = map cookie_of (filter (\<lambda>c. \<exists>d \<in> set domains. str_Contains (nc_Domain c) d) (ro_Cookies out))"
    and "\<forall>c \<in> set (ro_Cookies out). - (2 ^ 63) \<le> nc_Expires c \<and> nc_Expires c < 2 ^ 63"
    and "auth_law (be_env e) (be_env e') k (jar_json jar)"
    and "publish e' auth k params = (res, log)"
  shows "jar \<noteq> [] \<and> posting (tagText (pp_Tags params)) params jar (\<exists>r. res = Inr r) log"
proof -
  have own: "encode_auth (be_env e) (jar_json jar) k = Some auth \<and> jar \<noteq> []"
    if "browser_PollAuth e w (\<lambda>x. \<exists>d \<in> set domains. str_Contains x d) name session k = (Inr (Some auth), acts)" for w name
    using that assms(3,4) by (auto simp: browser_PollAuth_def Let_def split: cdp_context.split_asm sum.split_asm if_split_asm option.split_asm)
  have jar: "encode_auth (be_env e) (jar_json jar) k = Some auth \<and> jar \<noteq> []"
    using assms(1,2) own by (auto simp: zhihu_PollAuth_def wechat_PollAuth_def xhs_PollAuth_def)
  have "DecryptAuth (be_env e') auth k decode_jar = Inr jar"
    by (rule cj.restore [OF jar [THEN conjunct1] assms(6)]) (use assms(5) in \<open>auto simp: assms(4) cookie_of_def\<close>)
  then have "DecryptCookieJar (be_env e') auth k = Inr jar" by (simp add: DecryptCookieJar_def)
  then show ?thesis
    using jar assms(1,7) zhihu_Publish_posting wechat_Publish_posting xhs_Publish_posting by auto
qed

definition demo_cookies :: "network_cookie list" where
  "demo_cookies = [\<lparr>nc_Name = ''z'', nc_Value = ''1'', nc_Domain = ''.zhihu.com'', nc_Path = ''/'', nc_Expires = - 1, nc_HTTPOnly = True,
       nc_Secure = True, nc_SameSite = ''Lax''\<rparr>,
     \<lparr>nc_Name = ''t'', nc_Value = ''2'', nc_Domain = ''ads.example'', nc_Path = ''/'', nc_Expires = 5, nc_HTTPOnly = False,
       nc_Secure = False, nc_SameSite = ''''\<rparr>]"

definition demo_jar :: CookieJar where
  "demo_jar = [\<lparr>hc_Name = ''z'', hc_Value = ''1'', hc_Domain = ''.zhihu.com'', hc_Path = ''/'', hc_Expires = - 1, hc_HTTPOnly = True,
       hc_Secure = True, hc_SameSite = ''lax''\<rparr>]"

definition demo_browser :: BrowserEnv where
  "demo_browser = \<lparr>be_env = \<lparr>av_seal = (\<lambda>k n p. p), av_open = (\<lambda>k n c. Some c), av_nonce = replicate 12 0, av_clock = (\<lambda>_. 0),
       av_rfc3339 = (\<lambda>_. ''''), av_encode = (\<lambda>_. ''x''), av_parse = (\<lambda>_. Some (jar_json demo_jar)), av_decode = (\<lambda>_. None),
       av_newRequest = (\<lambda>_ _. None), av_send = (\<lambda>_ _. NoReply ''''), av_nilTags = True, av_order = (\<lambda>h. h)\<rparr>,
     be_tab = 0,
     be_run = (\<lambda>i as. Inr \<lparr>ro_URL = ''https://www.zhihu.com/p/77'', ro_Flag = True, ro_Bytes = [], ro_Cookies = demo_cookies, ro_Texts = []\<rparr>)\<rparr>"

definition demo_post :: PublishParams where
  "demo_post = \<lparr>pp_Title = ''t'', pp_Content = ''c'', pp_Tags = [''g''], pp_Images = [], pp_ScheduleAt = None\<rparr>"

theorem browser_publishes_once_witness:
  "\<exists>log. zhihu_Publish demo_browser (replicate 12 0 @ string_bytes ''x'') (replicate 32 7) demo_post
       = (Inr \<lparr>pr_PlatformURL = ''https://www.zhihu.com/p/77'', pr_PlatformID = ''77''\<rparr>, log)
     \<and> posted (tag_lines [''g'']) demo_post demo_jar log"
proof -
  let ?out = "\<lparr>ro_URL = ''https://www.zhihu.com/p/77'', ro_Flag = True, ro_Bytes = [], ro_Cookies = demo_cookies, ro_Texts = []\<rparr>"
  have dom: "str_Contains ''.zhihu.com'' ''zhihu.com''" "\<not> str_Contains ''ads.example'' ''zhihu.com''" by code_simp+
  have jar: "demo_jar = map cookie_of (filter (\<lambda>c. \<exists>d \<in> set [''zhihu.com'']. str_Contains (nc_Domain c) d) (ro_Cookies ?out))"
    by (simp add: demo_jar_def demo_cookies_def cookie_of_def SameSiteString_def dom)
  have enc: "encode_auth (be_env demo_browser) (jar_json demo_jar) (replicate 32 7) = Some (replicate 12 0 @ string_bytes ''x'')"
    by (simp add: demo_browser_def encode_auth_def EncryptAPIKey_def aes_key_ok_def)
  have run: "be_run demo_browser i as = Inr ?out" for i as by (simp add: demo_browser_def)
  have "map cookie_of (filter (\<lambda>c. str_Contains (nc_Domain c) ''zhihu.com'') demo_cookies) = demo_jar" using jar by simp
  moreover have "demo_jar \<noteq> []" by (simp add: demo_jar_def)
  ultimately obtain acts where poll: "zhihu_PollAuth demo_browser \<lparr>ses_CDPContext = CtxBrowser 0, ses_AuthRef = ''''\<rparr> (replicate 32 7)
      = (Inr (Some (replicate 12 0 @ string_bytes ''x'')), acts)"
    by (simp add: zhihu_PollAuth_def browser_PollAuth_def run enc Let_def)
  have law: "auth_law (be_env demo_browser) (be_env demo_browser) (replicate 32 7) (jar_json demo_jar)"
    by (simp add: auth_law_def demo_browser_def)
  have dec: "DecryptCookieJar (be_env demo_browser) (replicate 12 0 @ string_bytes ''x'') (replicate 32 7) = Inr demo_jar"
    unfolding DecryptCookieJar_def by (rule cj.restore [OF enc law]) (simp add: demo_jar_def)
  have ext: "zhihu_extractArticleID ''https://www.zhihu.com/p/77'' = ''77''" by code_simp
  obtain log where pub: "zhihu_Publish demo_browser (replicate 12 0 @ string_bytes ''x'') (replicate 32 7) demo_post
      = (Inr \<lparr>pr_PlatformURL = ''https://www.zhihu.com/p/77'', pr_PlatformID = ''77''\<rparr>, log)"
    by (simp add: zhihu_Publish_def dec open_page_def open_editor_def text_steps_def run demo_post_def finish_publish_def
        submit_steps_def published_def location_of_def ext Let_def)
  from browser_publishes_once [of zhihu_PollAuth zhihu_Publish tag_lines "[''zhihu.com'']", OF _ poll run jar _ law pub] pub
  show ?thesis by (auto simp: demo_cookies_def posting_def demo_post_def)
qed

section \<open>The id of a post leads back to it\<close>

lemma str_IndexAny_append:
  assumes "\<forall>c \<in> set i. c \<notin> E" and "rest = [] \<or> hd rest \<in> E"
  shows "str_IndexAny (i @ rest) E = (if rest = [] then None else Some (length i))"
  using assms(1)
proof (induction i)
  case Nil
  then show ?case using assms(2) by (cases rest) auto
qed auto

lemma zhihu_id_resolves:
  assumes "\<forall>c \<in> set i. c \<notin> set ''?#/''" and "rest = [] \<or> hd rest \<in> set ''?#/''"
  shows "zhihu_extractArticleID (''https://www.zhihu.com/p/'' @ i @ rest) = i"
proof -
  have "str_Index (''https://www.zhihu.com/p/'' @ i @ rest) ''/p/'' = Some 21"
    by (simp add: str_Index_Cons has_prefix_def)
  moreover have "(case str_IndexAny (i @ rest) (set ''?#/'') of Some n \<Rightarrow> take n (i @ rest) | None \<Rightarrow> i @ rest) = i"
    unfolding str_IndexAny_append [OF assms] by simp
  ultimately show ?thesis by (simp add: zhihu_extractArticleID_def del: list.set)
qed

lemma xhs_id_resolves:
  assumes "\<forall>c \<in> set i. printable c \<and> c \<notin> set ''/?.''" and "10 \<le> length i"
  shows "xhs_extractNoteID (resolvePostURL i) = i"
proof -
  have none: "str_Index s [c] = None" if "c \<notin> set s" for c s
    using that by (induction s) (auto simp: str_Index_Cons str_Index_Nil has_prefix_def)
  have i: "TrimSpace i = i" "\<not> str_Contains i ''.''" "str_Index i ''?'' = None" "CHR ''/'' \<notin> set i"
    using assms none [of "CHR ''.''" i] none [of "CHR ''?''" i] TrimSpace_printable [of i] by (auto simp: str_Contains_def)
  have part: "note_id_in (i # ps) = i" for ps
    using i assms(2) by (auto simp: Let_def)
  have ne: "i \<noteq> ''''" using assms(2) by auto
  show ?thesis
  proof (cases "has_prefix i ''http''")
    case True
    then show ?thesis using part [of "[]"] i(4) ne split_char_none [of "CHR ''/''" i] by (simp add: resolvePostURL_def xhs_extractNoteID_def)
  next
    case False
    have "split_char (CHR ''/'') (resolvePostURL i) = [''https:'', [], ''www.xiaohongshu.com'', ''explore'', i]"
      using False i(4) by (simp add: resolvePostURL_def split_char_none)
    then show ?thesis using part False by (simp add: xhs_extractNoteID_def resolvePostURL_def)
  qed
qed

end
