(* ===== verification/Post_Stats.thy ===== *)
theory Post_Stats
  imports Browser_Adapters
begin

text \<open>
  The engagement counters of Xiaohongshu (\<^verbatim>\<open>platform/xiaohongshu/stats.go\<close>): texts like \<^verbatim>\<open>1.2w\<close> are parsed as
  64-bit floating point numbers, multiplied and cut off. A nonnegative double is a fraction of natural numbers;
  \<open>float64_of a b\<close> is the double nearest to \<open>a / b\<close>, with ties to even.
\<close>

section \<open>Floating point numbers\<close>

fun bit_len :: "nat \<Rightarrow> nat" where
  "bit_len n = (if n = 0 then 0 else Suc (bit_len (n div 2)))"

declare bit_len.simps [simp del]

definition round_half_even :: "nat \<Rightarrow> nat \<Rightarrow> nat" where
  "round_half_even a b = (let q = a div b; r = a mod b in if 2 * r > b \<or> 2 * r = b \<and> odd q then q + 1 else q)"

definition float64_of :: "nat \<Rightarrow> nat \<Rightarrow> nat \<times> nat" where
  "float64_of a b =
     (if a = 0 then (0, 1)
      else
        let k = int (bit_len a) - int (bit_len b);
            above = (if k \<ge> 0 then a \<ge> b * 2 ^ nat k else a * 2 ^ nat (- k) \<ge> b);
            e = max (- 1074) (if above then k - 52 else k - 53)
        in if e \<ge> 0 then (round_half_even a (b * 2 ^ nat e) * 2 ^ nat e, 1)
           else (round_half_even (a * 2 ^ nat (- e)) b, 2 ^ nat (- e)))"

definition is_digit :: "char \<Rightarrow> bool" where
  "is_digit c \<longleftrightarrow> digit_value c \<noteq> None"

definition digits_nat :: "string \<Rightarrow> nat" where
  "digits_nat s = (case digits_value 0 s of Some n \<Rightarrow> nat n | None \<Rightarrow> 0)"

text \<open>An exponent: a sign and at least one digit.\<close>

definition exponent :: "string \<Rightarrow> int option" where
  "exponent s =
     (let ds = (if take 1 s = ''-'' \<or> take 1 s = ''+'' then drop 1 s else s) in
      if ds = '''' \<or> \<not> list_all is_digit ds then None
      else Some (if take 1 s = ''-'' then - int (digits_nat ds) else int (digits_nat ds)))"

text \<open>A decimal number: whether it is negative, its digits, and the power of ten they are multiplied with.\<close>

definition parse_decimal :: "string \<Rightarrow> (bool \<times> nat \<times> int) option" where
  "parse_decimal s0 =
     (let neg = (take 1 s0 = ''-'');
          s1 = (if neg then drop 1 s0 else s0);
          ip = takeWhile is_digit s1;
          s2 = drop (length ip) s1;
          fp = (if take 1 s2 = ''.'' then takeWhile is_digit (drop 1 s2) else '''');
          s3 = (if take 1 s2 = ''.'' then drop (1 + length fp) s2 else s2);
          mant = digits_nat (ip @ fp)
      in if ip @ fp = '''' then None
         else if s3 = '''' then Some (neg, mant, - int (length fp))
         else if take 1 s3 = ''e'' \<or> take 1 s3 = ''E''
         then map_option (\<lambda>x. (neg, mant, x - int (length fp))) (exponent (drop 1 s3))
         else None)"

text \<open>\<open>strconv.ParseFloat\<close>: no value for other texts and for numbers out of range.\<close>

definition ParseFloat :: "string \<Rightarrow> (bool \<times> nat \<times> nat) option" where
  "ParseFloat s =
     (case parse_decimal s of
        None \<Rightarrow> None
      | Some (neg, m, x) \<Rightarrow>
          (let (a, b) = (if x \<ge> 0 then float64_of (m * 10 ^ nat x) 1 else float64_of m (10 ^ nat (- x)))
           in if a \<ge> b * 2 ^ 1024 then None else Some (neg, a, b)))"

text \<open>The conversion to a 64-bit integer cuts off; out of range its value depends on the machine (\<open>big\<close>).\<close>

definition float_int :: "int \<Rightarrow> bool \<times> nat \<times> nat \<Rightarrow> int" where
  "float_int big f =
     (case f of (neg, a, b) \<Rightarrow>
        let v = int (a div b) in
        if neg then (if v > 2 ^ 63 then big else - v) else (if v \<ge> 2 ^ 63 then big else v))"

section \<open>Counters\<close>

definition parseChineseCount :: "int \<Rightarrow> string \<Rightarrow> int" where
  "parseChineseCount big s0 =
     (let s = TrimSpace s0 in
      if s = '''' then 0
      else
        let mult = (if str_Contains s (bytes_string [228, 184, 135]) \<or> str_Contains s ''w'' \<or> str_Contains s ''W'' then 10000
                    else if str_Contains s (bytes_string [229, 141, 131]) \<or> str_Contains s ''k'' \<or> str_Contains s ''K'' then 1000 else 1);
            numeric = (\<lambda>c. is_digit c \<or> c = CHR ''.'');
            numStr = takeWhile numeric (dropWhile (\<lambda>c. \<not> numeric c) (replace_char (CHR '','') '''' s))
        in if numStr = '''' then 0
           else case ParseFloat numStr of
             None \<Rightarrow> 0
           | Some (_, a, b) \<Rightarrow> float_int big (False, float64_of (a * mult) b))"

text \<open>Decoded into \<^verbatim>\<open>interface{}\<close>, every number becomes a double, which fails when it is out of range.\<close>

fun numbers_ok :: "json \<Rightarrow> bool" where
  "numbers_ok (JNumber s) = (ParseFloat s \<noteq> None)"
| "numbers_ok (JArray vs) = list_all numbers_ok vs"
| "numbers_ok (JObject m) = list_all (\<lambda>(k, v). numbers_ok v) m"
| "numbers_ok _ = True"

fun parseCountField :: "int \<Rightarrow> (string \<times> json) list \<Rightarrow> string list \<Rightarrow> int" where
  "parseCountField big m [] = 0"
| "parseCountField big m (k # ks) =
     (case map_value k m of
        Some (JNumber s) \<Rightarrow> (case ParseFloat s of Some f \<Rightarrow> float_int big f | None \<Rightarrow> 0)
      | Some (JString s) \<Rightarrow> (if parseChineseCount big s > 0 then parseChineseCount big s else parseCountField big m ks)
      | _ \<Rightarrow> parseCountField big m ks)"

definition text_at :: "RunOut \<Rightarrow> nat \<Rightarrow> string" where
  "text_at out i = (if i < length (ro_Texts out) then ro_Texts out ! i else '''')"

definition scrape_actions :: "string \<Rightarrow> CookieJar \<Rightarrow> action list" where
  "scrape_actions postURL jar =
     [EmulateViewport 1280 800, PageNavigate postURL, Sleep (2 * second)] @ CookieActions jar
     @ [Navigate postURL, Sleep (3 * second), Evaluate InitialState, Evaluate LikeText, Evaluate CollectText, Evaluate CommentText]"

definition stats_of :: "AdapterEnv \<Rightarrow> int \<Rightarrow> string \<Rightarrow> string \<Rightarrow> string \<Rightarrow> PostStats" where
  "stats_of e big stateJSON likeText commentText =
     (let interact = (if stateJSON = '''' then None
            else case av_parse e stateJSON of
              Some v \<Rightarrow> if numbers_ok v then members v else None
            | None \<Rightarrow> None);
          count = (\<lambda>keys. case interact of Some m \<Rightarrow> parseCountField big m keys | None \<Rightarrow> 0);
          likes = count [''likeCount'', ''likes''];
          comments = count [''commentCount'', ''comments''];
          views = count [''readCount'', ''viewCount'', ''views'']
      in \<lparr>ps_Views = views,
          ps_Likes = (if likes = 0 \<and> likeText \<noteq> '''' then parseChineseCount big likeText else likes),
          ps_Comments = (if comments = 0 \<and> commentText \<noteq> '''' then parseChineseCount big commentText else comments)\<rparr>)"

definition xhs_FetchStats :: "BrowserEnv \<Rightarrow> int \<Rightarrow> bytes \<Rightarrow> bytes \<Rightarrow> string \<Rightarrow> (string + PostStats) \<times> action list list" where
  "xhs_FetchStats e big encryptedAuth masterKey platformPostID =
     (case DecryptCookieJar (be_env e) encryptedAuth masterKey of
        Inl err \<Rightarrow> (Inl err, [])
      | Inr jar \<Rightarrow>
          (let postURL = resolvePostURL platformPostID; actions = scrape_actions postURL jar in
           case be_run e 0 actions of
             Inl err \<Rightarrow> (Inl (''scrape note page: '' @ err), [actions])
           | Inr out \<Rightarrow>
               (let stats = stats_of (be_env e) big (text_at out 0) (text_at out 1) (text_at out 3) in
                if ps_Likes stats = 0 \<and> ps_Comments stats = 0 \<and> ps_Views stats = 0
                then (Inl (''no engagement counters found on '' @ postURL), [actions])
                else (Inr stats, [actions]))))"

definition xhs_Adapter :: "BrowserEnv \<Rightarrow> int \<Rightarrow> Adapter" where
  "xhs_Adapter e big =
     \<lparr>ad_StartAuth = (\<lambda>k. fst (xhs_StartAuth e)),
      ad_PollAuth = (\<lambda>session k. fst (xhs_PollAuth e session k)),
      ad_Publish = (\<lambda>auth k params. map_sum (\<lambda>m. m) Some (fst (xhs_Publish e auth k params))),
      ad_CheckStatus = (\<lambda>auth k platformID. fst (xhs_CheckStatus e auth k platformID)),
      ad_RevokeAuth = (\<lambda>auth k. None),
      ad_FetchStats = Some (\<lambda>auth k platformPostID. fst (xhs_FetchStats e big auth k platformPostID))\<rparr>"

section \<open>Whole numbers are read exactly\<close>

lemma bit_len_double: "0 < n \<Longrightarrow> bit_len (2 * n) = Suc (bit_len n)"
  by (simp add: bit_len.simps [of "2 * n"])

lemma bit_len_shift: "0 < n \<Longrightarrow> bit_len (n * 2 ^ k) = bit_len n + k"
proof (induction k)
  case (Suc k)
  have "bit_len (2 * (n * 2 ^ k)) = Suc (bit_len (n * 2 ^ k))" by (rule bit_len_double) (use Suc.prems in simp)
  then show ?case using Suc by (simp add: mult.left_commute)
qed simp

lemma bit_len_simps [simp]: "bit_len 0 = 0" "bit_len (Suc 0) = 1"
  by (simp_all add: bit_len.simps [of 0] bit_len.simps [of "Suc 0"])

lemma bit_len_bounds: "0 < n \<Longrightarrow> 2 ^ (bit_len n - 1) \<le> n \<and> n < 2 ^ bit_len n \<and> 0 < bit_len n"
proof (induction n rule: bit_len.induct)
  case (1 n)
  show ?case
  proof (cases "n = 1")
    case False
    then have h: "0 < n div 2" using 1 by linarith
    then have "2 ^ (bit_len (n div 2) - 1) \<le> n div 2" "n div 2 < 2 ^ bit_len (n div 2)" "0 < bit_len (n div 2)" using 1 by auto
    then have "2 * 2 ^ (bit_len (n div 2) - 1) \<le> n" "n < 2 * 2 ^ bit_len (n div 2)" by linarith+
    then show ?thesis using h \<open>0 < bit_len (n div 2)\<close> 1(2)
      by (simp add: bit_len.simps [of n] power_eq_if [of 2 "bit_len (n div 2)"])
  qed simp
qed

lemma round_half_even_exact [simp]: "0 < b \<Longrightarrow> round_half_even (q * b) b = q"
  by (simp add: round_half_even_def Let_def)

text \<open>A whole number below \<open>2 ^ 53\<close> is a double, however the fraction is written.\<close>

lemma float64_exact:
  assumes "x < 2 ^ 53"
  shows "\<exists>j. float64_of (x * 2 ^ k) (2 ^ k) = (x * 2 ^ j, 2 ^ j)"
proof (cases "x = 0")
  case True
  then show ?thesis by (intro exI [of _ 0]) (simp add: float64_of_def)
next
  case False
  define m where "m = bit_len x - 1"
  have b: "2 ^ m \<le> x" "bit_len x = Suc m" using bit_len_bounds [of x] False by (auto simp: m_def)
  then have "(2::nat) ^ m < 2 ^ 53" using assms by linarith
  then have m: "m \<le> 52" using power_less_imp_less_exp [of "2::nat" m 53] by linarith
  have "bit_len (2 ^ k) = Suc k" using bit_len_shift [of 1 k] by simp
  then have k: "int (bit_len (x * 2 ^ k)) - int (bit_len (2 ^ k)) = int m" using False b(2) by (simp add: bit_len_shift)
  have above: "x * 2 ^ k \<ge> 2 ^ k * 2 ^ m" using b(1) by simp
  have e: "max (- 1074) (int m - 52) = int m - 52" by simp
  have f: "float64_of (x * 2 ^ k) (2 ^ k) = (if int m - 52 \<ge> 0 then (round_half_even (x * 2 ^ k) (2 ^ k * 2 ^ nat (int m - 52)) * 2 ^ nat (int m - 52), 1)
      else (round_half_even (x * 2 ^ k * 2 ^ nat (- (int m - 52))) (2 ^ k), 2 ^ nat (- (int m - 52))))"
    using False above by (simp only: float64_of_def k Let_def e) simp
  show ?thesis
  proof (cases "m = 52")
    case True
    have "float64_of (x * 2 ^ k) (2 ^ k) = (round_half_even (x * 2 ^ k) (2 ^ k), 1)" unfolding f True by simp
    then show ?thesis by (intro exI [of _ 0]) simp
  next
    case False
    define j where "j = nat (- (int m - 52))"
    have "\<not> int m - 52 \<ge> 0" using m False by linarith
    then have "float64_of (x * 2 ^ k) (2 ^ k) = (round_half_even (x * 2 ^ k * 2 ^ j) (2 ^ k), 2 ^ j)" unfolding f j_def by (simp only: if_False)
    moreover have "x * 2 ^ k * 2 ^ j = (x * 2 ^ j) * 2 ^ k" by (simp only: ac_simps)
    ultimately show ?thesis by (intro exI [of _ j]) simp
  qed
qed

lemma str_Contains_skip:
  assumes "p \<noteq> []" and "\<forall>c \<in> set ds. c \<noteq> hd p"
  shows "str_Contains (ds @ t) p \<longleftrightarrow> str_Contains t p"
  using assms(2)
proof (induction ds)
  case (Cons c ds)
  then have "\<not> has_prefix (c # ds @ t) p" using assms(1) by (cases p) (auto simp: has_prefix_def)
  then show ?case using Cons by (simp add: str_Contains_def str_Index_Cons)
qed simp

lemma nat_digits_set: "c \<in> set (nat_digits n) \<Longrightarrow> digit_value c \<noteq> None"
proof (induction n rule: nat_digits.induct)
  case (1 n)
  then show ?case by (cases "n < 10") (auto simp: nat_digits.simps [of n])
qed

definition count_suffixes :: "(string \<times> nat) list" where
  "count_suffixes = [('''', 1), (''w'', 10000), (''W'', 10000), (bytes_string [228, 184, 135], 10000),
     (''k'', 1000), (''K'', 1000), (bytes_string [229, 141, 131], 1000)]"

lemma unit_bytes:
  "bytes_string [228, 184, 135] = [CHR 0xE4, CHR 0xB8, CHR 0x87]" "bytes_string [229, 141, 131] = [CHR 0xE5, CHR 0x8D, CHR 0x83]"
  by code_simp+

lemma TrimSpace_count:
  assumes "printable c" and "(u, m) \<in> set count_suffixes" and "\<forall>x \<in> set s. printable x"
  shows "TrimSpace ((c # s) @ u) = (c # s) @ u"
proof -
  have left: "trim_left n space_encodings ((c # s) @ u) = (c # s) @ u" for n
  proof -
    have "\<not> has_prefix ((c # s) @ u) w" if "w \<in> set space_encodings" for w
      using space_encodings_unprintable that assms(1) by (cases w) (auto simp: has_prefix_def list_all_iff)
    then have "find (has_prefix ((c # s) @ u)) space_encodings = None" by (auto simp: find_None_iff)
    then show ?thesis by (cases n) simp_all
  qed
  have right: "trim_left n (map rev space_encodings) (rev ((c # s) @ u)) = rev ((c # s) @ u)" for n
  proof (cases "\<forall>x \<in> set u. printable x")
    case True
    then show ?thesis using space_encodings_unprintable assms(1,3)
      by (intro trim_left_printable) (auto simp: list_all_iff hd_rev)
  next
    case False
    have "list_all (\<lambda>u. list_all (\<lambda>w. length w \<le> 3 \<and> take (length w) (rev u) \<noteq> w) (map rev space_encodings))
        [bytes_string [228, 184, 135], bytes_string [229, 141, 131]]" by code_simp
    moreover have "list_all (\<lambda>(u, m). list_all printable u \<or> length u = 3 \<and> u \<in> {bytes_string [228, 184, 135], bytes_string [229, 141, 131]}) count_suffixes"
      by code_simp
    ultimately have "length u = 3" "\<forall>w \<in> set (map rev space_encodings). length w \<le> 3 \<and> take (length w) (rev u) \<noteq> w"
      using False assms(2) by (auto simp: list_all_iff)
    then have "\<not> has_prefix (rev ((c # s) @ u)) w" if "w \<in> set (map rev space_encodings)" for w
      using that by (auto simp: has_prefix_def)
    then have "find (has_prefix (rev ((c # s) @ u))) (map rev space_encodings) = None" unfolding find_None_iff by blast
    then show ?thesis by (cases n) simp_all
  qed
  show ?thesis using left right by (simp add: TrimSpace_def Let_def)
qed

lemma nat_digits_range: "c \<in> set (nat_digits n) \<Longrightarrow> 48 \<le> (of_char c :: nat) \<and> (of_char c :: nat) \<le> 57"
  using nat_digits_set [of c n] by (auto simp: digit_value_def Let_def split: if_split_asm)

lemma nat_digits_is_digit: "c \<in> set (nat_digits n) \<Longrightarrow> is_digit c"
  using nat_digits_set [of c n] by (simp add: is_digit_def)

lemma TrimSpace_nat_digits:
  assumes "(u, mult) \<in> set count_suffixes"
  shows "TrimSpace (nat_digits n @ u) = nat_digits n @ u"
proof -
  obtain c s where cs: "nat_digits n = c # s" using nat_digits_head by blast
  have "printable x" if "x \<in> set (nat_digits n)" for x using nat_digits_range [OF that] by (simp add: printable_def)
  then show ?thesis using TrimSpace_count [OF _ assms, of c s] unfolding cs by simp
qed

definition unit_of :: "string \<Rightarrow> nat" where
  "unit_of s = (if str_Contains s (bytes_string [228, 184, 135]) \<or> str_Contains s ''w'' \<or> str_Contains s ''W'' then 10000
     else if str_Contains s (bytes_string [229, 141, 131]) \<or> str_Contains s ''k'' \<or> str_Contains s ''K'' then 1000 else 1)"

lemma unit_of_count:
  assumes "(u, mult) \<in> set count_suffixes"
  shows "unit_of (nat_digits n @ u) = mult"
proof -
  have skip: "str_Contains (nat_digits n @ u) p \<longleftrightarrow> str_Contains u p" if "p \<noteq> []" "57 < (of_char (hd p) :: nat)" for p
    using str_Contains_skip [OF that(1), of "nat_digits n" u] nat_digits_range that(2) by fastforce
  have hd: "str_Contains (nat_digits n @ u) (bytes_string [228, 184, 135]) \<longleftrightarrow> str_Contains u (bytes_string [228, 184, 135])"
    "str_Contains (nat_digits n @ u) ''w'' \<longleftrightarrow> str_Contains u ''w''" "str_Contains (nat_digits n @ u) ''W'' \<longleftrightarrow> str_Contains u ''W''"
    "str_Contains (nat_digits n @ u) (bytes_string [229, 141, 131]) \<longleftrightarrow> str_Contains u (bytes_string [229, 141, 131])"
    "str_Contains (nat_digits n @ u) ''k'' \<longleftrightarrow> str_Contains u ''k''" "str_Contains (nat_digits n @ u) ''K'' \<longleftrightarrow> str_Contains u ''K''"
    by (rule skip; simp add: bytes_string_def)+
  have units: "list_all (\<lambda>(u, m). unit_of u = m) count_suffixes"
    by (simp add: count_suffixes_def unit_of_def unit_bytes str_Contains_def str_Index_Cons str_Index_Nil has_prefix_def)
  have "unit_of u = mult" using bspec [OF units [unfolded list_all_iff] assms] by simp
  then show ?thesis unfolding unit_of_def hd .
qed

lemma number_of_count:
  assumes "(u, mult) \<in> set count_suffixes"
  shows "takeWhile (\<lambda>c. is_digit c \<or> c = CHR ''.'') (dropWhile (\<lambda>c. \<not> (is_digit c \<or> c = CHR ''.''))
    (replace_char (CHR '','') '''' (nat_digits n @ u))) = nat_digits n"
proof -
  let ?num = "\<lambda>c. is_digit c \<or> c = CHR ''.''"
  have clean: "list_all (\<lambda>(u, m). list_all (\<lambda>c. c \<noteq> CHR '','' \<and> \<not> (is_digit c \<or> c = CHR ''.'')) u) count_suffixes"
    by (simp add: count_suffixes_def unit_bytes is_digit_def digit_value_def)
  have cl: "\<forall>c \<in> set u. c \<noteq> CHR '','' \<and> \<not> ?num c"
    using bspec [OF clean [unfolded list_all_iff [where xs = count_suffixes]] assms] by (simp add: list_all_iff)
  obtain c s where cs: "nat_digits n = c # s" "digit_value c \<noteq> None" using nat_digits_head by blast
  have "CHR '','' \<notin> set (nat_digits n @ u)" using nat_digits_range [of "CHR '',''"] cl by auto
  then have "replace_char (CHR '','') '''' (nat_digits n @ u) = nat_digits n @ u" by (rule replace_char_id)
  moreover have "dropWhile (\<lambda>c. \<not> ?num c) (nat_digits n @ u) = nat_digits n @ u" using cs by (auto simp: is_digit_def)
  moreover have "takeWhile ?num u = []" using cl by (cases u) simp_all
  moreover have "takeWhile ?num (nat_digits n @ u) = nat_digits n @ takeWhile ?num u"
    by (rule takeWhile_append2) (use nat_digits_is_digit in blast)
  ultimately show ?thesis by simp
qed

lemma ParseFloat_nat_digits:
  assumes "n < 2 ^ 53"
  obtains j where "ParseFloat (nat_digits n) = Some (False, n * 2 ^ j, 2 ^ j)"
proof -
  obtain c s where cs: "nat_digits n = c # s" "digit_value c \<noteq> None" using nat_digits_head by blast
  have minus: "take 1 (nat_digits n) \<noteq> ''-''" and ne: "nat_digits n \<noteq> []" using cs by (auto simp: digit_value_def)
  have all: "takeWhile is_digit (nat_digits n) = nat_digits n" using nat_digits_is_digit by simp
  have pd: "parse_decimal (nat_digits n) = Some (False, n, 0)"
    using minus ne unfolding parse_decimal_def Let_def by (simp add: all digits_nat_def)
  obtain j where j: "float64_of n 1 = (n * 2 ^ j, 2 ^ j)" using float64_exact [OF assms, of 0] by auto
  have "n * 2 ^ j < 2 ^ j * 2 ^ 1024" using assms by simp
  then show thesis using that j by (simp add: ParseFloat_def pd)
qed

text \<open>C40: the counters. A count without a fraction, alone or followed by one of the units, is read exactly while its value stays
  below \<open>2 ^ 53\<close>.\<close>

theorem count_exact:
  assumes "(u, mult) \<in> set count_suffixes" and "n * mult < 2 ^ 53"
  shows "parseChineseCount big (nat_digits n @ u) = int (n * mult)"
proof -
  have "mult \<in> {1, 1000, 10000}" using assms(1) by (auto simp: count_suffixes_def)
  then have "n < 2 ^ 53" using assms(2) by auto
  then obtain j where pf: "ParseFloat (nat_digits n) = Some (False, n * 2 ^ j, 2 ^ j)" by (rule ParseFloat_nat_digits)
  obtain i where i: "float64_of (n * 2 ^ j * mult) (2 ^ j) = (n * mult * 2 ^ i, 2 ^ i)"
    using float64_exact [OF assms(2), of j] by (auto simp: ac_simps)
  have "n * mult < 2 ^ 63" using assms(2) by simp
  then have fi: "float_int big (False, float64_of (n * 2 ^ j * mult) (2 ^ j)) = int (n * mult)" by (simp add: i float_int_def Let_def)
  have "nat_digits n \<noteq> []" using nat_digits_head [of n] by auto
  then show ?thesis
    unfolding parseChineseCount_def Let_def TrimSpace_nat_digits [OF assms(1)] number_of_count [OF assms(1)]
      unit_of_def [symmetric] unit_of_count [OF assms(1)] using fi pf by simp
qed

theorem count_exact_witness:
  "parseChineseCount 0 (nat_digits 3 @ ''k'') = 3000"
proof -
  have "(''k'', 1000) \<in> set count_suffixes" by (simp add: count_suffixes_def)
  then show ?thesis using count_exact [of "''k''" 1000 3 0] by simp
qed

text \<open>A count with a fraction may lose one: the product of the double next to 1.13 with 10000 is below 11300 and is cut off. A
  text that merely contains the letter w, as in the word views, is taken in units of ten thousand.\<close>

lemma bit_len_numeral: "bit_len (numeral n) = Suc (bit_len (numeral n div 2))"
  by (simp add: bit_len.simps [of "numeral n"])

lemma count_truncated:
  "parseChineseCount big ''1.13w'' = 11299" and "parseChineseCount big ''3kviews'' = 30000"
proof -
  have t: "TrimSpace ''1.13w'' = ''1.13w''" "TrimSpace ''3kviews'' = ''3kviews''"
    by (rule TrimSpace_printable; simp add: printable_def)+
  have d: "is_digit (CHR ''1'')" "is_digit (CHR ''3'')" "\<not> is_digit (CHR ''.'')" "\<not> is_digit (CHR ''w'')" "\<not> is_digit (CHR ''k'')"
    "digits_nat ''113'' = 113" "digits_nat ''3'' = 3"
    by (simp_all add: is_digit_def digit_value_def digits_nat_def)
  have r: "replace_char (CHR '','') '''' ''1.13w'' = ''1.13w''" "replace_char (CHR '','') '''' ''3kviews'' = ''3kviews''" by code_simp+
  have w: "str_Contains ''1.13w'' ''w''" "str_Contains ''3kviews'' ''w''" by code_simp+
  have p: "parse_decimal ''1.13'' = Some (False, 113, - 2)" "parse_decimal ''3'' = Some (False, 3, 0)"
    by (simp_all add: parse_decimal_def d)
  have f: "ParseFloat ''1.13'' = Some (False, 5089067578928660, 4503599627370496)" "ParseFloat ''3'' = Some (False, 6755399441055744, 2251799813685248)"
    by (simp_all add: ParseFloat_def p float64_of_def bit_len_numeral round_half_even_def)
  show "parseChineseCount big ''1.13w'' = 11299"
    by (simp add: parseChineseCount_def t r w d f float_int_def float64_of_def bit_len_numeral round_half_even_def Let_def)
  show "parseChineseCount big ''3kviews'' = 30000"
    by (simp add: parseChineseCount_def t r w d f float_int_def float64_of_def bit_len_numeral round_half_even_def Let_def)
qed

end
