(* ===== verification/Platform_Registry.thy ===== *)
theory Platform_Registry
  imports Http_Adapters Post_Stats Publish
begin

text \<open>
  The adapters of the program, as both its servers register them (\<^verbatim>\<open>internal/appsetup/setup.go\<close>), under the platform
  service: what the sessions of these adapters can hold, and which platforms can therefore be connected.
\<close>

text \<open>The environments of the adapters' calls, with the credentials of Medium, and the value of a conversion out of range.\<close>

record AdapterSetup =
  as_env :: AdapterEnv
  as_browser :: BrowserEnv
  as_medium :: MediumClient
  as_big :: int

definition RegisterDefaultAdapters :: "AdapterSetup \<Rightarrow> Registry \<Rightarrow> Registry" where
  "RegisterDefaultAdapters a registry =
     fold (\<lambda>(name, adapter). reg_Register name adapter)
       [(''xiaohongshu'', xhs_Adapter (as_browser a) (as_big a)),
        (''wechat'', wechat_Adapter (as_browser a)),
        (''zhihu'', zhihu_Adapter (as_browser a)),
        (''medium'', medium_Adapter (as_medium a) (as_env a)),
        (''wordpress'', wordpress_Adapter (as_env a)),
        (''webhook'', webhook_Adapter (as_env a))] registry"

definition default_registry :: "Registry \<Rightarrow> bool" where
  "default_registry r \<longleftrightarrow> (\<exists>a. r = RegisterDefaultAdapters a [])"

lemma reg_Get_default:
  assumes "reg_Get (RegisterDefaultAdapters a []) p = Inr ad"
  shows "(p = ''xiaohongshu'' \<and> ad = xhs_Adapter (as_browser a) (as_big a)) \<or> (p = ''wechat'' \<and> ad = wechat_Adapter (as_browser a))
    \<or> (p = ''zhihu'' \<and> ad = zhihu_Adapter (as_browser a)) \<or> (p = ''medium'' \<and> ad = medium_Adapter (as_medium a) (as_env a))
    \<or> (p = ''wordpress'' \<and> ad = wordpress_Adapter (as_env a)) \<or> (p = ''webhook'' \<and> ad = webhook_Adapter (as_env a))"
  using assms by (auto simp: RegisterDefaultAdapters_def reg_Register_def reg_Get_def split: option.split_asm if_split_asm)

section \<open>Sessions\<close>

text \<open>A session as \<open>StartAuth\<close> makes it. No part of the program ever puts credentials or the code of an OAuth callback into one.\<close>

fun fresh_context :: "cdp_context \<Rightarrow> bool" where
  "fresh_context CtxNil = True"
| "fresh_context (CtxBrowser tab) = True"
| "fresh_context (CtxOAuth st) = (os_Code st = '''')"
| "fresh_context (CtxCredentials m) = False"

definition http_platforms :: "string set" where
  "http_platforms = {''webhook'', ''wordpress'', ''medium''}"

lemma browser_StartAuth_fresh:
  "fst (browser_StartAuth e pre open') = Inr (session, png) \<Longrightarrow> fresh_context (ses_CDPContext session)"
  by (auto simp: browser_StartAuth_def Let_def split: prod.split_asm sum.split_asm)

lemma http_StartAuth_fresh:
  "fresh_context (ses_CDPContext (fst (webhook_StartAuth e)))" "fresh_context (ses_CDPContext (fst (wp_StartAuth e)))"
  "fresh_context (ses_CDPContext (fst (medium_StartAuth mc e)))"
  by (simp_all add: webhook_StartAuth_def wp_StartAuth_def medium_StartAuth_def Let_def)

lemma StartAuth_fresh:
  assumes "default_registry r" and "reg_Get r p = Inr ad" and "ad_StartAuth ad k = Inr (session, png)"
  shows "fresh_context (ses_CDPContext session)"
proof -
  obtain a where r: "r = RegisterDefaultAdapters a []" using assms(1) by (auto simp: default_registry_def)
  from reg_Get_default [OF assms(2) [unfolded r]] show ?thesis
  proof (elim disjE conjE)
    assume "ad = xhs_Adapter (as_browser a) (as_big a)"
    then show ?thesis using assms(3) by (simp add: xhs_Adapter_def xhs_StartAuth_def browser_StartAuth_fresh)
  next
    assume "ad = wechat_Adapter (as_browser a)"
    then show ?thesis using assms(3) by (simp add: wechat_Adapter_def wechat_StartAuth_def browser_StartAuth_fresh)
  next
    assume "ad = zhihu_Adapter (as_browser a)"
    then show ?thesis using assms(3) by (simp add: zhihu_Adapter_def zhihu_StartAuth_def browser_StartAuth_fresh)
  next
    assume "ad = medium_Adapter (as_medium a) (as_env a)"
    then show ?thesis using assms(3) http_StartAuth_fresh(3) [of "as_medium a" "as_env a"] by (simp add: medium_Adapter_def)
  next
    assume "ad = wordpress_Adapter (as_env a)"
    then show ?thesis using assms(3) http_StartAuth_fresh(2) [of "as_env a"] by (simp add: wordpress_Adapter_def)
  next
    assume "ad = webhook_Adapter (as_env a)"
    then show ?thesis using assms(3) http_StartAuth_fresh(1) [of "as_env a"] by (simp add: webhook_Adapter_def)
  qed
qed

lemma http_PollAuth_fresh:
  assumes "fresh_context (ses_CDPContext session)"
  shows "fst (webhook_PollAuth e session k) \<noteq> Inr (Some auth)" "fst (wp_PollAuth e session k) \<noteq> Inr (Some auth)"
    "fst (medium_PollAuth mc e session k) \<noteq> Inr (Some auth)"
  using assms by (cases "ses_CDPContext session"; simp add: webhook_PollAuth_def wp_PollAuth_def medium_PollAuth_def)+

lemma PollAuth_fresh:
  assumes "default_registry r" and "reg_Get r p = Inr ad" and "p \<in> http_platforms" and "fresh_context (ses_CDPContext session)"
  shows "ad_PollAuth ad session k \<noteq> Inr (Some auth)"
proof -
  obtain a where r: "r = RegisterDefaultAdapters a []" using assms(1) by (auto simp: default_registry_def)
  have "ad = medium_Adapter (as_medium a) (as_env a) \<or> ad = wordpress_Adapter (as_env a) \<or> ad = webhook_Adapter (as_env a)"
    using reg_Get_default [OF assms(2) [unfolded r]] assms(3) by (elim disjE conjE) (simp_all add: http_platforms_def)
  then show ?thesis
    using http_PollAuth_fresh [OF assms(4)] by (elim disjE) (simp_all add: medium_Adapter_def wordpress_Adapter_def webhook_Adapter_def)
qed

section \<open>Platforms that cannot be connected\<close>

text \<open>No session holds credentials, and no connection to one of the three platforms does.\<close>

definition unconnected :: "PlatformState \<Rightarrow> bool" where
  "unconnected s \<longleftrightarrow> conn_inv (pf_conns s)
     \<and> (\<forall>(key, session) \<in> set (pf_sessions s). fresh_context (ses_CDPContext (sa_cdpHandle session)))
     \<and> (\<forall>c \<in> set (pf_conns s). pc_Platform c \<in> http_platforms \<longrightarrow> pc_EncryptedAuth c = [])"

lemma set_AList_delete: "x \<in> set (AList.delete k m) \<Longrightarrow> x \<in> set m"
  by (simp add: AList.delete_eq)

lemma unconnected_delete: "unconnected s \<Longrightarrow> unconnected (s\<lparr>pf_sessions := AList.delete k (pf_sessions s)\<rparr>)"
  unfolding unconnected_def using set_AList_delete by fastforce

lemma set_AList_update: "x \<in> set (AList.update k v m) \<Longrightarrow> x \<in> set m \<or> x = (k, v)"
  by (induction m) (auto split: if_split_asm)

lemma save_auth_platform:
  assumes "conn_inv t" and "save_auth e u p a t = (err, t')" and "p \<notin> http_platforms"
    and "\<forall>c \<in> set t. pc_Platform c \<in> http_platforms \<longrightarrow> pc_EncryptedAuth c = []"
  shows "\<forall>c \<in> set t'. pc_Platform c \<in> http_platforms \<longrightarrow> pc_EncryptedAuth c = []"
proof (cases "conn_GetByPlatform (pv_faults e 0) u p t")
  case None
  then show ?thesis using assms by (auto simp: save_auth_def conn_Create_def Let_def split: if_split_asm)
next
  case (Some c)
  have c: "c \<in> set t" "pc_Platform c = p" using conn_GetByPlatform_SomeD [OF Some] by simp_all
  have p: "\<forall>r \<in> set t. pc_ID r = pc_ID c \<longrightarrow> pc_Platform r \<notin> http_platforms"
  proof (intro ballI impI)
    fix r assume "r \<in> set t" "pc_ID r = pc_ID c"
    then have "r = c" using unique_row [OF _ _ c(1), of pc_ID r] assms(1) by (simp add: conn_inv_def)
    then show "pc_Platform r \<notin> http_platforms" using c(2) assms(3) by simp
  qed
  then show ?thesis
    using assms(2,4) Some by (auto simp: save_auth_def conn_Update_def set_update_rows Let_def split: if_split_asm)
qed

lemma PollAuth_unconnected:
  assumes "default_registry (pv_registry e)" and "unconnected s" and "PollAuth e u p r k s = (x, s')"
  shows "unconnected s' \<and> (p \<in> http_platforms \<longrightarrow> (\<forall>a. x \<noteq> Inr (Some a)))"
proof (cases "\<exists>stored ad a. map_of (pf_sessions s) (authSessionKey (pv_show e) u p r) = Some stored
    \<and> reg_Get (pv_registry e) p = Inr ad \<and> ad_PollAuth ad (sa_cdpHandle stored) k = Inr (Some a)")
  case False
  then have "s' = s \<and> (\<forall>a. x \<noteq> Inr (Some a))"
    using assms(3) by (auto simp: PollAuth_def Let_def split: option.split_asm sum.split_asm)
  then show ?thesis using assms(2) by simp
next
  case True
  then obtain stored ad a where st: "map_of (pf_sessions s) (authSessionKey (pv_show e) u p r) = Some stored"
    and ad: "reg_Get (pv_registry e) p = Inr ad" "ad_PollAuth ad (sa_cdpHandle stored) k = Inr (Some a)" by blast
  obtain err t where sv: "save_auth e u p a (pf_conns s) = (err, t)" by fastforce
  have s': "pf_conns s' = t" "set (pf_sessions s') \<subseteq> set (pf_sessions s)"
    using assms(3) st ad sv by (auto simp: PollAuth_def Let_def dest: set_AList_delete split: option.split_asm)
  have "fresh_context (ses_CDPContext (sa_cdpHandle stored))"
    using assms(2) map_of_SomeD [OF st] by (auto simp: unconnected_def)
  then have p: "p \<notin> http_platforms" using PollAuth_fresh [OF assms(1) ad(1)] ad(2) by blast
  have inv: "conn_inv (pf_conns s)" "conn_inv (pf_conns s')"
    using PollAuth_step [of u s e p r k] assms(2,3) by (simp_all add: conns_step_def unconnected_def)
  have "\<forall>c \<in> set t. pc_Platform c \<in> http_platforms \<longrightarrow> pc_EncryptedAuth c = []"
    by (rule save_auth_platform [OF inv(1) sv p]) (use assms(2) in \<open>simp add: unconnected_def\<close>)
  then show ?thesis using s' inv(2) assms(2) p unfolding unconnected_def by blast
qed

lemma connect_loop_unconnected:
  assumes "\<forall>e. Tick e \<in> set evs \<longrightarrow> default_registry (pv_registry e)" and "unconnected s"
    and "connect_loop u p r k evs s = (out, s')"
  shows "unconnected s' \<and> (p \<in> http_platforms \<longrightarrow> SseStatus ''done'' None \<notin> set out)"
  using assms
proof (induction evs arbitrary: s out)
  case (Cons ev evs)
  show ?case
  proof (cases ev)
    case (Tick e)
    obtain x s1 where x: "PollAuth e u p r k s = (x, s1)" by fastforce
    have ok: "unconnected s1 \<and> (p \<in> http_platforms \<longrightarrow> (\<forall>a. x \<noteq> Inr (Some a)))"
      using PollAuth_unconnected [OF _ Cons.prems(2) x] Cons.prems(1) Tick by simp
    show ?thesis
    proof (cases "x = Inr None")
      case True
      then obtain out1 where rec: "connect_loop u p r k evs s1 = (out1, s')" "out = SseStatus ''waiting'' None # out1"
        using Cons.prems(3) x Tick by (auto simp: Let_def split: prod.split_asm)
      have "unconnected s' \<and> (p \<in> http_platforms \<longrightarrow> SseStatus ''done'' None \<notin> set out1)"
        by (rule Cons.IH [OF _ _ rec(1)]) (use Cons.prems(1) ok in auto)
      then show ?thesis using rec(2) by simp
    next
      case False
      then show ?thesis using Cons.prems(3) Tick x ok by (auto split: sum.split_asm option.split_asm)
    qed
  qed (use Cons.prems in auto)
qed auto

fun platform_envs :: "platform_op \<Rightarrow> PlatformEnv set" where
  "platform_envs (ConnectOp e fl k u p evs) = insert e {e'. Tick e' \<in> set evs}"
| "platform_envs (DisconnectOp e u p) = {e}"
| "platform_envs (VerifyOp e u p) = {e}"
| "platform_envs (CleanupOp now) = {}"

lemma handle_Connect_unconnected:
  assumes "default_registry (pv_registry e)" and "\<forall>e. Tick e \<in> set evs \<longrightarrow> default_registry (pv_registry e)" and "unconnected s"
    and "handle_Connect e fl k (Some u) p evs s = (resp, s')"
  shows "unconnected s' \<and> (p \<in> http_platforms \<longrightarrow> (\<forall>st out. resp = JSON st out \<longrightarrow> SseStatus ''done'' None \<notin> set out))"
proof -
  obtain x s1 where x: "StartAuth e u p k s = (x, s1)" by fastforce
  have s1: "unconnected s1"
    using x assms(1,3) StartAuth_fresh [OF assms(1)]
    by (auto simp: StartAuth_def unconnected_def dest!: set_AList_update split: sum.split_asm)
  show ?thesis
  proof (cases x)
    case (Inr y)
    obtain ref png where y: "y = (ref, png)" by fastforce
    obtain out s2 where loop: "connect_loop u p ref k evs s1 = (out, s2)" by fastforce
    have "unconnected s2 \<and> (p \<in> http_platforms \<longrightarrow> SseStatus ''done'' None \<notin> set out)"
      by (rule connect_loop_unconnected [OF assms(2) s1 loop])
    then show ?thesis
      using assms(3,4) x s1 Inr y loop
      by (auto simp: handle_Connect_def CancelAuth_def writeValidationError_def unconnected_delete split: option.split_asm if_split_asm)
  qed (use assms(3,4) x s1 in \<open>auto simp: handle_Connect_def writeValidationError_def split: option.split_asm\<close>)
qed
lemma Verify_platform:
  assumes "unconnected s" and "Verify e u p s = (x, s')"
  shows "unconnected s'"
proof (cases "conn_GetByPlatform (pv_faults e 0) u p (pf_conns s)")
  case None
  then show ?thesis using assms by (simp add: Verify_def)
next
  case (Some c)
  have inv: "conn_inv (pf_conns s')" using Verify_step [of u s e p] assms by (simp add: conns_step_def unconnected_def)
  have c: "c \<in> set (pf_conns s)" using conn_GetByPlatform_SomeD [OF Some] by simp
  have p: "\<forall>r \<in> set (pf_conns s). pc_ID r = pc_ID c \<longrightarrow> r = c"
    using unique_row [OF _ _ c] assms(1) by (auto simp: conn_inv_def unconnected_def)
  have q: "\<forall>r \<in> set (pf_conns s). pc_Platform r \<in> http_platforms \<longrightarrow> pc_EncryptedAuth r = []"
    using assms(1) by (simp add: unconnected_def)
  have p': "\<forall>r \<in> set (pf_conns s). pc_ID r = pc_ID c \<longrightarrow> pc_Platform r \<in> http_platforms \<longrightarrow> pc_EncryptedAuth c = []"
    using p q by blast
  have s': "pf_sessions s' = pf_sessions s"
    using assms(2) Some by (auto simp: Verify_def Let_def split: prod.split_asm if_split_asm)
  have "\<forall>r \<in> set (pf_conns s'). pc_Platform r \<in> http_platforms \<longrightarrow> pc_EncryptedAuth r = []"
    using assms(2) Some p' q by (auto simp: Verify_def conn_Update_def set_update_rows Let_def split: if_split_asm)
  then show ?thesis using inv s' assms(1) by (simp add: unconnected_def)
qed

lemma Disconnect_platform:
  assumes "unconnected s" and "Disconnect e u p s = (x, rev', s')"
  shows "unconnected s'"
proof -
  have inv: "conn_inv (pf_conns s')" using Disconnect_step [of u s e p] assms by (simp add: conns_step_def unconnected_def)
  have "pf_sessions s' = pf_sessions s \<and> set (pf_conns s') \<subseteq> set (pf_conns s)"
    using assms(2) by (auto simp: Disconnect_def conn_Delete_def delete_rows_def Let_def split: option.split_asm sum.split_asm prod.split_asm if_split_asm)
  then show ?thesis using inv assms(1) by (auto simp: unconnected_def)
qed

lemma run_platform_unconnected:
  assumes "unconnected s" and "\<forall>e \<in> platform_envs x. default_registry (pv_registry e)"
  shows "unconnected (run_platform x s)"
proof (cases x)
  case (ConnectOp e fl k u p evs)
  obtain resp s' where "handle_Connect e fl k (Some u) p evs s = (resp, s')" by fastforce
  then show ?thesis using handle_Connect_unconnected [OF _ _ assms(1)] assms(2) ConnectOp by auto
next
  case (DisconnectOp e u p)
  obtain y rev' s' where d: "Disconnect e u p s = (y, rev', s')" by (metis prod_cases3)
  show ?thesis using Disconnect_platform [OF assms(1) d] assms(1) d DisconnectOp
    by (simp add: handle_Disconnect_def split: option.split)
next
  case (VerifyOp e u p)
  obtain y s' where v: "Verify e u p s = (y, s')" by fastforce
  show ?thesis using Verify_platform [OF assms(1) v] assms(1) v VerifyOp
    by (simp add: handle_Verify_def split: option.split sum.split)
next
  case (CleanupOp now)
  then show ?thesis using assms(1) by (auto simp: cleanupExpiredSessions_def unconnected_def)
qed

lemma run_unconnected:
  "unconnected s \<Longrightarrow> \<forall>x \<in> set xs. \<forall>e \<in> platform_envs x. default_registry (pv_registry e) \<Longrightarrow> unconnected (fold run_platform xs s)"
  by (induction xs arbitrary: s) (simp_all add: run_platform_unconnected)

lemma plat_Publish_unconnected:
  assumes "unconnected s" and "p \<in> http_platforms"
  shows "\<exists>err. plat_Publish e u p params k s = Some (Inl err)"
proof (cases "conn_GetByPlatform (pv_faults e 0) u p (pf_conns s)")
  case (Some c)
  then have "pc_EncryptedAuth c = []" using conn_GetByPlatform_SomeD [OF Some] assms by (auto simp: unconnected_def)
  then show ?thesis using Some by (auto simp: plat_Publish_def split: sum.split)
qed (auto simp: plat_Publish_def split: sum.split)

text \<open>C36: with the adapters the program registers, webhooks, WordPress and Medium cannot be connected. Whatever users do, and
  whatever browsers, networks and services answer, no connection to one of the three ever holds credentials,
  no sign-in to them reports that it is done, and publishing to them fails: their adapters wait for credentials
  in the session, which no part of the program puts there.\<close>

theorem http_platforms_never_connect:
  assumes "\<forall>x \<in> set xs. \<forall>e \<in> platform_envs x. default_registry (pv_registry e)"
    and "conn_inv (pf_conns s)" and "pf_sessions s = []"
    and "\<forall>c \<in> set (pf_conns s). pc_Platform c \<in> http_platforms \<longrightarrow> pc_EncryptedAuth c = []"
    and "p \<in> http_platforms"
  shows "(\<forall>c \<in> set (pf_conns (fold run_platform xs s)). pc_Platform c = p \<longrightarrow> pc_EncryptedAuth c = [])
    \<and> (\<forall>e fl k u evs st out s'. default_registry (pv_registry e) \<and> (\<forall>e'. Tick e' \<in> set evs \<longrightarrow> default_registry (pv_registry e'))
         \<and> handle_Connect e fl k (Some u) p evs (fold run_platform xs s) = (JSON st out, s') \<longrightarrow> SseStatus ''done'' None \<notin> set out)
    \<and> (\<forall>e u params k. \<exists>err. plat_Publish e u p params k (fold run_platform xs s) = Some (Inl err))"
proof -
  have "unconnected s" using assms(2-4) by (simp add: unconnected_def)
  then have run: "unconnected (fold run_platform xs s)" using run_unconnected assms(1) by blast
  have 1: "\<forall>c \<in> set (pf_conns (fold run_platform xs s)). pc_Platform c = p \<longrightarrow> pc_EncryptedAuth c = []"
    using run assms(5) by (auto simp: unconnected_def)
  have 2: "SseStatus ''done'' None \<notin> set out"
    if "default_registry (pv_registry e)" "\<forall>e'. Tick e' \<in> set evs \<longrightarrow> default_registry (pv_registry e')"
      "handle_Connect e fl k (Some u) p evs (fold run_platform xs s) = (JSON st out, s')" for e fl k u evs st out s'
    using handle_Connect_unconnected [OF that(1,2) run that(3)] assms(5) by blast
  show ?thesis using 1 2 plat_Publish_unconnected [OF run assms(5)] by blast
qed

definition demo_setup :: AdapterSetup where
  "demo_setup = \<lparr>as_env = demo_adapter_env, as_browser = demo_browser,
     as_medium = \<lparr>mc_clientID = ''i'', mc_clientSecret = ''s'', mc_redirectURI = ''r''\<rparr>, as_big = 0\<rparr>"

definition demo_default_env :: PlatformEnv where
  "demo_default_env = demo_platform_env\<lparr>pv_registry := RegisterDefaultAdapters demo_setup []\<rparr>"

theorem http_platforms_never_connect_witness:
  "\<exists>err. plat_Publish demo_default_env 2 ''webhook'' demo_params []
      (fold run_platform [ConnectOp demo_default_env True (replicate 32 7) 2 ''webhook'' [Tick demo_default_env, Tick demo_default_env],
         ConnectOp demo_default_env True (replicate 32 7) 2 ''zhihu'' [Tick demo_default_env], CleanupOp 9]
        \<lparr>pf_conns = [], pf_sessions = []\<rparr>) = Some (Inl err)"
proof -
  have d: "default_registry (pv_registry demo_default_env)"
    by (auto simp: default_registry_def demo_default_env_def)
  show ?thesis
    by (rule http_platforms_never_connect [where p = "''webhook''", THEN conjunct2, THEN conjunct2, rule_format])
      (use d in \<open>auto simp: conn_inv_def http_platforms_def\<close>)
qed

end
