(* ===== verification/Spec2Isabelle.thy ===== *)
theory Spec2Isabelle
  imports Rate_Limit Sync AI_Proxy LLM_Provider Reactions Payment Auth Publish Notifications Comments Anthropic Router Config Profiles Semantic_Search Platform_Registry
begin

text \<open>
  AnyNote is a note-taking service whose Go server (\<^verbatim>\<open>src/backend\<close>) stores end-to-end encrypted blobs,
  proxies AI requests to LLM providers, and handles sharing, publishing, payments and accounts.
  Handlers (\<^verbatim>\<open>internal/handler\<close>) decode requests and call services (\<^verbatim>\<open>internal/service\<close>), which call
  repositories (\<^verbatim>\<open>internal/repository\<close>) over PostgreSQL, rate limiters over memory or Redis, and the
  LLM gateway (\<^verbatim>\<open>internal/llm\<close>). Publications go through a queue to one adapter per platform
  (\<^verbatim>\<open>internal/platform\<close>).

  How the model corresponds to the code.
  \<^item> A table is the list of its rows and a statement is a function on that list (\<open>AnyNote_Prelude\<close>:
    \<open>find_row\<close>, \<open>update_rows\<close>, \<open>delete_rows\<close>, \<open>count_rows\<close>, \<open>order_by\<close>). A transaction works on a copy
    that replaces the table at commit. Every round trip may fail: a fault oracle is an argument
    and the theorems quantify over it.
  \<^item> Clock readings, generated identifiers, nonces and the order of map iteration are arguments.
  \<^item> A mutex-protected method is one atomic step. Go errors are values of a datatype, an option or a
    sum; \<open>None\<close> is the nil error where a function returns only an error.
  \<^item> Third-party packages and cryptographic primitives are arguments; what a theorem needs of
    them is a hypothesis, and its witness instantiates them.

  Theories.
  \<^item> \<open>Rate_Limit\<close>: \<^verbatim>\<open>service/rate_limiter.go\<close> and \<^verbatim>\<open>redis_rate_limiter.go\<close>. The locale
    \<open>rate_limit_provider\<close> is their common contract; both limiters interpret it. Shown: decisions equal
    to a reference limiter with full history, and at most \<open>limit\<close> admissions per window.
  \<^item> \<open>Circuit_Breaker\<close> and \<open>Gateway\<close>: \<^verbatim>\<open>llm/circuit_breaker.go\<close>, \<^verbatim>\<open>llm/gateway.go\<close>. The breaker is a
    state machine given by an inductive step relation. Shown: its invariant, when it trips and
    recovers, isolation of providers, fail-fast, and that a stream can use up the probe slot for good.
  \<^item> \<open>Quota\<close>: \<^verbatim>\<open>service/quota_service.go\<close>, \<^verbatim>\<open>repository/quota_repository.go\<close>. The locale \<open>budgeted\<close> of the
    prelude bounds grants by a budget. Shown: the daily bound, exact service, two defects.
  \<^item> \<open>LWW_Spec\<close>, \<open>Sync_Store\<close>, \<open>Sync\<close>: \<^verbatim>\<open>repository/sync_blob_repository.go\<close>, \<^verbatim>\<open>service/sync_service.go\<close>,
    \<^verbatim>\<open>handler/sync_handler.go\<close>. The locale \<open>lww_store\<close> is a last-writer-wins map. Shown: atomicity,
    refinement, monotone versions, isolation of users, convergence when equal versions have equal payloads, durability, paging, statistics.
  \<^item> \<open>Go_Strings\<close>, \<open>Http\<close>: string functions, \<open>strconv.Atoi\<close> and the outcome of handlers.
  \<^item> \<open>LLM_Config\<close>, \<open>AI_Proxy\<close>: \<^verbatim>\<open>llm/crypto.go\<close>, the URL guard of \<^verbatim>\<open>llm/openai_compat.go\<close>, the LLM
    configurations, the AI proxy, agent and queue worker, and the server and worker processes with the state each
    has of its own. Shown: the request-forgery guard, the quota bound over all paths and processes, that system messages and prompt delimiters cannot be injected, the round trip
    of an API key, and defects.
  \<^item> \<open>LLM_Provider\<close>, \<open>Json\<close>, \<open>Anthropic\<close>: the providers of \<^verbatim>\<open>llm/openai_compat.go\<close> and
    \<^verbatim>\<open>llm/anthropic_provider.go\<close>, the instances the gateway calls, over values of JSON. Shown: the retry loop
    equals a reference that looks for the first decisive outcome, with its requests and delays; both providers
    run the same loop; the stream of the second never carries text.
  \<^item> \<open>Share\<close>, \<open>Reactions\<close>: \<^verbatim>\<open>repository/shared_note_repository.go\<close>, \<^verbatim>\<open>service/share_service.go\<close>,
    \<^verbatim>\<open>handler/share_handler.go\<close>. Shown: view limits and expiry, what a password protects, the discovery
    order, and that the counters of reactions agree with the reaction rows unless an account that reacted to a note of
    somebody else is deleted (\<^verbatim>\<open>repository/user_repository.go\<close>).
  \<^item> \<open>Plan\<close>, \<open>Payment\<close>: \<^verbatim>\<open>domain/plan.go\<close>, the plan and payment services, repositories and handlers.
    Shown: webhooks are processed at most once, only signed and fresh ones count, paid plans are backed
    by payments whose status is completed, through refunds as well, and defects.
  \<^item> \<open>Validation\<close>, \<open>Auth\<close>: \<^verbatim>\<open>handler/validation.go\<close>, \<^verbatim>\<open>service/auth_service.go\<close>, \<^verbatim>\<open>handler/middleware.go\<close>,
    the user and refresh token repositories. Shown: a refresh token is exchanged at most once, tokens are
    not interchangeable, registration and login agree, and defects.
  \<^item> \<open>Base64\<close>, \<open>Platform\<close>, \<open>Publish\<close>: \<^verbatim>\<open>encoding/base64\<close>, the platform connections with their pending
    sign-in sessions, the publication logs, the publishing worker and the refresh of post statistics. The
    adapters are entries of a registry, which is an argument here. Shown: isolation of users, how a sign-in ends, what the
    adapter receives, that the outcome of a publication is never recorded, the bound on stored statistics, and defects.
  \<^item> \<open>Push\<close>, \<open>Notifications\<close>, \<open>Comments\<close>: device tokens and delivery, in-app notifications, devices, and
    the comments on shared notes. Shown: delivery and clean-up of tokens, the unread count, the thread of a
    note. The locale \<open>owned_ops\<close> of the prelude gives isolation of users for platforms, notifications,
    devices, links and embeddings.
  \<^item> \<open>Client_Address\<close>, \<open>Router\<close>: trusted proxies and the client address (\<^verbatim>\<open>handler/security_middleware.go\<close>) and the
    table of routes with the middleware of each (\<^verbatim>\<open>handler/router.go\<close>). Shown: an address is trusted exactly
    inside a configured network, every private route runs its handler only for the user of a valid token, and
    the limiter of a route bounds the requests that reach its handler.
  \<^item> \<open>Config\<close>: \<^verbatim>\<open>config/config.go\<close>: defaults, environment, validation and the master key, whose length is a
    type-like guarantee of the encryption.
  \<^item> \<open>Note_Graph\<close>, \<open>Profiles\<close>, \<open>Semantic_Search\<close>: links between notes, public profiles and embeddings with their
    repositories, services and handlers. Shown: the views of the graph agree, which profile others see after any updates, and that a
    search answers the nearest notes of the caller.
  \<^item> \<open>Adapters\<close>, \<open>Http_Adapters\<close>, \<open>Browser_Adapters\<close>, \<open>Post_Stats\<close>, \<open>Platform_Registry\<close>: the adapters of the
    platforms, \<^verbatim>\<open>platform/{webhook,wordpress,medium,zhihu,wechat,xiaohongshu}\<close>, and their registration
    (\<^verbatim>\<open>appsetup/setup.go\<close>). The locale \<open>stored_auth\<close> states that credentials survive encoding and encryption; each
    adapter's credentials interpret it. Shown: credentials that were accepted are the ones used later, the script of which every
    publication in the browser is a beginning, that counters are read exactly, and, on the sign-in of \<open>Platform\<close>, that three
    platforms can never be connected.

  Bounds and fuel: the paging loop of \<open>Sync\<close> has fuel, and it is proved that one more page than there
  are rows is enough. No other definition needs fuel.

  Not modelled: the HTTP transport, the text level of JSON (parsers and encoders are arguments), log lines and
  metrics, timeouts of the HTTP client, the interpretation of CSS selectors and scripts by web pages, the start and
  shutdown of the programs in \<^verbatim>\<open>cmd/\<close>, test containers, and the Flutter client: they hold no decisions of the
  server, or their behaviour belongs to third-party code. Commands of the database are atomic; isolation levels
  are not modelled.
\<close>

end
